(* ===== verification/Prelude.thy ===== *)
theory Prelude
  imports Main "HOL-Library.Word"
begin

unbundle bit_operations_syntax

text \<open>
  Shared vocabulary of the development.  The machine integers of the code are words of
  the width of their C++ type; the target is a little-endian machine, so the
  \<^verbatim>\<open>#if BYTE_ORDER == BIG_ENDIAN\<close> branches are compiled out and a
  \<^verbatim>\<open>uint32_t*\<close> cast of a byte buffer reads its bytes in little-endian order.
  The theory also has the byte-by-byte driver used by all stream ciphers, and the small
  facts on bits, lists and maps the component theories share.
\<close>

section \<open>Machine integers\<close>

type_synonym u8 = "8 word"
type_synonym u16 = "16 word"
type_synonym u32 = "32 word"
type_synonym u64 = "64 word"

text \<open>Collections of rewrite rules, filled by the component theories.\<close>

named_theorems wire_simps \<open>reading back what was written to a buffer\<close>
named_theorems frame_simps \<open>fields an operation leaves alone\<close>
named_theorems shape_simps \<open>lengths and shapes an operation keeps\<close>

lemma bit_word_beyond: "LENGTH('a) \<le> n \<Longrightarrow> \<not> bit (w :: 'a::len word) n"
  using bit_imp_le_length by fastforce

lemma xor_cancel [simp]:
  fixes a b c :: "'a::len word"
  shows "(a XOR b) XOR b = a" and "b XOR (b XOR a) = a" and "(b XOR a) XOR b = a"
    and "(a XOR b XOR c) XOR c XOR b = a" and "(a XOR c XOR b) XOR b XOR c = a"
    and "((a XOR c) XOR b) XOR b XOR c = a" and "((a XOR b) XOR c) XOR b = a XOR c"
  by (auto intro: bit_word_eqI simp: bit_simps)

section \<open>Bytes and little-endian words\<close>

definition le32 :: "u8 \<Rightarrow> u8 \<Rightarrow> u8 \<Rightarrow> u8 \<Rightarrow> u32" where
  "le32 a b c d =
     ucast a OR push_bit 8 (ucast b) OR push_bit 16 (ucast c) OR push_bit 24 (ucast d)"

definition byte0 :: "u32 \<Rightarrow> u8" where "byte0 w = ucast w"
definition byte1 :: "u32 \<Rightarrow> u8" where "byte1 w = ucast (drop_bit 8 w)"
definition byte2 :: "u32 \<Rightarrow> u8" where "byte2 w = ucast (drop_bit 16 w)"
definition byte3 :: "u32 \<Rightarrow> u8" where "byte3 w = ucast (drop_bit 24 w)"

lemmas byte_defs = byte0_def byte1_def byte2_def byte3_def

lemma byte_le32 [simp, wire_simps]:
  "byte0 (le32 a b c d) = a" "byte1 (le32 a b c d) = b"
  "byte2 (le32 a b c d) = c" "byte3 (le32 a b c d) = d"
  by (auto intro!: bit_word_eqI simp: byte_defs le32_def bit_simps bit_word_beyond)

lemma le32_bytes [simp, wire_simps]: "le32 (byte0 w) (byte1 w) (byte2 w) (byte3 w) = w"
proof (rule bit_word_eqI)
  fix n assume "n < LENGTH(32)"
  then consider "n < 8" | "8 \<le> n \<and> n < 16" | "16 \<le> n \<and> n < 24" | "24 \<le> n \<and> n < 32"
    by fastforce
  then show "bit (le32 (byte0 w) (byte1 w) (byte2 w) (byte3 w)) n = bit w n"
    by cases (auto simp: byte_defs le32_def bit_simps bit_word_beyond)
qed

lemma le32_eqI:
  "byte0 v = byte0 w \<Longrightarrow> byte1 v = byte1 w \<Longrightarrow> byte2 v = byte2 w \<Longrightarrow> byte3 v = byte3 w \<Longrightarrow> v = w"
  by (metis le32_bytes)

text \<open>
  \<open>get32 buf i\<close> is \<^verbatim>\<open>((uint32_t*)buf)[i]\<close>, and \<open>put32 buf i w\<close> is the buffer after
  \<^verbatim>\<open>((uint32_t*)buf)[i] = w\<close>.  The callers stay inside the buffer.
\<close>

definition get32 :: "u8 list \<Rightarrow> nat \<Rightarrow> u32" where
  "get32 buf i = le32 (buf ! (4 * i)) (buf ! (4 * i + 1)) (buf ! (4 * i + 2)) (buf ! (4 * i + 3))"

definition put32 :: "u8 list \<Rightarrow> nat \<Rightarrow> u32 \<Rightarrow> u8 list" where
  "put32 buf i w =
     buf[4 * i := byte0 w, 4 * i + 1 := byte1 w, 4 * i + 2 := byte2 w, 4 * i + 3 := byte3 w]"

lemma length_put32 [simp, shape_simps]: "length (put32 buf i w) = length buf"
  by (simp add: put32_def)

lemma get32_put32 [wire_simps]: "4 * i + 3 < length buf \<Longrightarrow> get32 (put32 buf i w) i = w"
  by (simp add: get32_def put32_def)

lemma get32_put32_other [wire_simps]:
  assumes "i \<noteq> j"
  shows "get32 (put32 buf i w) j = get32 buf j"
proof -
  have "4 * i + a \<noteq> 4 * j + b" if "a < 4" "b < 4" for a b
    using assms that by presburger
  from this [of 0 0] this [of 0 1] this [of 0 2] this [of 0 3]
    this [of 1 0] this [of 1 1] this [of 1 2] this [of 1 3]
    this [of 2 0] this [of 2 1] this [of 2 2] this [of 2 3]
    this [of 3 0] this [of 3 1] this [of 3 2] this [of 3 3]
  show ?thesis by (simp add: get32_def put32_def)
qed

text \<open>Two buffers of whole words with the same words are equal.\<close>

lemma get32_bytes:
  "buf ! (4 * i) = byte0 (get32 buf i)" "buf ! (4 * i + 1) = byte1 (get32 buf i)"
  "buf ! (4 * i + 2) = byte2 (get32 buf i)" "buf ! (4 * i + 3) = byte3 (get32 buf i)"
  by (simp_all add: get32_def)

lemma buffer_eqI:
  assumes len: "length xs = 4 * n" "length ys = 4 * n"
    and words: "\<And>i. i < n \<Longrightarrow> get32 xs i = get32 ys i"
  shows "xs = ys"
proof (rule nth_equalityI)
  show "length xs = length ys" using len by simp
next
  fix k assume "k < length xs"
  then have i: "k div 4 < n" using len by simp
  have "k = 4 * (k div 4) \<or> k = 4 * (k div 4) + 1 \<or> k = 4 * (k div 4) + 2 \<or> k = 4 * (k div 4) + 3"
    by presburger
  then show "xs ! k = ys ! k"
    using get32_bytes [of xs "k div 4"] get32_bytes [of ys "k div 4"] words [OF i] by metis
qed

lemma length_8_bytes:
  assumes "length xs = 8"
  obtains a b c d e f g h where "xs = [a, b, c, d, e, f, g, h]"
  using assms by (auto simp: numeral_eq_Suc length_Suc_conv)

text \<open>An eight-byte block is a pair of words; these are its reader, its writer and their laws.\<close>

lemma block_literals:
  "get32 [a, b, c, d, e, f, g, h] 0 = le32 a b c d"
  "get32 [a, b, c, d, e, f, g, h] 1 = le32 e f g h"
  "put32 [a, b, c, d, e, f, g, h] 0 v = [byte0 v, byte1 v, byte2 v, byte3 v, e, f, g, h]"
  "put32 [a, b, c, d, e, f, g, h] 1 w = [a, b, c, d, byte0 w, byte1 w, byte2 w, byte3 w]"
  by (simp_all add: get32_def put32_def eval_nat_numeral)

lemma block_read_write [wire_simps]:
  assumes "length b = 8"
  shows "get32 (put32 (put32 b 0 v) 1 w) 0 = v" and "get32 (put32 (put32 b 0 v) 1 w) 1 = w"
  by (rule length_8_bytes [OF assms], simp add: block_literals [simplified] block_literals)+

lemma block_from_words:
  assumes "length b = 8"
  shows "put32 (put32 b 0 (get32 b 0)) 1 (get32 b 1) = b"
  by (rule length_8_bytes [OF assms], simp add: block_literals [simplified] block_literals)

lemma block_write_eq:
  assumes "length b = 8" and "length c = 8"
  shows "put32 (put32 b 0 v) 1 w = put32 (put32 c 0 v) 1 w"
  by (rule length_8_bytes [OF assms(1)], rule length_8_bytes [OF assms(2)])
    (simp add: block_literals [simplified] block_literals)

section \<open>Byte swapping (endianness.h)\<close>

text \<open>
  The portable branches of the swapping functions; the signed overload holds the
  expression, the unsigned one only casts.
\<close>

definition bswap16 :: "u16 \<Rightarrow> u16" where
  "bswap16 x = drop_bit 8 (x AND 0xFF00) OR push_bit 8 (x AND 0x00FF)"

definition bswap32 :: "u32 \<Rightarrow> u32" where
  "bswap32 x =
     drop_bit 24 (x AND 0xFF000000) OR drop_bit 8 (x AND 0x00FF0000) OR
     push_bit 8 (x AND 0x0000FF00) OR push_bit 24 (x AND 0x000000FF)"

text \<open>The byte masks as bit ranges, so that the swaps can be read bit by bit.\<close>

lemma mask_eqs:
  "(0x00FF :: u16) = mask 8" "(0xFF00 :: u16) = push_bit 8 (mask 8)"
  "(0x000000FF :: u32) = mask 8" "(0x0000FF00 :: u32) = push_bit 8 (mask 8)"
  "(0x00FF0000 :: u32) = push_bit 16 (mask 8)" "(0xFF000000 :: u32) = push_bit 24 (mask 8)"
  by (simp_all add: mask_eq_exp_minus_1 push_bit_eq_mult)

lemma bswap16_bswap16: "bswap16 (bswap16 x) = x"
proof (rule bit_word_eqI)
  fix n assume "n < LENGTH(16)"
  then show "bit (bswap16 (bswap16 x)) n = bit x n"
    by (cases "n < 8") (auto simp: bswap16_def mask_eqs bit_simps bit_word_beyond)
qed

lemma byte_bswap32:
  "byte0 (bswap32 w) = byte3 w" "byte1 (bswap32 w) = byte2 w"
  "byte2 (bswap32 w) = byte1 w" "byte3 (bswap32 w) = byte0 w"
  by (auto intro!: bit_word_eqI simp: bswap32_def byte_defs mask_eqs bit_simps bit_word_beyond)

lemma bswap32_le32 [simp, wire_simps]: "bswap32 (le32 a b c d) = le32 d c b a"
  by (rule le32_eqI) (simp_all add: byte_bswap32)

lemma bswap32_bswap32 [simp]: "bswap32 (bswap32 w) = w"
  by (rule le32_eqI) (simp_all add: byte_bswap32)

section \<open>Error codes (err.h)\<close>

text \<open>The error codes, one constructor each.\<close>

datatype err_t =
    ERROR_SUCCESS | ERROR_INVALID_FUNCTION | ERROR_ACCESS_DENIED
  | ERROR_INVALID_HANDLE | ERROR_INVALID_POINTER | ERROR_INVALID_REFERENCE
  | ERROR_BAD_CHECKSUM | ERROR_BAD_LENGTH | ERROR_INVALID_PARAMETER
  | ERROR_BUFFER_OVERFLOW | ERROR_NOT_FOUND | ERROR_BAD_STATE
  | ERROR_INVALID_PASSWORD | ERROR_NOT_ENOUGH_MEMORY | ERROR_BAD_FORMAT
  | ERROR_FILE_NOT_FOUND | ERROR_PATH_NOT_FOUND | ERROR_TOO_MANY_FILES_OPEN
  | ERROR_SEEK | ERROR_WRITE_FAULT | ERROR_READ_FAULT
  | ERROR_LOCK_VIOLATION | ERROR_OPEN_FAILED | ERROR_CANNOT_CREATE
  | ERROR_FILE_EXISTS | ERROR_DISK_FULL | ERROR_CONNECTION_REFUSED
  | ERROR_REMOTE_HOST_CLOSED | ERROR_HOST_NOT_FOUND | ERROR_SOCKET_ACCESS
  | ERROR_SOCKET_RESOURCE | ERROR_SOCKET_TIMEOUT | ERROR_DATAGRAM_TOO_LARGE
  | ERROR_NETWORK_ERROR | ERROR_ADDRESS_IN_USE | ERROR_UNSUPPORTED_SOCKET_OPERATION
  | ERROR_EXEC_FAILED | ERROR_UNKNOWN

definition IS_SUCCESS :: "err_t \<Rightarrow> bool" where
  "IS_SUCCESS err \<longleftrightarrow> err = ERROR_SUCCESS"

section \<open>Byte-by-byte processing of a buffer\<close>

text \<open>
  The stream ciphers overwrite a buffer byte by byte while they update their state.
  \<open>run_bytes f s buf\<close> is the buffer after the loop and the state it leaves.
\<close>

fun run_bytes :: "('s \<Rightarrow> u8 \<Rightarrow> u8 \<times> 's) \<Rightarrow> 's \<Rightarrow> u8 list \<Rightarrow> u8 list \<times> 's" where
  "run_bytes f s [] = ([], s)"
| "run_bytes f s (b # bs) =
     (let (c, s1) = f s b; (cs, s2) = run_bytes f s1 bs in (c # cs, s2))"

lemma run_bytes_Cons [simp]:
  "fst (run_bytes f s (b # bs)) = fst (f s b) # fst (run_bytes f (snd (f s b)) bs)"
  "snd (run_bytes f s (b # bs)) = snd (run_bytes f (snd (f s b)) bs)"
  by (simp_all add: Let_def split_beta)

declare run_bytes.simps(2) [simp del]

lemma length_run_bytes [simp, shape_simps]: "length (fst (run_bytes f s bs)) = length bs"
  by (induction bs arbitrary: s) auto

lemma run_bytes_append:
  "fst (run_bytes f s (xs @ ys)) = fst (run_bytes f s xs) @ fst (run_bytes f (snd (run_bytes f s xs)) ys)"
  "snd (run_bytes f s (xs @ ys)) = snd (run_bytes f (snd (run_bytes f s xs)) ys)"
  by (induction xs arbitrary: s) auto

lemma run_bytes_invariant:
  assumes "\<And>s b. P s \<Longrightarrow> P (snd (f s b))" and "P s"
  shows "P (snd (run_bytes f s bs))"
  using assms(2) by (induction bs arbitrary: s) (auto intro: assms(1))

section \<open>Lists and maps\<close>

lemma map_upd_dom_card:
  "finite (dom m) \<Longrightarrow> m k = None \<Longrightarrow> card (dom (m(k \<mapsto> v))) = Suc (card (dom m))"
  by (simp add: domIff)

lemma map_del_dom_card:
  "finite (dom m) \<Longrightarrow> m k = Some v \<Longrightarrow> card (dom (m(k := None))) = card (dom m) - 1"
  by (simp add: domI)

end
