(* ===== verification/ICipher.thy ===== *)
theory ICipher
  imports Prelude
begin

text \<open>
  The cipher interface (\<^verbatim>\<open>Security/Cryptography/icipher.h\<close>) as a contract.  A cipher
  object processes a buffer byte by byte with \<^verbatim>\<open>encrypt\<close>, the peer at the other end of the
  connection undoes it with its own object; both keep a position in the key stream.  The
  locale \<open>stream_cipher\<close> states what the connection needs of the two byte steps, and its
  lemmas lift that to buffers and to any cutting of the stream into buffers.  The theory also
  holds the CFB64 mode, which \<^verbatim>\<open>blowfish.cpp\<close> and \<^verbatim>\<open>cast5.cpp\<close> both implement with the same
  text around their own block function.
\<close>

datatype Algorithm = TQ_CIPHER | BLOWFISH | CAST5 | RC5

section \<open>The contract of a stream cipher\<close>

text \<open>\<open>run_msgs f s ms\<close> processes the buffers \<open>ms\<close> one after the other with one cipher object.\<close>

fun run_msgs :: "('s \<Rightarrow> u8 \<Rightarrow> u8 \<times> 's) \<Rightarrow> 's \<Rightarrow> u8 list list \<Rightarrow> u8 list list" where
  "run_msgs f s [] = []"
| "run_msgs f s (m # ms) = fst (run_bytes f s m) # run_msgs f (snd (run_bytes f s m)) ms"

lemma concat_run_msgs: "concat (run_msgs f s ms) = fst (run_bytes f s (concat ms))"
  by (induction ms arbitrary: s) (auto simp: run_bytes_append)

locale stream_cipher =
  fixes enc :: "'s \<Rightarrow> u8 \<Rightarrow> u8 \<times> 's"
    and dec :: "'t \<Rightarrow> u8 \<Rightarrow> u8 \<times> 't"
    and sync :: "'s \<Rightarrow> 't \<Rightarrow> bool"
  assumes dec_enc: "sync s t \<Longrightarrow> fst (dec t (fst (enc s b))) = b"
    and sync_step: "sync s t \<Longrightarrow> sync (snd (enc s b)) (snd (dec t (fst (enc s b))))"
begin

lemma roundtrip: "sync s t \<Longrightarrow> fst (run_bytes dec t (fst (run_bytes enc s bs))) = bs"
  by (induction bs arbitrary: s t) (auto simp: dec_enc sync_step)

lemma sync_run:
  "sync s t \<Longrightarrow> sync (snd (run_bytes enc s bs)) (snd (run_bytes dec t (fst (run_bytes enc s bs))))"
  by (induction bs arbitrary: s t) (auto simp: sync_step)

text \<open>The receiver may cut the encrypted stream elsewhere than the sender did.\<close>

lemma rechunk:
  assumes "sync s t" and "concat cs = concat (run_msgs enc s ms)"
  shows "concat (run_msgs dec t cs) = concat ms"
  using assms by (simp add: concat_run_msgs roundtrip)

end

section \<open>The CFB64 mode of Blowfish and CAST5\<close>

text \<open>
  One direction of a CFB64 stream: the feedback register (\<^verbatim>\<open>mEnIV\<close> or \<^verbatim>\<open>mDeIV\<close>) and the
  position in it (\<^verbatim>\<open>mEnNum\<close> or \<^verbatim>\<open>mDeNum\<close>).
\<close>

record cfb_reg =
  reg_iv :: "u8 list"
  reg_num :: nat

definition BLOCK_SIZE :: nat where "BLOCK_SIZE = 8"

definition swap_block :: "u8 list \<Rightarrow> u8 list" where
  "swap_block iv = fold (\<lambda>i b. put32 b i (bswap32 (get32 b i))) [0..<BLOCK_SIZE div 4] iv"

definition cfb_refill :: "(u8 list \<Rightarrow> u8 list) \<Rightarrow> cfb_reg \<Rightarrow> cfb_reg" where
  "cfb_refill encipher r =
     (if reg_num r = 0
      then r\<lparr>reg_iv := swap_block (encipher (swap_block (reg_iv r)))\<rparr>
      else r)"

definition cfb_encrypt_byte :: "(u8 list \<Rightarrow> u8 list) \<Rightarrow> cfb_reg \<Rightarrow> u8 \<Rightarrow> u8 \<times> cfb_reg" where
  "cfb_encrypt_byte encipher r0 b =
     (let r = cfb_refill encipher r0;
          val = b XOR (reg_iv r ! reg_num r)
      in (val, r\<lparr>reg_iv := (reg_iv r)[reg_num r := val],
                reg_num := (reg_num r + 1) mod BLOCK_SIZE\<rparr>))"

definition cfb_decrypt_byte :: "(u8 list \<Rightarrow> u8 list) \<Rightarrow> cfb_reg \<Rightarrow> u8 \<Rightarrow> u8 \<times> cfb_reg" where
  "cfb_decrypt_byte encipher r0 b =
     (let r = cfb_refill encipher r0;
          val = b XOR (reg_iv r ! reg_num r);
          tmp = b
      in (val, r\<lparr>reg_iv := (reg_iv r)[reg_num r := tmp],
                reg_num := (reg_num r + 1) mod BLOCK_SIZE\<rparr>))"

text \<open>The register is always indexed inside its eight bytes.\<close>

definition reg_ok :: "cfb_reg \<Rightarrow> bool" where
  "reg_ok r \<longleftrightarrow> length (reg_iv r) = BLOCK_SIZE \<and> reg_num r < BLOCK_SIZE"

lemma length_swap_block [simp, shape_simps]: "length (swap_block b) = length b"
  by (simp add: swap_block_def BLOCK_SIZE_def upt_rec)

lemma swap_block_words:
  "swap_block b =
     (let b1 = put32 b 0 (bswap32 (get32 b 0)) in put32 b1 1 (bswap32 (get32 b1 1)))"
proof -
  have "[0..<BLOCK_SIZE div 4] = [0, 1]" by (simp add: BLOCK_SIZE_def upt_rec)
  then show ?thesis by (simp add: swap_block_def Let_def)
qed

text \<open>Swapping both words turns the little-endian view of a block into the big-endian one.\<close>

lemma swap_block_literal:
  "swap_block [a, b, c, d, e, f, g, h] = [d, c, b, a, h, g, f, e]"
  by (simp add: swap_block_words block_literals [simplified] block_literals)

lemma swap_block_swap_block: "length b = BLOCK_SIZE \<Longrightarrow> swap_block (swap_block b) = b"
  unfolding BLOCK_SIZE_def by (erule length_8_bytes) (simp add: swap_block_literal)

locale cfb64 =
  fixes encipher :: "u8 list \<Rightarrow> u8 list"
  assumes length_encipher: "length b = BLOCK_SIZE \<Longrightarrow> length (encipher b) = BLOCK_SIZE"
begin

lemma refill_ok: "reg_ok r \<Longrightarrow> reg_ok (cfb_refill encipher r)"
  by (auto simp: reg_ok_def cfb_refill_def length_encipher)

lemma encrypt_byte_ok: "reg_ok r \<Longrightarrow> reg_ok (snd (cfb_encrypt_byte encipher r b))"
  using refill_ok by (auto simp: reg_ok_def cfb_encrypt_byte_def Let_def BLOCK_SIZE_def)

lemma decrypt_byte_ok: "reg_ok r \<Longrightarrow> reg_ok (snd (cfb_decrypt_byte encipher r b))"
  using refill_ok by (auto simp: reg_ok_def cfb_decrypt_byte_def Let_def BLOCK_SIZE_def)

lemma encrypt_ok: "reg_ok r \<Longrightarrow> reg_ok (snd (run_bytes (cfb_encrypt_byte encipher) r bs))"
  by (rule run_bytes_invariant [of reg_ok]) (auto intro: encrypt_byte_ok)

lemma decrypt_ok: "reg_ok r \<Longrightarrow> reg_ok (snd (run_bytes (cfb_decrypt_byte encipher) r bs))"
  by (rule run_bytes_invariant [of reg_ok]) (auto intro: decrypt_byte_ok)

text \<open>Positions advance by one byte each, modulo the block size, in both directions.\<close>

lemma encrypt_num:
  "reg_num r < BLOCK_SIZE \<Longrightarrow>
   reg_num (snd (run_bytes (cfb_encrypt_byte encipher) r bs)) = (reg_num r + length bs) mod BLOCK_SIZE"
  by (induction bs arbitrary: r)
    (auto simp: cfb_encrypt_byte_def cfb_refill_def Let_def BLOCK_SIZE_def mod_simps)

end

sublocale cfb64 \<subseteq> stream: stream_cipher "cfb_encrypt_byte encipher" "cfb_decrypt_byte encipher" "(=)"
  by unfold_locales (auto simp: cfb_encrypt_byte_def cfb_decrypt_byte_def Let_def)

end
