(* ===== verification/TqCipher.thy ===== *)
theory TqCipher
  imports ICipher
begin

text \<open>
  TQ Digital's cipher of the account server (\<^verbatim>\<open>Security/Cryptography/tqcipher.cpp\<close>): a
  XOR cipher with two 16-bit counters over a 512-byte vector.  The server's \<open>encrypt\<close> and
  \<open>decrypt\<close> apply the same transformation, each with its own counter; they are not inverse
  to each other.  The peer applies the inverse transformation, which is specified here and
  shown to undo both directions.
\<close>

definition IV_SIZE :: nat where "IV_SIZE = 512"

record tq_cipher =
  mEnCounter :: u16
  mDeCounter :: u16
  mIV :: "u8 list"

definition TqCipher :: tq_cipher where
  "TqCipher = \<lparr>mEnCounter = 0, mDeCounter = 0, mIV = replicate IV_SIZE 0\<rparr>"

text \<open>The loop of \<open>generateIV\<close>: \<open>i\<close> is the loop counter, \<open>n\<close> the iterations left.\<close>

fun generateIV_loop :: "nat \<Rightarrow> nat \<Rightarrow> u8 list \<Rightarrow> u8 list \<Rightarrow> u8 list \<Rightarrow> u8 list" where
  "generateIV_loop 0 i p g iv = iv"
| "generateIV_loop (Suc n) i p g iv =
     generateIV_loop n (Suc i)
       (p[0 := (p ! 1 + (p ! 0 * p ! 2)) * p ! 0 + p ! 3])
       (g[0 := (g ! 1 - (g ! 0 * g ! 2)) * g ! 0 + g ! 3])
       (iv[i := p ! 0, IV_SIZE div 2 + i := g ! 0])"

definition generateIV :: "u32 \<Rightarrow> u32 \<Rightarrow> tq_cipher \<Rightarrow> tq_cipher" where
  "generateIV aP aG s =
     s\<lparr>mIV := generateIV_loop (IV_SIZE div 2) 0
        [byte0 aP, byte1 aP, byte2 aP, byte3 aP]
        [byte0 aG, byte1 aG, byte2 aG, byte3 aG] (mIV s)\<rparr>"

definition swap_nibbles :: "u8 \<Rightarrow> u8" where
  "swap_nibbles b = push_bit 4 b OR drop_bit 4 b"

text \<open>The two key bytes for a counter: its low byte indexes the first half, its high byte the second.\<close>

definition key1_at :: "tq_cipher \<Rightarrow> u16 \<Rightarrow> u8" where
  "key1_at s n = mIV s ! unat (ucast n :: u8)"

definition key2_at :: "tq_cipher \<Rightarrow> u16 \<Rightarrow> u8" where
  "key2_at s n = mIV s ! (IV_SIZE div 2 + unat (ucast (drop_bit 8 n) :: u8))"

definition tq_encrypt_byte :: "tq_cipher \<Rightarrow> u8 \<Rightarrow> u8 \<times> tq_cipher" where
  "tq_encrypt_byte s b =
     (swap_nibbles (b XOR 0xAB) XOR key1_at s (mEnCounter s) XOR key2_at s (mEnCounter s),
      s\<lparr>mEnCounter := mEnCounter s + 1\<rparr>)"

definition tq_decrypt_byte :: "tq_cipher \<Rightarrow> u8 \<Rightarrow> u8 \<times> tq_cipher" where
  "tq_decrypt_byte s b =
     (swap_nibbles (b XOR 0xAB) XOR key1_at s (mDeCounter s) XOR key2_at s (mDeCounter s),
      s\<lparr>mDeCounter := mDeCounter s + 1\<rparr>)"

definition tq_encrypt :: "tq_cipher \<Rightarrow> u8 list \<Rightarrow> u8 list \<times> tq_cipher" where
  "tq_encrypt s buf = run_bytes tq_encrypt_byte s buf"

definition tq_decrypt :: "tq_cipher \<Rightarrow> u8 list \<Rightarrow> u8 list \<times> tq_cipher" where
  "tq_decrypt s buf = run_bytes tq_decrypt_byte s buf"

section \<open>The peer\<close>

text \<open>
  The peer of the connection holds the same vector and one counter per direction.  Its byte
  transformation is the inverse one: first the key bytes, then the nibbles, then the mask.
\<close>

definition peer_byte :: "tq_cipher \<Rightarrow> u16 \<Rightarrow> u8 \<Rightarrow> u8" where
  "peer_byte s n c = swap_nibbles (c XOR key2_at s n XOR key1_at s n) XOR 0xAB"

definition peer_read :: "tq_cipher \<Rightarrow> u8 \<Rightarrow> u8 \<times> tq_cipher" where
  "peer_read s c = (peer_byte s (mDeCounter s) c, s\<lparr>mDeCounter := mDeCounter s + 1\<rparr>)"

definition peer_write :: "tq_cipher \<Rightarrow> u8 \<Rightarrow> u8 \<times> tq_cipher" where
  "peer_write s c = (peer_byte s (mEnCounter s) c, s\<lparr>mEnCounter := mEnCounter s + 1\<rparr>)"

lemma swap_nibbles_twice [simp]: "swap_nibbles (swap_nibbles b) = b"
proof (rule bit_word_eqI)
  fix n assume "n < LENGTH(8)"
  then show "bit (swap_nibbles (swap_nibbles b)) n = bit b n"
    by (cases "n < 4") (auto simp: swap_nibbles_def bit_simps bit_word_beyond)
qed

definition server_to_peer :: "tq_cipher \<Rightarrow> tq_cipher \<Rightarrow> bool" where
  "server_to_peer s t \<longleftrightarrow> mIV s = mIV t \<and> mEnCounter s = mDeCounter t"

definition peer_to_server :: "tq_cipher \<Rightarrow> tq_cipher \<Rightarrow> bool" where
  "peer_to_server t s \<longleftrightarrow> mIV s = mIV t \<and> mEnCounter t = mDeCounter s"

interpretation to_peer: stream_cipher tq_encrypt_byte peer_read server_to_peer
  by unfold_locales
    (auto simp: server_to_peer_def tq_encrypt_byte_def peer_read_def peer_byte_def key1_at_def
      key2_at_def)

interpretation from_peer: stream_cipher peer_write tq_decrypt_byte peer_to_server
  by unfold_locales
    (auto simp: peer_to_server_def tq_decrypt_byte_def peer_write_def peer_byte_def key1_at_def
      key2_at_def)

section \<open>The counters and the key vector\<close>

lemma tq_encrypt_frame [frame_simps]:
  "mIV (snd (tq_encrypt s buf)) = mIV s"
  "mDeCounter (snd (tq_encrypt s buf)) = mDeCounter s"
  unfolding tq_encrypt_def
  by (induction buf arbitrary: s) (auto simp: tq_encrypt_byte_def)

lemma tq_encrypt_counter: "mEnCounter (snd (tq_encrypt s buf)) = mEnCounter s + word_of_nat (length buf)"
  unfolding tq_encrypt_def
  by (induction buf arbitrary: s) (auto simp: tq_encrypt_byte_def)

lemma tq_decrypt_frame [frame_simps]:
  "mIV (snd (tq_decrypt s buf)) = mIV s"
  "mEnCounter (snd (tq_decrypt s buf)) = mEnCounter s"
  unfolding tq_decrypt_def
  by (induction buf arbitrary: s) (auto simp: tq_decrypt_byte_def)

lemma tq_decrypt_counter: "mDeCounter (snd (tq_decrypt s buf)) = mDeCounter s + word_of_nat (length buf)"
  unfolding tq_decrypt_def
  by (induction buf arbitrary: s) (auto simp: tq_decrypt_byte_def)

lemma length_generateIV_loop [shape_simps]: "length (generateIV_loop n i p g iv) = length iv"
  by (induction n i p g iv rule: generateIV_loop.induct) auto

lemma key_index_bounds:
  "unat (ucast (n :: u16) :: u8) < IV_SIZE div 2"
  "IV_SIZE div 2 + unat (ucast (drop_bit 8 n) :: u8) < IV_SIZE"
  using unsigned_less [of "ucast n :: u8", where ?'a = nat]
    unsigned_less [of "ucast (drop_bit 8 n) :: u8", where ?'a = nat]
  by (simp_all add: IV_SIZE_def)

text \<open>A stream the account server encrypts with \<open>TqCipher\<close>, cut into messages in one way and
  received cut in any other way, is decrypted by a peer holding the same vector and counter.\<close>
theorem tq_server_to_peer:
  assumes "mIV s = mIV t" and "mEnCounter s = mDeCounter t"
    and "concat received = concat (run_msgs tq_encrypt_byte s msgs)"
  shows "concat (run_msgs peer_read t received) = concat msgs"
  using assms by (intro to_peer.rechunk) (auto simp: server_to_peer_def)

lemma tq_server_to_peer_witness:
  "concat (run_msgs peer_read (generateIV 0x13FA0F9D 0x6D5C7962 TqCipher)
     [concat (run_msgs tq_encrypt_byte (generateIV 0x13FA0F9D 0x6D5C7962 TqCipher) [[1, 2], [3]])])
   = concat [[1, 2], [3]]"
  by (rule tq_server_to_peer) (simp_all add: generateIV_def TqCipher_def)

text \<open>What \<open>TqCipher::encrypt\<close> does to a byte depends only on the vector and on the position of
  the byte in the stream modulo 65536: skipping 65536 bytes of output gives the same bytes
  again (the key stream has period \<open>2\<^sup>1\<^sup>6\<close>), and the direction of \<open>decrypt\<close> is not disturbed.\<close>
theorem tq_encrypt_period:
  assumes "length skipped = 2 ^ 16"
  shows "fst (tq_encrypt (snd (tq_encrypt s skipped)) buf) = fst (tq_encrypt s buf) \<and>
         mDeCounter (snd (tq_encrypt s skipped)) = mDeCounter s"
proof -
  have "word_of_nat (length skipped) = (0 :: u16)"
    using assms by simp
  then have "snd (tq_encrypt s skipped) = s"
    using tq_encrypt_frame [of s skipped] tq_encrypt_counter [of s skipped]
    by (intro tq_cipher.equality) auto
  then show ?thesis by simp
qed

lemma tq_encrypt_period_witness:
  "fst (tq_encrypt (snd (tq_encrypt TqCipher (replicate (2 ^ 16) 0))) [7]) = fst (tq_encrypt TqCipher [7])"
  using tq_encrypt_period [of "replicate (2 ^ 16) 0" TqCipher "[7]"] by simp

end
