(* ===== verification/RC5.thy ===== *)
theory RC5
  imports ICipher
begin

text \<open>
  RC5-32/12/16 (\<^verbatim>\<open>Security/Cryptography/rc5.cpp\<close>), which the account server uses to
  decrypt the password of \<^verbatim>\<open>MsgAccount\<close>.  The key schedule, both block loops and the buffer
  loops are modelled.  \<open>decrypt\<close> undoes twelve rounds; \<open>encrypt\<close> performs eleven, and the
  theorems show both facts.
\<close>

definition KEY_SIZE :: nat where "KEY_SIZE = 16"
definition RC5_BLOCK_SIZE :: nat where "RC5_BLOCK_SIZE = 8"
definition ROUNDS :: nat where "ROUNDS = 12"
definition RC5_PW32 :: u32 where "RC5_PW32 = 0xB7E15163"
definition RC5_QW32 :: u32 where "RC5_QW32 = 0x61C88647"
definition RC5_SUB :: nat where "RC5_SUB = ROUNDS * 2 + 2"
definition RC5_KEY :: nat where "RC5_KEY = KEY_SIZE div 4"

lemmas rc5_sizes = KEY_SIZE_def RC5_BLOCK_SIZE_def ROUNDS_def RC5_SUB_def RC5_KEY_def

record rc5 =
  mKey :: "u32 list"
  mSub :: "u32 list"

definition rc5_new :: rc5 where
  "rc5_new = \<lparr>mKey = replicate RC5_KEY 0, mSub = replicate RC5_SUB 0\<rparr>"

text \<open>
  The rotations shift by \<open>32 - aCount\<close> in the other direction.  For \<open>aCount = 0\<close> that is a shift
  by the width, undefined in C++; \<open>drop_bit\<close> and \<open>push_bit\<close> give 0 there, and 0 or the
  value itself (what processors give) both make the result the unrotated value.
\<close>

definition rotl :: "u32 \<Rightarrow> u32 \<Rightarrow> u32" where
  "rotl aValue aCount0 =
     (let aCount = unat (aCount0 mod 32); high = drop_bit (32 - aCount) aValue
      in push_bit aCount aValue OR high)"

definition rotr :: "u32 \<Rightarrow> u32 \<Rightarrow> u32" where
  "rotr aValue aCount0 =
     (let aCount = unat (aCount0 mod 32); low = push_bit (32 - aCount) aValue
      in drop_bit aCount aValue OR low)"

section \<open>Key schedule\<close>

fun init_sub :: "nat \<Rightarrow> u32 \<Rightarrow> u32 list" where
  "init_sub 0 v = []"
| "init_sub (Suc n) v = v # init_sub n (v - RC5_QW32)"

text \<open>The mixing loop, \<open>k\<close> iterations left.\<close>

fun mix :: "nat \<Rightarrow> nat \<Rightarrow> nat \<Rightarrow> u32 \<Rightarrow> u32 \<Rightarrow> rc5 \<Rightarrow> rc5" where
  "mix 0 i j x y s = s"
| "mix (Suc k) i j x y s =
     (let x' = rotl (mSub s ! i + x + y) 3;
          y' = rotl (mKey s ! j + x' + y) (x' + y)
      in mix k ((i + 1) mod RC5_SUB) ((j + 1) mod RC5_KEY) x' y'
           (s\<lparr>mSub := (mSub s)[i := x'], mKey := (mKey s)[j := y']\<rparr>))"

definition generateKey :: "u8 list \<Rightarrow> rc5" where
  "generateKey aSeed =
     mix (3 * max RC5_KEY RC5_SUB) 0 0 0 0
       \<lparr>mKey = map (get32 aSeed) [0..<RC5_KEY], mSub = init_sub RC5_SUB RC5_PW32\<rparr>"

section \<open>Blocks\<close>

definition enc_round :: "u32 list \<Rightarrow> nat \<Rightarrow> u32 \<times> u32 \<Rightarrow> u32 \<times> u32" where
  "enc_round sub j = (\<lambda>(le, re).
     let le' = rotl (le XOR re) re + sub ! (2 * j);
         re' = rotl (re XOR le') le' + sub ! (2 * j + 1)
     in (le', re'))"

definition dec_round :: "u32 list \<Rightarrow> nat \<Rightarrow> u32 \<times> u32 \<Rightarrow> u32 \<times> u32" where
  "dec_round sub j = (\<lambda>(ld, rd).
     let rd' = rotr (rd - sub ! (2 * j + 1)) ld XOR ld;
         ld' = rotr (ld - sub ! (2 * j)) rd' XOR rd'
     in (ld', rd'))"

text \<open>\<open>for (j = 1; j < ROUNDS; ++j)\<close> in \<open>encrypt\<close>, \<open>for (j = ROUNDS; j >= 1; --j)\<close> in \<open>decrypt\<close>.\<close>

definition encrypt_block :: "u32 list \<Rightarrow> u32 \<times> u32 \<Rightarrow> u32 \<times> u32" where
  "encrypt_block sub = (\<lambda>(a, b). fold (enc_round sub) [1..<ROUNDS] (a + sub ! 0, b + sub ! 1))"

definition decrypt_block :: "u32 list \<Rightarrow> u32 \<times> u32 \<Rightarrow> u32 \<times> u32" where
  "decrypt_block sub = (\<lambda>ab.
     let (ld, rd) = fold (dec_round sub) (rev [1..<Suc ROUNDS]) ab
     in (ld - sub ! 0, rd - sub ! 1))"

definition on_block :: "(u32 \<times> u32 \<Rightarrow> u32 \<times> u32) \<Rightarrow> nat \<Rightarrow> u8 list \<Rightarrow> u8 list" where
  "on_block f i buf =
     (let (a, b) = f (get32 buf (2 * i), get32 buf (2 * i + 1))
      in put32 (put32 buf (2 * i) a) (2 * i + 1) b)"

text \<open>
  The buffer loops.  The assertion on the length does nothing in the release build: the whole
  blocks are processed and a rest shorter than a block is left.
\<close>

definition rc5_encrypt :: "rc5 \<Rightarrow> u8 list \<Rightarrow> u8 list" where
  "rc5_encrypt s buf =
     fold (on_block (encrypt_block (mSub s))) [0..<length buf div RC5_BLOCK_SIZE] buf"

definition rc5_decrypt :: "rc5 \<Rightarrow> u8 list \<Rightarrow> u8 list" where
  "rc5_decrypt s buf =
     fold (on_block (decrypt_block (mSub s))) [0..<length buf div RC5_BLOCK_SIZE] buf"

text \<open>The condition the assertion states.\<close>

definition len_ok :: "u8 list \<Rightarrow> bool" where
  "len_ok buf \<longleftrightarrow> length buf > 0 \<and> length buf mod RC5_BLOCK_SIZE = 0"

section \<open>Rotations and rounds are invertible\<close>

lemma count_less: "unat ((c :: u32) mod 32) < 32"
  by (simp add: unat_mod)

lemma rotr_rotl [simp]: "rotr (rotl v c) c = v"
proof (rule bit_word_eqI)
  fix n assume "n < LENGTH(32)"
  then show "bit (rotr (rotl v c) c) n = bit v n"
    using count_less [of c]
    by (cases "unat (c mod 32) + n < 32")
      (auto simp: rotl_def rotr_def bit_simps Let_def bit_word_beyond)
qed

lemma rotl_rotr [simp]: "rotl (rotr v c) c = v"
proof (rule bit_word_eqI)
  fix n assume "n < LENGTH(32)"
  then show "bit (rotl (rotr v c) c) n = bit v n"
    using count_less [of c]
    by (cases "n < unat (c mod 32)")
      (auto simp: rotl_def rotr_def bit_simps Let_def bit_word_beyond)
qed

lemma dec_enc_round [simp]: "dec_round sub j (enc_round sub j p) = p"
  by (cases p) (simp add: enc_round_def dec_round_def Let_def)

lemma enc_dec_round [simp]: "enc_round sub j (dec_round sub j p) = p"
  by (cases p) (simp add: enc_round_def dec_round_def Let_def)

lemma dec_enc_rounds: "fold (dec_round sub) (rev js) (fold (enc_round sub) js p) = p"
  by (induction js arbitrary: p) simp_all

lemma enc_dec_rounds: "fold (enc_round sub) js (fold (dec_round sub) (rev js) p) = p"
  by (induction js arbitrary: p) simp_all

text \<open>The cipher the comments name: all twelve rounds.\<close>

definition full_encrypt_block :: "u32 list \<Rightarrow> u32 \<times> u32 \<Rightarrow> u32 \<times> u32" where
  "full_encrypt_block sub = (\<lambda>(a, b). fold (enc_round sub) [1..<Suc ROUNDS] (a + sub ! 0, b + sub ! 1))"

lemma decrypt_full: "decrypt_block sub (full_encrypt_block sub p) = p"
  by (cases p) (simp add: decrypt_block_def full_encrypt_block_def dec_enc_rounds del: upt_Suc)

lemma full_decrypt: "full_encrypt_block sub (decrypt_block sub p) = p"
proof -
  obtain l r where lr: "fold (dec_round sub) (rev [1..<Suc ROUNDS]) p = (l, r)"
    by fastforce
  have "fold (enc_round sub) [1..<Suc ROUNDS] (l, r) = p"
    using enc_dec_rounds [of sub "[1..<Suc ROUNDS]" p] unfolding lr .
  then show ?thesis
    unfolding decrypt_block_def full_encrypt_block_def lr prod.case Let_def by simp
qed

lemma full_encrypt_last_round:
  "full_encrypt_block sub p = enc_round sub ROUNDS (encrypt_block sub p)"
proof -
  have "1 \<le> ROUNDS" by (simp add: ROUNDS_def)
  then have "[1..<Suc ROUNDS] = [1..<ROUNDS] @ [ROUNDS]" by simp
  then show ?thesis by (cases p) (simp add: full_encrypt_block_def encrypt_block_def del: upt_Suc)
qed

section \<open>The buffer loops\<close>

lemma on_block_words:
  fixes i k :: nat
  assumes "8 * i + 8 \<le> length buf"
  shows "get32 (on_block f i buf) (2 * i) = fst (f (get32 buf (2 * i), get32 buf (2 * i + 1)))"
    and "get32 (on_block f i buf) (2 * i + 1) = snd (f (get32 buf (2 * i), get32 buf (2 * i + 1)))"
    and "k \<noteq> 2 * i \<Longrightarrow> k \<noteq> 2 * i + 1 \<Longrightarrow> get32 (on_block f i buf) k = get32 buf k"
    and "length (on_block f i buf) = length buf"
  using assms by (simp_all add: on_block_def wire_simps split_beta)

lemma fold_on_block:
  assumes "8 * n \<le> length buf"
  shows "length (fold (on_block f) [0..<n] buf) = length buf \<and>
    (\<forall>i < n. (get32 (fold (on_block f) [0..<n] buf) (2 * i),
              get32 (fold (on_block f) [0..<n] buf) (2 * i + 1))
            = f (get32 buf (2 * i), get32 buf (2 * i + 1))) \<and>
    (\<forall>k \<ge> 2 * n. get32 (fold (on_block f) [0..<n] buf) k = get32 buf k)"
  using assms
proof (induction n)
  case (Suc n)
  let ?b = "fold (on_block f) [0..<n] buf"
  from Suc.IH Suc.prems have IH: "length ?b = length buf"
    "\<And>i. i < n \<Longrightarrow> (get32 ?b (2 * i), get32 ?b (2 * i + 1)) = f (get32 buf (2 * i), get32 buf (2 * i + 1))"
    "\<And>k. k \<ge> 2 * n \<Longrightarrow> get32 ?b k = get32 buf k" by simp_all
  from Suc.prems IH(1) have fits: "8 * n + 8 \<le> length ?b" by simp
  show ?case
  proof (intro conjI allI impI)
    show "length (fold (on_block f) [0..<Suc n] buf) = length buf"
      using on_block_words(4) [OF fits] IH(1) by simp
  next
    fix i assume "i < Suc n"
    then show "(get32 (fold (on_block f) [0..<Suc n] buf) (2 * i),
        get32 (fold (on_block f) [0..<Suc n] buf) (2 * i + 1)) = f (get32 buf (2 * i), get32 buf (2 * i + 1))"
      using on_block_words(1,2) [OF fits, where f = f] on_block_words(3) [OF fits, where f = f] IH(2) [of i] IH(3) by (cases "i = n") auto
  next
    fix k assume "2 * Suc n \<le> k"
    then show "get32 (fold (on_block f) [0..<Suc n] buf) k = get32 buf k"
      using on_block_words(3) [OF fits, where f = f and k = k] IH(3) [of k] by simp
  qed
qed simp

lemma fold_on_block_inverse:
  assumes "len_ok buf" and inv: "\<And>p. g (f p) = p"
  shows "fold (on_block g) [0..<length buf div 8] (fold (on_block f) [0..<length buf div 8] buf) = buf"
proof -
  let ?n = "length buf div 8"
  let ?f = "fold (on_block f) [0..<?n]" and ?g = "fold (on_block g) [0..<?n]"
  have len: "length buf = 8 * ?n" using assms(1) by (auto simp: len_ok_def rc5_sizes)
  have f: "length (?f buf) = length buf"
    "\<And>i. i < ?n \<Longrightarrow> (get32 (?f buf) (2 * i), get32 (?f buf) (2 * i + 1)) = f (get32 buf (2 * i), get32 buf (2 * i + 1))"
    using fold_on_block [of ?n buf f] len by auto
  then have "8 * ?n \<le> length (?f buf)" using len by simp
  from fold_on_block [OF this, of g] f(1)
  have g: "length (?g (?f buf)) = length buf"
    "\<And>i. i < ?n \<Longrightarrow> (get32 (?g (?f buf)) (2 * i), get32 (?g (?f buf)) (2 * i + 1))
      = g (get32 (?f buf) (2 * i), get32 (?f buf) (2 * i + 1))"
    by auto
  show ?thesis
  proof (rule buffer_eqI [where n = "2 * ?n"])
    fix k assume "k < 2 * ?n"
    then have i: "k div 2 < ?n" by simp
    have "k = 2 * (k div 2) \<or> k = 2 * (k div 2) + 1" by presburger
    moreover have "(get32 (?g (?f buf)) (2 * (k div 2)), get32 (?g (?f buf)) (2 * (k div 2) + 1))
        = (get32 buf (2 * (k div 2)), get32 buf (2 * (k div 2) + 1))"
      using f(2) [OF i] g(2) [OF i] inv by simp
    ultimately show "get32 (?g (?f buf)) k = get32 buf k" by (metis prod.inject)
  qed (use g(1) len in simp_all)
qed

section \<open>What the two loops compute\<close>

lemma rc5_loop_cong:
  "8 * n \<le> length buf \<Longrightarrow> length (fold (on_block f) [0..<n] buf) = length buf"
  using fold_on_block by blast

lemma mix_shape [shape_simps]:
  "length (mSub (mix k i j x y s)) = length (mSub s)" "length (mKey (mix k i j x y s)) = length (mKey s)"
  by (induction k i j x y s rule: mix.induct) (simp_all add: Let_def)

lemma length_init_sub [shape_simps]: "length (init_sub n v) = n"
  by (induction n arbitrary: v) simp_all

lemma init_sub_nth: "i < n \<Longrightarrow> init_sub n v ! i = v - of_nat i * RC5_QW32"
  by (induction n v arbitrary: i rule: init_sub.induct)
    (auto simp: nth_Cons algebra_simps split: nat.splits)

text \<open>The key schedule fills exactly the 26 sub-keys and 4 key words of the arrays, whatever
  the seed.\<close>
theorem rc5_generateKey_shape:
  "length (mSub (generateKey seed)) = RC5_SUB \<and> length (mKey (generateKey seed)) = RC5_KEY"
  by (simp add: generateKey_def shape_simps)

text \<open>On every buffer the assertion admits, \<open>decrypt\<close> recovers what was encrypted block by block
  with all twelve rounds.\<close>
theorem rc5_decrypt_undoes_twelve_rounds:
  assumes "len_ok buf"
  shows "rc5_decrypt s
      (fold (on_block (full_encrypt_block (mSub s))) [0..<length buf div RC5_BLOCK_SIZE] buf) = buf"
proof -
  let ?e = "fold (on_block (full_encrypt_block (mSub s))) [0..<length buf div 8] buf"
  have "length ?e = length buf" by (rule rc5_loop_cong) simp
  then show ?thesis
    using fold_on_block_inverse [OF assms, where f = "full_encrypt_block (mSub s)" and
        g = "decrypt_block (mSub s)", OF decrypt_full]
    by (simp add: rc5_decrypt_def RC5_BLOCK_SIZE_def)
qed

lemma rc5_decrypt_undoes_twelve_rounds_witness:
  "rc5_decrypt rc5_new (fold (on_block (full_encrypt_block (mSub rc5_new)))
      [0..<length [1, 2, 3, 4, 5, 6, 7, 8 :: u8] div RC5_BLOCK_SIZE] [1, 2, 3, 4, 5, 6, 7, 8])
    = [1, 2, 3, 4, 5, 6, 7, 8]"
  by (rule rc5_decrypt_undoes_twelve_rounds) (simp add: len_ok_def RC5_BLOCK_SIZE_def)

text \<open>\<open>encrypt\<close> stops one round early: deciphering what it produced gives the block back exactly
  when the missing twelfth round would not have changed it.\<close>
theorem rc5_encrypt_misses_last_round:
  "decrypt_block sub (encrypt_block sub p) = p \<longleftrightarrow>
   enc_round sub ROUNDS (encrypt_block sub p) = encrypt_block sub p"
  by (metis decrypt_full full_decrypt full_encrypt_last_round)

end
