(* ===== verification/Blowfish.thy ===== *)
theory Blowfish
  imports ICipher BlowfishTables
begin

text \<open>
  Blowfish in CFB64 mode (\<^verbatim>\<open>Security/Cryptography/blowfish.cpp\<close>), the cipher of the game
  connection.  The block is a little-endian pair of words; \<open>encipher\<close> and \<open>decipher\<close> are one
  Feistel network run with the P-array in the two orders.
\<close>

definition bf_ROUNDS :: nat where "bf_ROUNDS = 16"
definition bf_KEY_SIZE :: nat where "bf_KEY_SIZE = 72"

record blowfish =
  mP :: "u32 list"
  mS :: "u32 list list"
  mEn :: cfb_reg   \<comment> \<open>\<open>mEnIV\<close> and \<open>mEnNum\<close>\<close>
  mDe :: cfb_reg   \<comment> \<open>\<open>mDeIV\<close> and \<open>mDeNum\<close>\<close>

definition zero_reg :: cfb_reg where
  "zero_reg = \<lparr>reg_iv = replicate BLOCK_SIZE 0, reg_num = 0\<rparr>"

definition blowfish_new :: blowfish where
  "blowfish_new = \<lparr>mP = bf_P, mS = [bf_S0, bf_S1, bf_S2, bf_S3], mEn = zero_reg, mDe = zero_reg\<rparr>"

section \<open>The block cipher\<close>

definition bf_F :: "u32 list list \<Rightarrow> u32 \<Rightarrow> u32" where
  "bf_F S seed =
     ((S ! 0 ! unat (drop_bit 24 seed AND 0xFF) + S ! 1 ! unat (drop_bit 16 seed AND 0xFF))
       XOR S ! 2 ! unat (drop_bit 8 seed AND 0xFF)) + S ! 3 ! unat (seed AND 0xFF)"

definition bf_round :: "(u32 \<Rightarrow> u32) \<Rightarrow> u32 \<Rightarrow> u32 \<times> u32 \<Rightarrow> u32 \<times> u32" where
  "bf_round F p = (\<lambda>(lv, rv). let lv' = lv XOR p; rv' = rv XOR F lv' in (rv', lv'))"

text \<open>\<open>for (i = 0; i < 16; ++i)\<close>, then the two output words; the block receives \<open>rv\<close> first.\<close>

definition bf_encipher_words :: "u32 list \<Rightarrow> (u32 \<Rightarrow> u32) \<Rightarrow> u32 \<times> u32 \<Rightarrow> u32 \<times> u32" where
  "bf_encipher_words P F lr =
     (let (lv, rv) = fold (\<lambda>i. bf_round F (P ! i)) [0..<bf_ROUNDS] lr;
          lv' = lv XOR P ! bf_ROUNDS;
          rv' = rv XOR P ! (bf_ROUNDS + 1)
      in (rv', lv'))"

text \<open>\<open>for (i = 17; i > 1; --i)\<close>.\<close>

definition bf_decipher_words :: "u32 list \<Rightarrow> (u32 \<Rightarrow> u32) \<Rightarrow> u32 \<times> u32 \<Rightarrow> u32 \<times> u32" where
  "bf_decipher_words P F lr =
     (let (lv, rv) = fold (\<lambda>i. bf_round F (P ! i)) (rev [2..<bf_ROUNDS + 2]) lr;
          lv' = lv XOR P ! 1;
          rv' = rv XOR P ! 0
      in (rv', lv'))"

definition bf_encipher :: "blowfish \<Rightarrow> u8 list \<Rightarrow> u8 list" where
  "bf_encipher s block =
     (let (a, b) = bf_encipher_words (mP s) (bf_F (mS s)) (get32 block 0, get32 block 1)
      in put32 (put32 block 0 a) 1 b)"

definition bf_decipher :: "blowfish \<Rightarrow> u8 list \<Rightarrow> u8 list" where
  "bf_decipher s block =
     (let (a, b) = bf_decipher_words (mP s) (bf_F (mS s)) (get32 block 0, get32 block 1)
      in put32 (put32 block 0 a) 1 b)"

section \<open>Key generation\<close>

text \<open>The big-endian word of four seed bytes, read cyclically.\<close>

definition seed_word :: "u8 list \<Rightarrow> nat \<Rightarrow> nat \<Rightarrow> u32" where
  "seed_word seed len i =
     fold (\<lambda>n d. push_bit 8 d OR ucast (seed ! ((4 * i + n) mod len))) [0..<4] 0"

text \<open>The two output loops, \<open>n\<close> pairs left, writing from index \<open>i\<close>.\<close>

fun fill_P :: "nat \<Rightarrow> nat \<Rightarrow> u8 list \<times> blowfish \<Rightarrow> u8 list \<times> blowfish" where
  "fill_P 0 i bs = bs"
| "fill_P (Suc n) i (block, s) =
     (let block' = bf_encipher s block
      in fill_P n (i + 2) (block', s\<lparr>mP := (mP s)[i := get32 block' 0, i + 1 := get32 block' 1]\<rparr>))"

fun fill_S :: "nat \<Rightarrow> nat \<Rightarrow> nat \<Rightarrow> u8 list \<times> blowfish \<Rightarrow> u8 list \<times> blowfish" where
  "fill_S j 0 k bs = bs"
| "fill_S j (Suc n) k (block, s) =
     (let block' = bf_encipher s block
      in fill_S j n (k + 2) (block', s\<lparr>mS := (mS s)
           [j := (mS s ! j)[k := get32 block' 0, k + 1 := get32 block' 1]]\<rparr>))"

text \<open>The part of key generation after the seed was mixed into the P-array.\<close>

definition bf_expand :: "u32 list \<Rightarrow> blowfish \<Rightarrow> blowfish" where
  "bf_expand P0 s =
     (let s0 = s\<lparr>mP := P0, mS := [bf_S0, bf_S1, bf_S2, bf_S3]\<rparr>;
          bs1 = fill_P ((bf_ROUNDS + 2) div 2) 0 (replicate BLOCK_SIZE 0, s0)
      in snd (fold (\<lambda>j. fill_S j 128 0) [0..<4] bs1))"

text \<open>
  With an empty seed the code computes \<open>x % 0\<close>: no result.  A longer seed is cut to 72 bytes.
\<close>

definition bf_generateKey :: "u8 list \<Rightarrow> blowfish \<Rightarrow> blowfish option" where
  "bf_generateKey aSeed s =
     (let aLen = min (length aSeed) bf_KEY_SIZE in
      if aLen = 0 then None
      else Some (bf_expand
        (map (\<lambda>i. bf_P ! i XOR seed_word aSeed aLen i) [0..<bf_ROUNDS + 2]) s))"

section \<open>The stream operations\<close>

definition bf_encrypt :: "blowfish \<Rightarrow> u8 list \<Rightarrow> u8 list \<times> blowfish" where
  "bf_encrypt s buf =
     (let (buf', r) = run_bytes (cfb_encrypt_byte (bf_encipher s)) (mEn s) buf
      in (buf', s\<lparr>mEn := r\<rparr>))"

definition bf_decrypt :: "blowfish \<Rightarrow> u8 list \<Rightarrow> u8 list \<times> blowfish" where
  "bf_decrypt s buf =
     (let (buf', r) = run_bytes (cfb_decrypt_byte (bf_encipher s)) (mDe s) buf
      in (buf', s\<lparr>mDe := r\<rparr>))"

text \<open>A null pointer (\<open>None\<close>) leaves that direction alone.\<close>

definition bf_setIVs :: "u8 list option \<Rightarrow> u8 list option \<Rightarrow> blowfish \<Rightarrow> blowfish" where
  "bf_setIVs aEncIV aDecIV s =
     (let s1 = (case aEncIV of None \<Rightarrow> s
                | Some iv \<Rightarrow> s\<lparr>mEn := \<lparr>reg_iv = take BLOCK_SIZE iv, reg_num = 0\<rparr>\<rparr>)
      in case aDecIV of None \<Rightarrow> s1
         | Some iv \<Rightarrow> s1\<lparr>mDe := \<lparr>reg_iv = take BLOCK_SIZE iv, reg_num = 0\<rparr>\<rparr>)"

section \<open>One Feistel network\<close>

text \<open>The network on a list of keys: a round for all but the last two, which whiten the output.\<close>

definition feistel :: "(u32 \<Rightarrow> u32) \<Rightarrow> u32 list \<Rightarrow> u32 \<times> u32 \<Rightarrow> u32 \<times> u32" where
  "feistel F ks lr =
     (case fold (bf_round F) (take (length ks - 2) ks) lr of
        (lv, rv) \<Rightarrow> (rv XOR ks ! (length ks - 1), lv XOR ks ! (length ks - 2)))"

lemma feistel_snoc:
  "feistel F (ps @ [a, b]) lr = (case fold (bf_round F) ps lr of (lv, rv) \<Rightarrow> (rv XOR b, lv XOR a))"
  by (simp add: feistel_def nth_append)

lemma feistel_Cons:
  "2 \<le> length ks \<Longrightarrow> feistel F (k # ks) lr = feistel F ks (bf_round F k lr)"
proof -
  assume "2 \<le> length ks"
  then obtain n where "length ks = Suc (Suc n)"
    by (metis Suc_le_D Suc_le_mono numeral_2_eq_2)
  then show ?thesis by (simp add: feistel_def)
qed

lemma feistel_rev: "feistel F (rev (ps @ [a, b])) (feistel F (ps @ [a, b]) lr) = lr"
proof (induction ps arbitrary: a b rule: rev_induct)
  case Nil
  then show ?case by (cases lr) (simp add: feistel_def)
next
  case (snoc y ps)
  obtain l r where lr: "fold (bf_round F) ps lr = (l, r)" by fastforce
  have "feistel F (rev ((ps @ [y]) @ [a, b])) (feistel F ((ps @ [y]) @ [a, b]) lr)
      = feistel F (rev (ps @ [y, a])) (bf_round F b (feistel F ((ps @ [y]) @ [a, b]) lr))"
    using feistel_Cons [of "rev (ps @ [y, a])" F b] by simp
  also have "bf_round F b (feistel F ((ps @ [y]) @ [a, b]) lr) = feistel F (ps @ [y, a]) lr"
    by (simp add: feistel_snoc [of F "ps @ [y]", simplified] feistel_snoc lr bf_round_def Let_def)
  finally show ?case using snoc.IH [of y a] by simp
qed

lemma feistel_inverse:
  assumes "2 \<le> length ks"
  shows "feistel F (rev ks) (feistel F ks lr) = lr"
proof -
  from assms obtain qs b where "ks = qs @ [b]" "1 \<le> length qs"
    by (cases ks rule: rev_cases) auto
  moreover from this obtain ps a where "qs = ps @ [a]"
    by (cases qs rule: rev_cases) auto
  ultimately have "ks = ps @ [a, b]" by simp
  then show ?thesis by (simp only: feistel_rev)
qed

lemma fold_map_nth: "fold (\<lambda>i. f (ks ! i)) is s = fold f (map ((!) ks) is) s"
  by (induction "is" arbitrary: s) simp_all

lemma encipher_words_feistel:
  assumes "length P = bf_ROUNDS + 2"
  shows "bf_encipher_words P F lr = feistel F P lr"
proof -
  have "map ((!) P) [0..<bf_ROUNDS] = take bf_ROUNDS P"
    using assms by (intro nth_equalityI) auto
  then show ?thesis
    using assms by (simp add: bf_encipher_words_def feistel_def fold_map_nth Let_def split_beta)
qed

lemma decipher_words_feistel:
  assumes "length P = bf_ROUNDS + 2"
  shows "bf_decipher_words P F lr = feistel F (rev P) lr"
proof -
  have "map ((!) P) [2..<length P] = drop 2 P"
    by (intro nth_equalityI) auto
  then have "map ((!) P) (rev [2..<bf_ROUNDS + 2]) = take bf_ROUNDS (rev P)"
    using assms by (simp add: take_rev flip: rev_map del: upt_Suc)
  then show ?thesis
    using assms by (simp add: bf_decipher_words_def feistel_def fold_map_nth Let_def split_beta rev_nth)
qed

lemma words_inverse:
  assumes "length P = bf_ROUNDS + 2"
  shows "bf_decipher_words P F (bf_encipher_words P F lr) = lr"
    and "bf_encipher_words P F (bf_decipher_words P F lr) = lr"
  using assms feistel_inverse [of P F lr] feistel_inverse [of "rev P" F lr]
  by (simp_all add: encipher_words_feistel decipher_words_feistel)

lemma length_encipher [simp, shape_simps]:
  "length (bf_encipher s b) = length b" "length (bf_decipher s b) = length b"
  by (simp_all add: bf_encipher_def bf_decipher_def split_beta)

section \<open>The shape of the tables\<close>

text \<open>The arrays have their C++ sizes, so that no lookup of the rounds leaves them.\<close>

definition bf_ok :: "blowfish \<Rightarrow> bool" where
  "bf_ok s \<longleftrightarrow> length (mP s) = bf_ROUNDS + 2 \<and> map length (mS s) = [256, 256, 256, 256] \<and>
     reg_ok (mEn s) \<and> reg_ok (mDe s)"

lemma bf_new_ok: "bf_ok blowfish_new"
  by (simp add: bf_ok_def blowfish_new_def bf_ROUNDS_def length_bf_P shape_simps zero_reg_def
      reg_ok_def BLOCK_SIZE_def)

lemma fill_P_shape:
  "length (mP (snd (fill_P n i bs))) = length (mP (snd bs)) \<and>
   mS (snd (fill_P n i bs)) = mS (snd bs) \<and> mEn (snd (fill_P n i bs)) = mEn (snd bs) \<and>
   mDe (snd (fill_P n i bs)) = mDe (snd bs)"
  by (induction n i bs rule: fill_P.induct) (simp_all add: Let_def)

lemma fill_S_shape:
  "mP (snd (fill_S j n k bs)) = mP (snd bs) \<and>
   map length (mS (snd (fill_S j n k bs))) = map length (mS (snd bs)) \<and>
   mEn (snd (fill_S j n k bs)) = mEn (snd bs) \<and> mDe (snd (fill_S j n k bs)) = mDe (snd bs)"
proof (induction j n k bs rule: fill_S.induct)
  case (2 j n k block s)
  have "map length ((mS s)[j := (mS s ! j)[k := a, k + 1 := b]]) = map length (mS s)" for a b
    by (metis length_list_update map_update list_update_id)
  with 2 show ?case by (simp add: Let_def)
qed simp

lemma fill_S_all_shape:
  "mP (snd (fold (\<lambda>j. fill_S j n k) js bs)) = mP (snd bs) \<and>
   map length (mS (snd (fold (\<lambda>j. fill_S j n k) js bs))) = map length (mS (snd bs)) \<and>
   mEn (snd (fold (\<lambda>j. fill_S j n k) js bs)) = mEn (snd bs) \<and>
   mDe (snd (fold (\<lambda>j. fill_S j n k) js bs)) = mDe (snd bs)"
  by (induction js arbitrary: bs) (simp_all add: fill_S_shape)

lemma generateKey_shape:
  assumes "bf_generateKey seed s = Some s'"
  shows "length (mP s') = bf_ROUNDS + 2" and "map length (mS s') = [256, 256, 256, 256]"
    and "mEn s' = mEn s" and "mDe s' = mDe s"
  using assms
  by (auto simp: bf_generateKey_def bf_expand_def Let_def fill_S_all_shape fill_P_shape shape_simps split: if_splits)

interpretation bf: cfb64 "bf_encipher s" for s
  by unfold_locales simp

text \<open>Two ends of a connection agree when they hold the same key and the same feedback register.\<close>

definition same_key :: "blowfish \<Rightarrow> blowfish \<Rightarrow> bool" where
  "same_key s t \<longleftrightarrow> mP s = mP t \<and> mS s = mS t"

lemma same_key_encipher: "same_key s t \<Longrightarrow> bf_encipher s = bf_encipher t"
  by (auto simp: same_key_def bf_encipher_def)

text \<open>Key generation neither reads nor writes the feedback registers, nor reads the old key.\<close>

definition with_regs :: "cfb_reg \<Rightarrow> cfb_reg \<Rightarrow> blowfish \<Rightarrow> blowfish" where
  "with_regs r q s = s\<lparr>mEn := r, mDe := q\<rparr>"

lemma with_regs_simps [simp]:
  "mP (with_regs r q s) = mP s" "mS (with_regs r q s) = mS s"
  "(with_regs r q s)\<lparr>mP := P\<rparr> = with_regs r q (s\<lparr>mP := P\<rparr>)"
  "(with_regs r q s)\<lparr>mS := S\<rparr> = with_regs r q (s\<lparr>mS := S\<rparr>)"
  "bf_encipher (with_regs r q s) = bf_encipher s"
  by (cases s; simp add: with_regs_def bf_encipher_def fun_eq_iff)+

lemma encipher_regs [simp]:
  "bf_encipher (s\<lparr>mEn := r\<rparr>) = bf_encipher s" "bf_encipher (s\<lparr>mDe := q\<rparr>) = bf_encipher s"
  by (simp_all add: bf_encipher_def fun_eq_iff)

lemma fill_P_frame [frame_simps]:
  "fill_P n i (b, with_regs r q s) = apsnd (with_regs r q) (fill_P n i (b, s))"
  by (induction n arbitrary: i b s) (simp_all add: Let_def)

lemma fill_S_frame [frame_simps]:
  "fill_S j n k (b, with_regs r q s) = apsnd (with_regs r q) (fill_S j n k (b, s))"
  by (induction n arbitrary: k b s) (simp_all add: Let_def)

lemma fill_S_all_frame [frame_simps]:
  "fold (\<lambda>j. fill_S j n k) js (apsnd (with_regs r q) bs)
    = apsnd (with_regs r q) (fold (\<lambda>j. fill_S j n k) js bs)"
proof (induction js arbitrary: bs)
  case (Cons j js)
  show ?case
    using fill_S_frame [of j n k "fst bs" r q "snd bs"] Cons.IH [of "fill_S j n k bs"] by (cases bs) simp
qed simp

lemma expand_frame [frame_simps]: "bf_expand P0 (with_regs r q s) = with_regs r q (bf_expand P0 s)"
  unfolding bf_expand_def Let_def by (simp only: with_regs_simps frame_simps snd_apsnd)

lemma expand_old_key [frame_simps]: "bf_expand P0 (s\<lparr>mP := P, mS := S\<rparr>) = bf_expand P0 s"
proof -
  have "s\<lparr>mP := P, mS := S, mP := P0, mS := S0\<rparr> = s\<lparr>mP := P0, mS := S0\<rparr>" for S0
    by (cases s) simp
  then show ?thesis by (simp only: bf_expand_def)
qed

lemma generateKey_frame [frame_simps]:
  "bf_generateKey seed (with_regs r q s) = map_option (with_regs r q) (bf_generateKey seed s)"
  by (cases "min (length seed) bf_KEY_SIZE = 0")
    (simp_all only: bf_generateKey_def Let_def frame_simps if_True if_False option.map simp_thms)

lemma generateKey_old_key:
  "bf_generateKey seed (s\<lparr>mP := P, mS := S\<rparr>) = bf_generateKey seed s"
  by (simp only: bf_generateKey_def Let_def frame_simps)

lemma same_key_generated:
  assumes "bf_generateKey seed s = Some s'" and "bf_generateKey seed t = Some t'"
  shows "same_key s' t'"
proof -
  have t: "t = with_regs (mEn t) (mDe t) (s\<lparr>mP := mP t, mS := mS t\<rparr>)"
    by (simp add: with_regs_def)
  have "bf_generateKey seed t = map_option (with_regs (mEn t) (mDe t)) (bf_generateKey seed s)"
    by (subst t) (simp only: generateKey_frame generateKey_old_key)
  then show ?thesis using assms by (auto simp: same_key_def)
qed

lemma seed_word_cong:
  assumes "\<And>i. i < 72 \<Longrightarrow> seed ! (i mod m) = seed' ! (i mod n)" and "i < 18"
  shows "seed_word seed m i = seed_word seed' n i"
  using assms(1) [of "4 * i"] assms(1) [of "4 * i + 1"] assms(1) [of "4 * i + 2"]
    assms(1) [of "4 * i + 3"] assms(2)
  by (simp add: seed_word_def eval_nat_numeral)

section \<open>Properties\<close>

text \<open>Two objects that were given the same seed, with the encryption register of one equal to the
  decryption register of the other, form a channel: what one encrypts the other decrypts, for
  buffers of any length, and the two registers agree again afterwards.\<close>
theorem bf_decrypt_encrypt:
  assumes "bf_generateKey seed s0 = Some s" and "bf_generateKey seed t0 = Some t"
    and "mEn s = mDe t"
  shows "fst (bf_decrypt t (fst (bf_encrypt s buf))) = buf \<and>
    mEn (snd (bf_encrypt s buf)) = mDe (snd (bf_decrypt t (fst (bf_encrypt s buf))))"
  using bf.stream.roundtrip [OF assms(3), of t buf] bf.stream.sync_run [OF assms(3), of t buf]
  by (simp add: bf_encrypt_def bf_decrypt_def split_beta
      same_key_encipher [OF same_key_generated [OF assms(1,2)]])

lemma bf_decrypt_encrypt_witness:
  "\<exists>s. bf_generateKey [1, 2, 3] blowfish_new = Some s \<and>
     fst (bf_decrypt s (fst (bf_encrypt s [9, 9, 9]))) = [9, 9, 9]"
proof -
  obtain s where s: "bf_generateKey [1, 2, 3] blowfish_new = Some s"
    by (simp add: bf_generateKey_def Let_def bf_KEY_SIZE_def)
  then have "mEn s = mDe s"
    using generateKey_shape [OF s] by (simp add: blowfish_new_def)
  with bf_decrypt_encrypt [OF s s] s show ?thesis by blast
qed

text \<open>The buffers of a connection, one \<open>encrypt\<close> (\<open>decrypt\<close>) call each.\<close>

fun bf_encrypt_all :: "blowfish \<Rightarrow> u8 list list \<Rightarrow> u8 list list" where
  "bf_encrypt_all s [] = []"
| "bf_encrypt_all s (m # ms) = (let (c, s') = bf_encrypt s m in c # bf_encrypt_all s' ms)"

fun bf_decrypt_all :: "blowfish \<Rightarrow> u8 list list \<Rightarrow> u8 list list" where
  "bf_decrypt_all s [] = []"
| "bf_decrypt_all s (m # ms) = (let (c, s') = bf_decrypt s m in c # bf_decrypt_all s' ms)"

lemma encrypt_all_run: "bf_encrypt_all s ms = run_msgs (cfb_encrypt_byte (bf_encipher s)) (mEn s) ms"
  by (induction ms arbitrary: s) (simp_all add: bf_encrypt_def split_beta)

lemma decrypt_all_run: "bf_decrypt_all s ms = run_msgs (cfb_decrypt_byte (bf_encipher s)) (mDe s) ms"
  by (induction ms arbitrary: s) (simp_all add: bf_decrypt_def split_beta)

lemma bf_rechunk:
  assumes "same_key s t" and "mEn s = mDe t" and "concat cs = concat (bf_encrypt_all s ms)"
  shows "concat (bf_decrypt_all t cs) = concat ms"
  using bf.stream.rechunk [OF assms(2), of cs t ms] assms(3)
  by (simp add: encrypt_all_run decrypt_all_run same_key_encipher [OF assms(1)])

text \<open>C39: The receiver may be handed the encrypted stream in other pieces than it was produced in:
  the concatenation of what it decrypts is the concatenation of what was sent.\<close>
theorem bf_stream_rechunk:
  assumes "same_key s t" and "mEn s = mDe t" and "concat cs = concat (bf_encrypt_all s ms)"
  shows "concat (bf_decrypt_all t cs) = concat ms"
  by (rule bf_rechunk [OF assms])

lemma bf_stream_rechunk_witness:
  "concat (bf_decrypt_all blowfish_new [concat (bf_encrypt_all blowfish_new [[1, 2], [3]])]) = [1, 2, 3]"
  using bf_stream_rechunk [of blowfish_new blowfish_new "[concat (bf_encrypt_all blowfish_new [[1, 2], [3]])]"
      "[[1, 2], [3]]"]
  by (simp add: same_key_def blowfish_new_def)

text \<open>On every block, \<open>decipher\<close> and \<open>encipher\<close> are inverse to each other.\<close>
theorem bf_block_inverse:
  assumes "bf_ok s" and "length b = BLOCK_SIZE"
  shows "bf_decipher s (bf_encipher s b) = b \<and> bf_encipher s (bf_decipher s b) = b"
proof -
  have P: "length (mP s) = bf_ROUNDS + 2" using assms(1) by (simp add: bf_ok_def)
  have b: "length b = 8" using assms(2) by (simp add: BLOCK_SIZE_def)
  have "put32 (put32 (put32 (put32 b 0 v) 1 w) 0 (get32 b 0)) 1 (get32 b 1) = b" for v w
    using block_write_eq [of "put32 (put32 b 0 v) 1 w" b] block_from_words [OF b] b by simp
  then show ?thesis
    using words_inverse [OF P, of "bf_F (mS s)" "(get32 b 0, get32 b 1)"] b
    by (simp add: bf_encipher_def bf_decipher_def split_beta wire_simps)
qed

lemma bf_block_inverse_witness:
  "bf_decipher blowfish_new (bf_encipher blowfish_new [1, 2, 3, 4, 5, 6, 7, 8]) = [1, 2, 3, 4, 5, 6, 7, 8]"
  by (rule bf_block_inverse [THEN conjunct1]) (simp_all add: bf_new_ok BLOCK_SIZE_def)

text \<open>A key can be generated from every non-empty seed; the tables keep their sizes, and the
  feedback registers with their positions are left as they were.\<close>
theorem bf_generateKey_ok:
  assumes "seed \<noteq> []" and "bf_ok s"
  shows "\<exists>s'. bf_generateKey seed s = Some s' \<and> bf_ok s' \<and> mEn s' = mEn s \<and> mDe s' = mDe s"
proof -
  obtain s' where s': "bf_generateKey seed s = Some s'"
    using assms(1) by (auto simp: bf_generateKey_def Let_def bf_KEY_SIZE_def)
  then show ?thesis using generateKey_shape [OF s'] assms(2) by (simp add: bf_ok_def)
qed

lemma bf_generateKey_ok_witness:
  "\<exists>s'. bf_generateKey [1] blowfish_new = Some s' \<and> bf_ok s' \<and> mEn s' = mEn blowfish_new \<and>
     mDe s' = mDe blowfish_new"
  by (rule bf_generateKey_ok) (simp_all add: bf_new_ok)

text \<open>Only the first 72 bytes of the cyclic repetition of a seed matter: two seeds that repeat to
  the same 72 bytes give the same key.\<close>
theorem bf_generateKey_cyclic:
  assumes "seed \<noteq> []" and "seed' \<noteq> []"
    and "\<And>i. i < 72 \<Longrightarrow> seed ! (i mod min (length seed) 72) = seed' ! (i mod min (length seed') 72)"
  shows "bf_generateKey seed s = bf_generateKey seed' s"
proof -
  have "seed_word seed (min (length seed) 72) i = seed_word seed' (min (length seed') 72) i"
    if "i < bf_ROUNDS + 2" for i
    using assms(3) that by (intro seed_word_cong) (simp_all add: bf_ROUNDS_def)
  then have eq: "map (\<lambda>i. bf_P ! i XOR seed_word seed (min (length seed) 72) i) [0..<bf_ROUNDS + 2]
      = map (\<lambda>i. bf_P ! i XOR seed_word seed' (min (length seed') 72) i) [0..<bf_ROUNDS + 2]"
    by (simp cong: map_cong del: upt_Suc add_2_eq_Suc')
  show ?thesis
    using assms(1,2) unfolding bf_generateKey_def bf_KEY_SIZE_def Let_def eq by simp
qed

lemma bf_generateKey_cyclic_witness:
  "bf_generateKey [7] blowfish_new = bf_generateKey [7, 7] blowfish_new"
  by (rule bf_generateKey_cyclic) (simp_all add: nth_Cons' mod_less)

end
