(* ===== verification/Cast5.thy ===== *)
theory Cast5
  imports ICipher Cast5Tables
begin

text \<open>
  CAST-128 in CFB64 mode (\<^verbatim>\<open>Security/Cryptography/cast5.cpp\<close>).  The key schedule is the
  straight-line code of \<open>generateKey\<close>; \<open>encipher\<close> is modelled with its rotating operator
  indices.  \<open>decipher\<close> is declared in the header and defined nowhere; the theory specifies the
  inverse of \<open>encipher\<close> and shows that it is one.
\<close>

definition cast_ROUNDS :: nat where "cast_ROUNDS = 16"
definition cast_KEY_SIZE :: nat where "cast_KEY_SIZE = 16"

record cast5 =
  mKey :: "u32 list"
  mShortKey :: bool
  mEn :: cfb_reg   \<comment> \<open>\<open>mEnIV\<close> and \<open>mEnNum\<close>\<close>
  mDe :: cfb_reg   \<comment> \<open>\<open>mDeIV\<close> and \<open>mDeNum\<close>\<close>

definition cast5_new :: cast5 where
  "cast5_new =
     \<lparr>mKey = replicate (cast_KEY_SIZE * 2) 0, mShortKey = False,
      mEn = \<lparr>reg_iv = replicate BLOCK_SIZE 0, reg_num = 0\<rparr>,
      mDe = \<lparr>reg_iv = replicate BLOCK_SIZE 0, reg_num = 0\<rparr>\<rparr>"

section \<open>Key schedule\<close>

text \<open>The local arrays \<open>X\<close>, \<open>Z\<close> (words) and \<open>x\<close>, \<open>z\<close> (their bytes, one per element).\<close>

record cast_tmp =
  t_XX :: "u32 list"
  t_ZZ :: "u32 list"
  t_x :: "u32 list"
  t_z :: "u32 list"

definition sbox :: "u32 list \<Rightarrow> u32 \<Rightarrow> u32" where
  "sbox S i = S ! unat i"

definition CAST_exp :: "u32 \<Rightarrow> u32 list \<Rightarrow> u32 list \<Rightarrow> nat \<Rightarrow> u32 list \<times> u32 list" where
  "CAST_exp l A a n =
     (A[n div 4 := l],
      a[n + 3 := l AND 0xFF, n + 2 := drop_bit 8 l AND 0xFF,
        n + 1 := drop_bit 16 l AND 0xFF, n := drop_bit 24 l AND 0xFF])"

definition exp_z :: "u32 \<Rightarrow> nat \<Rightarrow> cast_tmp \<Rightarrow> cast_tmp" where
  "exp_z l n t = (let (A, a) = CAST_exp l (t_ZZ t) (t_z t) n in t\<lparr>t_ZZ := A, t_z := a\<rparr>)"

definition exp_x :: "u32 \<Rightarrow> nat \<Rightarrow> cast_tmp \<Rightarrow> cast_tmp" where
  "exp_x l n t = (let (A, a) = CAST_exp l (t_XX t) (t_x t) n in t\<lparr>t_XX := A, t_x := a\<rparr>)"

definition expand_z :: "cast_tmp \<Rightarrow> cast_tmp" where
  "expand_z t0 =
     (let t1 = exp_z (t_XX t0 ! 0 XOR sbox cast_S4 (t_x t0 ! 13) XOR sbox cast_S5 (t_x t0 ! 15) XOR
              sbox cast_S6 (t_x t0 ! 12) XOR sbox cast_S7 (t_x t0 ! 14) XOR sbox cast_S6 (t_x t0 ! 8)) 0 t0;
          t2 = exp_z (t_XX t1 ! 2 XOR sbox cast_S4 (t_z t1 ! 0) XOR sbox cast_S5 (t_z t1 ! 2) XOR
              sbox cast_S6 (t_z t1 ! 1) XOR sbox cast_S7 (t_z t1 ! 3) XOR sbox cast_S7 (t_x t1 ! 10)) 4 t1;
          t3 = exp_z (t_XX t2 ! 3 XOR sbox cast_S4 (t_z t2 ! 7) XOR sbox cast_S5 (t_z t2 ! 6) XOR
              sbox cast_S6 (t_z t2 ! 5) XOR sbox cast_S7 (t_z t2 ! 4) XOR sbox cast_S4 (t_x t2 ! 9)) 8 t2;
          t4 = exp_z (t_XX t3 ! 1 XOR sbox cast_S4 (t_z t3 ! 10) XOR sbox cast_S5 (t_z t3 ! 9) XOR
              sbox cast_S6 (t_z t3 ! 11) XOR sbox cast_S7 (t_z t3 ! 8) XOR sbox cast_S5 (t_x t3 ! 11)) 12 t3
      in t4)"

definition expand_x :: "cast_tmp \<Rightarrow> cast_tmp" where
  "expand_x t0 =
     (let t1 = exp_x (t_ZZ t0 ! 2 XOR sbox cast_S4 (t_z t0 ! 5) XOR sbox cast_S5 (t_z t0 ! 7) XOR
              sbox cast_S6 (t_z t0 ! 4) XOR sbox cast_S7 (t_z t0 ! 6) XOR sbox cast_S6 (t_z t0 ! 0)) 0 t0;
          t2 = exp_x (t_ZZ t1 ! 0 XOR sbox cast_S4 (t_x t1 ! 0) XOR sbox cast_S5 (t_x t1 ! 2) XOR
              sbox cast_S6 (t_x t1 ! 1) XOR sbox cast_S7 (t_x t1 ! 3) XOR sbox cast_S7 (t_z t1 ! 2)) 4 t1;
          t3 = exp_x (t_ZZ t2 ! 1 XOR sbox cast_S4 (t_x t2 ! 7) XOR sbox cast_S5 (t_x t2 ! 6) XOR
              sbox cast_S6 (t_x t2 ! 5) XOR sbox cast_S7 (t_x t2 ! 4) XOR sbox cast_S4 (t_z t2 ! 1)) 8 t2;
          t4 = exp_x (t_ZZ t3 ! 3 XOR sbox cast_S4 (t_x t3 ! 10) XOR sbox cast_S5 (t_x t3 ! 9) XOR
              sbox cast_S6 (t_x t3 ! 11) XOR sbox cast_S7 (t_x t3 ! 8) XOR sbox cast_S5 (t_z t3 ! 3)) 12 t3
      in t4)"

definition keys_0_3 :: "cast_tmp \<Rightarrow> u32 list" where
  "keys_0_3 t =
     [sbox cast_S4 (t_z t ! 8) XOR sbox cast_S5 (t_z t ! 9) XOR sbox cast_S6 (t_z t ! 7) XOR
      sbox cast_S7 (t_z t ! 6) XOR sbox cast_S4 (t_z t ! 2),
      sbox cast_S4 (t_z t ! 10) XOR sbox cast_S5 (t_z t ! 11) XOR sbox cast_S6 (t_z t ! 5) XOR
      sbox cast_S7 (t_z t ! 4) XOR sbox cast_S5 (t_z t ! 6),
      sbox cast_S4 (t_z t ! 12) XOR sbox cast_S5 (t_z t ! 13) XOR sbox cast_S6 (t_z t ! 3) XOR
      sbox cast_S7 (t_z t ! 2) XOR sbox cast_S6 (t_z t ! 9),
      sbox cast_S4 (t_z t ! 14) XOR sbox cast_S5 (t_z t ! 15) XOR sbox cast_S6 (t_z t ! 1) XOR
      sbox cast_S7 (t_z t ! 0) XOR sbox cast_S7 (t_z t ! 12)]"

definition keys_4_7 :: "cast_tmp \<Rightarrow> u32 list" where
  "keys_4_7 t =
     [sbox cast_S4 (t_x t ! 3) XOR sbox cast_S5 (t_x t ! 2) XOR sbox cast_S6 (t_x t ! 12) XOR
      sbox cast_S7 (t_x t ! 13) XOR sbox cast_S4 (t_x t ! 8),
      sbox cast_S4 (t_x t ! 1) XOR sbox cast_S5 (t_x t ! 0) XOR sbox cast_S6 (t_x t ! 14) XOR
      sbox cast_S7 (t_x t ! 15) XOR sbox cast_S5 (t_x t ! 13),
      sbox cast_S4 (t_x t ! 7) XOR sbox cast_S5 (t_x t ! 6) XOR sbox cast_S6 (t_x t ! 8) XOR
      sbox cast_S7 (t_x t ! 9) XOR sbox cast_S6 (t_x t ! 3),
      sbox cast_S4 (t_x t ! 5) XOR sbox cast_S5 (t_x t ! 4) XOR sbox cast_S6 (t_x t ! 10) XOR
      sbox cast_S7 (t_x t ! 11) XOR sbox cast_S7 (t_x t ! 7)]"

definition keys_8_11 :: "cast_tmp \<Rightarrow> u32 list" where
  "keys_8_11 t =
     [sbox cast_S4 (t_z t ! 3) XOR sbox cast_S5 (t_z t ! 2) XOR sbox cast_S6 (t_z t ! 12) XOR
      sbox cast_S7 (t_z t ! 13) XOR sbox cast_S4 (t_z t ! 9),
      sbox cast_S4 (t_z t ! 1) XOR sbox cast_S5 (t_z t ! 0) XOR sbox cast_S6 (t_z t ! 14) XOR
      sbox cast_S7 (t_z t ! 15) XOR sbox cast_S5 (t_z t ! 12),
      sbox cast_S4 (t_z t ! 7) XOR sbox cast_S5 (t_z t ! 6) XOR sbox cast_S6 (t_z t ! 8) XOR
      sbox cast_S7 (t_z t ! 9) XOR sbox cast_S6 (t_z t ! 2),
      sbox cast_S4 (t_z t ! 5) XOR sbox cast_S5 (t_z t ! 4) XOR sbox cast_S6 (t_z t ! 10) XOR
      sbox cast_S7 (t_z t ! 11) XOR sbox cast_S7 (t_z t ! 6)]"

definition keys_12_15 :: "cast_tmp \<Rightarrow> u32 list" where
  "keys_12_15 t =
     [sbox cast_S4 (t_x t ! 8) XOR sbox cast_S5 (t_x t ! 9) XOR sbox cast_S6 (t_x t ! 7) XOR
      sbox cast_S7 (t_x t ! 6) XOR sbox cast_S4 (t_x t ! 3),
      sbox cast_S4 (t_x t ! 10) XOR sbox cast_S5 (t_x t ! 11) XOR sbox cast_S6 (t_x t ! 5) XOR
      sbox cast_S7 (t_x t ! 4) XOR sbox cast_S5 (t_x t ! 7),
      sbox cast_S4 (t_x t ! 12) XOR sbox cast_S5 (t_x t ! 13) XOR sbox cast_S6 (t_x t ! 3) XOR
      sbox cast_S7 (t_x t ! 2) XOR sbox cast_S6 (t_x t ! 8),
      sbox cast_S4 (t_x t ! 14) XOR sbox cast_S5 (t_x t ! 15) XOR sbox cast_S6 (t_x t ! 1) XOR
      sbox cast_S7 (t_x t ! 0) XOR sbox cast_S7 (t_x t ! 13)]"

text \<open>One pass of the \<open>for (;;)\<close> loop: sixteen sub-keys.  The loop is left after the second pass.\<close>

definition schedule_pass :: "cast_tmp \<Rightarrow> u32 list \<times> cast_tmp" where
  "schedule_pass t =
     (let t1 = expand_z t; t2 = expand_x t1; t3 = expand_z t2; t4 = expand_x t3
      in (keys_0_3 t1 @ keys_4_7 t2 @ keys_8_11 t3 @ keys_12_15 t4, t4))"

definition be_word :: "u32 list \<Rightarrow> nat \<Rightarrow> u32" where
  "be_word x i =
     (push_bit 24 (x ! i) OR push_bit 16 (x ! (i + 1)) OR push_bit 8 (x ! (i + 2)) OR x ! (i + 3))
       AND 0xFFFFFFFF"

text \<open>The last loop: masking and rotation keys side by side.\<close>

definition interleave_keys :: "u32 list \<Rightarrow> u32 list" where
  "interleave_keys k =
     concat (map (\<lambda>i. [k ! i, (k ! (i + cast_KEY_SIZE) + of_nat cast_KEY_SIZE) AND 0x1F])
                 [0..<cast_KEY_SIZE])"

definition cast_generateKey :: "u8 list \<Rightarrow> cast5 \<Rightarrow> cast5" where
  "cast_generateKey aSeed s =
     (let aLen = min (length aSeed) cast_KEY_SIZE;
          x = map ucast (take aLen aSeed) @ replicate (cast_KEY_SIZE - aLen) 0;
          t = \<lparr>t_XX = [be_word x 0, be_word x 4, be_word x 8, be_word x 12],
               t_ZZ = replicate 4 0, t_x = x, t_z = replicate cast_KEY_SIZE 0\<rparr>;
          (k1, t1) = schedule_pass t;
          (k2, t2) = schedule_pass t1
      in s\<lparr>mKey := interleave_keys (k1 @ k2),
           mShortKey := aLen \<le> 10,
           mEn := (mEn s)\<lparr>reg_num := 0\<rparr>, mDe := (mDe s)\<lparr>reg_num := 0\<rparr>\<rparr>)"

section \<open>The block cipher\<close>

text \<open>The last branch is an \<open>assert(false)\<close>; no caller reaches it.\<close>

definition CAST_op :: "u32 \<Rightarrow> u32 \<Rightarrow> nat \<Rightarrow> u32" where
  "CAST_op a b oper =
     (if oper = 0 then a + b else if oper = 1 then a - b else if oper = 2 then a XOR b else - 1)"

definition cast_rotl :: "u32 \<Rightarrow> u32 \<Rightarrow> u32" where
  "cast_rotl v n =
     push_bit (unat (n mod 32)) v OR drop_bit (32 - unat (n mod 32)) v"

text \<open>\<open>E_CAST\<close> returns the new \<open>t\<close> and the new \<open>lv\<close>, its two reference parameters it writes.\<close>

definition E_CAST :: "u32 list \<Rightarrow> nat \<Rightarrow> u32 \<Rightarrow> u32 \<Rightarrow> nat \<Rightarrow> nat \<Rightarrow> nat \<Rightarrow> u32 \<times> u32" where
  "E_CAST key n lv rv op1 op2 op3 =
     (let t = CAST_op (key ! (n * 2)) rv op1;
          t = cast_rotl t (key ! (n * 2 + 1));
          k = CAST_op (sbox cast_S0 (drop_bit 8 t AND 0xFF)) (sbox cast_S1 (t AND 0xFF)) op2;
          k = CAST_op k (sbox cast_S2 (drop_bit 24 t AND 0xFF)) op3;
          k = CAST_op k (sbox cast_S3 (drop_bit 16 t AND 0xFF)) op1
      in (t, lv XOR k))"

definition OPERATORS :: "nat list" where "OPERATORS = [2, 1, 0]"

text \<open>The round loop; its state is \<open>t\<close>, the two halves and the three operator indices.\<close>

fun cast_rounds :: "u32 list \<Rightarrow> nat \<Rightarrow> nat \<Rightarrow> u32 \<times> u32 \<times> u32 \<times> nat \<times> nat \<times> nat \<Rightarrow> u32 \<times> u32" where
  "cast_rounds key 0 i (t, lv, rv, op1, op2, op3) = (lv, rv)"
| "cast_rounds key (Suc n) i (t, lv, rv, op1, op2, op3) =
     (let (t', lv', rv') =
        (if i mod 2 = 0
         then (let (t', v) = E_CAST key i lv rv (OPERATORS ! op1) (OPERATORS ! op2) (OPERATORS ! op3)
               in (t', v, rv))
         else (let (t', v) = E_CAST key i rv lv (OPERATORS ! op1) (OPERATORS ! op2) (OPERATORS ! op3)
               in (t', lv, v)))
      in cast_rounds key n (i + 1)
           (t', lv', rv', (op1 + 1) mod 3, (op2 + 1) mod 3, (op3 + 1) mod 3))"

definition cast_encipher :: "cast5 \<Rightarrow> u8 list \<Rightarrow> u8 list" where
  "cast_encipher s block =
     (let rounds = (if mShortKey s then cast_ROUNDS - 4 else cast_ROUNDS);
          (lv, rv) = cast_rounds (mKey s) rounds 0 (0, get32 block 0, get32 block 1, 2, 0, 1)
      in put32 (put32 block 0 rv) 1 lv)"

section \<open>The stream operations\<close>

definition cast_encrypt :: "cast5 \<Rightarrow> u8 list \<Rightarrow> u8 list \<times> cast5" where
  "cast_encrypt s buf =
     (let (buf', r) = run_bytes (cfb_encrypt_byte (cast_encipher s)) (mEn s) buf
      in (buf', s\<lparr>mEn := r\<rparr>))"

definition cast_decrypt :: "cast5 \<Rightarrow> u8 list \<Rightarrow> u8 list \<times> cast5" where
  "cast_decrypt s buf =
     (let (buf', r) = run_bytes (cfb_decrypt_byte (cast_encipher s)) (mDe s) buf
      in (buf', s\<lparr>mDe := r\<rparr>))"

definition cast_setIVs :: "u8 list option \<Rightarrow> u8 list option \<Rightarrow> cast5 \<Rightarrow> cast5" where
  "cast_setIVs aEncIV aDecIV s =
     (let s1 = (case aEncIV of None \<Rightarrow> s
                | Some iv \<Rightarrow> s\<lparr>mEn := \<lparr>reg_iv = take BLOCK_SIZE iv, reg_num = 0\<rparr>\<rparr>)
      in case aDecIV of None \<Rightarrow> s1
         | Some iv \<Rightarrow> s1\<lparr>mDe := \<lparr>reg_iv = take BLOCK_SIZE iv, reg_num = 0\<rparr>\<rparr>)"

section \<open>Rounds and their inverse\<close>

text \<open>One round as a function of its number: it changes one half by a function of the other.\<close>

definition cast_step :: "u32 list \<Rightarrow> nat \<Rightarrow> u32 \<times> u32 \<Rightarrow> u32 \<times> u32" where
  "cast_step key i = (\<lambda>(lv, rv).
     let o1 = OPERATORS ! ((i + 2) mod 3); o2 = OPERATORS ! (i mod 3); o3 = OPERATORS ! ((i + 1) mod 3)
     in if i mod 2 = 0 then (snd (E_CAST key i lv rv o1 o2 o3), rv)
        else (lv, snd (E_CAST key i rv lv o1 o2 o3)))"

lemma E_CAST_involution: "snd (E_CAST key n (snd (E_CAST key n lv rv a b c)) rv a b c) = lv"
  by (simp add: E_CAST_def Let_def)

lemma cast_step_involution [simp]: "cast_step key i (cast_step key i p) = p"
  by (cases p) (simp add: cast_step_def Let_def E_CAST_involution)

lemma cast_rounds_Suc:
  "\<exists>t'. cast_rounds key (Suc n) i (t, lv, rv, (i + 2) mod 3, i mod 3, (i + 1) mod 3) =
     cast_rounds key n (Suc i)
       (t', fst (cast_step key i (lv, rv)), snd (cast_step key i (lv, rv)),
        (Suc i + 2) mod 3, Suc i mod 3, (Suc i + 1) mod 3)"
  by (simp add: cast_step_def Let_def split_beta mod_simps) blast

lemma cast_rounds_steps:
  "cast_rounds key n i (t, lv, rv, (i + 2) mod 3, i mod 3, (i + 1) mod 3)
    = fold (cast_step key) [i..<i + n] (lv, rv)"
proof (induction n arbitrary: i t lv rv)
  case (Suc n)
  have "[i..<i + Suc n] = i # [Suc i..<Suc i + n]" by (simp add: upt_rec del: upt_Suc)
  then have "fold (cast_step key) [i..<i + Suc n] (lv, rv)
      = fold (cast_step key) [Suc i..<Suc i + n] (cast_step key i (lv, rv))" by simp
  then show ?case
    using cast_rounds_Suc [of key n i t lv rv] Suc.IH by (metis prod.collapse)
qed simp

lemma cast_rounds_from_0:
  "cast_rounds key n 0 (t, lv, rv, 2, 0, 1) = fold (cast_step key) [0..<n] (lv, rv)"
  using cast_rounds_steps [of key n 0 t lv rv] by (simp add: numeral_2_eq_2)

lemma steps_inverse: "fold (cast_step key) (rev is) (fold (cast_step key) is p) = p"
  by (induction "is" arbitrary: p) simp_all

text \<open>The block function that undoes \<open>encipher\<close>: the same rounds, last one first.\<close>

definition cast_decipher :: "cast5 \<Rightarrow> u8 list \<Rightarrow> u8 list" where
  "cast_decipher s block =
     (let rounds = (if mShortKey s then cast_ROUNDS - 4 else cast_ROUNDS);
          (lv, rv) = fold (cast_step (mKey s)) (rev [0..<rounds]) (get32 block 1, get32 block 0)
      in put32 (put32 block 0 lv) 1 rv)"

lemma cast_encipher_steps:
  "cast_encipher s block =
     (let (lv, rv) = fold (cast_step (mKey s))
            [0..<(if mShortKey s then cast_ROUNDS - 4 else cast_ROUNDS)] (get32 block 0, get32 block 1)
      in put32 (put32 block 0 rv) 1 lv)"
  by (simp only: cast_encipher_def cast_rounds_from_0 Let_def)

lemma length_cast_encipher [simp, shape_simps]:
  "length (cast_encipher s b) = length b" "length (cast_decipher s b) = length b"
  by (simp_all add: cast_encipher_def cast_decipher_def split_beta Let_def)

lemma cast_encipher_regs [simp]:
  "cast_encipher (s\<lparr>mEn := r\<rparr>) = cast_encipher s" "cast_encipher (s\<lparr>mDe := q\<rparr>) = cast_encipher s"
  by (simp_all add: cast_encipher_def fun_eq_iff)

interpretation cast: cfb64 "cast_encipher s" for s
  by unfold_locales simp

section \<open>What key generation leaves\<close>

lemma schedule_pass_length: "length (fst (schedule_pass t)) = 16"
  by (simp add: schedule_pass_def Let_def keys_0_3_def keys_4_7_def keys_8_11_def keys_12_15_def)

lemma concat_pairs:
  "length (concat (map (\<lambda>i. [f i, g i]) [0..<n])) = 2 * n"
  "i < n \<Longrightarrow> concat (map (\<lambda>i. [f i, g i]) [0..<n]) ! (2 * i) = f i"
  "i < n \<Longrightarrow> concat (map (\<lambda>i. [f i, g i]) [0..<n]) ! (2 * i + 1) = g i"
proof -
  show len: "length (concat (map (\<lambda>i. [f i, g i]) [0..<n])) = 2 * n" for n
    by (induction n) simp_all
  show "i < n \<Longrightarrow> concat (map (\<lambda>i. [f i, g i]) [0..<n]) ! (2 * i) = f i"
    by (induction n) (auto simp: nth_append len less_Suc_eq)
  show "i < n \<Longrightarrow> concat (map (\<lambda>i. [f i, g i]) [0..<n]) ! (2 * i + 1) = g i"
    by (induction n) (auto simp: nth_append len less_Suc_eq)
qed

lemma and_1F_less: "unat ((w :: u32) AND 0x1F) < 32"
proof -
  have "w AND 0x1F = take_bit 5 w"
    by (simp add: take_bit_eq_mask mask_eq_exp_minus_1)
  then show ?thesis by (simp add: unsigned_take_bit_eq take_bit_nat_less_exp [of 5, simplified])
qed

lemma interleave_keys_shape:
  "length (interleave_keys k) = 32" "n < 16 \<Longrightarrow> unat (interleave_keys k ! (n * 2 + 1)) < 32"
  using concat_pairs(3) [of n 16 "\<lambda>i. k ! i" "\<lambda>i. (k ! (i + 16) + 16) AND 0x1F"]
  by (simp_all add: interleave_keys_def cast_KEY_SIZE_def concat_pairs(1) and_1F_less mult.commute
      del: upt_Suc)

text \<open>The operators are always one of the three of the algorithm.\<close>

lemma operators_valid: "OPERATORS ! (i mod 3) \<in> {0, 1, 2}"
proof -
  have "i mod 3 = 0 \<or> i mod 3 = 1 \<or> i mod 3 = 2" by presburger
  then show ?thesis by (auto simp: OPERATORS_def)
qed

section \<open>Properties\<close>

text \<open>\<open>encipher\<close> is a permutation of the blocks, for short and long keys: running its rounds
  backwards undoes it, on either side.\<close>
theorem cast_block_inverse:
  assumes "length b = BLOCK_SIZE"
  shows "cast_decipher s (cast_encipher s b) = b \<and> cast_encipher s (cast_decipher s b) = b"
proof -
  have b: "length b = 8" using assms by (simp add: BLOCK_SIZE_def)
  have w: "put32 (put32 (put32 (put32 b 0 v) 1 w) 0 (get32 b 0)) 1 (get32 b 1) = b" for v w
    using block_write_eq [of "put32 (put32 b 0 v) 1 w" b] block_from_words [OF b] b by simp
  let ?is = "[0..<(if mShortKey s then cast_ROUNDS - 4 else cast_ROUNDS)]"
  show ?thesis
    using steps_inverse [of "mKey s" ?is "(get32 b 0, get32 b 1)"]
      steps_inverse [of "mKey s" "rev ?is" "(get32 b 1, get32 b 0)"] b w
    by (simp add: cast_encipher_steps cast_decipher_def split_beta Let_def wire_simps)
qed

lemma cast_block_inverse_witness:
  "cast_decipher cast5_new (cast_encipher cast5_new [1, 2, 3, 4, 5, 6, 7, 8]) = [1, 2, 3, 4, 5, 6, 7, 8]"
  by (rule cast_block_inverse [THEN conjunct1]) (simp add: BLOCK_SIZE_def)

text \<open>Two objects keyed with the same seed whose opposite feedback vectors agree form a channel:
  the second decrypts what the first encrypts and their registers agree afterwards.  Unlike for
  Blowfish the positions need not agree before, since key generation resets them.\<close>
theorem cast_decrypt_encrypt:
  assumes "reg_iv (mEn s0) = reg_iv (mDe t0)"
    and "s = cast_generateKey seed s0" and "t = cast_generateKey seed t0"
  shows "fst (cast_decrypt t (fst (cast_encrypt s buf))) = buf \<and>
    mEn (snd (cast_encrypt s buf)) = mDe (snd (cast_decrypt t (fst (cast_encrypt s buf))))"
proof -
  have regs: "mEn s = mDe t"
    using assms by (simp add: cast_generateKey_def Let_def split_beta)
  have key: "cast_encipher s = cast_encipher t"
    using assms(2,3) by (simp add: cast_encipher_def cast_generateKey_def Let_def split_beta fun_eq_iff)
  show ?thesis
    using cast.stream.roundtrip [OF regs, of t buf] cast.stream.sync_run [OF regs, of t buf]
    by (simp add: cast_encrypt_def cast_decrypt_def split_beta key)
qed

lemma cast_decrypt_encrypt_witness:
  "fst (cast_decrypt (cast_generateKey [1, 2] cast5_new)
     (fst (cast_encrypt (cast_generateKey [1, 2] cast5_new) [9, 9]))) = [9, 9]"
  by (rule cast_decrypt_encrypt [OF _ refl refl, THEN conjunct1]) (simp add: cast5_new_def)

text \<open>Key generation always fills 32 key words, every rotation amount is below 32, the cipher runs
  twelve rounds exactly for seeds of at most ten bytes, and both positions are reset.\<close>
theorem cast_generateKey_shape:
  "length (mKey (cast_generateKey seed s)) = 32 \<and>
   (\<forall>n < 16. unat (mKey (cast_generateKey seed s) ! (n * 2 + 1)) < 32) \<and>
   (mShortKey (cast_generateKey seed s) \<longleftrightarrow> length seed \<le> 10) \<and>
   reg_num (mEn (cast_generateKey seed s)) = 0 \<and> reg_num (mDe (cast_generateKey seed s)) = 0"
  by (auto simp: cast_generateKey_def Let_def split_beta interleave_keys_shape [simplified] cast_KEY_SIZE_def)

lemma cast_generateKey_shape_witness:
  "unat (mKey (cast_generateKey [1] cast5_new) ! (3 * 2 + 1)) < 32"
  using cast_generateKey_shape [of "[1]" cast5_new] by (elim conjE allE [of _ 3]) simp

end
