(* ===== verification/Double.thy ===== *)
theory Double
  imports Prelude "HOL-Library.Log_Nat"
begin

text \<open>
  The \<^verbatim>\<open>double\<close> arithmetic of the code.  A value is a rational; \<open>rnd\<close> is the IEEE-754
  rounding of a result to 53 significant bits, ties to even, which every operation and every
  decimal constant of the code goes through.  All values of the modelled code lie well inside the
  exponent range, so overflow, underflow, infinities and NaN do not occur and are not modelled.
\<close>

section \<open>Rounding\<close>

text \<open>The binary exponent of a positive rational.\<close>

definition ilog2 :: "rat \<Rightarrow> int" where
  "ilog2 x =
     (let (a, b) = quotient_of x;
          k = int (floorlog 2 (nat a)) - int (floorlog 2 (nat b))
      in if 2 powi k \<le> x then k else k - 1)"

definition half_even :: "rat \<Rightarrow> int" where
  "half_even y =
     (let f = \<lfloor>y\<rfloor>; d = y - of_int f
      in if d < 1 / 2 then f else if 1 / 2 < d then f + 1 else if even f then f else f + 1)"

definition rnd_pos :: "rat \<Rightarrow> rat" where
  "rnd_pos x = (let u = 2 powi (ilog2 x - 52) in of_int (half_even (x / u)) * u)"

definition rnd :: "rat \<Rightarrow> rat" where
  "rnd x = (if x = 0 then 0 else if 0 < x then rnd_pos x else - rnd_pos (- x))"

text \<open>The conversion of a double to an integer type drops the fraction.\<close>

definition trunc :: "rat \<Rightarrow> int" where
  "trunc x = (if 0 \<le> x then \<lfloor>x\<rfloor> else - \<lfloor>- x\<rfloor>)"

section \<open>Laws\<close>

lemma two_powi_less: "i < j \<Longrightarrow> (2 :: rat) powi i < 2 powi j"
  by (rule power_int_strict_increasing) simp_all

lemma two_powi_le: "i \<le> j \<Longrightarrow> (2 :: rat) powi i \<le> 2 powi j"
  by (rule power_int_increasing) simp_all

lemma ilog2_bounds:
  assumes "0 < x"
  shows "2 powi (ilog2 x) \<le> x" and "x < 2 powi (ilog2 x + 1)"
proof -
  obtain a b where q: "quotient_of x = (a, b)" by fastforce
  have b: "0 < b" using quotient_of_denom_pos [OF q] .
  have x: "x = of_int a / of_int b" using quotient_of_div [OF q] .
  have a: "0 < a" using assms b by (simp add: x zero_less_divide_iff)
  define fa fb where "fa = floorlog 2 (nat a)" and "fb = floorlog 2 (nat b)"
  have pos: "0 < fa" "0 < fb" using a b by (auto simp: fa_def fb_def floorlog_def)
  have na: "(2::nat) ^ (fa - 1) \<le> nat a" "nat a < 2 ^ fa"
    using floorlog_bounds [of "nat a" 2] a by (auto simp: fa_def)
  have nb: "(2::nat) ^ (fb - 1) \<le> nat b" "nat b < 2 ^ fb"
    using floorlog_bounds [of "nat b" 2] b by (auto simp: fb_def)
  have ra: "(2::rat) ^ (fa - 1) \<le> of_int a" "of_int a < (2::rat) ^ fa"
    using na a by (metis of_int_of_nat_eq of_nat_le_iff of_nat_power of_nat_numeral nat_0_le order_less_imp_le,
      metis of_int_of_nat_eq of_nat_less_iff of_nat_power of_nat_numeral nat_0_le order_less_imp_le)
  have rb: "(2::rat) ^ (fb - 1) \<le> of_int b" "of_int b < (2::rat) ^ fb"
    using nb b by (metis of_int_of_nat_eq of_nat_le_iff of_nat_power of_nat_numeral nat_0_le order_less_imp_le,
      metis of_int_of_nat_eq of_nat_less_iff of_nat_power of_nat_numeral nat_0_le order_less_imp_le)
  let ?k = "int fa - int fb"
  have up: "x < 2 powi (?k + 1)"
  proof -
    have "x < 2 ^ fa / 2 ^ (fb - 1)"
      unfolding x using ra rb a b by (intro frac_less) auto
    also have "\<dots> = 2 powi (?k + 1)"
      using pos by (cases fb) (simp_all add: power_int_diff flip: power_int_of_nat)
    finally show ?thesis .
  qed
  have down: "2 powi (?k - 1) < x"
  proof -
    have "2 powi (?k - 1) = (2::rat) ^ (fa - 1) / 2 ^ fb"
      using pos by (cases fa) (simp_all add: power_int_diff flip: power_int_of_nat)
    also have "\<dots> < x"
      unfolding x using ra rb a b by (intro frac_less2) auto
    finally show ?thesis .
  qed
  have e: "ilog2 x = (if 2 powi ?k \<le> x then ?k else ?k - 1)"
    by (simp add: ilog2_def q fa_def fb_def)
  show "2 powi (ilog2 x) \<le> x" using e down by simp
  show "x < 2 powi (ilog2 x + 1)" using e up by (auto simp: not_le)
qed

lemma half_even_int [simp]: "half_even (of_int n) = n"
  by (simp add: half_even_def)

lemma half_even_floor: "\<lfloor>y\<rfloor> \<le> half_even y" "half_even y \<le> \<lfloor>y\<rfloor> + 1"
  by (simp_all add: half_even_def Let_def)

lemma half_even_mono: "x \<le> y \<Longrightarrow> half_even x \<le> half_even y"
proof (cases "\<lfloor>x\<rfloor> = \<lfloor>y\<rfloor>")
  case False
  assume "x \<le> y"
  with False have "\<lfloor>x\<rfloor> + 1 \<le> \<lfloor>y\<rfloor>" using floor_mono [of x y] by simp
  then show ?thesis using half_even_floor [of x] half_even_floor [of y] by simp
qed (auto simp: half_even_def Let_def)

lemma rnd_pos_at:
  assumes "0 < x"
  shows "2 powi (ilog2 x) \<le> rnd_pos x" and "rnd_pos x \<le> 2 powi (ilog2 x + 1)"
proof -
  let ?e = "ilog2 x" and ?u = "2 powi (ilog2 x - 52) :: rat"
  have u: "0 < ?u" by simp
  have lo: "2 powi ?e = of_int (2 ^ 52) * ?u" and hi: "2 powi (?e + 1) = of_int (2 ^ 53) * ?u"
    by (simp_all add: power_int_diff power_int_add)
  have "of_int (2 ^ 52) \<le> x / ?u" "x / ?u \<le> of_int (2 ^ 53)"
    using ilog2_bounds [OF assms] u lo hi by (simp_all add: pos_le_divide_eq pos_divide_le_eq)
  from half_even_mono [OF this(1)] half_even_mono [OF this(2)]
  have h: "2 ^ 52 \<le> half_even (x / ?u)" "half_even (x / ?u) \<le> 2 ^ 53"
    by (simp_all only: half_even_int)
  have "of_int (2 ^ 52) * ?u \<le> of_int (half_even (x / ?u)) * ?u"
    and "of_int (half_even (x / ?u)) * ?u \<le> of_int (2 ^ 53) * ?u"
    using h u by (auto simp only: mult_le_cancel_right_pos of_int_le_iff)
  then show "2 powi ?e \<le> rnd_pos x" "rnd_pos x \<le> 2 powi (?e + 1)"
    unfolding lo hi by (simp_all only: rnd_pos_def Let_def)
qed

lemma rnd_pos_positive: "0 < x \<Longrightarrow> 0 < rnd_pos x"
  using rnd_pos_at(1) [of x] by (meson less_le_trans zero_less_power_int zero_less_numeral)

lemma rnd_pos_mono:
  assumes "0 < x" and "x \<le> y"
  shows "rnd_pos x \<le> rnd_pos y"
proof (cases "ilog2 x = ilog2 y")
  case True
  have "x / 2 powi (ilog2 y - 52) \<le> y / 2 powi (ilog2 y - 52)"
    using assms by (simp add: divide_right_mono)
  then show ?thesis
    using half_even_mono by (simp add: rnd_pos_def Let_def True mult_right_mono)
next
  case False
  have "(2::rat) powi ilog2 x < 2 powi (ilog2 y + 1)"
    using ilog2_bounds [of x] ilog2_bounds [of y] assms by linarith
  then have "ilog2 x < ilog2 y + 1"
    using two_powi_le [of "ilog2 y + 1" "ilog2 x"] by linarith
  with False have "ilog2 x + 1 \<le> ilog2 y" by simp
  then have "(2::rat) powi (ilog2 x + 1) \<le> 2 powi ilog2 y" by (rule two_powi_le)
  then show ?thesis using rnd_pos_at [of x] rnd_pos_at [of y] assms by linarith
qed

lemma rnd_mono_pos: "0 \<le> x \<Longrightarrow> x \<le> y \<Longrightarrow> rnd x \<le> rnd y"
  using rnd_pos_mono [of x y] rnd_pos_positive [of y] by (auto simp: rnd_def)

lemma rnd_nonneg: "0 \<le> x \<Longrightarrow> 0 \<le> rnd x"
  using rnd_mono_pos [of 0 x] by (simp add: rnd_def)

lemma rnd_0 [simp]: "rnd 0 = 0"
  by (simp add: rnd_def)

text \<open>Numbers with at most 53 significant bits are represented exactly.\<close>

lemma rnd_dyadic:
  assumes "0 \<le> n" and "n < 2 ^ 53"
  shows "rnd (of_int n / 2 ^ k) = of_int n / 2 ^ k"
proof (cases "n = 0")
  case False
  let ?x = "of_int n / 2 ^ k :: rat"
  from False assms have pos: "0 < ?x" by simp
  let ?e = "ilog2 ?x"
  have "(2::rat) powi ?e < 2 powi (53 - int k)"
  proof -
    have "(of_int n :: rat) < of_int (2 ^ 53)" using assms(2) by (simp only: of_int_less_iff)
    then have "?x < 2 ^ 53 / 2 ^ k" by (simp add: divide_strict_right_mono)
    then show ?thesis using ilog2_bounds(1) [OF pos] by (simp add: power_int_diff)
  qed
  then have e: "?e - 52 \<le> - int k"
    using two_powi_le [of "53 - int k" ?e] by linarith
  have q: "?x / 2 powi (?e - 52) = of_int (n * 2 ^ nat (- int k - (?e - 52)))"
  proof -
    have "(2::rat) ^ nat (- int k - (?e - 52)) = 2 powi (- int k - (?e - 52))"
      using e by (simp add: power_int_def)
    also have "\<dots> = 2 powi (- int k) / 2 powi (?e - 52)" by (simp add: power_int_diff)
    finally show ?thesis by (simp add: power_int_minus divide_inverse)
  qed
  then have "rnd_pos ?x = of_int (n * 2 ^ nat (- int k - (?e - 52))) * 2 powi (?e - 52)"
    by (simp only: rnd_pos_def Let_def half_even_int)
  also have "\<dots> = ?x"
    using q by (metis nonzero_eq_divide_eq power_int_eq_0_iff zero_neq_numeral)
  finally show ?thesis using pos by (simp add: rnd_def)
qed simp

lemma rnd_int: "0 \<le> n \<Longrightarrow> n < 2 ^ 53 \<Longrightarrow> rnd (of_int n) = of_int n"
  using rnd_dyadic [of n 0] by simp

lemma rnd_1 [simp]: "rnd 1 = 1"
  using rnd_int [of 1] by simp

lemma trunc_nonneg: "0 \<le> x \<Longrightarrow> trunc x = \<lfloor>x\<rfloor>"
  by (simp add: trunc_def)

lemma trunc_int [simp]: "trunc (of_int n) = n"
  by (simp add: trunc_def)

lemma trunc_mono_pos: "0 \<le> x \<Longrightarrow> x \<le> y \<Longrightarrow> trunc x \<le> trunc y"
  by (simp add: trunc_def floor_mono)

lemma trunc_rnd_le:
  assumes "0 \<le> x" and "x \<le> of_int n" and "n < 2 ^ 53"
  shows "0 \<le> trunc (rnd x)" and "trunc (rnd x) \<le> n"
proof -
  have "0 \<le> n" using assms by (metis of_int_0_le_iff order_trans)
  then have "rnd x \<le> of_int n" using rnd_mono_pos [OF assms(1,2)] assms(3) by (simp add: rnd_int)
  then show "0 \<le> trunc (rnd x)" "trunc (rnd x) \<le> n"
    using rnd_nonneg [OF assms(1)] by (simp_all add: trunc_def floor_le_iff)
qed

end
