(* ===== verification/BaseFunc.thy ===== *)
theory BaseFunc
  imports Double
begin

text \<open>
  The free functions of \<^verbatim>\<open>basefunc.cpp\<close>: the pseudo-random generator, hexadecimal decoding and
  the checks on the strings clients send.  A C string is the list of its bytes, without the
  terminating zero.
\<close>

section \<open>Hexadecimal\<close>

definition char2int :: "u8 \<Rightarrow> u8" where
  "char2int c =
     (if 0x30 \<le> c \<and> c \<le> 0x39 then c - 0x30
      else if 0x41 \<le> c \<and> c \<le> 0x46 then c - 0x41 + 0x0A
      else if 0x61 \<le> c \<and> c \<le> 0x66 then c - 0x61 + 0x0A
      else 0)"

definition isxdigit :: "u8 \<Rightarrow> bool" where
  "isxdigit c \<longleftrightarrow> 0x30 \<le> c \<and> c \<le> 0x39 \<or> 0x41 \<le> c \<and> c \<le> 0x46 \<or> 0x61 \<le> c \<and> c \<le> 0x66"

text \<open>
  The loop of \<open>hex2bin\<close>, from the last digit to the first.  The counters are one above the
  code's: \<open>i\<close> is at the digit \<open>i - 1\<close>, \<open>j\<close> at the output byte \<open>j - 1\<close>.
\<close>

fun hex2bin_loop :: "u8 list \<Rightarrow> nat \<Rightarrow> nat \<Rightarrow> bool \<Rightarrow> u8 list \<Rightarrow> bool \<times> u8 list" where
  "hex2bin_loop s 0 j success out = (success, out)"
| "hex2bin_loop s (Suc i) j success out =
     (let success' =
        (if \<not> isxdigit (s ! i) \<or> (i > 0 \<and> \<not> isxdigit (s ! (i - 1))) then False else success);
        result = (if i \<noteq> 0 then char2int (s ! i) + char2int (s ! (i - 1)) * 0x10 else char2int (s ! i));
        out' = (if success' then out[j - 1 := result] else out)
      in hex2bin_loop s (i - 1) (j - 1) success' out')"

text \<open>Result, output buffer, and the number of bytes written to \<open>aOutLen\<close>.\<close>

definition hex2bin :: "u8 list \<Rightarrow> u8 list \<Rightarrow> bool \<times> u8 list \<times> nat" where
  "hex2bin aHexStr aOutBytes =
     (let len = length aHexStr;
          aOutLen = len div 2 + len mod 2;
          (success, out) = hex2bin_loop aHexStr len aOutLen True aOutBytes
      in (success, out, aOutLen))"

section \<open>Random numbers\<close>

text \<open>
  The seed is a 64-bit \<^verbatim>\<open>unsigned long\<close>, reduced modulo \<^verbatim>\<open>UINT_MAX\<close>; \<open>now\<close> is \<^verbatim>\<open>timeGetTime()\<close>,
  which becomes the seed when \<open>aReset\<close> is set.
\<close>

definition UINT_MAX :: u64 where "UINT_MAX = 0xFFFFFFFF"

definition next_seed :: "u64 \<Rightarrow> u64" where
  "next_seed seed = (seed * 134775813 + 1) mod UINT_MAX"

definition random1 :: "u64 \<Rightarrow> int \<Rightarrow> bool \<Rightarrow> u64 \<Rightarrow> int \<times> u64" where
  "random1 now aMax aReset seed0 =
     (let seed = next_seed (if aReset then now else seed0);
          i = rnd (of_int (uint seed) / of_int (uint UINT_MAX))
      in (trunc (rnd (of_int aMax * i)), seed))"

definition random2 :: "u64 \<Rightarrow> int \<Rightarrow> int \<Rightarrow> bool \<Rightarrow> u64 \<Rightarrow> int \<times> u64" where
  "random2 now aMin aMax0 aReset seed0 =
     (let aMax = aMax0 + 1;
          (r, seed) = random1 now aMax aReset seed0
      in (aMin + trunc (rnd (rnd (of_int r / of_int aMax) * of_int (aMax - aMin))), seed))"

text \<open>\<open>randomRate\<close>, over the two functions of libm it calls.\<close>

definition randomRate ::
  "(rat \<Rightarrow> rat) \<Rightarrow> (rat \<Rightarrow> rat) \<Rightarrow> u64 \<Rightarrow> rat \<Rightarrow> u64 \<Rightarrow> rat \<times> u64" where
  "randomRate fsin fsqrt now aRange seed0 =
     (let PI = rnd (31415926 / 10000000);
          (r, seed) = random1 now 999 False seed0;
          rand = r + 1;
          a = fsin (rnd (rnd (of_int rand * PI) / 1000));
          w = rnd (fsqrt (fsqrt a) * aRange)
      in (if rand \<ge> 90 then rnd (rnd (1 + aRange) - w) else rnd (rnd (1 - aRange) + w), seed))"

section \<open>Strings\<close>

text \<open>
  The test on the second byte of a pair is the conjunction the code has.
\<close>

fun isValidString_from :: "u8 list \<Rightarrow> bool" where
  "isValidString_from [] = True"
| "isValidString_from (c # cs) =
     (if 0x81 \<le> c \<and> c \<le> 0xFE then
        (case cs of [] \<Rightarrow> False
         | c2 # cs' \<Rightarrow>
             if c2 < 0x40 \<and> 0x7E < c2 \<and> c2 < 0x80 \<and> 0xFE < c2 then False
             else isValidString_from cs')
      else if c = 0x80 then False
      else if c < 0x20 then False
      else isValidString_from cs)"

definition isValidString :: "u8 list option \<Rightarrow> bool" where
  "isValidString s = (case s of None \<Rightarrow> False | Some cs \<Rightarrow> isValidString_from cs)"

definition msg_char_ok :: "u8 \<Rightarrow> bool" where
  "msg_char_ok c \<longleftrightarrow> \<not> c < 0x20 \<and> c \<notin> {0x5C, 0x27, 0x22}"

definition isValidMsgString :: "u8 list option \<Rightarrow> bool" where
  "isValidMsgString s =
     (case s of None \<Rightarrow> False | Some cs \<Rightarrow> list_all msg_char_ok cs \<and> isValidString s)"

definition name_char_ok :: "u8 \<Rightarrow> bool" where
  "name_char_ok c \<longleftrightarrow> \<not> c < 0x20 \<and>
     c \<notin> {0x20, 0x3B, 0x2C, 0x2F, 0x5C, 0x3D, 0x25, 0x40, 0x27, 0x22, 0x5B, 0x5D}"

text \<open>The literals of the code as bytes, and \<^verbatim>\<open>strstr(..) != nullptr\<close>.\<close>

definition bytes :: "string \<Rightarrow> u8 list" where
  "bytes = map (\<lambda>c. of_nat (of_char c))"

fun is_prefix :: "u8 list \<Rightarrow> u8 list \<Rightarrow> bool" where
  "is_prefix [] t = True"
| "is_prefix (x # xs) [] = False"
| "is_prefix (x # xs) (y # ys) \<longleftrightarrow> x = y \<and> is_prefix xs ys"

fun has_substr :: "u8 list \<Rightarrow> u8 list \<Rightarrow> bool" where
  "has_substr [] s = is_prefix s []"
| "has_substr (c # cs) s \<longleftrightarrow> is_prefix s (c # cs) \<or> has_substr cs s"

definition isValidNameString :: "u8 list option \<Rightarrow> bool" where
  "isValidNameString s =
     (case s of None \<Rightarrow> False
      | Some cs \<Rightarrow>
          list_all name_char_ok cs \<and> cs \<noteq> bytes ''None'' \<and>
          \<not> has_substr cs (bytes ''GM'') \<and> \<not> has_substr cs (bytes ''gm'') \<and>
          \<not> has_substr cs (bytes ''PM'') \<and> \<not> has_substr cs (bytes ''pm'') \<and>
          \<not> has_substr cs (bytes ''SYSTEM'') \<and> \<not> has_substr cs (bytes ''system'') \<and>
          \<not> has_substr cs (bytes ''NPC'') \<and> \<not> has_substr cs (bytes ''npc'') \<and>
          isValidString s)"

section \<open>Hexadecimal round trip\<close>

definition hex_digit :: "u8 \<Rightarrow> u8" where
  "hex_digit n = (if n < 10 then 0x30 + n else 0x41 + (n - 10))"

text \<open>The bytes in upper-case hexadecimal, most significant digit first.\<close>

definition hex_string :: "u8 list \<Rightarrow> u8 list" where
  "hex_string bs = concat (map (\<lambda>b. [hex_digit (b div 16), hex_digit (b mod 16)]) bs)"

lemma length_hex_string [simp]: "length (hex_string bs) = 2 * length bs"
  by (induction bs) (simp_all add: hex_string_def)

lemma hex_string_nth:
  "i < length bs \<Longrightarrow> hex_string bs ! (2 * i) = hex_digit (bs ! i div 16)"
  "i < length bs \<Longrightarrow> hex_string bs ! (2 * i + 1) = hex_digit (bs ! i mod 16)"
proof (induction bs arbitrary: i)
  case (Cons b bs)
  have s: "hex_string (b # bs) = hex_digit (b div 16) # hex_digit (b mod 16) # hex_string bs"
    by (simp add: hex_string_def)
  { case 1 with Cons.IH(1) [of "i - 1"] show ?case by (cases i) (simp_all add: s) }
  { case 2 with Cons.IH(2) [of "i - 1"] show ?case by (cases i) (simp_all add: s) }
qed simp_all

lemma hex_digit_cases:
  assumes "n < 16"
  shows "isxdigit (hex_digit n)" and "char2int (hex_digit n) = n"
proof -
  obtain k where k: "n = of_nat k" "k < 16"
    using assms by (intro that [of "unat n"]) (simp_all add: word_less_nat_alt)
  have "list_all (\<lambda>k. isxdigit (hex_digit (of_nat k)) \<and> char2int (hex_digit (of_nat k)) = of_nat k) [0..<16]"
    by code_simp
  then have "isxdigit (hex_digit n) \<and> char2int (hex_digit n) = n"
    using k by (auto simp: list_all_iff)
  then show "isxdigit (hex_digit n)" "char2int (hex_digit n) = n" by simp_all
qed

lemma hex_byte:
  fixes b :: u8
  shows "b div 16 < 16" and "b mod 16 < 16" and "b mod 16 + b div 16 * 16 = b"
proof -
  have "unat b < 256" using unsigned_less [of b] by simp
  then show "b div 16 < 16" by (simp add: word_less_nat_alt unat_div)
  show "b mod 16 < 16" by (simp add: word_less_nat_alt unat_mod)
  show "b mod 16 + b div 16 * 16 = b" by (metis add.commute word_mod_div_equality)
qed

lemma hex2bin_loop_hex_string:
  "n \<le> length bs \<Longrightarrow> length bs \<le> length out \<Longrightarrow>
   hex2bin_loop (hex_string bs) (2 * n) n True out = (True, take n bs @ drop n out)"
proof (induction n arbitrary: out)
  case (Suc n)
  let ?out = "out[n := bs ! n]"
  have "hex2bin_loop (hex_string bs) (2 * Suc n) (Suc n) True out
      = hex2bin_loop (hex_string bs) (2 * n) n True ?out"
    using Suc.prems hex_string_nth [of n bs] hex_digit_cases [of "bs ! n div 16"]
      hex_digit_cases [of "bs ! n mod 16"] hex_byte [of "bs ! n"] by (simp add: Let_def)
  also have "\<dots> = (True, take n bs @ drop n ?out)"
    using Suc by simp
  also have "drop n ?out = bs ! n # drop (Suc n) out"
    using Suc.prems Cons_nth_drop_Suc [of n ?out] by simp
  finally show ?case
    using Suc.prems by (simp add: take_Suc_conv_app_nth)
qed simp

section \<open>Bounds of the generator\<close>

lemma next_seed_less: "uint (next_seed s) < 2 ^ 32 - 1"
  by (simp add: next_seed_def UINT_MAX_def uint_mod)

lemma uint_UINT_MAX: "uint UINT_MAX = 4294967295"
  by (simp add: UINT_MAX_def)

text \<open>The fraction of the generator stays below one, even after rounding.\<close>

lemma fraction_bounds:
  "0 \<le> rnd (of_int (uint (next_seed s)) / of_int (uint UINT_MAX))"
  "rnd (of_int (uint (next_seed s)) / of_int (uint UINT_MAX)) \<le> 1 - 1 / 2 ^ 33"
proof -
  let ?x = "of_int (uint (next_seed s)) / of_int (uint UINT_MAX) :: rat"
  have x: "0 \<le> ?x"
    by (intro divide_nonneg_nonneg) (simp_all only: of_int_0_le_iff uint_ge_0)
  then show "0 \<le> rnd ?x" by (rule rnd_nonneg)
  have "of_int (uint (next_seed s)) \<le> (of_int (2 ^ 32 - 2) :: rat)"
    using next_seed_less [of s] by (subst of_int_le_iff) simp
  then have "?x \<le> 1 - 1 / 2 ^ 33"
    unfolding uint_UINT_MAX by (simp add: field_simps)
  then have "rnd ?x \<le> rnd (1 - 1 / 2 ^ 33)" by (rule rnd_mono_pos [OF x])
  also have "rnd (1 - 1 / 2 ^ 33) = 1 - 1 / 2 ^ 33"
    using rnd_dyadic [of "2 ^ 33 - 1" 33] by simp
  finally show "rnd ?x \<le> 1 - 1 / 2 ^ 33" .
qed

lemma random1_bounds:
  assumes "0 < m" and "m \<le> 2 ^ 20"
  shows "0 \<le> fst (random1 now m r s)" and "fst (random1 now m r s) < m"
proof -
  define i where "i = rnd (of_int (uint (next_seed (if r then now else s))) / of_int (uint UINT_MAX))"
  have i: "0 \<le> i" "i \<le> 1 - 1 / 2 ^ 33" using fraction_bounds by (auto simp: i_def)
  have f: "fst (random1 now m r s) = trunc (rnd (of_int m * i))"
    by (simp add: random1_def i_def Let_def)
  have lo: "0 \<le> of_int m * i" using assms(1) i(1) by simp
  show "0 \<le> fst (random1 now m r s)"
    using rnd_nonneg [OF lo] by (simp add: f trunc_def)
  have "of_int m * i \<le> of_int m - of_int m / 2 ^ 33"
    using mult_left_mono [OF i(2), of "of_int m"] assms(1) by (simp add: algebra_simps)
  also have "\<dots> \<le> of_int m - 1 / 2 ^ 33"
    using assms(1) by (simp add: divide_right_mono)
  finally have "of_int m * i \<le> of_int (m * 2 ^ 33 - 1) / 2 ^ 33" by (simp add: field_simps)
  then have "rnd (of_int m * i) \<le> rnd (of_int (m * 2 ^ 33 - 1) / 2 ^ 33)"
    by (rule rnd_mono_pos [OF lo])
  also have "\<dots> = of_int (m * 2 ^ 33 - 1) / 2 ^ 33"
    using assms by (intro rnd_dyadic) simp_all
  also have "\<dots> < of_int m" by (simp add: field_simps)
  finally show "fst (random1 now m r s) < m"
    using rnd_nonneg [OF lo] by (simp add: f trunc_def floor_less_iff)
qed

lemma random2_bounds:
  assumes "0 \<le> a" and "a \<le> b" and "b < 2 ^ 20"
  shows "a \<le> fst (random2 now a b r s)" and "fst (random2 now a b r s) \<le> b"
proof -
  define v where "v = fst (random1 now (b + 1) r s)"
  have v: "0 \<le> v" "v < b + 1"
    using random1_bounds [of "b + 1" now r s] assms by (auto simp: v_def)
  define q where "q = rnd (of_int v / of_int (b + 1))"
  have f: "fst (random2 now a b r s) = a + trunc (rnd (q * of_int (b + 1 - a)))"
    by (simp add: random2_def Let_def split_beta v_def q_def)
  have q: "0 \<le> q" using v assms by (auto simp: q_def intro!: rnd_nonneg)
  then have lo: "0 \<le> q * of_int (b + 1 - a)" using assms by simp
  show "a \<le> fst (random2 now a b r s)"
    using rnd_nonneg [OF lo] by (simp add: f trunc_def)
  have "of_int v / of_int (b + 1) \<le> (of_int (2 ^ 21 - 1) / 2 ^ 21 :: rat)"
  proof -
    have "v * 2 ^ 21 \<le> (2 ^ 21 - 1) * (b + 1)" using v assms by simp
    then have "(of_int (v * 2 ^ 21) :: rat) \<le> of_int ((2 ^ 21 - 1) * (b + 1))"
      by (simp only: of_int_le_iff)
    then show ?thesis using assms by (simp add: field_simps)
  qed
  then have "q \<le> rnd (of_int (2 ^ 21 - 1) / 2 ^ 21)"
    unfolding q_def using v assms by (intro rnd_mono_pos) simp_all
  also have "\<dots> = of_int (2 ^ 21 - 1) / 2 ^ 21" by (rule rnd_dyadic) simp_all
  finally have "q * of_int (b + 1 - a) \<le> of_int (2 ^ 21 - 1) / 2 ^ 21 * of_int (b + 1 - a)"
    using assms by (intro mult_right_mono) simp_all
  also have "\<dots> = of_int ((2 ^ 21 - 1) * (b + 1 - a)) / 2 ^ 21" by simp
  finally have "rnd (q * of_int (b + 1 - a)) \<le> rnd (of_int ((2 ^ 21 - 1) * (b + 1 - a)) / 2 ^ 21)"
    by (rule rnd_mono_pos [OF lo])
  also have "\<dots> = of_int ((2 ^ 21 - 1) * (b + 1 - a)) / 2 ^ 21"
    using assms by (intro rnd_dyadic) simp_all
  also have "\<dots> < of_int (b + 1 - a)" using assms by (simp add: field_simps)
  finally have "trunc (rnd (q * of_int (b + 1 - a))) < b + 1 - a"
    using rnd_nonneg [OF lo] by (simp only: trunc_nonneg floor_less_iff)
  then show "fst (random2 now a b r s) \<le> b" by (simp add: f)
qed

section \<open>Properties\<close>

text \<open>Decoding the hexadecimal form of any bytes succeeds, writes exactly those bytes and reports
  their number, and leaves the rest of the output buffer as it was.\<close>
theorem hex2bin_hex_string:
  assumes "length bs \<le> length out"
  shows "hex2bin (hex_string bs) out = (True, bs @ drop (length bs) out, length bs)"
  using hex2bin_loop_hex_string [of "length bs" bs out] assms by (simp add: hex2bin_def Let_def)

lemma hex2bin_hex_string_witness:
  "hex2bin (hex_string [0xAB, 7]) [0, 0, 5] = (True, [0xAB, 7, 5], 2)"
  using hex2bin_hex_string [of "[0xAB, 7]" "[0, 0, 5]"] by simp

text \<open>A random number drawn between two bounds lies between them, both included, for every seed;
  the double arithmetic never rounds it out of the range.\<close>
theorem random_in_range:
  assumes "0 \<le> aMin" and "aMin \<le> aMax" and "aMax < 2 ^ 20"
  shows "aMin \<le> fst (random2 now aMin aMax aReset seed) \<and> fst (random2 now aMin aMax aReset seed) \<le> aMax"
  using random2_bounds [OF assms] by simp

lemma random_in_range_witness:
  "0 \<le> fst (random2 0 0 100 False 3721) \<and> fst (random2 0 0 100 False 3721) \<le> 100"
  by (rule random_in_range) simp_all

text \<open>The check on the second byte of a two-byte character can never fail: any byte is accepted
  there, also those below 0x40, which the check means to reject.\<close>
theorem isValidString_second_byte:
  assumes "0x81 \<le> c" and "c \<le> 0xFE"
  shows "isValidString (Some (c # c2 # cs)) = isValidString (Some cs)"
proof -
  have "\<not> (c2 < 0x40 \<and> 0x7E < c2)" by (auto simp: word_less_nat_alt)
  then show ?thesis using assms by (auto simp: isValidString_def)
qed

lemma isValidString_second_byte_witness:
  "isValidString (Some [0x81, 0x01]) = isValidString (Some [])"
  by (rule isValidString_second_byte) simp_all

text \<open>A string accepted as a name is accepted as a message too, and never holds a quote, a
  backslash or a control character.\<close>
theorem valid_name_is_valid_msg:
  assumes "isValidNameString s"
  shows "isValidMsgString s"
proof -
  have "list_all msg_char_ok cs" if "list_all name_char_ok cs" for cs
    using that by (auto simp: list_all_iff name_char_ok_def msg_char_ok_def)
  then show ?thesis
    using assms by (auto simp: isValidNameString_def isValidMsgString_def split: option.splits)
qed

lemma valid_name_is_valid_msg_witness: "isValidMsgString (Some (bytes ''Bob''))"
  by (rule valid_name_is_valid_msg)
    (simp add: isValidNameString_def isValidString_def name_char_ok_def bytes_def)

end
