(* ===== verification/Item.thy ===== *)
theory Item
  imports BaseFunc
begin

text \<open>
  Items (\<^verbatim>\<open>item.h\<close>, \<^verbatim>\<open>item.cpp\<close>): the generic information of a type, the item record, the
  predicates that classify a type by its digits, prices, and the generation of dropped items.
  References to entities and players are their unique ids.
\<close>

section \<open>Data\<close>

record item_info =
  i_Id :: u32
  i_Name :: "u8 list"
  i_ReqProf :: u8
  i_ReqWeaponSkill :: u8
  i_ReqLevel :: u8
  i_ReqSex :: u8
  i_ReqForce :: u16
  i_ReqSpeed :: u16
  i_ReqHealth :: u16
  i_ReqSoul :: u16
  i_Monopoly :: u8
  i_Weight :: u16
  i_Price :: u32
  i_Task :: "nat option"
  i_MaxAtk :: u16
  i_MinAtk :: u16
  i_Defense :: u16      \<comment> \<open>signed\<close>
  i_Dexterity :: u16    \<comment> \<open>signed\<close>
  i_Dodge :: u16        \<comment> \<open>signed\<close>
  i_Life :: u16         \<comment> \<open>signed\<close>
  i_Mana :: u16         \<comment> \<open>signed\<close>
  i_Amount :: u16
  i_AmountLimit :: u16
  i_Ident :: u8
  i_Gem1 :: u8
  i_Gem2 :: u8
  i_Magic1 :: u8
  i_Magic2 :: u8
  i_Magic3 :: u8
  i_MagicAtk :: u16
  i_MagicDef :: u16
  i_AtkRange :: u16
  i_AtkSpeed :: u16
  i_FrayMode :: u8
  i_RepairMode :: u8
  i_TypeMask :: u8
  i_CPs :: u32

definition Item_Info :: item_info where
  "Item_Info =
     \<lparr>i_Id = 0, i_Name = bytes ''None'', i_ReqProf = 0, i_ReqWeaponSkill = 0, i_ReqLevel = 0,
      i_ReqSex = 0, i_ReqForce = 0, i_ReqSpeed = 0, i_ReqHealth = 0, i_ReqSoul = 0, i_Monopoly = 0,
      i_Weight = 0, i_Price = 0, i_Task = None, i_MaxAtk = 0, i_MinAtk = 0, i_Defense = 0,
      i_Dexterity = 0, i_Dodge = 0, i_Life = 0, i_Mana = 0, i_Amount = 0, i_AmountLimit = 0,
      i_Ident = 0, i_Gem1 = 0, i_Gem2 = 0, i_Magic1 = 0, i_Magic2 = 0, i_Magic3 = 0, i_MagicAtk = 0,
      i_MagicDef = 0, i_AtkRange = 0, i_AtkSpeed = 0, i_FrayMode = 0, i_RepairMode = 0,
      i_TypeMask = 0, i_CPs = 0\<rparr>"

text \<open>\<open>Item::Position\<close>; the code casts numbers of the database to it, so it is a number here.\<close>

type_synonym position = nat

definition POS_INVENTORY :: position where "POS_INVENTORY = 0"
definition POS_ARMET :: position where "POS_ARMET = 1"
definition POS_NECKLACE :: position where "POS_NECKLACE = 2"
definition POS_ARMOR :: position where "POS_ARMOR = 3"
definition POS_RWEAPON :: position where "POS_RWEAPON = 4"
definition POS_LWEAPON :: position where "POS_LWEAPON = 5"
definition POS_RING :: position where "POS_RING = 6"
definition POS_BOTTLE :: position where "POS_BOTTLE = 7"
definition POS_SHOES :: position where "POS_SHOES = 8"
definition POS_GARMENT :: position where "POS_GARMENT = 9"
definition MAX_EQUIPMENT :: nat where "MAX_EQUIPMENT = 10"

lemmas pos_defs =
  POS_INVENTORY_def POS_ARMET_def POS_NECKLACE_def POS_ARMOR_def POS_RWEAPON_def POS_LWEAPON_def
  POS_RING_def POS_BOTTLE_def POS_SHOES_def POS_GARMENT_def MAX_EQUIPMENT_def

record item =
  it_UID :: u32
  it_Info :: item_info
  it_Owner :: "u32 option"
  it_Player :: "u32 option"
  it_Amount :: u16
  it_AmountLimit :: u16
  it_Ident :: u8
  it_Position :: position
  it_Gem1 :: u8
  it_Gem2 :: u8
  it_Magic1 :: u8
  it_Magic2 :: u8
  it_Magic3 :: u8
  it_Bless :: u8
  it_Enchant :: u8
  it_Restrain :: u32
  it_Suspicious :: bool
  it_Locked :: bool
  it_Color :: u8

definition Item :: "u32 \<Rightarrow> item_info \<Rightarrow> item" where
  "Item aUID aInfo =
     \<lparr>it_UID = aUID, it_Info = aInfo, it_Owner = None, it_Player = None, it_Amount = 0,
      it_AmountLimit = 0, it_Ident = 0, it_Position = POS_INVENTORY, it_Gem1 = 0, it_Gem2 = 0,
      it_Magic1 = 0, it_Magic2 = 0, it_Magic3 = 0, it_Bless = 0, it_Enchant = 0, it_Restrain = 0,
      it_Suspicious = False, it_Locked = False, it_Color = 3\<rparr>"

section \<open>Classification\<close>

definition getItemSort :: "item \<Rightarrow> u32" where
  "getItemSort it = (i_Id (it_Info it) mod 10000000) div 100000"

definition is1HWeapon :: "item \<Rightarrow> bool" where "is1HWeapon it \<longleftrightarrow> getItemSort it = 4"
definition is2HWeapon :: "item \<Rightarrow> bool" where "is2HWeapon it \<longleftrightarrow> getItemSort it = 5"
definition isWeapon :: "item \<Rightarrow> bool" where "isWeapon it \<longleftrightarrow> is1HWeapon it \<or> is2HWeapon it"
definition isShield :: "item \<Rightarrow> bool" where "isShield it \<longleftrightarrow> getItemSort it = 9"
definition isArrow :: "item \<Rightarrow> bool" where "isArrow it = False"

definition getItemType :: "item \<Rightarrow> u32" where
  "getItemType it =
     (if is1HWeapon it \<or> is2HWeapon it
      then ((i_Id (it_Info it) mod 100000) div 1000) * 1000
      else ((i_Id (it_Info it) mod 100000) div 10000) * 10000)"

definition getItemSubType :: "item \<Rightarrow> u32" where
  "getItemSubType it = (i_Id (it_Info it) mod 1000000) div 1000"

definition isFinery :: "item \<Rightarrow> bool" where "isFinery it \<longleftrightarrow> \<not> isArrow it \<and> getItemSort it = 1"
definition isHelmet :: "item \<Rightarrow> bool" where "isHelmet it \<longleftrightarrow> isFinery it \<and> getItemType it = 10000"
definition isNecklace :: "item \<Rightarrow> bool" where "isNecklace it \<longleftrightarrow> isFinery it \<and> getItemType it = 20000"
definition isArmor :: "item \<Rightarrow> bool" where "isArmor it \<longleftrightarrow> isFinery it \<and> getItemType it = 30000"
definition isRing :: "item \<Rightarrow> bool" where "isRing it \<longleftrightarrow> isFinery it \<and> getItemType it = 50000"
definition isShoes :: "item \<Rightarrow> bool" where "isShoes it \<longleftrightarrow> isFinery it \<and> getItemType it = 60000"
definition isOther :: "item \<Rightarrow> bool" where "isOther it \<longleftrightarrow> getItemSort it = 7"
definition isExpend :: "item \<Rightarrow> bool" where
  "isExpend it \<longleftrightarrow> isArrow it \<or> (getItemSort it = 10 \<and> getItemType it < 50000)"
definition isSpell :: "item \<Rightarrow> bool" where "isSpell it \<longleftrightarrow> isExpend it \<and> getItemType it = 20000"
definition isEquipment :: "item \<Rightarrow> bool" where
  "isEquipment it \<longleftrightarrow> (\<not> isArrow it \<and> (getItemSort it \<ge> 1 \<and> getItemSort it \<le> 5)) \<or> isShield it"
definition isBow :: "item \<Rightarrow> bool" where
  "isBow it \<longleftrightarrow> getItemSort it = 5 \<and> getItemType it = 500"
definition isActionItem :: "item \<Rightarrow> bool" where
  "isActionItem it \<longleftrightarrow> (isOther it \<and> getItemType it = 20000) \<or> isSpell it"
definition isTaskItem :: "item \<Rightarrow> bool" where "isTaskItem it \<longleftrightarrow> isOther it \<and> getItemType it = 10000"
definition isGem :: "item \<Rightarrow> bool" where "isGem it \<longleftrightarrow> isOther it \<and> getItemType it = 0"
definition isGameCard :: "item \<Rightarrow> bool" where
  "isGameCard it \<longleftrightarrow> i_Id (it_Info it) = 780000 \<or> i_Id (it_Info it) = 780001"
definition isMedicine :: "item \<Rightarrow> bool" where
  "isMedicine it \<longleftrightarrow> isExpend it \<and> (getItemType it = 0 \<and> getItemSubType it \<le> 2)"
definition isPickAxe :: "item \<Rightarrow> bool" where
  "isPickAxe it \<longleftrightarrow> 470 = (i_Id (it_Info it) div 1000) mod 1000"

definition isHoldEnable :: "item \<Rightarrow> bool" where
  "isHoldEnable it \<longleftrightarrow> is1HWeapon it \<or> is2HWeapon it \<or> isShield it \<or> isArrow it"
definition isEquipEnable :: "item \<Rightarrow> bool" where "isEquipEnable it \<longleftrightarrow> isEquipment it \<or> isArrow it"
definition isEatEnable :: "item \<Rightarrow> bool" where "isEatEnable it = isMedicine it"
definition isPileEnable :: "item \<Rightarrow> bool" where
  "isPileEnable it \<longleftrightarrow> isExpend it \<and> i_AmountLimit (it_Info it) > 1"
definition isNeedIdent :: "item \<Rightarrow> bool" where
  "isNeedIdent it \<longleftrightarrow> (i_Ident (it_Info it) AND 1) \<noteq> 0"
definition isRepairEnable :: "item \<Rightarrow> bool" where
  "isRepairEnable it \<longleftrightarrow> \<not> isExpend it \<and> \<not> isNeedIdent it \<and> it_AmountLimit it \<ge> 100 \<and>
     \<not> (i_Ident (it_Info it) AND 2) \<noteq> 0"
definition isExchangeEnable :: "item \<Rightarrow> bool" where
  "isExchangeEnable it \<longleftrightarrow> (i_Monopoly (it_Info it) AND 0x01) = 0"
definition isStorageEnable :: "item \<Rightarrow> bool" where
  "isStorageEnable it \<longleftrightarrow> (i_Monopoly (it_Info it) AND 0x02) = 0"
definition isSellEnable :: "item \<Rightarrow> bool" where
  "isSellEnable it \<longleftrightarrow> (i_Monopoly (it_Info it) AND 0x20) = 0 \<and> \<not> isGameCard it"
definition isNeverDropWhenDead :: "item \<Rightarrow> bool" where
  "isNeverDropWhenDead it \<longleftrightarrow> (i_Monopoly (it_Info it) AND 0x10) \<noteq> 0"
definition isDiscardable :: "item \<Rightarrow> bool" where "isDiscardable it \<longleftrightarrow> \<not> isGameCard it"
definition isNeverWear :: "item \<Rightarrow> bool" where
  "isNeverWear it \<longleftrightarrow> (i_Ident (it_Info it) AND 4) \<noteq> 0"

section \<open>Prices\<close>

definition UNIDENT_SALE_FEE :: u32 where "UNIDENT_SALE_FEE = 1"

definition getSellPrice :: "item \<Rightarrow> u32" where
  "getSellPrice it =
     (if it_AmountLimit it = 0 then 0
      else
        let amount = (if it_Amount it > it_AmountLimit it then it_AmountLimit it else it_Amount it);
            price = word_of_int (trunc (rnd (of_int (uint (i_Price (it_Info it) div 3)) *
                       rnd (of_int (uint amount) / of_int (uint (it_AmountLimit it))))));
            price = (if isNeedIdent it then UNIDENT_SALE_FEE else price)
        in if isArrow it then 0 else price)"

text \<open>
  The product of price and lost durability is computed in 32 bits, as in the code.
\<close>

definition repair_base :: "item \<Rightarrow> u32" where
  "repair_base it =
     (let recover = (word_of_int (max 0 (uint (it_AmountLimit it) - uint (it_Amount it))) :: u16)
      in i_Price (it_Info it) * ucast recover div ucast (it_AmountLimit it))"

definition repair_rate :: "u32 \<Rightarrow> rat" where
  "repair_rate digit =
     (if digit = 9 then rnd (1125 / 1000)
      else if digit = 8 then rnd (975 / 1000)
      else if digit = 7 then rnd (900 / 1000)
      else if digit = 6 then rnd (825 / 1000)
      else rnd (750 / 1000))"

definition getRepairCost :: "item \<Rightarrow> u32" where
  "getRepairCost it =
     (let recover = (word_of_int (max 0 (uint (it_AmountLimit it) - uint (it_Amount it))) :: u16) in
      if recover = 0 then 0
      else
        let repairCost = (if it_AmountLimit it > 0 then of_int (uint (repair_base it)) else 0);
            repairCost = rnd (repairCost * repair_rate (i_Id (it_Info it) mod 10))
        in word_of_int (trunc (max 1 (of_int \<lfloor>repairCost\<rfloor>))))"

section \<open>Creation\<close>

text \<open>
  The item of a player: the database gives the unique id of the new row, or fails.
\<close>

definition createItem :: "u32 option \<Rightarrow> item_info \<Rightarrow> item option" where
  "createItem inserted aInfo =
     (let ident = (0 :: u8) AND NOT 1 in
      case inserted of
        None \<Rightarrow> None
      | Some uid \<Rightarrow>
          Some ((Item uid aInfo)\<lparr>it_Amount := i_AmountLimit aInfo, it_AmountLimit := i_AmountLimit aInfo,
                 it_Ident := ident, it_Position := POS_INVENTORY\<rparr>))"

text \<open>The drop levels of a monster, and the libm functions and clock of the random numbers.\<close>

record monster_drops =
  DropArmet :: u8
  DropNecklace :: u8
  DropArmor :: u8
  DropRing :: u8
  DropWeapon :: u8
  DropShield :: u8
  DropShoes :: u8

record rng_env =
  r_now :: u64
  r_sin :: "rat \<Rightarrow> rat"
  r_sqrt :: "rat \<Rightarrow> rat"

definition rand :: "rng_env \<Rightarrow> int \<Rightarrow> int \<Rightarrow> u64 \<Rightarrow> int \<times> u64" where
  "rand e a b = random2 (r_now e) a b False"

definition pick :: "rng_env \<Rightarrow> int list \<Rightarrow> u64 \<Rightarrow> int \<times> u64" where
  "pick e xs s = (let (k, s) = rand e 0 (int (length xs) - 1) s in (xs ! nat k, s))"

definition drop_quality :: "rng_env \<Rightarrow> u8 \<Rightarrow> u64 \<Rightarrow> u8 \<times> u64" where
  "drop_quality e aQuality s =
     (if aQuality = 0 then
        (let (r, s) = rand e 0 100 s
         in (if r \<ge> 0 \<and> r < 30 then 5 else if r \<ge> 30 \<and> r < 70 then 4 else 3, s))
      else (aQuality, s))"

definition weapon_sort :: "rng_env \<Rightarrow> u64 \<Rightarrow> int \<times> u64" where
  "weapon_sort e s =
     (let (rate, s) = rand e 0 100 s in
      if rate \<ge> 0 \<and> rate < 20 then (421, s)
      else if rate \<ge> 20 \<and> rate < 40 then (500, s)
      else if rate \<ge> 40 \<and> rate < 80 then
        pick e [410, 420, 421, 430, 440, 450, 460, 480, 481, 490] s
      else pick e [510, 530, 560, 561, 580, 900] s)"

text \<open>Sort, colour and level of the drop.\<close>

definition drop_sort :: "rng_env \<Rightarrow> monster_drops \<Rightarrow> u64 \<Rightarrow> (int \<times> int \<times> u8) \<times> u64" where
  "drop_sort e m s =
     (let (r, s) = rand e 0 1200 s in
      if r \<ge> 0 \<and> r < 20 then ((160, 0, DropShoes m), s)
      else if r \<ge> 20 \<and> r < 50 then
        (let (srt, s) = pick e [120, 121] s in ((srt, 0, DropNecklace m), s))
      else if r \<ge> 50 \<and> r < 100 then
        (let (srt, s) = pick e [150, 151, 152] s in ((srt, 0, DropRing m), s))
      else if r \<ge> 100 \<and> r < 400 then
        (let (srt, s) = pick e [111, 112, 113, 114, 117, 118] s in
         if srt \<le> 118 then (let (c, s) = rand e 0 6 s in ((srt, c + 3, DropArmet m), s))
         else ((srt, 0, DropArmet m), s))
      else if r \<ge> 400 \<and> r < 700 then
        (let (srt, s) = pick e [130, 131, 132, 133, 134] s;
             (c, s) = rand e 0 6 s in ((srt, c + 3, DropArmor m), s))
      else
        (let (srt, s) = weapon_sort e s in
         if srt = 900 then (let (c, s) = rand e 0 6 s in ((srt, c + 3, DropShield m), s))
         else ((srt, 0, DropWeapon m), s)))"

definition drop_level :: "rng_env \<Rightarrow> int \<Rightarrow> u8 \<Rightarrow> u64 \<Rightarrow> u8 \<times> u64" where
  "drop_level e srt lev s =
     (let (rate, s) = rand e 0 100 s in
      if rate < 50 then
        (let (r, s) = rand e 0 (uint lev div 2) s;
             l = word_of_int (r + uint lev div 3) :: u8
         in (if l \<ge> 1 then l - 1 else l, s))
      else if rate \<ge> 80 then
        (if (srt \<ge> 110 \<and> srt \<le> 114) \<or> (srt \<ge> 130 \<and> srt \<le> 134) \<or> (srt \<ge> 900 \<and> srt \<le> 999)
         then (word_of_int (min (uint lev + 1) 9), s)
         else (word_of_int (min (uint lev + 1) 23), s))
      else (lev, s))"

definition drop_type :: "int \<Rightarrow> int \<Rightarrow> u8 \<Rightarrow> u8 \<Rightarrow> u32" where
  "drop_type srt color lev quality =
     word_of_int (srt * 1000 + color * 100 + uint lev * 10 + uint quality)"

definition at_least_one :: "u16 \<Rightarrow> u16" where
  "at_least_one n = (if n < 1 then 1 else n)"

text \<open>
  The durability.  A double too large for 16 bits is undefined in C++ when converted; here it is
  taken modulo \<open>2 ^ 16\<close>.
\<close>

definition drop_limit :: "rng_env \<Rightarrow> item_info \<Rightarrow> u64 \<Rightarrow> u16 \<times> u64" where
  "drop_limit e info s =
     (let (rate, s) = randomRate (r_sin e) (r_sqrt e) (r_now e) (rnd (3 / 10)) s
      in (at_least_one (word_of_int (trunc (rnd (of_int (uint (i_AmountLimit info)) * rate)))), s))"

definition valued_amount :: "u32 \<Rightarrow> item_info \<Rightarrow> u16 \<Rightarrow> u16" where
  "valued_amount aValue info limit =
     (let price = (if i_Price info = 0 then 1 else of_int (uint (i_Price info)));
          amount = word_of_int (trunc (rnd (of_int (3 * uint limit) *
            rnd (of_int (uint aValue) / price))))
      in at_least_one (if amount \<ge> limit then limit else amount))"

definition drop_amount :: "rng_env \<Rightarrow> u32 \<Rightarrow> u8 \<Rightarrow> item \<Rightarrow> u64 \<Rightarrow> item \<times> u64" where
  "drop_amount e aValue quality it s =
     (let (limit, s) = drop_limit e (it_Info it) s;
          it = it\<lparr>it_AmountLimit := limit\<rparr>
      in if quality > 5 then
           (let (r, s) = rand e 0 50 s
            in (it\<lparr>it_Amount := word_of_int (trunc (rnd (of_int (uint limit) *
                  rnd (of_int (50 + r) / 100))))\<rparr>, s))
         else (it\<lparr>it_Amount := valued_amount aValue (it_Info it) limit\<rparr>, s))"

definition drop_gems :: "rng_env \<Rightarrow> u32 \<Rightarrow> item \<Rightarrow> u64 \<Rightarrow> item \<times> u64" where
  "drop_gems e itemtype it s =
     (if itemtype \<ge> 400000 \<and> itemtype < 599999 then
        (let (rate, s) = rand e 0 100 s
         in (if rate < 5 then it\<lparr>it_Gem1 := 0xFF, it_Gem2 := 0xFF\<rparr>
             else if rate < 20 then it\<lparr>it_Gem1 := 0xFF\<rparr>
             else it, s))
      else (it, s))"

definition dropItem ::
  "rng_env \<Rightarrow> (u32 \<Rightarrow> item_info option) \<Rightarrow> u32 \<Rightarrow> monster_drops \<Rightarrow> u8 \<Rightarrow> u64 \<Rightarrow> item option \<times> u64" where
  "dropItem e getItemInfo aValue aMonster aQuality s =
     (let (quality, s) = drop_quality e aQuality s;
          ((srt, color, lev), s) = drop_sort e aMonster s
      in if lev = 99 then (None, s)
         else
           let (lev, s) = drop_level e srt lev s;
               itemtype = drop_type srt color lev quality
           in case getItemInfo itemtype of
                None \<Rightarrow> (None, s)
              | Some info \<Rightarrow>
                  let (it, s) = drop_amount e aValue quality (Item 0 info) s;
                      (it, s) = drop_gems e itemtype it s
                  in (Some it, s))"

section \<open>Facts on classes and prices\<close>

lemmas sort_defs =
  is1HWeapon_def is2HWeapon_def isWeapon_def isShield_def isArrow_def isFinery_def isOther_def

text \<open>The fit of an item to a slot, as \<open>equipItem\<close> tests it; an item fits at most one kind of slot.\<close>

definition fits_slot :: "item \<Rightarrow> position \<Rightarrow> bool" where
  "fits_slot it pos \<longleftrightarrow>
     pos = POS_ARMET \<and> isHelmet it \<or> pos = POS_NECKLACE \<and> isNecklace it \<or>
     pos = POS_ARMOR \<and> isArmor it \<or> pos = POS_RWEAPON \<and> is1HWeapon it \<or>
     pos = POS_LWEAPON \<and> (is1HWeapon it \<or> isShield it) \<or>
     pos = POS_RING \<and> isRing it \<or> pos = POS_SHOES \<and> isShoes it"

lemma u32_less_numeral: "unat (w mod (numeral k :: u32)) < unat (numeral k :: u32)" if "(numeral k :: u32) \<noteq> 0"
proof -
  have "0 < unat (numeral k :: u32)" using that by (metis gr0I unat_eq_zero)
  then show ?thesis by (simp add: unat_mod)
qed

lemma type_multiple: "is2HWeapon it \<Longrightarrow> 1000 dvd unat (getItemType it)"
proof -
  assume "is2HWeapon it"
  then have t: "getItemType it = ((i_Id (it_Info it) mod 100000) div 1000) * 1000"
    by (simp add: getItemType_def)
  have "unat (i_Id (it_Info it) mod 100000) < 100000"
    using u32_less_numeral [of "num.Bit0 num.One"] by (simp add: unat_mod)
  then have "unat ((i_Id (it_Info it) mod 100000) div 1000) * 1000 < 2 ^ 32"
    by (simp add: unat_div)
  then have "unat (getItemType it) = unat ((i_Id (it_Info it) mod 100000) div 1000) * 1000"
    unfolding t by (simp add: unat_word_ariths)
  then show ?thesis by simp
qed

text \<open>The double quotient of two durabilities is a fraction of one.\<close>

lemma ratio_bounds:
  fixes a b :: u16
  assumes "a \<le> b" and "b \<noteq> 0"
  shows "0 \<le> rnd (of_int (uint a) / of_int (uint b))" and "rnd (of_int (uint a) / of_int (uint b)) \<le> 1"
proof -
  have "0 < uint b" using assms(2) by (metis uint_0_iff uint_ge_0 order_le_less)
  moreover have "uint a \<le> uint b" using assms(1) by (simp add: word_le_def)
  moreover have "0 \<le> uint a" by (rule uint_ge_0)
  ultimately have q: "0 \<le> of_int (uint a) / (of_int (uint b) :: rat)"
      "of_int (uint a) / (of_int (uint b) :: rat) \<le> 1"
    by (simp_all only: divide_le_eq_1_pos of_int_le_iff of_int_0_le_iff of_int_0_less_iff
        divide_nonneg_nonneg)
  show "0 \<le> rnd (of_int (uint a) / of_int (uint b))" by (rule rnd_nonneg [OF q(1)])
  show "rnd (of_int (uint a) / of_int (uint b)) \<le> 1" using rnd_mono_pos [OF q] by simp
qed

lemma uint_word_of_int_le:
  assumes "0 \<le> n" and "n \<le> uint (w :: u32)"
  shows "uint (word_of_int n :: u32) = n"
  using assms uint_lt2p [of w] by (simp add: uint_word_of_int)

lemma scaled_price:
  fixes p :: u32
  assumes "0 \<le> r" and "r \<le> (1 :: rat)"
  shows "word_of_int (trunc (rnd (of_int (uint p) * r))) \<le> p"
proof -
  have p: "0 \<le> uint p" by (rule uint_ge_0)
  have "0 \<le> of_int (uint p) * r" "of_int (uint p) * r \<le> of_int (uint p)"
    using assms p by (simp_all only: mult_nonneg_nonneg of_int_0_le_iff mult_left_le)
  moreover have "uint p < 2 ^ 53" using uint_lt2p [of p] by simp
  ultimately have "0 \<le> trunc (rnd (of_int (uint p) * r))" "trunc (rnd (of_int (uint p) * r)) \<le> uint p"
    using trunc_rnd_le by blast+
  then show ?thesis by (simp only: word_le_def uint_word_of_int_le)
qed

section \<open>Properties\<close>

text \<open>The sale of an identified item never pays more than a third of its list price, whatever its
  durability fields hold; at full or excessive durability it pays exactly that; a broken item
  without durability limit pays nothing.\<close>
theorem sell_price_bounds:
  assumes "\<not> isNeedIdent it"
  shows "getSellPrice it \<le> i_Price (it_Info it) div 3 \<and>
    (it_AmountLimit it \<noteq> 0 \<and> it_AmountLimit it \<le> it_Amount it \<longrightarrow>
       getSellPrice it = i_Price (it_Info it) div 3) \<and>
    (it_AmountLimit it = 0 \<longrightarrow> getSellPrice it = 0)"
proof (cases "it_AmountLimit it = 0")
  case False
  let ?a = "if it_Amount it > it_AmountLimit it then it_AmountLimit it else it_Amount it"
  let ?p = "i_Price (it_Info it) div 3"
  have "?a \<le> it_AmountLimit it" by (simp add: not_less)
  note r = ratio_bounds [OF this False]
  have e: "getSellPrice it = word_of_int (trunc (rnd (of_int (uint ?p) *
      rnd (of_int (uint ?a) / of_int (uint (it_AmountLimit it))))))"
    using assms False unfolding getSellPrice_def isArrow_def Let_def by simp
  have "getSellPrice it = ?p" if "it_AmountLimit it \<le> it_Amount it"
  proof -
    from that have a: "?a = it_AmountLimit it" by simp
    have "(of_int (uint (it_AmountLimit it)) :: rat) \<noteq> 0"
      using False by (simp only: of_int_eq_0_iff uint_0_iff simp_thms)
    then have "rnd (of_int (uint ?a) / of_int (uint (it_AmountLimit it))) = 1"
      unfolding a by (simp only: divide_self rnd_1 simp_thms)
    moreover have "rnd (of_int (uint ?p)) = of_int (uint ?p)"
      using uint_lt2p [of ?p] by (intro rnd_int uint_ge_0) simp
    ultimately show ?thesis unfolding e by (simp only: mult_1_right trunc_int word_of_int_uint)
  qed
  then show ?thesis
    using False scaled_price [OF r, of ?p] unfolding e by simp
qed (simp add: getSellPrice_def)

lemma sell_price_bounds_witness:
  "getSellPrice ((Item 1 (Item_Info\<lparr>i_Price := 900\<rparr>))\<lparr>it_AmountLimit := 10, it_Amount := 20\<rparr>) = 300"
  using sell_price_bounds [of "(Item 1 (Item_Info\<lparr>i_Price := 900\<rparr>))\<lparr>it_AmountLimit := 10, it_Amount := 20\<rparr>"]
  by (simp add: isNeedIdent_def Item_def Item_Info_def)

text \<open>The product of price and lost durability wraps around at 32 bits: of two items of the same type
  (price 1000000, durability limit 10000) the one that lost 4294 points costs 322050 to repair, the
  one that lost 4295 points costs 2.\<close>
theorem repair_cost_wraps:
  "getRepairCost ((Item 1 (Item_Info\<lparr>i_Id := 410035, i_Price := 1000000\<rparr>))
      \<lparr>it_AmountLimit := 10000, it_Amount := 5706\<rparr>) = 322050 \<and>
   getRepairCost ((Item 1 (Item_Info\<lparr>i_Id := 410035, i_Price := 1000000\<rparr>))
      \<lparr>it_AmountLimit := 10000, it_Amount := 5705\<rparr>) = 2"
proof -
  have r: "rnd (3 / 4) = 3 / 4" "rnd (9 / 4) = 9 / 4" "rnd 322050 = 322050"
    using rnd_dyadic [of 3 2] rnd_dyadic [of 9 2] rnd_int [of 322050] by simp_all
  have f: "\<lfloor>9 / 4 :: rat\<rfloor> = 2" by (simp add: floor_eq_iff)
  show ?thesis
    by (simp add: getRepairCost_def repair_base_def repair_rate_def Item_def Item_Info_def trunc_def
        Let_def r f)
qed

text \<open>An item is never recognised as a bow, so that arrows could not be held with one: the type of a
  two-handed weapon is a multiple of 1000, the test compares it with 500.\<close>
theorem never_bow: "\<not> isBow it"
proof
  assume b: "isBow it"
  then have "is2HWeapon it" "unat (getItemType it) = 500"
    by (simp_all add: isBow_def is2HWeapon_def)
  then show False using type_multiple [of it] by simp
qed

text \<open>A generated drop of ordinary quality has a durability between 1 and its limit, for every
  state of the random generator, every value and every item table.\<close>
theorem drop_amount_in_range:
  assumes "quality \<le> 5"
  shows "1 \<le> it_Amount (fst (drop_amount e v quality it s)) \<and>
    it_Amount (fst (drop_amount e v quality it s)) \<le> it_AmountLimit (fst (drop_amount e v quality it s))"
proof -
  have one: "1 \<le> at_least_one l" for l
    unfolding at_least_one_def by (metis not_less order_refl)
  have up: "1 \<le> l \<Longrightarrow> at_least_one (if a \<ge> l then l else a) \<le> l" for a l
    by (cases "l \<le> a"; cases "a < 1") (simp_all add: at_least_one_def not_le order_less_imp_le del: word_less_1)
  have limit: "1 \<le> fst (drop_limit e (it_Info it) s)"
    by (simp add: drop_limit_def split_beta one)
  have v: "1 \<le> valued_amount v i l" for i l
    unfolding valued_amount_def Let_def by (rule one)
  have "1 \<le> l \<Longrightarrow> valued_amount v i l \<le> l" for i l
    unfolding valued_amount_def Let_def by (rule up)
  then show ?thesis
    using assms limit v by (simp add: drop_amount_def split_beta Let_def not_less [symmetric])
qed

lemma drop_amount_in_range_witness:
  "1 \<le> it_Amount (fst (drop_amount \<lparr>r_now = 0, r_sin = id, r_sqrt = id\<rparr> 100 3 (Item 0 Item_Info) 3721))"
  using drop_amount_in_range [of 3 "\<lparr>r_now = 0, r_sin = id, r_sqrt = id\<rparr>" 100 "Item 0 Item_Info" 3721] by simp

end
