(* ===== verification/Timers.thy ===== *)
theory Timers
  imports Double
begin

text \<open>
  The interval timers (\<^verbatim>\<open>timer.h\<close> in seconds, \<^verbatim>\<open>mstimer.h\<close> in milliseconds).  \<^verbatim>\<open>clock()\<close>
  is an argument: \<open>now\<close> for \<^verbatim>\<open>Timer\<close> is \<^verbatim>\<open>clock() / CLOCKS_PER_SEC\<close>, \<open>ticks\<close> for
  \<^verbatim>\<open>MSTimer\<close> is \<^verbatim>\<open>clock()\<close> itself with \<^verbatim>\<open>CLOCKS_PER_SEC\<close> a million, as POSIX has it.
\<close>

section \<open>Seconds\<close>

record timer =
  mLastClock :: int
  mInterval :: u32

definition Timer :: "u32 \<Rightarrow> timer" where
  "Timer aInterval = \<lparr>mLastClock = 0, mInterval = aInterval\<rparr>"

definition update :: "int \<Rightarrow> timer \<Rightarrow> timer" where
  "update now t = t\<lparr>mLastClock := now\<rparr>"

definition start :: "int \<Rightarrow> u32 \<Rightarrow> timer \<Rightarrow> timer" where
  "start now aInterval t = update now (t\<lparr>mInterval := aInterval\<rparr>)"

definition clear :: "timer \<Rightarrow> timer" where
  "clear t = t\<lparr>mLastClock := 0, mInterval := 0\<rparr>"

definition isActive :: "timer \<Rightarrow> bool" where
  "isActive t \<longleftrightarrow> mLastClock t \<noteq> 0"

definition isTimeOut :: "int \<Rightarrow> timer \<Rightarrow> bool" where
  "isTimeOut now t \<longleftrightarrow> now \<ge> mLastClock t + uint (mInterval t)"

definition toNextTime :: "int \<Rightarrow> timer \<Rightarrow> bool \<times> timer" where
  "toNextTime now t = (if isTimeOut now t then (True, update now t) else (False, t))"

definition timeOver :: "int \<Rightarrow> timer \<Rightarrow> bool \<times> timer" where
  "timeOver now t = (if isActive t \<and> isTimeOut now t then (True, clear t) else (False, t))"

definition setInterval :: "u32 \<Rightarrow> timer \<Rightarrow> timer" where
  "setInterval aInterval t = t\<lparr>mInterval := aInterval\<rparr>"

section \<open>Milliseconds\<close>

record mstimer =
  msLastClock :: int
  msInterval :: u32

definition CLOCK_MULTIPLIER :: rat where "CLOCK_MULTIPLIER = rnd (1000 / 1000000)"

definition MSTimer :: "u32 \<Rightarrow> mstimer" where
  "MSTimer aInterval = \<lparr>msLastClock = 0, msInterval = aInterval\<rparr>"

definition ms_update :: "int \<Rightarrow> mstimer \<Rightarrow> mstimer" where
  "ms_update ticks t = t\<lparr>msLastClock := trunc (rnd (of_int ticks * CLOCK_MULTIPLIER))\<rparr>"

definition ms_start :: "int \<Rightarrow> u32 \<Rightarrow> mstimer \<Rightarrow> mstimer" where
  "ms_start ticks aInterval t = ms_update ticks (t\<lparr>msInterval := aInterval\<rparr>)"

definition ms_clear :: "mstimer \<Rightarrow> mstimer" where
  "ms_clear t = t\<lparr>msLastClock := 0, msInterval := 0\<rparr>"

definition ms_isActive :: "mstimer \<Rightarrow> bool" where
  "ms_isActive t \<longleftrightarrow> msLastClock t \<noteq> 0"

definition ms_isTimeOut :: "int \<Rightarrow> mstimer \<Rightarrow> bool" where
  "ms_isTimeOut ticks t \<longleftrightarrow>
     rnd (of_int ticks * CLOCK_MULTIPLIER) \<ge> rnd (of_int (msLastClock t + uint (msInterval t)))"

definition ms_toNextTime :: "int \<Rightarrow> mstimer \<Rightarrow> bool \<times> mstimer" where
  "ms_toNextTime ticks t =
     (if ms_isTimeOut ticks t then (True, ms_update ticks t) else (False, t))"

definition ms_timeOver :: "int \<Rightarrow> mstimer \<Rightarrow> bool \<times> mstimer" where
  "ms_timeOver ticks t =
     (if ms_isActive t \<and> ms_isTimeOut ticks t then (True, ms_clear t) else (False, t))"

definition ms_setInterval :: "u32 \<Rightarrow> mstimer \<Rightarrow> mstimer" where
  "ms_setInterval aInterval t = t\<lparr>msInterval := aInterval\<rparr>"

section \<open>Polling a timer\<close>

text \<open>The readings at which a timer polled with \<open>toNextTime\<close> fires.\<close>

fun fires :: "timer \<Rightarrow> int list \<Rightarrow> int list" where
  "fires t [] = []"
| "fires t (now # rest) =
     (let (fired, t') = toNextTime now t
      in if fired then now # fires t' rest else fires t' rest)"

lemma toNextTime_cases:
  "toNextTime now t = (True, t\<lparr>mLastClock := now\<rparr>) \<and> mLastClock t + uint (mInterval t) \<le> now \<or>
   toNextTime now t = (False, t) \<and> now < mLastClock t + uint (mInterval t)"
  by (auto simp: toNextTime_def isTimeOut_def update_def)

lemma fires_Cons:
  "fires t (now # rest) =
     (if mLastClock t + uint (mInterval t) \<le> now
      then now # fires (t\<lparr>mLastClock := now\<rparr>) rest else fires t rest)"
  by (simp add: toNextTime_def isTimeOut_def update_def)

declare fires.simps(2) [simp del]

lemma fires_after: "x \<in> set (fires t ts) \<Longrightarrow> sorted ts \<Longrightarrow> mLastClock t + uint (mInterval t) \<le> x"
proof (induction ts arbitrary: t)
  case (Cons now rest)
  show ?case
  proof (cases "mLastClock t + uint (mInterval t) \<le> now \<and> x \<noteq> now")
    case True
    with Cons.prems have "x \<in> set (fires (t\<lparr>mLastClock := now\<rparr>) rest)" by (simp add: fires_Cons)
    from Cons.IH [OF this] Cons.prems(2) have "now + uint (mInterval t) \<le> x" by simp
    then show ?thesis using True uint_ge_0 [of "mInterval t"] by linarith
  next
    case False
    show ?thesis
    proof (cases "mLastClock t + uint (mInterval t) \<le> now")
      case True
      with False show ?thesis by simp
    next
      case late: False
      with Cons.prems have "x \<in> set (fires t rest)" by (simp add: fires_Cons)
      then show ?thesis using Cons.IH Cons.prems(2) by simp
    qed
  qed
qed simp

text \<open>Two firings of a polled timer are at least its interval apart, however irregular the polls of
  a clock that does not run backwards are.\<close>
theorem timer_fires_apart:
  assumes "sorted ts"
  shows "sorted_wrt (\<lambda>a b. a + uint (mInterval t) \<le> b) (fires t ts)"
  using assms
proof (induction ts arbitrary: t)
  case (Cons now rest)
  have rest: "sorted rest" using Cons.prems by simp
  have "now + uint (mInterval t) \<le> x" if "x \<in> set (fires (t\<lparr>mLastClock := now\<rparr>) rest)" for x
    using fires_after [OF that rest] by simp
  then show ?case
    using Cons.IH [OF rest, of t] Cons.IH [OF rest, of "t\<lparr>mLastClock := now\<rparr>"] by (simp add: fires_Cons)
qed simp

lemma timer_fires_apart_witness:
  "sorted_wrt (\<lambda>a b. a + uint (mInterval (start 10 5 (Timer 0))) \<le> b)
     (fires (start 10 5 (Timer 0)) [11, 16, 17, 30])"
  by (rule timer_fires_apart) simp

text \<open>A timer started while the clock still reads zero never counts as active, so \<open>timeOver\<close> never
  reports its end, although its interval passes.\<close>
theorem timer_started_at_zero:
  "\<not> fst (timeOver now (start 0 aInterval t)) \<and>
   (now \<ge> uint aInterval \<longrightarrow> isTimeOut now (start 0 aInterval t))"
  by (simp add: timeOver_def start_def update_def isActive_def isTimeOut_def)

lemma timer_started_at_zero_witness: "isTimeOut 10 (start 0 5 (Timer 0))"
  using timer_started_at_zero [of 10 5 "Timer 0"] by simp

end
