(* ===== verification/Tables.thy ===== *)
theory Tables
  imports Prelude
begin

text \<open>
  The registries of the server (\<^verbatim>\<open>std::map\<close> members: inventories, view sets, the world's
  players, monsters and NPCs, the maps) as lists of key-value pairs sorted by key, the order in
  which the code iterates over them.  The locale \<open>registry\<close> is the interface their clients use;
  it is interpreted on the sorted lists.
\<close>

type_synonym ('k, 'v) table = "('k \<times> 'v) list"

fun tput :: "'k::linorder \<Rightarrow> 'v \<Rightarrow> ('k, 'v) table \<Rightarrow> ('k, 'v) table" where
  "tput k v [] = [(k, v)]"
| "tput k v ((a, b) # t) =
     (if k < a then (k, v) # (a, b) # t
      else if k = a then (k, v) # t
      else (a, b) # tput k v t)"

definition tget :: "'k::linorder \<Rightarrow> ('k, 'v) table \<Rightarrow> 'v option" where
  "tget k t = map_of t k"

definition tdel :: "'k::linorder \<Rightarrow> ('k, 'v) table \<Rightarrow> ('k, 'v) table" where
  "tdel k t = filter (\<lambda>(a, b). a \<noteq> k) t"

definition tsize :: "('k, 'v) table \<Rightarrow> nat" where
  "tsize t = length t"

definition tkeys :: "('k, 'v) table \<Rightarrow> 'k list" where
  "tkeys t = map fst t"

text \<open>Keys are strictly ascending, as in a \<^verbatim>\<open>std::map\<close>.\<close>

definition table_ok :: "('k::linorder, 'v) table \<Rightarrow> bool" where
  "table_ok t = sorted_wrt (<) (map fst t)"

section \<open>The interface\<close>

locale registry =
  fixes rget :: "'k \<Rightarrow> 't \<Rightarrow> 'v option"
    and rput :: "'k \<Rightarrow> 'v \<Rightarrow> 't \<Rightarrow> 't"
    and rdel :: "'k \<Rightarrow> 't \<Rightarrow> 't"
    and rsize :: "'t \<Rightarrow> nat"
    and rinv :: "'t \<Rightarrow> bool"
  assumes get_put: "rinv t \<Longrightarrow> rget k (rput a v t) = (if k = a then Some v else rget k t)"
    and get_del: "rinv t \<Longrightarrow> rget k (rdel a t) = (if k = a then None else rget k t)"
    and size_put: "rinv t \<Longrightarrow> rsize (rput a v t) = (if rget a t = None then Suc (rsize t) else rsize t)"
    and size_del: "rinv t \<Longrightarrow> rsize (rdel a t) = (if rget a t = None then rsize t else rsize t - 1)"
    and size_pos: "rinv t \<Longrightarrow> rget a t \<noteq> None \<Longrightarrow> 0 < rsize t"
    and inv_put: "rinv t \<Longrightarrow> rinv (rput a v t)"
    and inv_del: "rinv t \<Longrightarrow> rinv (rdel a t)"
begin

lemma put_del: "rinv t \<Longrightarrow> rget k (rdel a (rput a v t)) = (if k = a then None else rget k t)"
  by (simp add: get_put get_del inv_put)

lemma size_put_del: "rinv t \<Longrightarrow> rget a t = None \<Longrightarrow> rsize (rdel a (rput a v t)) = rsize t"
  by (simp add: size_put size_del inv_put get_put)

text \<open>A guarded insertion keeps a capacity bound.\<close>

lemma guarded_put:
  "rinv t \<Longrightarrow> rsize t < cap \<Longrightarrow> rsize (rput a v t) \<le> cap"
  by (simp add: size_put)

text \<open>A property of all entries is kept by both updates.\<close>

lemma entries_put:
  assumes "rinv t" and "\<And>k w. rget k t = Some w \<Longrightarrow> P k w" and "P a v"
  shows "rget k (rput a v t) = Some w \<Longrightarrow> P k w"
  using assms by (auto simp: get_put split: if_splits)

lemma entries_del:
  assumes "rinv t" and "\<And>k w. rget k t = Some w \<Longrightarrow> P k w"
  shows "rget k (rdel a t) = Some w \<Longrightarrow> P k w"
  using assms by (auto simp: get_del split: if_splits)

end

section \<open>Sorted lists provide it\<close>

lemma tput_keys: "set (map fst (tput k v t)) = insert k (set (map fst t))"
  by (induction k v t rule: tput.induct) auto

lemma tput_ok: "table_ok t \<Longrightarrow> table_ok (tput k v t)"
  unfolding table_ok_def
proof (induction k v t rule: tput.induct)
  case (2 k v a b t)
  then show ?case
    using tput_keys [of k v t] by (auto simp: image_iff)
qed simp

lemma tput_get: "table_ok t \<Longrightarrow> map_of (tput k v t) = (map_of t)(k \<mapsto> v)"
  unfolding table_ok_def
  by (induction k v t rule: tput.induct) (auto simp: fun_eq_iff)

lemma map_of_smaller: "sorted_wrt (<) (k # map fst t) \<Longrightarrow> map_of t (k :: 'k::linorder) = None"
  by (auto simp: map_of_eq_None_iff)

lemma tput_size:
  "table_ok t \<Longrightarrow> length (tput k v t) = (if map_of t k = None then Suc (length t) else length t)"
  unfolding table_ok_def
proof (induction k v t rule: tput.induct)
  case (2 k v a b t)
  have "k < a \<Longrightarrow> map_of ((a, b) # t) k = None"
    using 2 by (intro map_of_smaller) auto
  with 2 show ?case by auto
qed simp

lemma tdel_ok: "table_ok t \<Longrightarrow> table_ok (tdel k t)"
  unfolding table_ok_def tdel_def by (simp add: sorted_wrt_map sorted_wrt_filter)

lemma tdel_get: "map_of (tdel k t) = (map_of t)(k := None)"
  by (induction t) (auto simp: tdel_def fun_eq_iff)

lemma tdel_absent: "map_of t k = None \<Longrightarrow> tdel k t = t"
  by (auto simp: tdel_def map_of_eq_None_iff filter_id_conv image_iff)

lemma tdel_size:
  "table_ok t \<Longrightarrow> length (tdel k t) = (if map_of t k = None then length t else length t - 1)"
  unfolding table_ok_def
proof (induction t)
  case (Cons p t)
  obtain a b where p: "p = (a, b)" by fastforce
  have "map_of t a = None" using Cons.prems by (intro map_of_smaller) (simp add: p)
  then have del: "tdel a t = t" by (rule tdel_absent)
  show ?case
  proof (cases "a = k")
    case True
    with del show ?thesis by (simp add: p tdel_def)
  next
    case False
    moreover have "map_of t k \<noteq> None \<Longrightarrow> 0 < length t" by (cases t) auto
    ultimately show ?thesis using Cons by (auto simp: p tdel_def)
  qed
qed (simp add: tdel_def)

interpretation tab: registry tget tput tdel tsize table_ok
proof unfold_locales
  fix t :: "('a, 'b) table" and a :: 'a
  assume "table_ok t" "tget a t \<noteq> None"
  then show "0 < tsize t" by (cases t) (auto simp: tget_def tsize_def)
qed (auto simp: tget_def tsize_def tput_get tdel_get tput_size tdel_size intro: tput_ok tdel_ok)

lemmas table_simps = tab.get_put tab.get_del tab.size_put tab.size_del tab.inv_put tab.inv_del

lemma table_ok_Nil [simp]: "table_ok []" by (simp add: table_ok_def)
lemma tget_Nil [simp]: "tget k [] = None" by (simp add: tget_def)

lemma tget_in_set: "table_ok t \<Longrightarrow> tget k t = Some v \<longleftrightarrow> (k, v) \<in> set t"
  unfolding tget_def table_ok_def
  by (metis map_of_eq_Some_iff strict_sorted_iff)

end
