(* ===== verification/Player.thy ===== *)
theory Player
  imports Item Tables Timers
begin

text \<open>
  The player object (\<^verbatim>\<open>Entity/player.cpp\<close>): attributes, money, inventory, equipment and the
  tick check.  Items are shared by pointer between the inventory, the equipment and local
  variables, so they live in an explicit heap and the tables hold addresses.  What an operation
  sends or stores outside the object is recorded, in order, in the list of effects.
\<close>

section \<open>State\<close>

type_synonym addr = nat

datatype attrib =
    USER_ATTRIB_LIFE | USER_ATTRIB_MAX_LIFE | USER_ATTRIB_MANA | USER_ATTRIB_MAX_MANA
  | USER_ATTRIB_MONEY | USER_ATTRIB_EXP | USER_ATTRIB_PK | USER_ATTRIB_PROFESSION
  | USER_ATTRIB_SIZE_ADD | USER_ATTRIB_ENERGY | USER_ATTRIB_MONEY_SAVED | USER_ATTRIB_ADD_POINT
  | USER_ATTRIB_LOOK_FACE | USER_ATTRIB_LEV | USER_ATTRIB_SOUL | USER_ATTRIB_HEALTH
  | USER_ATTRIB_FORCE | USER_ATTRIB_DEXTERITY | USER_ATTRIB_BLESS_TIME | USER_ATTRIB_DBL_EXP_TIME
  | USER_ATTRIB_CURSE_TIME | USER_ATTRIB_TIME_ADD | USER_ATTRIB_METEMPSYCHOSIS | USER_ATTRIB_STATUS
  | USER_ATTRIB_HAIR | USER_ATTRIB_XP | USER_ATTRIB_LUCKY_TIME | USER_ATTRIB_CPS
  | USER_ATTRIB_TRAINING_POINTS

datatype pk_mode = PKMODE_FREE | PKMODE_SAFE | PKMODE_TEAM | PKMODE_ARRESTMENT

text \<open>
  Messages to a client, by the arguments of their constructors.  \<open>MsgBack\<close> is a received message
  sent back (\<^verbatim>\<open>send(this)\<close>), by its type and body; \<open>MsgSys\<close> is \<open>sendSysMsg\<close> of a string
  resource.
\<close>

datatype msg =
    MsgUserAttrib u32 u64 attrib
  | MsgItem u32 u32 nat
  | MsgItemInfo item nat
  | MsgPlayer u32
  | MsgAction u32 u32 nat
  | MsgTick u32
  | MsgWeaponSkill u16
  | MsgMagicInfo u16
  | MsgMapInfo u32
  | MsgNpcInfo u32
  | MsgBack nat "u32 list"
  | MsgSys string

text \<open>
  Effects outside the object: to the own client, to everyone on screen (with or without the own
  client), the end of the connection, and the database operations on items.
\<close>

datatype eff =
    Send msg
  | Room msg bool
  | Disconnect
  | DbSaveItem item
  | DbEraseItem u32

definition ACTION_LEAVE_MAP :: nat where "ACTION_LEAVE_MAP = 132"
definition ACTION_ITEM_DROP :: nat where "ACTION_ITEM_DROP = 3"
definition ACTION_ITEM_EQUIP :: nat where "ACTION_ITEM_EQUIP = 5"
definition ACTION_ADD_ITEM :: nat where "ACTION_ADD_ITEM = 1"
definition ACTION_ITEM_UPDATE :: nat where "ACTION_ITEM_UPDATE = 3"

definition POSE_STANDBY :: u16 where "POSE_STANDBY = 100"
definition POSE_COOL :: u16 where "POSE_COOL = 230"
definition POSE_SITDOWN :: u16 where "POSE_SITDOWN = 250"

record player =
  p_UID :: u32
  p_Name :: "u8 list"
  p_Look :: u32
  p_MapId :: u32
  p_PosX :: u16
  p_PosY :: u16
  p_Direction :: u8
  p_Level :: u8
  p_CurHP :: u16
  p_Pose :: u16
  p_Mate :: "u8 list"
  p_Hair :: u16
  p_Profession :: u8
  p_Metempsychosis :: u8
  p_Exp :: u64
  p_Force :: u16
  p_Dexterity :: u16
  p_Health :: u16
  p_Soul :: u16
  p_AddPoints :: u16
  p_CurMP :: u16
  p_Money :: u32
  p_CPs :: u32
  p_PkPoints :: u16      \<comment> \<open>signed\<close>
  p_Virtue :: u32        \<comment> \<open>signed\<close>
  p_Energy :: u8
  p_XP :: u8
  p_PrevMap :: u32
  p_PrevX :: u16
  p_PrevY :: u16
  p_PkMode :: pk_mode
  p_Equipment :: "addr option list"
  p_Inventory :: "(u32, addr) table"
  p_WeaponSkills :: "(u16, unit) table"
  p_Magics :: "(u16, unit) table"
  p_MsgCount :: u32
  p_FirstClientTick :: int
  p_LastClientTick :: int
  p_LastRcvClientTick :: int
  p_FirstServerTick :: int
  p_LastServerTick :: int
  p_ServerTicks :: "int list"
  p_LastCoolShow :: int
  p_LastAddEnergy :: timer

definition MAX_INVENTORY_SIZE :: nat where "MAX_INVENTORY_SIZE = 40"
definition ADD_ENERGY_SECS :: u32 where "ADD_ENERGY_SECS = 5"
definition ADD_ENERGY_STAND :: int where "ADD_ENERGY_STAND = 1"
definition ADD_ENERGY_SIT :: int where "ADD_ENERGY_SIT = 7"

text \<open>\<open>secs\<close> is the clock of the energy timer at construction.\<close>

definition Player :: "int \<Rightarrow> u32 \<Rightarrow> player" where
  "Player secs aUID =
     \<lparr>p_UID = aUID, p_Name = bytes ''Unknown'', p_Look = 0, p_MapId = 0, p_PosX = 0, p_PosY = 0,
      p_Direction = 0, p_Level = 1, p_CurHP = 0, p_Pose = POSE_STANDBY, p_Mate = bytes ''None'',
      p_Hair = 0, p_Profession = 0, p_Metempsychosis = 0, p_Exp = 0, p_Force = 0, p_Dexterity = 0,
      p_Health = 0, p_Soul = 0, p_AddPoints = 0, p_CurMP = 0, p_Money = 0, p_CPs = 0,
      p_PkPoints = 0, p_Virtue = 0, p_Energy = 0, p_XP = 0, p_PrevMap = 0, p_PrevX = 0,
      p_PrevY = 0, p_PkMode = PKMODE_FREE, p_Equipment = replicate MAX_EQUIPMENT None,
      p_Inventory = [], p_WeaponSkills = [], p_Magics = [], p_MsgCount = 0, p_FirstClientTick = 0,
      p_LastClientTick = 0, p_LastRcvClientTick = 0, p_FirstServerTick = 0, p_LastServerTick = 0,
      p_ServerTicks = [], p_LastCoolShow = 0,
      p_LastAddEnergy = start secs ADD_ENERGY_SECS (Timer 0)\<rparr>"

text \<open>A player at work: the object, the item heap and the effects so far.\<close>

record pstate =
  me :: player
  heap :: "addr \<Rightarrow> item option"
  brk :: addr   \<comment> \<open>the next address of the allocator\<close>
  effs :: "eff list"

definition emit :: "eff \<Rightarrow> pstate \<Rightarrow> pstate" where
  "emit e s = s\<lparr>effs := effs s @ [e]\<rparr>"

definition send :: "msg \<Rightarrow> pstate \<Rightarrow> pstate" where "send m = emit (Send m)"
definition sendSysMsg :: "string \<Rightarrow> pstate \<Rightarrow> pstate" where "sendSysMsg str = emit (Send (MsgSys str))"
definition disconnect :: "pstate \<Rightarrow> pstate" where "disconnect = emit Disconnect"
definition broadcastRoom :: "msg \<Rightarrow> bool \<Rightarrow> pstate \<Rightarrow> pstate" where
  "broadcastRoom m aIncludeSelf = emit (Room m aIncludeSelf)"

definition on_me :: "(player \<Rightarrow> player) \<Rightarrow> pstate \<Rightarrow> pstate" where
  "on_me f s = s\<lparr>me := f (me s)\<rparr>"

lemma emit_frame [simp, frame_simps]:
  "me (emit e s) = me s" "heap (emit e s) = heap s" "brk (emit e s) = brk s" "effs (emit e s) = effs s @ [e]"
  by (simp_all add: emit_def)

lemma on_me_frame [simp, frame_simps]:
  "me (on_me f s) = f (me s)" "heap (on_me f s) = heap s" "brk (on_me f s) = brk s" "effs (on_me f s) = effs s"
  by (simp_all add: on_me_def)

lemmas effect_defs = send_def sendSysMsg_def disconnect_def broadcastRoom_def

section \<open>Attack, defense, life and mana\<close>

text \<open>The item at an equipment slot.\<close>

definition equip_at :: "pstate \<Rightarrow> position \<Rightarrow> item option" where
  "equip_at s pos = Option.bind (p_Equipment (me s) ! pos) (heap s)"

text \<open>
  \<open>for (pos = 1; pos < MAX_EQUIPMENT; ++pos) if (equip != nullptr) acc += f(pos, equip)\<close>.  The
  sums the code accumulates in a double are sums of few 16-bit integers, which a double holds
  exactly, so they are integers here.
\<close>

definition sum_equip :: "(position \<Rightarrow> item \<Rightarrow> int) \<Rightarrow> int \<Rightarrow> pstate \<Rightarrow> int" where
  "sum_equip f a s =
     fold (\<lambda>pos acc. case equip_at s pos of None \<Rightarrow> acc | Some it \<Rightarrow> acc + f pos it)
       [1..<MAX_EQUIPMENT] a"

definition getMinAtk :: "pstate \<Rightarrow> int" where
  "getMinAtk s =
     max 0 (sum_equip (\<lambda>pos it. if pos \<noteq> POS_LWEAPON then uint (i_MinAtk (it_Info it))
                               else uint (i_MinAtk (it_Info it)) div 2)
              (uint (p_Force (me s))) s)"

definition getMaxAtk :: "pstate \<Rightarrow> int" where
  "getMaxAtk s =
     max 0 (sum_equip (\<lambda>pos it. if pos \<noteq> POS_LWEAPON then uint (i_MaxAtk (it_Info it))
                               else uint (i_MaxAtk (it_Info it)) div 2)
              (uint (p_Force (me s))) s)"

definition getDefense :: "pstate \<Rightarrow> int" where
  "getDefense s = sum_equip (\<lambda>pos it. sint (i_Defense (it_Info it))) 0 s"

definition getMAtk :: "pstate \<Rightarrow> int" where
  "getMAtk s = max 0 (sum_equip (\<lambda>pos it. uint (i_MagicAtk (it_Info it))) 0 s)"

definition getMDef :: "pstate \<Rightarrow> int" where
  "getMDef s = sum_equip (\<lambda>pos it. uint (i_MagicDef (it_Info it))) 0 s"

text \<open>The additional values: the loops of the code have an empty body.\<close>

definition getAdditionAtk :: "pstate \<Rightarrow> int" where "getAdditionAtk s = sum_equip (\<lambda>pos it. 0) 0 s"
definition getAdditionDef :: "pstate \<Rightarrow> int" where "getAdditionDef s = sum_equip (\<lambda>pos it. 0) 0 s"
definition getAdditionMAtk :: "pstate \<Rightarrow> int" where "getAdditionMAtk s = sum_equip (\<lambda>pos it. 0) 0 s"
definition getAdditionMDef :: "pstate \<Rightarrow> int" where "getAdditionMDef s = sum_equip (\<lambda>pos it. 0) 0 s"

definition getDext :: "pstate \<Rightarrow> u8" where
  "getDext s =
     fold (\<lambda>pos dext. case equip_at s pos of None \<Rightarrow> dext
                      | Some it \<Rightarrow> dext + ucast (i_Dexterity (it_Info it)))
       [1..<MAX_EQUIPMENT] (ucast (p_Dexterity (me s)))"

text \<open>The factor of the warrior ranks, a double constant; \<open>None\<close> leaves the value alone.\<close>

definition life_factor :: "u8 \<Rightarrow> rat option" where
  "life_factor prof =
     (if prof = 11 then Some (rnd (105 / 100))
      else if prof = 12 then Some (rnd (108 / 100))
      else if prof = 13 then Some (rnd (110 / 100))
      else if prof = 14 then Some (rnd (112 / 100))
      else if prof = 15 then Some (rnd (115 / 100))
      else None)"

definition base_life :: "player \<Rightarrow> int" where
  "base_life p =
     uint (p_Force p) * 3 + uint (p_Dexterity p) * 3 + uint (p_Health p) * 24 + uint (p_Soul p) * 3"

definition getMaxHP :: "pstate \<Rightarrow> u16" where
  "getMaxHP s =
     (let life = base_life (me s);
          life = (case life_factor (p_Profession (me s)) of
                    None \<Rightarrow> life
                  | Some f \<Rightarrow> trunc (rnd (of_int life * f)));
          life = sum_equip (\<lambda>pos it. sint (i_Life (it_Info it)) + uint (it_Enchant it)) life s
      in word_of_int (max 0 life))"

definition getMaxMP :: "pstate \<Rightarrow> u16" where
  "getMaxMP s =
     (let prof = uint (p_Profession (me s));
          mana = uint (p_Soul (me s)) * 5;
          mana = (if prof > 100 \<and> prof < 200 then mana + mana * (prof mod 10) else mana);
          mana = sum_equip (\<lambda>pos it. sint (i_Mana (it_Info it))) mana s
      in word_of_int (max 0 mana))"

definition getMaxXP :: "pstate \<Rightarrow> u8" where "getMaxXP s = 100"
definition getMaxEnergy :: "pstate \<Rightarrow> u8" where "getMaxEnergy s = 100"

definition getSex :: "player \<Rightarrow> u8" where "getSex p = ucast ((p_Look p div 1000) mod 10)"
definition isAlive :: "player \<Rightarrow> bool" where "isAlive p \<longleftrightarrow> p_CurHP p > 0"

section \<open>Money\<close>

text \<open>
  The sums and differences are computed in 32 bits before they are widened, as C++ has it for
  two \<^verbatim>\<open>uint32_t\<close> operands.
\<close>

definition send_attr :: "bool \<Rightarrow> u64 \<Rightarrow> attrib \<Rightarrow> pstate \<Rightarrow> pstate" where
  "send_attr aSend v ty s = (if aSend then send (MsgUserAttrib (p_UID (me s)) v ty) s else s)"

definition gainMoney :: "u32 \<Rightarrow> bool \<Rightarrow> pstate \<Rightarrow> bool \<times> pstate" where
  "gainMoney aMoney aSend s =
     (let money = (ucast (aMoney + p_Money (me s)) :: u64);
          s = on_me (\<lambda>p. p\<lparr>p_Money := ucast (min money 0xFFFFFFFF)\<rparr>) s;
          s = send_attr aSend (ucast (p_Money (me s))) USER_ATTRIB_MONEY s
      in (money \<le> 0xFFFFFFFF, s))"

definition gainCPs :: "u32 \<Rightarrow> bool \<Rightarrow> pstate \<Rightarrow> bool \<times> pstate" where
  "gainCPs aCPs aSend s =
     (let cps = (ucast (aCPs + p_CPs (me s)) :: u64);
          s = on_me (\<lambda>p. p\<lparr>p_CPs := ucast (min cps 0xFFFFFFFF)\<rparr>) s;
          s = send_attr aSend (ucast (p_CPs (me s))) USER_ATTRIB_CPS s
      in (cps \<le> 0xFFFFFFFF, s))"

definition spendMoney :: "u32 \<Rightarrow> bool \<Rightarrow> pstate \<Rightarrow> bool \<times> pstate" where
  "spendMoney aMoney aSend s =
     (let money = uint (p_Money (me s) - aMoney);
          s = on_me (\<lambda>p. p\<lparr>p_Money := word_of_int (max 0 money)\<rparr>) s;
          s = send_attr aSend (ucast (p_Money (me s))) USER_ATTRIB_MONEY s
      in (money > 0, s))"

definition spendCPs :: "u32 \<Rightarrow> bool \<Rightarrow> pstate \<Rightarrow> bool \<times> pstate" where
  "spendCPs aCPs aSend s =
     (let cps = uint (p_CPs (me s) - aCPs);
          s = on_me (\<lambda>p. p\<lparr>p_CPs := word_of_int (max 0 cps)\<rparr>) s;
          s = send_attr aSend (ucast (p_CPs (me s))) USER_ATTRIB_CPS s
      in (cps > 0, s))"

section \<open>Attributes\<close>

text \<open>
  The assignment of \<open>addAttrib\<close> for each attribute and the value its message carries; \<open>None\<close>
  where the function returns false without a change.
\<close>

definition set_attrib :: "attrib \<Rightarrow> int \<Rightarrow> pstate \<Rightarrow> (u64 \<times> player) option" where
  "set_attrib ty d s =
     (let p = me s in
      case ty of
        USER_ATTRIB_LEV \<Rightarrow>
          let v = (word_of_int (max 0 (min 135 (uint (p_Level p) + d))) :: u8)
          in Some (ucast v, p\<lparr>p_Level := v\<rparr>)
      | USER_ATTRIB_LIFE \<Rightarrow>
          let v = (word_of_int (max 0 (min (uint (getMaxHP s)) (uint (p_CurHP p) + d))) :: u16)
          in Some (ucast v, p\<lparr>p_CurHP := v\<rparr>)
      | USER_ATTRIB_MANA \<Rightarrow>
          let v = (word_of_int (max 0 (min (uint (getMaxMP s)) (uint (p_CurMP p) + d))) :: u16)
          in Some (ucast v, p\<lparr>p_CurMP := v\<rparr>)
      | USER_ATTRIB_EXP \<Rightarrow>
          let v = p_Exp p + word_of_int d in Some (v, p\<lparr>p_Exp := v\<rparr>)
      | USER_ATTRIB_PK \<Rightarrow>
          let v = (word_of_int (max 0 (min 32767 (sint (p_PkPoints p) + d))) :: u16)
          in Some (scast v, p\<lparr>p_PkPoints := v\<rparr>)
      | USER_ATTRIB_ADD_POINT \<Rightarrow>
          if d < 0 then None
          else let v = p_AddPoints p + word_of_int d in Some (ucast v, p\<lparr>p_AddPoints := v\<rparr>)
      | USER_ATTRIB_SOUL \<Rightarrow>
          let v = (word_of_int (max 0 (uint (p_Soul p) + d)) :: u16)
          in Some (ucast v, p\<lparr>p_Soul := v\<rparr>)
      | USER_ATTRIB_HEALTH \<Rightarrow>
          let v = (word_of_int (max 0 (uint (p_Health p) + d)) :: u16)
          in Some (ucast v, p\<lparr>p_Health := v\<rparr>)
      | USER_ATTRIB_FORCE \<Rightarrow>
          let v = (word_of_int (max 0 (uint (p_Force p) + d)) :: u16)
          in Some (ucast v, p\<lparr>p_Force := v\<rparr>)
      | USER_ATTRIB_DEXTERITY \<Rightarrow>
          let v = (word_of_int (max 0 (uint (p_Dexterity p) + d)) :: u16)
          in Some (ucast v, p\<lparr>p_Dexterity := v\<rparr>)
      | USER_ATTRIB_XP \<Rightarrow>
          let v = (word_of_int (max 0 (min (uint (getMaxXP s)) (uint (p_XP p) + d))) :: u8)
          in Some (ucast v, p\<lparr>p_XP := v\<rparr>)
      | USER_ATTRIB_ENERGY \<Rightarrow>
          let v = (word_of_int (max 0 (min (uint (getMaxEnergy s)) (uint (p_Energy p) + d))) :: u8)
          in Some (ucast v, p\<lparr>p_Energy := v\<rparr>)
      | _ \<Rightarrow> None)"

definition addAttrib :: "attrib \<Rightarrow> int \<Rightarrow> bool \<Rightarrow> bool \<Rightarrow> pstate \<Rightarrow> bool \<times> pstate" where
  "addAttrib ty aData aSend aBroadcast s =
     (if aData = 0 then (False, s)
      else
        case set_attrib ty aData s of
          None \<Rightarrow> (False, s)
        | Some (v, p) \<Rightarrow>
            let m = MsgUserAttrib (p_UID (me s)) v ty;
                s = s\<lparr>me := p\<rparr>;
                s = (if aSend then send m s else s);
                s = (if aBroadcast then broadcastRoom m False s else s)
            in (True, s))"

definition allot :: "u8 \<Rightarrow> u8 \<Rightarrow> u8 \<Rightarrow> u8 \<Rightarrow> pstate \<Rightarrow> pstate" where
  "allot aForce aHealth aDexterity aSoul s =
     on_me (\<lambda>p. p\<lparr>p_Force := p_Force p + ucast aForce, p_Health := p_Health p + ucast aHealth,
                 p_Dexterity := p_Dexterity p + ucast aDexterity, p_Soul := p_Soul p + ucast aSoul,
                 p_AddPoints := p_AddPoints p -
                   word_of_int (uint aForce + uint aHealth + uint aDexterity + uint aSoul)\<rparr>) s"

section \<open>What the money operations do\<close>

lemma ucast_u32_bound: "(ucast (w :: u32) :: u64) \<le> 0xFFFFFFFF"
proof -
  have "unat w < 2 ^ 32" using unsigned_less [of w] by simp
  moreover from this have "unat (ucast w :: u64) = unat w"
    by (simp add: unsigned_ucast_eq take_bit_nat_eq_self)
  ultimately show ?thesis by (simp add: word_le_nat_alt)
qed

lemma ucast_u32_u64 [simp]: "(ucast (ucast (w :: u32) :: u64) :: u32) = w"
  by (rule bit_word_eqI) (simp add: bit_simps)

lemma min_ucast_u32 [simp]: "min (ucast (w :: u32) :: u64) 0xFFFFFFFF = ucast w"
  using ucast_u32_bound by (rule min_absorb1)

lemma uint_max_0 [simp]: "max 0 (uint w) = uint w"
  using uint_ge_0 by (rule max_absorb2)

lemma gainMoney_result:
  "fst (gainMoney m b s)" "p_Money (me (snd (gainMoney m b s))) = m + p_Money (me s)"
  using ucast_u32_bound [of "m + p_Money (me s)"]
  by (simp_all add: gainMoney_def Let_def send_attr_def effect_defs)

lemma spendMoney_result:
  "fst (spendMoney m b s) \<longleftrightarrow> p_Money (me s) \<noteq> m"
  "p_Money (me (snd (spendMoney m b s))) = p_Money (me s) - m"
proof -
  show "fst (spendMoney m b s) \<longleftrightarrow> p_Money (me s) \<noteq> m"
    unfolding spendMoney_def Let_def fst_conv
    by (simp add: less_le uint_0_iff [symmetric] del: uint_0_iff) (simp add: uint_0_iff)
  show "p_Money (me (snd (spendMoney m b s))) = p_Money (me s) - m"
    unfolding spendMoney_def Let_def by (simp only: send_attr_def effect_defs uint_max_0 word_of_int_uint) simp
qed

section \<open>Properties\<close>

text \<open>Spending what the player can pay takes exactly that much; the result is false when it was all
  the money there was.  Spending more than the player has is not refused: the difference wraps
  around, the player ends up richer than before, and the result is true.\<close>
theorem spendMoney_wraps:
  "(aMoney < p_Money (me s) \<longrightarrow>
      fst (spendMoney aMoney b s) \<and> p_Money (me (snd (spendMoney aMoney b s))) = p_Money (me s) - aMoney) \<and>
   (aMoney = p_Money (me s) \<longrightarrow>
      \<not> fst (spendMoney aMoney b s) \<and> p_Money (me (snd (spendMoney aMoney b s))) = 0) \<and>
   (aMoney > p_Money (me s) \<longrightarrow>
      fst (spendMoney aMoney b s) \<and> p_Money (me (snd (spendMoney aMoney b s))) > p_Money (me s))"
proof (intro conjI impI)
  assume more: "aMoney > p_Money (me s)"
  have "uint (p_Money (me s) - aMoney) = uint (p_Money (me s)) - uint aMoney + 2 ^ 32"
    using more uint_lt2p [of aMoney] uint_ge_0 [of "p_Money (me s)"]
    by (simp add: uint_sub_if' word_less_def)
  then show "p_Money (me (snd (spendMoney aMoney b s))) > p_Money (me s)"
    using uint_lt2p [of aMoney] by (simp add: spendMoney_result word_less_def)
qed (auto simp: spendMoney_result)

lemma spendMoney_wraps_witness:
  "p_Money (me (snd (spendMoney 100 False \<lparr>me = Player 0 1, heap = (\<lambda>_. None), brk = 0, effs = []\<rparr>))) >
   p_Money (me \<lparr>me = Player 0 1, heap = (\<lambda>_. None), brk = 0, effs = []\<rparr>)"
  using spendMoney_wraps [of 100 "\<lparr>me = Player 0 1, heap = (\<lambda>_. None), brk = 0, effs = []\<rparr>" False]
  by (simp add: Player_def)

text \<open>Gaining money always reports success; the balance is the sum modulo \<open>2 ^ 32\<close>, so it grows by
  the amount exactly when the sum fits and shrinks otherwise: the saturation at the maximum that
  the code spells out never applies.\<close>
theorem gainMoney_modular:
  "fst (gainMoney aMoney b s) \<and>
   p_Money (me (snd (gainMoney aMoney b s))) = p_Money (me s) + aMoney \<and>
   (unat (p_Money (me s)) + unat aMoney \<ge> 2 ^ 32 \<longrightarrow>
      p_Money (me (snd (gainMoney aMoney b s))) < p_Money (me s))"
proof (intro conjI impI)
  let ?p = "unat (p_Money (me s))" and ?m = "unat aMoney"
  assume over: "?p + ?m \<ge> 2 ^ 32"
  have lt: "?p < 2 ^ 32" "?m < 2 ^ 32"
    using unsigned_less [of aMoney] unsigned_less [of "p_Money (me s)"] by simp_all
  have "unat (p_Money (me s) + aMoney) = (?p + ?m) mod 2 ^ 32"
    by (simp add: unat_word_ariths)
  also have "\<dots> = ?p + ?m - 2 ^ 32"
    using over lt by (simp add: le_mod_geq)
  finally show "p_Money (me (snd (gainMoney aMoney b s))) < p_Money (me s)"
    using over lt by (simp add: gainMoney_result word_less_nat_alt add.commute)
qed (simp_all add: gainMoney_result add.commute)

lemma gainMoney_modular_witness:
  "p_Money (me (snd (gainMoney 2 False
     \<lparr>me = (Player 0 1)\<lparr>p_Money := 0xFFFFFFFF\<rparr>, heap = (\<lambda>_. None), brk = 0, effs = []\<rparr>))) < 0xFFFFFFFF"
  using gainMoney_modular [of 2 False
      "\<lparr>me = (Player 0 1)\<lparr>p_Money := 0xFFFFFFFF\<rparr>, heap = (\<lambda>_. None), brk = 0, effs = []\<rparr>"]
  by simp

end
