(* ===== verification/PlayerItems.thy ===== *)
theory PlayerItems
  imports Player
begin

text \<open>
  The item operations of the player: inventory, equipment, use and award of items.  They read
  and write items through their addresses.  \<open>equipItem\<close> puts the address of an item of the
  inventory into an equipment slot and does not take it out of the inventory; the theory models
  this sharing and shows what follows.
\<close>

definition hput :: "addr \<Rightarrow> item \<Rightarrow> pstate \<Rightarrow> pstate" where
  "hput a it s = s\<lparr>heap := (heap s)(a \<mapsto> it)\<rparr>"

definition hfree :: "addr \<Rightarrow> pstate \<Rightarrow> pstate" where
  "hfree a s = s\<lparr>heap := (heap s)(a := None)\<rparr>"

definition set_slot :: "position \<Rightarrow> addr option \<Rightarrow> pstate \<Rightarrow> pstate" where
  "set_slot pos v = on_me (\<lambda>p. p\<lparr>p_Equipment := (p_Equipment p)[pos := v]\<rparr>)"

definition set_inventory :: "(u32, addr) table \<Rightarrow> pstate \<Rightarrow> pstate" where
  "set_inventory t = on_me (\<lambda>p. p\<lparr>p_Inventory := t\<rparr>)"

text \<open>The setters of an item, which save it when \<open>aUpdate\<close> has its default value true.\<close>

definition update_item :: "addr \<Rightarrow> (item \<Rightarrow> item) \<Rightarrow> bool \<Rightarrow> pstate \<Rightarrow> pstate" where
  "update_item a f aUpdate s =
     (case heap s a of
        None \<Rightarrow> s
      | Some it \<Rightarrow> (let s = hput a (f it) s in if aUpdate then emit (DbSaveItem (f it)) s else s))"

definition setOwner :: "addr \<Rightarrow> u32 \<Rightarrow> bool \<Rightarrow> pstate \<Rightarrow> pstate" where
  "setOwner a uid = update_item a (\<lambda>it. it\<lparr>it_Owner := Some uid\<rparr>)"
definition setPlayer :: "addr \<Rightarrow> u32 \<Rightarrow> bool \<Rightarrow> pstate \<Rightarrow> pstate" where
  "setPlayer a uid = update_item a (\<lambda>it. it\<lparr>it_Player := Some uid\<rparr>)"
definition setPosition :: "addr \<Rightarrow> position \<Rightarrow> bool \<Rightarrow> pstate \<Rightarrow> pstate" where
  "setPosition a pos = update_item a (\<lambda>it. it\<lparr>it_Position := pos\<rparr>)"
definition setAmount :: "addr \<Rightarrow> u16 \<Rightarrow> bool \<Rightarrow> pstate \<Rightarrow> pstate" where
  "setAmount a n = update_item a (\<lambda>it. it\<lparr>it_Amount := n\<rparr>)"
definition setAmountLimit :: "addr \<Rightarrow> u16 \<Rightarrow> bool \<Rightarrow> pstate \<Rightarrow> pstate" where
  "setAmountLimit a n = update_item a (\<lambda>it. it\<lparr>it_AmountLimit := n\<rparr>)"

section \<open>Inventory\<close>

definition getItem :: "u32 \<Rightarrow> pstate \<Rightarrow> addr option" where
  "getItem aUID s = tget aUID (p_Inventory (me s))"

definition getEquipByPos :: "position \<Rightarrow> pstate \<Rightarrow> addr option" where
  "getEquipByPos pos s = p_Equipment (me s) ! pos"

text \<open>The two ownership updates of \<open>addItem\<close>.\<close>

definition claim :: "addr \<Rightarrow> item \<Rightarrow> pstate \<Rightarrow> pstate" where
  "claim a it s =
     (let uid = p_UID (me s);
          s = (if it_Owner it \<noteq> Some uid then setOwner a uid True s else s)
      in if it_Player it \<noteq> Some uid then setPlayer a uid True s else s)"

text \<open>
  The item at \<open>a\<close> is live in every call; a dangling address would be undefined behaviour, and
  the model then fails without a change.
\<close>

definition addItem :: "addr \<Rightarrow> bool \<Rightarrow> pstate \<Rightarrow> bool \<times> pstate" where
  "addItem a aSend s =
     (case heap s a of
        None \<Rightarrow> (False, s)
      | Some it \<Rightarrow>
          let (success, s) =
                (if tsize (p_Inventory (me s)) < MAX_INVENTORY_SIZE then
                   (let s = claim a it s
                    in case tget (it_UID it) (p_Inventory (me s)) of
                         None \<Rightarrow> (True, set_inventory (tput (it_UID it) a (p_Inventory (me s))) s)
                       | Some b \<Rightarrow> (False, s))
                 else (False, sendSysMsg ''STR_ITEMBAG_FULL'' s));
              s = (if aSend
                   then send (MsgItemInfo (case heap s a of None \<Rightarrow> it | Some it \<Rightarrow> it) ACTION_ADD_ITEM) s
                   else s)
          in (success, s))"

definition eraseItem :: "u32 \<Rightarrow> bool \<Rightarrow> pstate \<Rightarrow> bool \<times> pstate" where
  "eraseItem aUID aSend s =
     (case tget aUID (p_Inventory (me s)) of
        None \<Rightarrow> (False, s)
      | Some a \<Rightarrow>
          let s = (case heap s a of None \<Rightarrow> s | Some it \<Rightarrow> emit (DbEraseItem (it_UID it)) s);
              s = set_inventory (tdel aUID (p_Inventory (me s))) s;
              s = hfree a s;
              s = (if aSend then send (MsgItem aUID 0 ACTION_ITEM_DROP) s else s)
          in (True, s))"

text \<open>\<open>inserted\<close> is the answer of the database to the insertion: the new id or a failure.\<close>

definition awardItem :: "u32 option \<Rightarrow> item_info \<Rightarrow> bool \<Rightarrow> pstate \<Rightarrow> bool \<times> pstate" where
  "awardItem inserted aInfo aSend s =
     (if tsize (p_Inventory (me s)) < MAX_INVENTORY_SIZE then
        (case createItem inserted aInfo of
           None \<Rightarrow> (False, sendSysMsg ''STR_FAILED_GENERATE_ITEM'' s)
         | Some it \<Rightarrow>
             let a = brk s;
                 s = hput a it (s\<lparr>brk := a + 1\<rparr>);
                 (ok, s) = addItem a aSend s
             in if \<not> ok then (False, hfree a (emit (DbEraseItem (it_UID it)) s))
                else (True, s))
      else (False, sendSysMsg ''STR_ITEMBAG_FULL'' s))"

section \<open>Equipment\<close>

definition canEquipItem :: "item \<Rightarrow> position \<Rightarrow> player \<Rightarrow> bool" where
  "canEquipItem it aPosition p =
     (let inf = it_Info it in
      if isTaskItem it then False
      else if i_ReqLevel inf > p_Level p then False
      else if isNeedIdent it then False
      else if i_ReqSex inf \<noteq> 0 \<and> (uint (i_ReqSex inf) AND push_bit (unat (getSex p)) 1) = 0 then False
      else if p_Metempsychosis p > 0 \<and> p_Level p \<ge> 70 \<and> i_ReqLevel inf \<le> 70 then True
      else if i_ReqProf inf \<noteq> 0 \<and>
        (let reqProfSort = (uint (i_ReqProf inf) mod 1000) div 10;
             reqProfLevel = uint (i_ReqProf inf) mod 10;
             curProfSort = (uint (p_Profession p) mod 1000) div 10;
             curProfLevel = uint (p_Profession p) mod 10
         in (if reqProfSort = 19 then curProfSort < 10 \<or> POS_LWEAPON = aPosition
             else reqProfSort \<noteq> curProfSort) \<or>
            reqProfLevel > curProfLevel)
      then False
      else if i_ReqForce inf > p_Force p \<or> i_ReqSpeed inf > p_Dexterity p \<or>
              i_ReqHealth inf > p_Health p \<or> i_ReqSoul inf > p_Soul p
      then False
      else True)"

definition unequipOnly :: "position \<Rightarrow> pstate \<Rightarrow> pstate" where
  "unequipOnly aPosition s =
     (case getEquipByPos aPosition s of
        None \<Rightarrow> s
      | Some a \<Rightarrow>
          let (ok, s) = addItem a True s
          in if ok then set_slot aPosition None s else s)"

text \<open>The three statements every accepting branch of \<open>equipItem\<close> ends with.\<close>

definition put_on :: "addr \<Rightarrow> position \<Rightarrow> pstate \<Rightarrow> pstate" where
  "put_on a pos s = setPosition a pos True (set_slot pos (Some a) s)"

definition wear :: "bool \<Rightarrow> addr \<Rightarrow> position \<Rightarrow> pstate \<Rightarrow> bool \<times> pstate" where
  "wear fits a pos s = (if fits then (True, put_on a pos (unequipOnly pos s)) else (False, s))"

text \<open>
  The right hand: the branch of two-handed weapons is guarded by \<open>if (false)\<close>.
\<close>

definition equip_right :: "addr \<Rightarrow> item \<Rightarrow> pstate \<Rightarrow> bool \<times> pstate" where
  "equip_right a it s =
     (if isHoldEnable it then
        (if is2HWeapon it then (False, s)
         else if is1HWeapon it then
           (let s = unequipOnly POS_RWEAPON s;
                s = (case equip_at s POS_LWEAPON of
                       Some l \<Rightarrow> if isArrow l then unequipOnly POS_LWEAPON s else s
                     | None \<Rightarrow> s)
            in (True, put_on a POS_RWEAPON s))
         else (False, s))
      else (False, s))"

definition equip_left :: "addr \<Rightarrow> item \<Rightarrow> pstate \<Rightarrow> bool \<times> pstate" where
  "equip_left a it s =
     (if isHoldEnable it then
        (case equip_at s POS_RWEAPON of
           None \<Rightarrow> (False, s)
         | Some r \<Rightarrow>
             wear ((is1HWeapon r \<and> (is1HWeapon it \<or> isShield it)) \<or> (isBow r \<and> isArrow it))
               a POS_LWEAPON s)
      else (False, s))"

definition equip_slot :: "addr \<Rightarrow> item \<Rightarrow> position \<Rightarrow> pstate \<Rightarrow> bool \<times> pstate" where
  "equip_slot a it pos s =
     (if pos = POS_ARMET then wear (isHelmet it) a pos s
      else if pos = POS_NECKLACE then wear (isNecklace it) a pos s
      else if pos = POS_ARMOR then wear (isArmor it) a pos s
      else if pos = POS_RWEAPON then equip_right a it s
      else if pos = POS_LWEAPON then equip_left a it s
      else if pos = POS_RING then wear (isRing it) a pos s
      else if pos = POS_SHOES then wear (isShoes it) a pos s
      else (False, s))"

definition equipItem :: "addr \<Rightarrow> position \<Rightarrow> bool \<Rightarrow> pstate \<Rightarrow> bool \<times> pstate" where
  "equipItem a aPosition aSend s =
     (case heap s a of
        None \<Rightarrow> (False, s)
      | Some it \<Rightarrow>
          let (success, s) =
                (if canEquipItem it aPosition (me s) then equip_slot a it aPosition s else (False, s));
              s = (if success \<and> aSend then
                     (let s = send (MsgItem (it_UID it) (of_nat aPosition) ACTION_ITEM_EQUIP) s
                      in if aPosition \<in> {POS_ARMET, POS_ARMOR, POS_RWEAPON, POS_LWEAPON}
                         then broadcastRoom (MsgPlayer (p_UID (me s))) False s else s)
                   else s)
          in (success, s))"

text \<open>\<open>execute\<close> runs the script of an action item; it may change the player.\<close>

definition useItem ::
  "(nat \<Rightarrow> pstate \<Rightarrow> err_t \<times> pstate) \<Rightarrow> addr \<Rightarrow> position \<Rightarrow> bool \<Rightarrow> pstate \<Rightarrow> bool \<times> pstate" where
  "useItem execute a aPosition aSend s =
     (case heap s a of
        None \<Rightarrow> (False, s)
      | Some it \<Rightarrow>
          if isActionItem it then
            (case i_Task (it_Info it) of
               None \<Rightarrow> (False, s)
             | Some task \<Rightarrow> (let (err, s) = execute task s in (ERROR_SUCCESS = err, s)))
          else if isEquipEnable it then equipItem a aPosition aSend s
          else if isEatEnable it then
            (let addLife = sint (i_Life (it_Info it));
                 addMana = sint (i_Mana (it_Info it));
                 (erased, s) = eraseItem (it_UID it) aSend s
             in if erased then
                  (let (_, s) = addAttrib USER_ATTRIB_LIFE addLife True True s;
                       (_, s) = addAttrib USER_ATTRIB_LIFE addMana True False s
                   in (True, s))
                else (False, s))
          else (False, s))"

section \<open>The whole set\<close>

definition sendItem :: "nat \<Rightarrow> addr option \<Rightarrow> pstate \<Rightarrow> pstate" where
  "sendItem act a s =
     (case Option.bind a (heap s) of None \<Rightarrow> s | Some it \<Rightarrow> send (MsgItemInfo it act) s)"

definition sendItemSet :: "pstate \<Rightarrow> pstate" where
  "sendItemSet s =
     (let s = fold (\<lambda>pos. sendItem ACTION_ADD_ITEM (p_Equipment (me s) ! pos)) [1..<MAX_EQUIPMENT] s
      in fold (\<lambda>(k, a). sendItem ACTION_ADD_ITEM (Some a)) (p_Inventory (me s)) s)"

definition saveItem :: "addr option \<Rightarrow> pstate \<Rightarrow> pstate" where
  "saveItem a s = (case Option.bind a (heap s) of None \<Rightarrow> s | Some it \<Rightarrow> emit (DbSaveItem it) s)"

definition saveAllItem :: "pstate \<Rightarrow> pstate" where
  "saveAllItem s =
     (let s = fold (\<lambda>pos. saveItem (p_Equipment (me s) ! pos)) [1..<MAX_EQUIPMENT] s
      in fold (\<lambda>(k, a). saveItem (Some a)) (p_Inventory (me s)) s)"

text \<open>
  Deleting an object twice is undefined; \<open>None\<close> stands for that.  \<open>SAFE_DELETE\<close> of a null
  pointer does nothing.
\<close>

definition safe_delete :: "addr option \<Rightarrow> (addr \<Rightarrow> item option) option \<Rightarrow> (addr \<Rightarrow> item option) option" where
  "safe_delete p h =
     (case (h, p) of
        (Some h, Some a) \<Rightarrow> (case h a of None \<Rightarrow> None | Some it \<Rightarrow> Some (h(a := None)))
      | _ \<Rightarrow> h)"

definition deleteAllItem :: "pstate \<Rightarrow> pstate option" where
  "deleteAllItem s =
     (let h = fold (\<lambda>pos. safe_delete (p_Equipment (me s) ! pos)) [1..<MAX_EQUIPMENT] (Some (heap s));
          h = fold (\<lambda>(k, a). safe_delete (Some a)) (p_Inventory (me s)) h
      in map_option
           (\<lambda>h. set_inventory [] (on_me (\<lambda>p. p\<lparr>p_Equipment :=
                   take 1 (p_Equipment p) @ replicate (length (p_Equipment p) - 1) None\<rparr>)
                   (s\<lparr>heap := h\<rparr>))) h)"

section \<open>Skills\<close>

definition sendWeaponSkillSet :: "pstate \<Rightarrow> pstate" where
  "sendWeaponSkillSet s = fold (\<lambda>(k, _). send (MsgWeaponSkill k)) (p_WeaponSkills (me s)) s"

definition deleteAllWeaponSkill :: "pstate \<Rightarrow> pstate" where
  "deleteAllWeaponSkill = on_me (\<lambda>p. p\<lparr>p_WeaponSkills := []\<rparr>)"

definition sendMagicSkillSet :: "pstate \<Rightarrow> pstate" where
  "sendMagicSkillSet s = fold (\<lambda>(k, _). send (MsgMagicInfo k)) (p_Magics (me s)) s"

definition deleteAllMagicSkill :: "pstate \<Rightarrow> pstate" where
  "deleteAllMagicSkill = on_me (\<lambda>p. p\<lparr>p_Magics := []\<rparr>)"

section \<open>The inventory invariant\<close>

text \<open>
  The inventory is a proper map of at most forty items, each entry points to a live item with
  the entry's id below the allocator's break, and the equipment has its ten slots.
\<close>

definition entry_ok :: "pstate \<Rightarrow> u32 \<times> addr \<Rightarrow> bool" where
  "entry_ok s e =
     (case e of (uid, a) \<Rightarrow>
        a < brk s \<and> (case heap s a of None \<Rightarrow> False | Some it \<Rightarrow> it_UID it = uid))"

definition inv_ok :: "pstate \<Rightarrow> bool" where
  "inv_ok s \<longleftrightarrow>
     table_ok (p_Inventory (me s)) \<and> tsize (p_Inventory (me s)) \<le> MAX_INVENTORY_SIZE \<and>
     list_all (entry_ok s) (p_Inventory (me s)) \<and> length (p_Equipment (me s)) = MAX_EQUIPMENT"

lemma inv_entry:
  assumes "inv_ok s" and "tget uid (p_Inventory (me s)) = Some a"
  shows "a < brk s" and "\<exists>it. heap s a = Some it \<and> it_UID it = uid"
  using assms tget_in_set [of "p_Inventory (me s)" uid a]
  by (auto simp: inv_ok_def list_all_iff entry_ok_def split: option.splits dest!: bspec)

lemma inv_okI:
  assumes "table_ok (p_Inventory (me s))" and "tsize (p_Inventory (me s)) \<le> MAX_INVENTORY_SIZE"
    and "\<And>uid a. tget uid (p_Inventory (me s)) = Some a \<Longrightarrow>
      a < brk s \<and> (\<exists>it. heap s a = Some it \<and> it_UID it = uid)"
    and "length (p_Equipment (me s)) = MAX_EQUIPMENT"
  shows "inv_ok s"
  using assms tget_in_set [OF assms(1)] by (fastforce simp: inv_ok_def list_all_iff entry_ok_def)

lemma inv_emit [simp]: "inv_ok (emit e s) = inv_ok s"
  by (simp add: inv_ok_def entry_ok_def list_all_iff cong: prod.case_cong)

lemma inv_on_me:
  assumes "\<And>p. p_Inventory (f p) = p_Inventory p" and "\<And>p. p_Equipment (f p) = p_Equipment p"
  shows "inv_ok (on_me f s) = inv_ok s"
  using assms by (simp add: inv_ok_def entry_ok_def list_all_iff cong: prod.case_cong)

lemma inv_set_slot: "inv_ok s \<Longrightarrow> inv_ok (set_slot pos v s)"
  by (simp add: inv_ok_def entry_ok_def set_slot_def list_all_iff cong: prod.case_cong)

lemma update_item_frame [simp, frame_simps]:
  "me (update_item a f u s) = me s" "brk (update_item a f u s) = brk s"
  by (simp_all add: update_item_def hput_def Let_def split: option.split)

lemma update_item_heap:
  "heap (update_item a f u s) = (case heap s a of None \<Rightarrow> heap s | Some it \<Rightarrow> (heap s)(a \<mapsto> f it))"
  by (simp add: update_item_def hput_def Let_def split: option.split)

lemma inv_update_item:
  assumes "\<And>it. it_UID (f it) = it_UID it" and "inv_ok s"
  shows "inv_ok (update_item a f u s)"
proof (rule inv_okI)
  fix uid b assume "tget uid (p_Inventory (me (update_item a f u s))) = Some b"
  then have "b < brk s \<and> (\<exists>it. heap s b = Some it \<and> it_UID it = uid)"
    using inv_entry [OF assms(2)] by simp
  then show "b < brk (update_item a f u s) \<and> (\<exists>it. heap (update_item a f u s) b = Some it \<and> it_UID it = uid)"
    by (auto simp: update_item_heap assms(1) split: option.split)
qed (use assms(2) in \<open>simp_all add: inv_ok_def\<close>)

lemma setters_inv:
  "inv_ok s \<Longrightarrow> inv_ok (setOwner a uid u s)" "inv_ok s \<Longrightarrow> inv_ok (setPlayer a uid u s)"
  "inv_ok s \<Longrightarrow> inv_ok (setPosition a pos u s)" "inv_ok s \<Longrightarrow> inv_ok (setAmount a n u s)"
  "inv_ok s \<Longrightarrow> inv_ok (setAmountLimit a n u s)"
  by (simp_all add: setOwner_def setPlayer_def setPosition_def setAmount_def setAmountLimit_def
      inv_update_item)

lemma setters_frame [simp, frame_simps]:
  "me (setOwner a uid u s) = me s" "me (setPlayer a uid u s) = me s" "me (setPosition a pos u s) = me s"
  "me (setAmount a n u s) = me s" "me (setAmountLimit a n u s) = me s"
  "brk (setOwner a uid u s) = brk s" "brk (setPlayer a uid u s) = brk s" "brk (setPosition a pos u s) = brk s"
  by (simp_all add: setOwner_def setPlayer_def setPosition_def setAmount_def setAmountLimit_def)

lemma setters_uid:
  "heap s b = Some it \<Longrightarrow> \<exists>it'. heap (setOwner a uid u s) b = Some it' \<and> it_UID it' = it_UID it"
  "heap s b = Some it \<Longrightarrow> \<exists>it'. heap (setPlayer a uid u s) b = Some it' \<and> it_UID it' = it_UID it"
  "heap s b = Some it \<Longrightarrow> \<exists>it'. heap (setPosition a pos u s) b = Some it' \<and> it_UID it' = it_UID it"
  by (auto simp: setOwner_def setPlayer_def setPosition_def update_item_heap split: option.split)

section \<open>Adding and erasing\<close>

lemma claim_frame [simp]: "me (claim a it s) = me s" "brk (claim a it s) = brk s"
  by (simp_all add: claim_def Let_def)

lemma claim_inv: "inv_ok s \<Longrightarrow> inv_ok (claim a it s)"
  by (simp add: claim_def Let_def setters_inv)

lemma claim_uid:
  assumes "heap s b = Some x"
  shows "\<exists>y. heap (claim a it s) b = Some y \<and> it_UID y = it_UID x"
proof -
  obtain y where y: "heap (if it_Owner it \<noteq> Some (p_UID (me s)) then setOwner a (p_UID (me s)) True s else s) b
      = Some y" "it_UID y = it_UID x"
    using assms setters_uid(1) [OF assms, of a "p_UID (me s)" True]
    by (cases "it_Owner it \<noteq> Some (p_UID (me s))") auto
  show ?thesis
    using y setters_uid(2) [OF y(1), of a "p_UID (me s)" True] by (auto simp: claim_def Let_def)
qed

lemma addItem_cases:
  assumes "heap s a = Some it"
  shows "fst (addItem a b s) \<longleftrightarrow>
      tsize (p_Inventory (me s)) < MAX_INVENTORY_SIZE \<and> tget (it_UID it) (p_Inventory (me s)) = None"
    and "me (snd (addItem a b s)) =
      (if fst (addItem a b s) then (me s)\<lparr>p_Inventory := tput (it_UID it) a (p_Inventory (me s))\<rparr> else me s)"
    and "brk (snd (addItem a b s)) = brk s"
    and "tsize (p_Inventory (me s)) < MAX_INVENTORY_SIZE \<Longrightarrow>
      heap (snd (addItem a b s)) = heap (claim a it s)"
    and "\<not> tsize (p_Inventory (me s)) < MAX_INVENTORY_SIZE \<Longrightarrow> heap (snd (addItem a b s)) = heap s"
  using assms
  by (auto simp: addItem_def Let_def set_inventory_def send_def sendSysMsg_def
      split: option.split)

lemma addItem_heap_uid:
  assumes "heap s b = Some x"
  shows "\<exists>y. heap (snd (addItem a u s)) b = Some y \<and> it_UID y = it_UID x"
proof (cases "heap s a")
  case (Some it)
  show ?thesis
    using claim_uid [OF assms, of a it] addItem_cases(4,5) [OF Some, of u] assms
    by (cases "tsize (p_Inventory (me s)) < MAX_INVENTORY_SIZE") auto
qed (use assms in \<open>simp add: addItem_def\<close>)

lemma addItem_inv:
  assumes "inv_ok s" and "a < brk s"
  shows "inv_ok (snd (addItem a b s))"
proof (cases "heap s a")
  case (Some it)
  note c = addItem_cases [OF Some, of b]
  have t: "table_ok (p_Inventory (me s))" using assms(1) by (simp add: inv_ok_def)
  show ?thesis
  proof (rule inv_okI)
    show "table_ok (p_Inventory (me (snd (addItem a b s))))"
      using t by (simp add: c(2) table_simps)
    show "tsize (p_Inventory (me (snd (addItem a b s)))) \<le> MAX_INVENTORY_SIZE"
      using assms(1) t tab.guarded_put c(1) by (auto simp: c(2) inv_ok_def)
    show "length (p_Equipment (me (snd (addItem a b s)))) = MAX_EQUIPMENT"
      using assms(1) by (simp add: c(2) inv_ok_def)
    fix uid a'
    assume "tget uid (p_Inventory (me (snd (addItem a b s)))) = Some a'"
    then have "(uid = it_UID it \<and> a' = a) \<or> tget uid (p_Inventory (me s)) = Some a'"
      using t by (auto simp: c(2) table_simps split: if_splits)
    then obtain x where "a' < brk s" "heap s a' = Some x" "it_UID x = uid"
      using inv_entry [OF assms(1)] assms(2) Some by blast
    then show "a' < brk (snd (addItem a b s)) \<and> (\<exists>x. heap (snd (addItem a b s)) a' = Some x \<and> it_UID x = uid)"
      using addItem_heap_uid [of s a' x a b] by (simp add: c(3))
  qed
qed (use assms in \<open>simp add: addItem_def\<close>)

lemma addItem_keeps:
  assumes "inv_ok s" and "tget uid (p_Inventory (me s)) = Some a'"
  shows "tget uid (p_Inventory (me (snd (addItem a b s)))) = Some a'"
proof (cases "heap s a")
  case (Some it)
  note c = addItem_cases [OF Some, of b]
  have "table_ok (p_Inventory (me s))" using assms(1) by (simp add: inv_ok_def)
  then show ?thesis using assms(2) c(1) by (auto simp: c(2) table_simps)
qed (use assms in \<open>simp add: addItem_def\<close>)

lemma eraseItem_result:
  assumes "inv_ok s"
  shows "fst (eraseItem uid b s) \<longleftrightarrow> getItem uid s \<noteq> None"
    and "inv_ok (snd (eraseItem uid b s))"
    and "getItem k (snd (eraseItem uid b s)) = (if k = uid then None else getItem k s)"
proof -
  have t: "table_ok (p_Inventory (me s))" and sz: "tsize (p_Inventory (me s)) \<le> MAX_INVENTORY_SIZE"
    and len: "length (p_Equipment (me s)) = MAX_EQUIPMENT"
    using assms by (simp_all add: inv_ok_def)
  show "fst (eraseItem uid b s) \<longleftrightarrow> getItem uid s \<noteq> None"
    by (simp add: eraseItem_def getItem_def Let_def split: option.split)
  show "inv_ok (snd (eraseItem uid b s)) "
  proof (cases "tget uid (p_Inventory (me s))")
    case (Some a)
    obtain it where it: "heap s a = Some it" "it_UID it = uid" using inv_entry(2) [OF assms Some] by blast
    have e: "me (snd (eraseItem uid b s)) = (me s)\<lparr>p_Inventory := tdel uid (p_Inventory (me s))\<rparr>"
      "heap (snd (eraseItem uid b s)) = (heap s)(a := None)" "brk (snd (eraseItem uid b s)) = brk s"
      using Some it by (simp_all add: eraseItem_def Let_def set_inventory_def hfree_def send_def emit_def on_me_def)
    show ?thesis
    proof (rule inv_okI)
      fix k a' assume "tget k (p_Inventory (me (snd (eraseItem uid b s)))) = Some a'"
      then have k: "k \<noteq> uid" "tget k (p_Inventory (me s)) = Some a'"
        using t by (auto simp: e table_simps split: if_splits)
      then have "a' \<noteq> a" using inv_entry(2) [OF assms k(2)] it by auto
      then show "a' < brk (snd (eraseItem uid b s)) \<and>
          (\<exists>x. heap (snd (eraseItem uid b s)) a' = Some x \<and> it_UID x = k)"
        using inv_entry [OF assms k(2)] by (simp add: e)
    qed (use t sz len in \<open>auto simp: e table_simps\<close>)
  qed (use assms in \<open>simp add: eraseItem_def\<close>)
  show "getItem k (snd (eraseItem uid b s)) = (if k = uid then None else getItem k s)"
    using t by (auto simp: eraseItem_def getItem_def Let_def set_inventory_def hfree_def send_def emit_def
        on_me_def table_simps split: option.split)
qed

section \<open>Equipping\<close>

definition below :: "addr \<Rightarrow> addr option \<Rightarrow> bool" where
  "below n v = (case v of None \<Rightarrow> True | Some a \<Rightarrow> a < n)"

lemma below_simps [simp]: "below n None" "below n (Some a) \<longleftrightarrow> a < n"
  by (simp_all add: below_def)

definition equip_ok :: "pstate \<Rightarrow> bool" where
  "equip_ok s \<longleftrightarrow> list_all (below (brk s)) (p_Equipment (me s))"

definition items_ok :: "pstate \<Rightarrow> bool" where
  "items_ok s \<longleftrightarrow> inv_ok s \<and> equip_ok s"

lemma items_emit [simp]: "items_ok (emit e s) = items_ok s"
  by (simp add: items_ok_def equip_ok_def)

lemma addItem_equipment: "p_Equipment (me (snd (addItem a b s))) = p_Equipment (me s)"
  and addItem_brk: "brk (snd (addItem a b s)) = brk s"
proof -
  have "p_Equipment (me (snd (addItem a b s))) = p_Equipment (me s) \<and> brk (snd (addItem a b s)) = brk s"
  proof (cases "heap s a")
    case (Some it)
    then show ?thesis using addItem_cases(2,3) [OF Some, of b] by simp
  qed (simp add: addItem_def)
  then show "p_Equipment (me (snd (addItem a b s))) = p_Equipment (me s)"
    and "brk (snd (addItem a b s)) = brk s" by simp_all
qed

lemma items_addItem: "items_ok s \<Longrightarrow> a < brk s \<Longrightarrow> items_ok (snd (addItem a b s))"
  by (simp add: items_ok_def addItem_inv equip_ok_def addItem_equipment addItem_brk)

lemma list_all_update: "list_all P xs \<Longrightarrow> P v \<Longrightarrow> list_all P (xs[i := v])"
  by (auto simp: list_all_iff dest!: set_update_subset_insert [THEN subsetD])

lemma set_slot_frame [simp]:
  "p_Equipment (me (set_slot pos v s)) = (p_Equipment (me s))[pos := v]"
  "p_Inventory (me (set_slot pos v s)) = p_Inventory (me s)" "brk (set_slot pos v s) = brk s"
  "heap (set_slot pos v s) = heap s"
  by (simp_all add: set_slot_def)

lemma items_set_slot: "items_ok s \<Longrightarrow> below (brk s) v \<Longrightarrow> items_ok (set_slot pos v s)"
  by (simp add: items_ok_def inv_set_slot equip_ok_def list_all_update)

lemma slot_address:
  assumes "equip_ok s" and "pos < length (p_Equipment (me s))" and "getEquipByPos pos s = Some a"
  shows "a < brk s"
  using assms unfolding equip_ok_def getEquipByPos_def list_all_length by (metis below_simps(2))

lemma items_unequip:
  assumes "items_ok s" and "pos < MAX_EQUIPMENT"
  shows "items_ok (unequipOnly pos s)"
proof (cases "getEquipByPos pos s")
  case (Some a)
  have "pos < length (p_Equipment (me s))" using assms by (simp add: items_ok_def inv_ok_def)
  then have "a < brk s" using slot_address [OF _ _ Some] assms(1) by (simp add: items_ok_def)
  then have "items_ok (snd (addItem a True s))" using items_addItem assms(1) by blast
  then show ?thesis
    using items_set_slot [of "snd (addItem a True s)" None] by (simp add: unequipOnly_def Some split_beta Let_def)
qed (use assms in \<open>simp add: unequipOnly_def\<close>)

lemma unequip_brk [simp]: "brk (unequipOnly pos s) = brk s"
  by (simp add: unequipOnly_def split_beta Let_def addItem_brk split: option.split)

lemma items_put_on: "items_ok s \<Longrightarrow> a < brk s \<Longrightarrow> items_ok (put_on a pos s)"
  by (simp add: put_on_def items_ok_def setters_inv inv_set_slot equip_ok_def list_all_update)

lemma put_on_brk [simp]: "brk (put_on a pos s) = brk s"
  by (simp add: put_on_def)

text \<open>
  Every branch either changes nothing or takes off what it must and puts the item on a slot it
  fits.
\<close>

definition equip_outcome :: "addr \<Rightarrow> item \<Rightarrow> position \<Rightarrow> pstate \<Rightarrow> bool \<times> pstate \<Rightarrow> bool" where
  "equip_outcome a it pos s r \<longleftrightarrow>
     r = (False, s) \<or>
     r = (True, put_on a pos (unequipOnly pos s)) \<and> fits_slot it pos"

lemma equip_right_outcome: "equip_outcome a it POS_RWEAPON s (equip_right a it s)"
  by (cases "equip_at (unequipOnly POS_RWEAPON s) POS_LWEAPON")
    (simp_all add: equip_right_def equip_outcome_def fits_slot_def isArrow_def Let_def)

lemma equip_left_outcome: "equip_outcome a it POS_LWEAPON s (equip_left a it s)"
  by (cases "equip_at s POS_RWEAPON")
    (auto simp: equip_left_def equip_outcome_def fits_slot_def wear_def isArrow_def)

lemma equip_slot_outcome: "equip_outcome a it pos s (equip_slot a it pos s)"
proof -
  have w: "(fits \<Longrightarrow> fits_slot it pos) \<Longrightarrow> equip_outcome a it pos s (wear fits a pos s)" for fits
    by (simp add: wear_def equip_outcome_def)
  have n: "equip_outcome a it pos s (False, s)" by (simp add: equip_outcome_def)
  have r: "pos = POS_RWEAPON \<Longrightarrow> equip_outcome a it pos s (equip_right a it s)"
    using equip_right_outcome by (simp only:)
  have l: "pos = POS_LWEAPON \<Longrightarrow> equip_outcome a it pos s (equip_left a it s)"
    using equip_left_outcome by (simp only:)
  show ?thesis
    unfolding equip_slot_def
    by (simp only: split: if_split)
      (intro conjI impI n r l w; (assumption | simp add: fits_slot_def))
qed

lemma equip_slot_success:
  assumes "fst (equip_slot a it pos s)"
  shows "pos < MAX_EQUIPMENT" and "fits_slot it pos"
    and "snd (equip_slot a it pos s) = put_on a pos (unequipOnly pos s)"
  using assms equip_slot_outcome [of a it pos s]
  by (auto simp: equip_outcome_def fits_slot_def pos_defs)

lemma equip_slot_failure: "\<not> fst (equip_slot a it pos s) \<Longrightarrow> snd (equip_slot a it pos s) = s"
  using equip_slot_outcome [of a it pos s] by (auto simp: equip_outcome_def)

lemma equipItem_state:
  assumes "heap s a = Some it"
  shows "fst (equipItem a pos b s) \<longleftrightarrow> canEquipItem it pos (me s) \<and> fst (equip_slot a it pos s)"
    and "fst (equipItem a pos b s) \<Longrightarrow>
      me (snd (equipItem a pos b s)) = me (snd (equip_slot a it pos s)) \<and>
      heap (snd (equipItem a pos b s)) = heap (snd (equip_slot a it pos s)) \<and>
      brk (snd (equipItem a pos b s)) = brk (snd (equip_slot a it pos s))"
    and "\<not> fst (equipItem a pos b s) \<Longrightarrow> snd (equipItem a pos b s) = s"
  using assms equip_slot_failure
  by (auto simp: equipItem_def Let_def split_beta effect_defs)

lemma items_cong:
  "me s = me t \<Longrightarrow> heap s = heap t \<Longrightarrow> brk s = brk t \<Longrightarrow> items_ok s = items_ok t"
  by (simp add: items_ok_def inv_ok_def equip_ok_def entry_ok_def list_all_iff)

lemma items_equip:
  assumes "items_ok s" and "a < brk s"
  shows "items_ok (snd (equipItem a pos b s))"
proof (cases "heap s a")
  case (Some it)
  show ?thesis
  proof (cases "fst (equipItem a pos b s)")
    case True
    then have ok: "fst (equip_slot a it pos s)" using equipItem_state(1) [OF Some] by simp
    note e = equip_slot_success [OF ok]
    have "items_ok (snd (equip_slot a it pos s))"
      using assms(2) items_unequip [OF assms(1) e(1)] by (simp add: e(3) items_put_on)
    then show ?thesis using equipItem_state(2) [OF Some True] items_cong by blast
  qed (use equipItem_state(3) [OF Some] assms in simp)
qed (use assms in \<open>simp add: equipItem_def\<close>)

lemma unequip_keeps:
  assumes "inv_ok s" and "tget uid (p_Inventory (me s)) = Some a'"
  shows "tget uid (p_Inventory (me (unequipOnly pos s))) = Some a'"
  using addItem_keeps [OF assms]
  by (simp add: unequipOnly_def split_beta Let_def set_slot_def assms split: option.split)

lemma put_on_state [simp]:
  "p_Inventory (me (put_on a pos s)) = p_Inventory (me s)"
  "p_Equipment (me (put_on a pos s)) = (p_Equipment (me s))[pos := Some a]"
  by (simp_all add: put_on_def set_slot_def)

lemma unequip_length [simp]: "length (p_Equipment (me (unequipOnly pos s))) = length (p_Equipment (me s))"
  by (simp add: unequipOnly_def split_beta Let_def set_slot_def addItem_equipment split: option.split)

text \<open>What a successful equip leaves: the slot holds the item and the inventory lost nothing.\<close>

lemma equip_result:
  assumes "items_ok s" and "getItem uid s = Some a" and "fst (equipItem a pos b s)"
  shows "pos < MAX_EQUIPMENT" and "getEquipByPos pos (snd (equipItem a pos b s)) = Some a"
    and "getItem uid (snd (equipItem a pos b s)) = Some a"
proof -
  have inv: "inv_ok s" and a: "tget uid (p_Inventory (me s)) = Some a"
    using assms by (simp_all add: items_ok_def getItem_def)
  obtain it where it: "heap s a = Some it" using inv_entry(2) [OF inv a] by blast
  have ok: "fst (equip_slot a it pos s)" using equipItem_state(1) [OF it] assms(3) by simp
  note e = equip_slot_success [OF ok]
  show "pos < MAX_EQUIPMENT" by (rule e(1))
  have keep: "tget uid (p_Inventory (me (unequipOnly pos s))) = Some a"
    by (rule unequip_keeps [OF inv a])
  have len: "length (p_Equipment (me (unequipOnly pos s))) = MAX_EQUIPMENT"
    using inv by (simp add: inv_ok_def)
  have m: "me (snd (equipItem a pos b s)) = me (put_on a pos (unequipOnly pos s))"
    using equipItem_state(2) [OF it assms(3)] e(3) by simp
  show "getEquipByPos pos (snd (equipItem a pos b s)) = Some a"
    using e(1) len by (simp add: getEquipByPos_def m)
  show "getItem uid (snd (equipItem a pos b s)) = Some a"
    using keep by (simp add: getItem_def m)
qed

section \<open>Deleting\<close>

lemma safe_delete_simps [simp]:
  "safe_delete p None = None" "safe_delete None h = h"
  "safe_delete (Some a) (Some f) = (if f a = None then None else Some (f(a := None)))"
  by (auto simp: safe_delete_def split: option.split)

lemma delete_None [simp]: "fold safe_delete ps None = None"
  by (induction ps) simp_all

lemma delete_dead: "h a = None \<Longrightarrow> Some a \<in> set ps \<Longrightarrow> fold safe_delete ps (Some h) = None"
proof (induction ps arbitrary: h)
  case (Cons p ps)
  then show ?case by (cases p) auto
qed simp

lemma delete_keeps: "fold safe_delete ps (Some h) = Some h' \<Longrightarrow> h a = None \<Longrightarrow> h' a = None"
proof (induction ps arbitrary: h)
  case (Cons p ps)
  then show ?case by (cases p) (auto split: if_splits)
qed simp

lemma delete_dead_after: "Some a \<in> set ps \<Longrightarrow> fold safe_delete ps (Some h) = Some h' \<Longrightarrow> h' a = None"
proof (induction ps arbitrary: h)
  case (Cons p ps)
  then show ?case using delete_keeps [of ps] by (cases p) (auto split: if_splits)
qed simp

lemma deleteAllItem_pointers:
  "deleteAllItem s = None \<longleftrightarrow>
   fold safe_delete (map ((!) (p_Equipment (me s))) [1..<MAX_EQUIPMENT] @
     map (\<lambda>(k, a). Some a) (p_Inventory (me s))) (Some (heap s)) = None"
  by (simp add: deleteAllItem_def Let_def fold_map comp_def case_prod_unfold del: upt_Suc)

lemma shared_pointer_double_delete:
  assumes "1 \<le> pos" and "pos < MAX_EQUIPMENT" and "getEquipByPos pos s = Some a"
    and "table_ok (p_Inventory (me s))" and "getItem uid s = Some a"
  shows "deleteAllItem s = None"
proof -
  let ?E = "map ((!) (p_Equipment (me s))) [1..<MAX_EQUIPMENT]"
  let ?I = "map (\<lambda>(k, a). Some a) (p_Inventory (me s))"
  have e: "Some a \<in> set ?E" using assms(1-3) by (force simp: getEquipByPos_def)
  have i: "Some a \<in> set ?I"
    using assms(4,5) tget_in_set [of "p_Inventory (me s)" uid a] by (force simp: getItem_def)
  have "fold safe_delete (?E @ ?I) (Some (heap s)) = None"
  proof (cases "fold safe_delete ?E (Some (heap s))")
    case (Some h)
    from delete_dead [where h = h, OF delete_dead_after [OF e Some] i] Some show ?thesis by simp
  qed simp
  then show ?thesis by (simp only: deleteAllItem_pointers)
qed

section \<open>Awarding\<close>

lemma items_alloc:
  assumes "items_ok s"
  shows "items_ok (hput (brk s) it (s\<lparr>brk := brk s + 1\<rparr>))"
proof -
  have "inv_ok (hput (brk s) it (s\<lparr>brk := brk s + 1\<rparr>))"
  proof (rule inv_okI)
    fix uid a assume "tget uid (p_Inventory (me (hput (brk s) it (s\<lparr>brk := brk s + 1\<rparr>)))) = Some a"
    then have "tget uid (p_Inventory (me s)) = Some a" by (simp add: hput_def)
    from inv_entry [OF _ this] assms
    show "a < brk (hput (brk s) it (s\<lparr>brk := brk s + 1\<rparr>)) \<and>
        (\<exists>x. heap (hput (brk s) it (s\<lparr>brk := brk s + 1\<rparr>)) a = Some x \<and> it_UID x = uid)"
      by (auto simp: items_ok_def hput_def)
  qed (use assms in \<open>simp_all add: items_ok_def inv_ok_def hput_def\<close>)
  moreover have "below (brk s) v \<Longrightarrow> below (brk s + 1) v" for v
    by (cases v) auto
  ultimately show ?thesis
    using assms by (auto simp: items_ok_def equip_ok_def hput_def list_all_iff)
qed

lemma items_hfree:
  assumes "items_ok s" and "\<And>uid. tget uid (p_Inventory (me s)) \<noteq> Some a"
  shows "items_ok (hfree a s)"
proof -
  have "inv_ok (hfree a s)"
  proof (rule inv_okI)
    fix uid b assume b: "tget uid (p_Inventory (me (hfree a s))) = Some b"
    then have "b \<noteq> a" using assms(2) by (auto simp: hfree_def)
    with b inv_entry [of s uid b] assms(1)
    show "b < brk (hfree a s) \<and> (\<exists>x. heap (hfree a s) b = Some x \<and> it_UID x = uid)"
      by (auto simp: items_ok_def hfree_def)
  qed (use assms in \<open>simp_all add: items_ok_def inv_ok_def hfree_def\<close>)
  then show ?thesis using assms(1) by (simp add: items_ok_def equip_ok_def hfree_def)
qed

lemma createItem_uid: "createItem (Some uid) aInfo = Some it \<Longrightarrow> it_UID it = uid"
  by (auto simp: createItem_def Let_def Item_def)

lemma createItem_None: "createItem ins aInfo = None \<longleftrightarrow> ins = None"
  by (simp add: createItem_def Let_def split: option.split)

text \<open>The state in which \<open>awardItem\<close> adds the new item.\<close>

definition awarded :: "item \<Rightarrow> pstate \<Rightarrow> pstate" where
  "awarded it s = hput (brk s) it (s\<lparr>brk := brk s + 1\<rparr>)"

lemma awarded_frame [simp]:
  "me (awarded it s) = me s" "heap (awarded it s) (brk s) = Some it" "brk (awarded it s) = brk s + 1"
  by (simp_all add: awarded_def hput_def)

lemma awardItem_unfold:
  assumes "tsize (p_Inventory (me s)) < MAX_INVENTORY_SIZE" and "createItem ins aInfo = Some it"
  shows "awardItem ins aInfo b s =
    (if fst (addItem (brk s) b (awarded it s)) then (True, snd (addItem (brk s) b (awarded it s)))
     else (False, hfree (brk s) (emit (DbEraseItem (it_UID it)) (snd (addItem (brk s) b (awarded it s))))))"
  using assms by (simp add: awardItem_def Let_def split_beta awarded_def)

lemma items_award:
  assumes "items_ok s"
  shows "items_ok (snd (awardItem ins aInfo b s))"
proof (cases "tsize (p_Inventory (me s)) < MAX_INVENTORY_SIZE \<and> createItem ins aInfo \<noteq> None")
  case True
  then obtain it where it: "createItem ins aInfo = Some it" by blast
  let ?s = "snd (addItem (brk s) b (awarded it s))"
  have k: "items_ok ?s"
    using items_addItem [of "awarded it s" "brk s" b] items_alloc [OF assms, of it]
    by (simp add: awarded_def hput_def)
  moreover have "tget uid (p_Inventory (me ?s)) \<noteq> Some (brk s)"
    if "\<not> fst (addItem (brk s) b (awarded it s))" for uid
    using that addItem_cases(2) [of "awarded it s" "brk s" it b] inv_entry(1) [of s uid "brk s"] assms
    by (auto simp: items_ok_def)
  ultimately show ?thesis
    using True it by (auto simp: awardItem_unfold intro!: items_hfree)
next
  case False
  then show ?thesis
    using assms by (auto simp: awardItem_def sendSysMsg_def)
qed

lemma items_erase: "items_ok s \<Longrightarrow> items_ok (snd (eraseItem uid b s))"
  using eraseItem_result(2) [of s uid b]
  by (auto simp: items_ok_def equip_ok_def eraseItem_def Let_def set_inventory_def hfree_def
      send_def split: option.splits)


section \<open>Properties\<close>

definition sample_state :: "item \<Rightarrow> pstate" where
  "sample_state it =
     \<lparr>me = (Player 0 1)\<lparr>p_Inventory := [(it_UID it, 0)]\<rparr>, heap = [0 \<mapsto> it], brk = 1, effs = []\<rparr>"

lemma sample_state_ok: "items_ok (sample_state it)"
  by (simp add: sample_state_def items_ok_def inv_ok_def equip_ok_def entry_ok_def table_ok_def
      tsize_def MAX_INVENTORY_SIZE_def MAX_EQUIPMENT_def Player_def numeral_eq_Suc)

text \<open>Adding, erasing, awarding and equipping items keep the player's items well formed: the
  inventory stays a proper map of at most forty entries, each of which points to a live item with
  the id it is filed under, the equipment keeps its ten slots, and no pointer is above the
  allocator's break.  Every branch is covered, the failing ones included.\<close>
theorem item_operations_keep_items_ok:
  assumes "items_ok s" and "a < brk s"
  shows "items_ok (snd (addItem a b s)) \<and> items_ok (snd (eraseItem uid b s)) \<and>
    items_ok (snd (awardItem inserted aInfo b s)) \<and> items_ok (snd (equipItem a pos b s)) \<and>
    (pos < MAX_EQUIPMENT \<longrightarrow> items_ok (unequipOnly pos s))"
  using assms items_addItem items_erase items_award items_equip items_unequip by blast

lemma item_operations_keep_items_ok_witness:
  "items_ok (snd (equipItem 0 POS_ARMET True (sample_state (Item 7 (Item_Info\<lparr>i_Id := 111003\<rparr>)))))"
  using item_operations_keep_items_ok [OF sample_state_ok,
      of 0 "Item 7 (Item_Info\<lparr>i_Id := 111003\<rparr>)" True 0 None Item_Info POS_ARMET]
  by (simp add: sample_state_def)

text \<open>Awarding an item succeeds exactly when the bag has room, the database gives the new row an id
  and that id is not in the bag.  Then the bag maps that id to a fresh address and nothing else
  changed in it; otherwise the player is unchanged and the address is free again.\<close>
theorem awardItem_outcome:
  assumes "items_ok s"
  shows "(fst (awardItem inserted aInfo b s) \<longleftrightarrow>
      tsize (p_Inventory (me s)) < MAX_INVENTORY_SIZE \<and>
      (\<exists>uid. inserted = Some uid \<and> getItem uid s = None)) \<and>
    (fst (awardItem inserted aInfo b s) \<longrightarrow>
      getItem k (snd (awardItem inserted aInfo b s)) =
        (if inserted = Some k then Some (brk s) else getItem k s)) \<and>
    (\<not> fst (awardItem inserted aInfo b s) \<longrightarrow>
      me (snd (awardItem inserted aInfo b s)) = me s)"
proof (cases "tsize (p_Inventory (me s)) < MAX_INVENTORY_SIZE \<and> inserted \<noteq> None")
  case True
  then obtain uid it where ins: "inserted = Some uid" and it: "createItem inserted aInfo = Some it"
    using createItem_None [of inserted aInfo] by blast
  have u: "it_UID it = uid" using createItem_uid it ins by blast
  have t: "table_ok (p_Inventory (me s))" using assms by (simp add: items_ok_def inv_ok_def)
  note c = addItem_cases [of "awarded it s" "brk s" it b]
  have ok: "fst (addItem (brk s) b (awarded it s)) \<longleftrightarrow> getItem uid s = None"
    and me': "me (snd (addItem (brk s) b (awarded it s))) =
      (if getItem uid s = None then (me s)\<lparr>p_Inventory := tput uid (brk s) (p_Inventory (me s))\<rparr> else me s)"
    using True c(1,2) u by (simp_all add: getItem_def)
  have w: "fst (awardItem inserted aInfo b s) \<longleftrightarrow> getItem uid s = None"
    "me (snd (awardItem inserted aInfo b s)) =
      (if getItem uid s = None then (me s)\<lparr>p_Inventory := tput uid (brk s) (p_Inventory (me s))\<rparr> else me s)"
    using True by (simp_all add: awardItem_unfold [OF _ it] ok me' hfree_def)
  show ?thesis
    unfolding w getItem_def [of k] using True ins t by (simp add: w(2) table_simps)
next
  case False
  then have "fst (awardItem inserted aInfo b s) = False" "me (snd (awardItem inserted aInfo b s)) = me s"
    by (auto simp: awardItem_def sendSysMsg_def createItem_def)
  then show ?thesis using False by auto
qed

lemma awardItem_outcome_witness:
  "getItem 9 (snd (awardItem (Some 9) Item_Info False (sample_state (Item 7 Item_Info)))) = Some 1"
  using awardItem_outcome [OF sample_state_ok, of "Some 9" Item_Info False "Item 7 Item_Info" 9]
  by (simp add: sample_state_def getItem_def tget_def tsize_def MAX_INVENTORY_SIZE_def Item_def)

text \<open>C40: Putting on an item of the bag does not take it out of the bag: slot and bag hold the same
  pointer, and when the player object is destroyed \<open>deleteAllItem\<close> deletes the item twice, for
  every item, slot and well-formed state in which the equip succeeds.\<close>
theorem equip_then_logout:
  assumes "items_ok s" and "getItem uid s = Some a" and "1 \<le> pos"
    and "fst (equipItem a pos b s)"
  shows "getEquipByPos pos (snd (equipItem a pos b s)) = Some a \<and>
    getItem uid (snd (equipItem a pos b s)) = Some a \<and>
    deleteAllItem (snd (equipItem a pos b s)) = None"
proof -
  note e = equip_result [OF assms(1,2,4)]
  have "a < brk s" using inv_entry(1) [of s uid a] assms(1,2) by (simp add: items_ok_def getItem_def)
  then have "items_ok (snd (equipItem a pos b s))" using items_equip assms(1) by blast
  then have "table_ok (p_Inventory (me (snd (equipItem a pos b s))))"
    by (simp add: items_ok_def inv_ok_def)
  then show ?thesis
    using e shared_pointer_double_delete [OF assms(3) e(1,2) _ e(3)] by simp
qed

lemma equip_then_logout_witness:
  "deleteAllItem (snd (equipItem 0 1 True (sample_state (Item 7 (Item_Info\<lparr>i_Id := 111003\<rparr>))))) = None"
proof -
  let ?it = "Item 7 (Item_Info\<lparr>i_Id := 111003\<rparr>)"
  have "isHelmet ?it" by code_simp
  moreover have "canEquipItem ?it 1 ((Player 0 1)\<lparr>p_Inventory := [(7, 0)]\<rparr>)"
    by (simp add: canEquipItem_def Let_def Item_def Item_Info_def Player_def isTaskItem_def isOther_def
        getItemSort_def isNeedIdent_def start_def)
  ultimately have "fst (equipItem 0 1 True (sample_state ?it))"
    by (simp add: equipItem_def sample_state_def split_beta Let_def equip_slot_def wear_def pos_defs Item_def)
  moreover have "getItem 7 (sample_state ?it) = Some 0" by code_simp
  ultimately show ?thesis using equip_then_logout [OF sample_state_ok, of 7 ?it 0 1 True] by simp
qed

text \<open>Eating a medicine of the bag reports success and never changes the mana, whatever mana the
  medicine gives: the code adds it to the life points.\<close>
theorem medicine_gives_no_mana:
  assumes "heap s a = Some it" and "isEatEnable it" and "\<not> isActionItem it" and "\<not> isEquipEnable it"
    and "getItem (it_UID it) s \<noteq> None"
  shows "fst (useItem execute a pos b s) \<and> p_CurMP (me (snd (useItem execute a pos b s))) = p_CurMP (me s)"
proof -
  have add: "p_CurMP (me (snd (addAttrib USER_ATTRIB_LIFE d x y s'))) = p_CurMP (me s')" for d x y s'
    by (simp add: addAttrib_def set_attrib_def Let_def effect_defs)
  have er: "fst (eraseItem u b s) \<longleftrightarrow> getItem u s \<noteq> None" "p_CurMP (me (snd (eraseItem u b s))) = p_CurMP (me s)" for u
    by (simp_all add: eraseItem_def getItem_def Let_def set_inventory_def hfree_def send_def split: option.split)
  show ?thesis
    using assms by (simp add: useItem_def Let_def split_beta add er)
qed

lemma medicine_gives_no_mana_witness:
  "p_CurMP (me (snd (useItem (\<lambda>_ s. (ERROR_SUCCESS, s)) 0 0 True
     (sample_state (Item 7 (Item_Info\<lparr>i_Id := 1001000, i_Mana := 70\<rparr>)))))) = 0"
proof -
  let ?it = "Item 7 (Item_Info\<lparr>i_Id := 1001000, i_Mana := 70\<rparr>)"
  have h: "isEatEnable ?it" "\<not> isActionItem ?it" "\<not> isEquipEnable ?it" by code_simp+
  show ?thesis
    using medicine_gives_no_mana [of "sample_state ?it" 0, OF _ h, of "\<lambda>_ s. (ERROR_SUCCESS, s)" 0 True]
    by (simp add: sample_state_def getItem_def tget_def Item_def Player_def)
qed

end
