(* ===== verification/PlayerTick.thy ===== *)
theory PlayerTick
  imports Player
begin

text \<open>
  The periodic work of a player: the ping to the client, the check of the client's answers and
  the recovery of energy (\<^verbatim>\<open>Player::timerElapsed\<close>, \<^verbatim>\<open>Player::processTick\<close>), as the steps of a
  transition system.  The clocks are arguments: \<open>now\<close> is \<^verbatim>\<open>timeGetTime()\<close> in milliseconds, \<open>secs\<close>
  the processor time in seconds the timers read.  Signed 32-bit ticks are integers: their
  overflow is undefined in C++.
\<close>

section \<open>The timer\<close>

definition push_tick :: "int \<Rightarrow> pstate \<Rightarrow> pstate" where
  "push_tick now s =
     send (MsgTick (p_UID (me s)))
       (on_me (\<lambda>p. p\<lparr>p_LastServerTick := now, p_ServerTicks := p_ServerTicks p @ [now]\<rparr>) s)"

definition ping :: "int \<Rightarrow> pstate \<Rightarrow> pstate" where
  "ping now s =
     (if p_FirstServerTick (me s) = 0 then
        push_tick now (on_me (\<lambda>p. p\<lparr>p_FirstServerTick := now, p_LastRcvClientTick := now\<rparr>) s)
      else if now \<ge> p_LastServerTick (me s) + 10000 then push_tick now s
      else s)"

definition check_feedback :: "int \<Rightarrow> pstate \<Rightarrow> pstate" where
  "check_feedback now s =
     (if p_LastRcvClientTick (me s) \<noteq> 0 \<and> now - p_LastRcvClientTick (me s) \<ge> 25000
      then disconnect s else s)"

definition recover_energy :: "int \<Rightarrow> pstate \<Rightarrow> pstate" where
  "recover_energy secs s =
     (if isAlive (me s) \<and> p_Energy (me s) < getMaxEnergy s then
        (let (due, t) = toNextTime secs (p_LastAddEnergy (me s));
             s = on_me (\<lambda>p. p\<lparr>p_LastAddEnergy := t\<rparr>) s
         in if due then
              (if p_Pose (me s) = POSE_STANDBY then
                 snd (addAttrib USER_ATTRIB_ENERGY ADD_ENERGY_STAND True False s)
               else if p_Pose (me s) = POSE_SITDOWN then
                 snd (addAttrib USER_ATTRIB_ENERGY ADD_ENERGY_SIT True False s)
               else s)
            else s)
      else s)"

definition timerElapsed :: "int \<Rightarrow> int \<Rightarrow> pstate \<Rightarrow> pstate" where
  "timerElapsed now secs s = recover_energy secs (check_feedback now (ping now s))"

section \<open>The answer of the client\<close>

text \<open>The test of the message counter, in 32 bits.\<close>

definition count_off :: "u32 \<Rightarrow> u32 \<Rightarrow> bool" where
  "count_off expected got \<longleftrightarrow> expected > got \<or> expected + 16 < got"

definition suspicious :: "int \<Rightarrow> int \<Rightarrow> player \<Rightarrow> bool" where
  "suspicious serverTime aClientTime p \<longleftrightarrow>
     p_LastClientTick p \<noteq> 0 \<and> length (p_ServerTicks p) \<ge> 2 \<and>
     aClientTime > p_LastClientTick p + 10000 + 500 \<and>
     (let serverTickInterval = p_ServerTicks p ! 1 - p_ServerTicks p ! 0;
          echoTime = serverTime - p_ServerTicks p ! 1
      in echoTime < aClientTime - p_LastClientTick p - serverTickInterval)"

definition accept_tick :: "int \<Rightarrow> int \<Rightarrow> u32 \<Rightarrow> player \<Rightarrow> player" where
  "accept_tick rcvTime aClientTime aMsgCount p =
     p\<lparr>p_ServerTicks := (if length (p_ServerTicks p) \<ge> 2 then butlast (p_ServerTicks p) else p_ServerTicks p),
       p_MsgCount := aMsgCount, p_LastClientTick := aClientTime, p_LastRcvClientTick := rcvTime\<rparr>"

text \<open>\<open>serverTime\<close> and \<open>rcvTime\<close> are the two readings of the clock.\<close>

definition processTick :: "int \<Rightarrow> int \<Rightarrow> int \<Rightarrow> u32 \<Rightarrow> pstate \<Rightarrow> pstate" where
  "processTick serverTime rcvTime aClientTime aMsgCount s =
     (let s = (if p_MsgCount (me s) = 0 then on_me (\<lambda>p. p\<lparr>p_MsgCount := aMsgCount\<rparr>) s else s) in
      if count_off (p_MsgCount (me s)) aMsgCount then disconnect s
      else
        let s = (if p_FirstClientTick (me s) = 0
                 then on_me (\<lambda>p. p\<lparr>p_FirstClientTick := aClientTime\<rparr>) s else s) in
        if aClientTime < p_LastClientTick (me s) then disconnect (sendSysMsg ''STR_CONNECTION_OFF'' s)
        else if suspicious serverTime aClientTime (me s)
        then disconnect (sendSysMsg ''STR_CONNECTION_OFF'' s)
        else on_me (accept_tick rcvTime aClientTime aMsgCount) s)"

section \<open>The transition system\<close>

text \<open>
  Any interleaving of timer ticks and answers, at any times.  The clock of the first ping is not
  zero: the code takes zero for "not yet".
\<close>

inductive tick_step :: "pstate \<Rightarrow> pstate \<Rightarrow> bool" where
  elapsed: "now \<noteq> 0 \<Longrightarrow> tick_step s (timerElapsed now secs s)"
| answer: "tick_step s (processTick serverTime rcvTime aClientTime aMsgCount s)"

inductive tick_reach :: "pstate \<Rightarrow> pstate \<Rightarrow> bool" for s0 where
  here: "tick_reach s0 s0"
| more: "tick_reach s0 s \<Longrightarrow> tick_step s s' \<Longrightarrow> tick_reach s0 s'"

section \<open>Frames\<close>

lemma addAttrib_ticks:
  "p_ServerTicks (me (snd (addAttrib ty d x y s))) = p_ServerTicks (me s)"
  "p_FirstServerTick (me (snd (addAttrib ty d x y s))) = p_FirstServerTick (me s)"
  "p_LastRcvClientTick (me (snd (addAttrib ty d x y s))) = p_LastRcvClientTick (me s)"
  by (cases ty; simp add: addAttrib_def set_attrib_def Let_def effect_defs)+

lemma recover_energy_ticks:
  "p_ServerTicks (me (recover_energy secs s)) = p_ServerTicks (me s)"
  "p_FirstServerTick (me (recover_energy secs s)) = p_FirstServerTick (me s)"
  by (simp_all add: recover_energy_def split_beta Let_def addAttrib_ticks)

lemma check_feedback_me [simp]: "me (check_feedback now s) = me s"
  by (simp add: check_feedback_def disconnect_def)

lemma timerElapsed_ticks:
  "p_ServerTicks (me (timerElapsed now secs s)) =
     (if p_FirstServerTick (me s) = 0 \<or> now \<ge> p_LastServerTick (me s) + 10000
      then p_ServerTicks (me s) @ [now] else p_ServerTicks (me s))"
  "p_FirstServerTick (me (timerElapsed now secs s)) =
     (if p_FirstServerTick (me s) = 0 then now else p_FirstServerTick (me s))"
  by (simp_all add: timerElapsed_def recover_energy_ticks ping_def push_tick_def send_def)

lemma processTick_ticks:
  "p_ServerTicks (me (processTick a b c n s)) \<in>
     {p_ServerTicks (me s), if length (p_ServerTicks (me s)) \<ge> 2 then butlast (p_ServerTicks (me s))
      else p_ServerTicks (me s)}"
  "p_FirstServerTick (me (processTick a b c n s)) = p_FirstServerTick (me s)"
  by (simp_all add: processTick_def Let_def effect_defs accept_tick_def)

text \<open>The oldest server tick is the first one, in every reachable state.\<close>

definition first_tick_ok :: "pstate \<Rightarrow> bool" where
  "first_tick_ok s \<longleftrightarrow>
     (if p_FirstServerTick (me s) = 0 then p_ServerTicks (me s) = []
      else p_ServerTicks (me s) \<noteq> [] \<and> hd (p_ServerTicks (me s)) = p_FirstServerTick (me s))"

lemma hd_butlast_two: "length xs \<ge> 2 \<Longrightarrow> butlast xs \<noteq> [] \<and> hd (butlast xs) = hd xs"
  by (cases xs rule: remdups_adj.cases) auto

lemma first_tick_step:
  assumes "tick_step s s'" and "first_tick_ok s"
  shows "first_tick_ok s'"
  using assms
proof (cases rule: tick_step.cases)
  case (elapsed now secs)
  then show ?thesis using assms(2) by (auto simp: first_tick_ok_def timerElapsed_ticks)
next
  case (answer a b c n)
  then show ?thesis
    using assms(2) processTick_ticks [of a b c n s] hd_butlast_two [of "p_ServerTicks (me s)"]
    by (auto simp: first_tick_ok_def split: if_splits)
qed

lemma first_tick_reach: "tick_reach s0 s \<Longrightarrow> first_tick_ok s0 \<Longrightarrow> first_tick_ok s"
  by (induction rule: tick_reach.induct) (auto intro: first_tick_step)

definition fresh :: "u32 \<Rightarrow> pstate" where
  "fresh uid = \<lparr>me = Player 0 uid, heap = (\<lambda>_. None), brk = 0, effs = []\<rparr>"

lemma first_tick_fresh: "first_tick_ok (fresh uid)"
  by (simp add: first_tick_ok_def fresh_def Player_def)

section \<open>Properties\<close>

text \<open>After a timer tick the player has been pinged exactly when it was the first tick or ten seconds
  have passed since the last ping; and the client is disconnected exactly when an answer was ever
  expected and the last one, or the first ping, is at least 25 seconds old.\<close>
theorem timerElapsed_pings_and_rejects:
  "let s' = timerElapsed now secs s;
       first = (p_FirstServerTick (me s) = 0);
       pinged = (first \<or> now \<ge> p_LastServerTick (me s) + 10000);
       rejected = (\<not> first \<and> p_LastRcvClientTick (me s) \<noteq> 0 \<and> now - p_LastRcvClientTick (me s) \<ge> 25000)
   in (\<exists>es. effs s' = effs s @ (if pinged then [Send (MsgTick (p_UID (me s)))] else []) @
         (if rejected then [Disconnect] else []) @ es \<and> Disconnect \<notin> set es \<and>
         list_all (\<lambda>e. \<exists>v. e = Send (MsgUserAttrib (p_UID (me s)) v USER_ATTRIB_ENERGY)) es)"
proof -
  have uid: "p_UID (me (ping now s)) = p_UID (me s)"
    by (simp add: ping_def push_tick_def send_def)
  have add: "\<exists>es. effs (snd (addAttrib USER_ATTRIB_ENERGY d True False t)) = effs t @ es \<and> Disconnect \<notin> set es \<and>
      list_all (\<lambda>e. \<exists>v. e = Send (MsgUserAttrib (p_UID (me t)) v USER_ATTRIB_ENERGY)) es" for d t
    by (simp add: addAttrib_def set_attrib_def Let_def effect_defs)
  have rec: "\<exists>es. effs (recover_energy secs t) = effs t @ es \<and> Disconnect \<notin> set es \<and>
      list_all (\<lambda>e. \<exists>v. e = Send (MsgUserAttrib (p_UID (me t)) v USER_ATTRIB_ENERGY)) es" for t
    using add [of _ "on_me (\<lambda>p. p\<lparr>p_LastAddEnergy := snd (toNextTime secs (p_LastAddEnergy (me t)))\<rparr>) t"]
    by (simp add: recover_energy_def split_beta Let_def)
  have "effs (check_feedback now (ping now s)) = effs s @
      (if p_FirstServerTick (me s) = 0 \<or> now \<ge> p_LastServerTick (me s) + 10000
       then [Send (MsgTick (p_UID (me s)))] else []) @
      (if p_FirstServerTick (me s) \<noteq> 0 \<and> p_LastRcvClientTick (me s) \<noteq> 0 \<and> now - p_LastRcvClientTick (me s) \<ge> 25000
       then [Disconnect] else [])"
    by (simp add: check_feedback_def ping_def push_tick_def effect_defs)
  then show ?thesis
    using rec [of "check_feedback now (ping now s)"] by (simp add: timerElapsed_def uid Let_def)
qed

text \<open>An answer of the client is either accepted or the client is disconnected.  It is accepted only if
  the message counter is within sixteen of the expected one (any counter is accepted when none
  was recorded) and the client's clock does not run backwards, and then both are recorded.\<close>
theorem processTick_verdict:
  "let s' = processTick serverTime rcvTime t n s;
       expected = (if p_MsgCount (me s) = 0 then n else p_MsgCount (me s));
       ok = (\<not> count_off expected n \<and> t \<ge> p_LastClientTick (me s) \<and> \<not> suspicious serverTime t (me s))
   in (ok \<longleftrightarrow> Disconnect \<notin> set (drop (length (effs s)) (effs s'))) \<and>
      (ok \<longrightarrow> p_MsgCount (me s') = n \<and> p_LastClientTick (me s') = t \<and> p_LastRcvClientTick (me s') = rcvTime)"
  by (simp add: processTick_def Let_def effect_defs suspicious_def accept_tick_def)

lemma processTick_verdict_witness:
  "p_MsgCount (me (processTick 1000 1000 500 7 (fresh 1))) = 7"
  using processTick_verdict [of 1000 1000 500 7 "fresh 1"]
  by (simp add: Let_def count_off_def suspicious_def fresh_def Player_def)

text \<open>Whatever timer ticks and answers happened, the oldest recorded server tick is the first one ever
  sent: an accepted answer removes the newest tick instead of the oldest.  So the clock check
  compares the client's last interval with the whole time since login, and a client whose clock
  jumps ahead by no more than that time is never found suspicious.\<close>
theorem clock_check_goes_blind:
  assumes "tick_reach (fresh uid) s"
    and "t - p_LastClientTick (me s) \<le> serverTime - p_FirstServerTick (me s)"
    and "p_FirstServerTick (me s) \<noteq> 0"
  shows "hd (p_ServerTicks (me s)) = p_FirstServerTick (me s) \<and> \<not> suspicious serverTime t (me s)"
proof -
  have ok: "first_tick_ok s" using first_tick_reach [OF assms(1) first_tick_fresh] .
  then have h: "p_ServerTicks (me s) \<noteq> []" "hd (p_ServerTicks (me s)) = p_FirstServerTick (me s)"
    using assms(3) by (simp_all add: first_tick_ok_def)
  then have "p_ServerTicks (me s) ! 0 = p_FirstServerTick (me s)" by (simp add: hd_conv_nth)
  with h assms(2) show ?thesis by (simp add: suspicious_def Let_def)
qed

lemma clock_check_goes_blind_witness:
  "\<not> suspicious 60000 59000 (me (timerElapsed 1000 0 (fresh 1)))"
proof -
  have "tick_reach (fresh 1) (timerElapsed 1000 0 (fresh 1))"
    by (rule tick_reach.more [OF tick_reach.here tick_step.elapsed]) simp
  then show ?thesis
    using clock_check_goes_blind [of 1 "timerElapsed 1000 0 (fresh 1)" 59000 60000]
    by (simp add: timerElapsed_ticks fresh_def Player_def timerElapsed_def recover_energy_def ping_def
        push_tick_def send_def check_feedback_def isAlive_def)
qed

end
