(* ===== verification/Wire.thy ===== *)
theory Wire
  imports Prelude
begin

text \<open>
  Numbers in byte buffers: the reads of \<^verbatim>\<open>BinaryReader\<close>, which take a number off the front and
  fail at the end of the file, the writes that undo them, and the access to a field of a packed
  structure laid over a message buffer, which is undefined outside of the buffer (\<open>None\<close>).
\<close>

section \<open>Reading and writing\<close>

definition rd16 :: "u8 list \<Rightarrow> (u16 \<times> u8 list) option" where
  "rd16 rd = (case rd of a # b # rest \<Rightarrow> Some (push_bit 8 (ucast b) OR ucast a, rest) | _ \<Rightarrow> None)"

definition rd32 :: "u8 list \<Rightarrow> (u32 \<times> u8 list) option" where
  "rd32 rd = (case rd of a # b # c # d # rest \<Rightarrow> Some (le32 a b c d, rest) | _ \<Rightarrow> None)"

definition wr16 :: "u16 \<Rightarrow> u8 list" where "wr16 w = [ucast w, ucast (drop_bit 8 w)]"
definition wr32 :: "u32 \<Rightarrow> u8 list" where "wr32 w = [byte0 w, byte1 w, byte2 w, byte3 w]"

lemma rd_wr [simp]: "rd16 (wr16 v @ rest) = Some (v, rest)" "rd32 (wr32 w @ rest) = Some (w, rest)"
proof -
  have "push_bit 8 (ucast (ucast (drop_bit 8 v) :: u8)) OR ucast (ucast v :: u8) = v"
  proof (rule bit_word_eqI)
    fix n assume "n < LENGTH(16)"
    then show "bit (push_bit 8 (ucast (ucast (drop_bit 8 v) :: u8)) OR ucast (ucast v :: u8) :: u16) n = bit v n"
      by (cases "n < 8") (auto simp: bit_simps bit_word_beyond)
  qed
  then show "rd16 (wr16 v @ rest) = Some (v, rest)" by (simp add: rd16_def wr16_def)
qed (simp add: rd32_def wr32_def)

lemma wr_lengths [simp]: "length (wr16 v) = 2" "length (wr32 w) = 4"
  by (simp_all add: wr16_def wr32_def)

section \<open>Fields\<close>

definition at8 :: "u8 list \<Rightarrow> nat \<Rightarrow> u8 option" where
  "at8 buf k = (case drop k buf of [] \<Rightarrow> None | b # _ \<Rightarrow> Some b)"

definition at16 :: "u8 list \<Rightarrow> nat \<Rightarrow> u16 option" where "at16 buf k = map_option fst (rd16 (drop k buf))"

definition at32 :: "u8 list \<Rightarrow> nat \<Rightarrow> u32 option" where "at32 buf k = map_option fst (rd32 (drop k buf))"

text \<open>Several bytes, all of them inside the buffer.\<close>

definition bytes_at :: "u8 list \<Rightarrow> nat \<Rightarrow> nat \<Rightarrow> u8 list option" where
  "bytes_at buf k n = (if k + n \<le> length buf then Some (take n (drop k buf)) else None)"

lemma at_written:
  "length pre = k \<Longrightarrow> at8 (pre @ b # rest) k = Some b"
  "length pre = k \<Longrightarrow> at16 (pre @ wr16 v @ rest) k = Some v"
  "length pre = k \<Longrightarrow> at32 (pre @ wr32 w @ rest) k = Some w"
  "length pre = k \<Longrightarrow> length bs = n \<Longrightarrow> bytes_at (pre @ bs @ rest) k n = Some bs"
  by (auto simp: at8_def at16_def at32_def bytes_at_def)

lemma at_append:
  "k < length buf \<Longrightarrow> at8 (buf @ rest) k = at8 buf k"
  "k + 1 < length buf \<Longrightarrow> at16 (buf @ rest) k = at16 buf k"
  "k + 3 < length buf \<Longrightarrow> at32 (buf @ rest) k = at32 buf k"
proof -
  show "k < length buf \<Longrightarrow> at8 (buf @ rest) k = at8 buf k"
    using Cons_nth_drop_Suc [of k buf] by (auto simp: at8_def split: list.splits)
  show "at16 (buf @ rest) k = at16 buf k" if l: "k + 1 < length buf"
  proof -
    have "drop k buf = buf ! k # buf ! Suc k # drop (Suc (Suc k)) buf"
      using l by (simp add: Cons_nth_drop_Suc)
    then show ?thesis using l by (simp add: at16_def rd16_def)
  qed
  show "at32 (buf @ rest) k = at32 buf k" if l: "k + 3 < length buf"
  proof -
    have "drop k buf = buf ! k # buf ! Suc k # buf ! Suc (Suc k) # buf ! Suc (Suc (Suc k)) #
        drop (Suc (Suc (Suc (Suc k)))) buf"
      using l by (simp add: Cons_nth_drop_Suc)
    then show ?thesis using l by (simp add: at32_def rd32_def)
  qed
qed

end
