(* ===== verification/MapData.thy ===== *)
theory MapData
  imports Tables Wire
begin

text \<open>
  The data of a map (\<^verbatim>\<open>Map/mapdata.cpp\<close>, \<^verbatim>\<open>IO/binaryreader.cpp\<close>): reading a DMap file, the cells
  and passages, and the packing of the cells while no map uses them.  A file being read is the
  list of the bytes that are left.  The LZ4 functions are arguments; what the code relies on,
  that decompressing to the original length gives the original bytes, is the hypothesis
  \<open>lz4_ok\<close>.
\<close>

section \<open>Data\<close>

record cell =
  Accessible :: bool
  Altitude :: u16   \<comment> \<open>signed\<close>

record passage =
  PosX :: u16
  PosY :: u16
  Index :: u32      \<comment> \<open>signed\<close>

text \<open>Who may use a map's data: a game map or a generator, the pointers of the code.\<close>

datatype caller = MapRef u32 | GenRef u32

record mapdata =
  mWidth :: u16
  mHeight :: u16
  mCells :: "cell list option"
  mPassages :: "passage list"
  mIsPacking :: bool
  mRefs :: "caller set"
  mPckData :: "u8 list option"

definition MapData :: mapdata where
  "MapData =
     \<lparr>mWidth = 0, mHeight = 0, mCells = None, mPassages = [], mIsPacking = True, mRefs = {},
      mPckData = None\<rparr>"

definition UINT16_MAX :: u32 where "UINT16_MAX = 65535"

definition pos2idx :: "u16 \<Rightarrow> nat \<Rightarrow> nat \<Rightarrow> nat" where
  "pos2idx w x y = x + y * unat w"

definition cell_count :: "mapdata \<Rightarrow> nat" where
  "cell_count d = unat (mWidth d) * unat (mHeight d)"

text \<open>\<open>None\<close> is an access to cells that are packed or do not exist, undefined in the code.\<close>

definition getCell :: "mapdata \<Rightarrow> u16 \<Rightarrow> u16 \<Rightarrow> cell option" where
  "getCell d x y =
     (case mCells d of
        None \<Rightarrow> None
      | Some cs \<Rightarrow>
          let i = pos2idx (mWidth d) (unat x) (unat y)
          in if i < length cs then Some (cs ! i) else None)"

fun find_passage :: "passage list \<Rightarrow> u16 \<Rightarrow> u16 \<Rightarrow> int" where
  "find_passage [] aPosX aPosY = - 1"
| "find_passage (p # ps) aPosX aPosY =
     (if PosX p = aPosX \<and> PosY p = aPosY then sint (Index p) else find_passage ps aPosX aPosY)"

definition getPassage :: "mapdata \<Rightarrow> u16 \<Rightarrow> u16 \<Rightarrow> int" where
  "getPassage d = find_passage (mPassages d)"

section \<open>Packing\<close>

definition cell_bytes :: "cell \<Rightarrow> u8 list" where
  "cell_bytes c =
     [if Accessible c then 1 else 0, ucast (Altitude c AND 0xFF),
      ucast (signed_drop_bit 8 (Altitude c) AND 0xFF)]"

definition cell_of_bytes :: "u8 \<Rightarrow> u8 \<Rightarrow> u8 \<Rightarrow> cell" where
  "cell_of_bytes b low high =
     \<lparr>Accessible = (b \<noteq> 0), Altitude = push_bit 8 (ucast high) OR ucast low\<rparr>"

text \<open>The positions in the order of the two nested loops.\<close>

definition positions :: "mapdata \<Rightarrow> (nat \<times> nat) list" where
  "positions d = [(x, y). y \<leftarrow> [0..<unat (mHeight d)], x \<leftarrow> [0..<unat (mWidth d)]]"

definition pack_buffer :: "mapdata \<Rightarrow> cell list \<Rightarrow> u8 list" where
  "pack_buffer d cs = concat (map (\<lambda>(x, y). cell_bytes (cs ! pos2idx (mWidth d) x y)) (positions d))"

text \<open>The loop of \<open>unpack\<close>: \<open>ptr\<close> moves by three bytes for each position.\<close>

fun unpack_cells :: "u16 \<Rightarrow> u8 list \<Rightarrow> (nat \<times> nat) list \<Rightarrow> cell list \<Rightarrow> cell list" where
  "unpack_cells w ptr [] cs = cs"
| "unpack_cells w ptr ((x, y) # ps) cs =
     unpack_cells w (drop 3 ptr) ps
       (cs[pos2idx w x y := cell_of_bytes (ptr ! 0) (ptr ! 1) (ptr ! 2)])"

definition pack :: "(u8 list \<Rightarrow> u8 list) \<Rightarrow> caller option \<Rightarrow> mapdata \<Rightarrow> mapdata" where
  "pack compress aCaller d =
     (let d = (case aCaller of None \<Rightarrow> d | Some c \<Rightarrow> d\<lparr>mRefs := mRefs d - {c}\<rparr>) in
      if mIsPacking d \<and> mPckData d = None \<and> mRefs d = {} then
        (case mCells d of
           None \<Rightarrow> d
         | Some cs \<Rightarrow> d\<lparr>mPckData := Some (compress (pack_buffer d cs)), mCells := None\<rparr>)
      else d)"

definition unpack :: "(u8 list \<Rightarrow> nat \<Rightarrow> u8 list) \<Rightarrow> caller option \<Rightarrow> mapdata \<Rightarrow> mapdata" where
  "unpack decompress aCaller d =
     (let d = (case aCaller of None \<Rightarrow> d | Some c \<Rightarrow> d\<lparr>mRefs := insert c (mRefs d)\<rparr>) in
      case mPckData d of
        None \<Rightarrow> d
      | Some pck \<Rightarrow>
          if mIsPacking d then
            (let len = cell_count d * 3;
                 new = replicate (cell_count d) \<lparr>Accessible = False, Altitude = 0\<rparr>
             in d\<lparr>mCells := Some (unpack_cells (mWidth d) (decompress pck len) (positions d) new),
                  mPckData := None\<rparr>)
          else d)"

definition suspendPacking :: "mapdata \<Rightarrow> mapdata" where "suspendPacking d = d\<lparr>mIsPacking := False\<rparr>"
definition resumePacking :: "mapdata \<Rightarrow> mapdata" where "resumePacking d = d\<lparr>mIsPacking := True\<rparr>"

text \<open>What the code relies on of LZ4.\<close>

definition lz4_ok :: "(u8 list \<Rightarrow> u8 list) \<Rightarrow> (u8 list \<Rightarrow> nat \<Rightarrow> u8 list) \<Rightarrow> bool" where
  "lz4_ok compress decompress \<longleftrightarrow> (\<forall>buf. decompress (compress buf) (length buf) = buf)"

section \<open>Facts on packing\<close>

text \<open>
  Cells are unpacked or packed, never both, and never packed while someone uses them or while
  packing is suspended.
\<close>

definition data_ok :: "mapdata \<Rightarrow> bool" where
  "data_ok d \<longleftrightarrow>
     (mCells d = None \<longleftrightarrow> mPckData d \<noteq> None) \<and>
     (mRefs d \<noteq> {} \<longrightarrow> mCells d \<noteq> None) \<and> (\<not> mIsPacking d \<longrightarrow> mCells d \<noteq> None) \<and>
     (case mCells d of None \<Rightarrow> True | Some cs \<Rightarrow> length cs = cell_count d)"

lemma cell_bytes_round:
  "cell_of_bytes (cell_bytes c ! 0) (cell_bytes c ! 1) (cell_bytes c ! 2) = c"
proof -
  have "push_bit 8 (ucast (ucast (signed_drop_bit 8 a AND 0xFF) :: u8)) OR ucast (ucast (a AND 0xFF) :: u8) = a"
    for a :: u16
  proof (rule bit_word_eqI)
    fix n assume "n < LENGTH(16)"
    then show "bit (push_bit 8 (ucast (ucast (signed_drop_bit 8 a AND 0xFF) :: u8)) OR
        ucast (ucast (a AND 0xFF) :: u8) :: u16) n = bit a n"
      by (cases "n < 8") (auto simp: mask_eqs bit_simps bit_word_beyond)
  qed
  then show ?thesis by (cases c) (simp add: cell_bytes_def cell_of_bytes_def)
qed

lemma length_unpack_cells [simp]: "length (unpack_cells w ptr ps cs) = length cs"
  by (induction w ptr ps cs rule: unpack_cells.induct) simp_all

lemma length_cell_bytes [simp]: "length (cell_bytes c) = 3"
  by (simp add: cell_bytes_def)

text \<open>The loop writes, at every position, the cell packed there.\<close>

lemma unpack_cells_nth:
  assumes "\<forall>(x, y) \<in> set ps. pos2idx w x y < length cs"
    and "length old = length cs"
    and "i < length cs"
  shows "unpack_cells w (concat (map (\<lambda>(x, y). cell_bytes (old ! pos2idx w x y)) ps)) ps cs ! i =
    (if \<exists>(x, y) \<in> set ps. pos2idx w x y = i then old ! i else cs ! i)"
  using assms
proof (induction ps arbitrary: cs)
  case (Cons p ps)
  obtain x y where p: "p = (x, y)" by fastforce
  let ?old = "old ! pos2idx w x y"
  let ?rest = "concat (map (\<lambda>(x, y). cell_bytes (old ! pos2idx w x y)) ps)"
  have nth: "(cell_bytes ?old @ ?rest) ! k = cell_bytes ?old ! k" if "k < 3" for k
    using that by (simp add: nth_append)
  have drop: "drop 3 (cell_bytes ?old @ ?rest) = ?rest" by simp
  have step: "unpack_cells w (concat (map (\<lambda>(x, y). cell_bytes (old ! pos2idx w x y)) (p # ps))) (p # ps) cs =
      unpack_cells w ?rest ps (cs[pos2idx w x y := ?old])"
    using nth [of 0] nth [of 1] nth [of 2] cell_bytes_round [of ?old] by (simp add: p)
  have "unpack_cells w ?rest ps (cs[pos2idx w x y := ?old]) ! i =
      (if \<exists>(x, y) \<in> set ps. pos2idx w x y = i then old ! i else cs[pos2idx w x y := ?old] ! i)"
    using Cons.prems by (intro Cons.IH) auto
  also have "\<dots> = (if \<exists>(x, y) \<in> set (p # ps). pos2idx w x y = i then old ! i else cs ! i)"
    using Cons.prems(3) by (auto simp: p nth_list_update)
  finally show ?case by (simp only: step)
qed simp

lemma positions_set: "set (positions d) = {(x, y). x < unat (mWidth d) \<and> y < unat (mHeight d)}"
  by (auto simp: positions_def)

lemma pos2idx_bound:
  assumes "x < unat (mWidth d)" and "y < unat (mHeight d)"
  shows "pos2idx (mWidth d) x y < cell_count d"
proof -
  have "x + y * unat (mWidth d) < (y + 1) * unat (mWidth d)" using assms(1) by simp
  also have "\<dots> \<le> unat (mHeight d) * unat (mWidth d)" using assms(2) by (intro mult_right_mono) auto
  finally show ?thesis by (simp add: pos2idx_def cell_count_def mult.commute)
qed

lemma positions_cover:
  assumes "i < cell_count d"
  shows "\<exists>(x, y) \<in> set (positions d). pos2idx (mWidth d) x y = i"
proof -
  have w: "0 < unat (mWidth d)" using assms by (cases "unat (mWidth d)") (auto simp: cell_count_def)
  let ?x = "i mod unat (mWidth d)" and ?y = "i div unat (mWidth d)"
  have "?x < unat (mWidth d)" using w by simp
  moreover have "?y < unat (mHeight d)"
    using assms by (simp add: cell_count_def less_mult_imp_div_less mult.commute)
  moreover have "pos2idx (mWidth d) ?x ?y = i" by (simp add: pos2idx_def)
  ultimately show ?thesis by (auto simp: positions_set)
qed

lemma positions_fields [simp]:
  "positions (d\<lparr>mCells := a\<rparr>) = positions d" "positions (d\<lparr>mPckData := b\<rparr>) = positions d"
  "positions (d\<lparr>mRefs := c\<rparr>) = positions d"
  "cell_count (d\<lparr>mCells := a\<rparr>) = cell_count d" "cell_count (d\<lparr>mPckData := b\<rparr>) = cell_count d"
  "cell_count (d\<lparr>mRefs := c\<rparr>) = cell_count d" "cell_count (d\<lparr>mIsPacking := e\<rparr>) = cell_count d"
  by (simp_all add: positions_def cell_count_def)

lemma unpack_pack_buffer:
  assumes "length cs = cell_count d" and "length new = cell_count d"
  shows "unpack_cells (mWidth d) (pack_buffer d cs) (positions d) new = cs"
proof (rule nth_equalityI)
  fix i assume "i < length (unpack_cells (mWidth d) (pack_buffer d cs) (positions d) new)"
  then have i: "i < length new" by simp
  have b: "\<forall>(x, y) \<in> set (positions d). pos2idx (mWidth d) x y < length new"
    using pos2idx_bound assms by (auto simp: positions_set)
  show "unpack_cells (mWidth d) (pack_buffer d cs) (positions d) new ! i = cs ! i"
    unfolding pack_buffer_def
    using unpack_cells_nth [OF b, of cs i] positions_cover [of i d] i assms by simp
qed (use assms in simp)

lemma length_positions [simp]: "length (positions d) = cell_count d"
  by (simp add: positions_def cell_count_def length_concat comp_def sum_list_triv mult.commute)

lemma length_pack_buffer [simp]: "length (pack_buffer d cs) = cell_count d * 3"
  by (simp add: pack_buffer_def length_concat comp_def case_prod_unfold sum_list_triv)

section \<open>Users of the data\<close>

text \<open>What the server does to loaded map data, in any order.\<close>

inductive data_step ::
  "(u8 list \<Rightarrow> u8 list) \<Rightarrow> (u8 list \<Rightarrow> nat \<Rightarrow> u8 list) \<Rightarrow> mapdata \<Rightarrow> mapdata \<Rightarrow> bool"
  for compress decompress where
  packs: "data_step compress decompress d (pack compress c d)"
| unpacks: "data_step compress decompress d (unpack decompress c d)"
| suspends: "data_step compress decompress d (suspendPacking (unpack decompress None d))"
| resumes: "data_step compress decompress d (resumePacking d)"

inductive data_reach ::
  "(u8 list \<Rightarrow> u8 list) \<Rightarrow> (u8 list \<Rightarrow> nat \<Rightarrow> u8 list) \<Rightarrow> mapdata \<Rightarrow> mapdata \<Rightarrow> bool"
  for compress decompress d0 where
  loaded: "data_reach compress decompress d0 d0"
| stepped: "data_reach compress decompress d0 d \<Longrightarrow> data_step compress decompress d d' \<Longrightarrow>
    data_reach compress decompress d0 d'"

text \<open>The same cells, unpacked, or packed while nobody uses them.\<close>

definition holds_cells :: "(u8 list \<Rightarrow> u8 list) \<Rightarrow> mapdata \<Rightarrow> cell list \<Rightarrow> mapdata \<Rightarrow> bool" where
  "holds_cells compress d0 cs d \<longleftrightarrow>
     mWidth d = mWidth d0 \<and> mHeight d = mHeight d0 \<and> mPassages d = mPassages d0 \<and>
     (mCells d = Some cs \<and> mPckData d = None \<or>
      mCells d = None \<and> mPckData d = Some (compress (pack_buffer d0 cs)) \<and> mRefs d = {} \<and> mIsPacking d)"

lemma shape_cong:
  "mWidth d = mWidth d0 \<Longrightarrow> mHeight d = mHeight d0 \<Longrightarrow>
   pack_buffer d cs = pack_buffer d0 cs \<and> positions d = positions d0 \<and> cell_count d = cell_count d0"
  by (simp add: pack_buffer_def positions_def cell_count_def)

lemma holds_pack:
  assumes "holds_cells compress d0 cs d"
  shows "holds_cells compress d0 cs (pack compress c d)"
proof -
  obtain r where r: "(case c of None \<Rightarrow> d | Some k \<Rightarrow> d\<lparr>mRefs := mRefs d - {k}\<rparr>) = d\<lparr>mRefs := r\<rparr>"
    and sub: "mRefs d = {} \<Longrightarrow> r = {}"
    by (cases c) (auto intro: that [of "mRefs d"])
  have "pack_buffer (d\<lparr>mRefs := r\<rparr>) cs = pack_buffer d0 cs" for r
    using assms shape_cong [of "d\<lparr>mRefs := r\<rparr>" d0] by (simp add: holds_cells_def)
  then show ?thesis
    using assms sub unfolding holds_cells_def pack_def Let_def r
    by (elim conjE disjE) (simp_all split: if_split)
qed

lemma holds_unpack:
  assumes "holds_cells compress d0 cs d" and "lz4_ok compress decompress" and "length cs = cell_count d0"
  shows "holds_cells compress d0 cs (unpack decompress c d) \<and> mCells (unpack decompress c d) = Some cs"
proof -
  have shape: "positions d = positions d0" "cell_count d = cell_count d0" "mWidth d = mWidth d0"
    using assms(1) shape_cong [of d d0] by (simp_all add: holds_cells_def)
  have lz: "decompress (compress (pack_buffer d0 cs)) (cell_count d0 * 3) = pack_buffer d0 cs"
    using assms(2) length_pack_buffer [of d0 cs] unfolding lz4_ok_def by metis
  have restored: "unpack_cells (mWidth d0) (pack_buffer d0 cs) (positions d0)
      (replicate (cell_count d0) \<lparr>Accessible = False, Altitude = 0\<rparr>) = cs"
    using unpack_pack_buffer assms(3) by simp
  show ?thesis
    using assms(1) lz restored shape
    by (cases c) (auto simp: holds_cells_def unpack_def Let_def)
qed

lemma holds_reach:
  assumes "data_reach compress decompress d0 d"
    and "holds_cells compress d0 cs d0" and "lz4_ok compress decompress" and "length cs = cell_count d0"
  shows "holds_cells compress d0 cs d"
  using assms(1)
proof induction
  case (stepped d d')
  note un = holds_unpack [OF stepped.IH assms(3,4)]
  from stepped.hyps(2) show ?case
  proof cases
    case suspends
    then show ?thesis using un [of None] by (auto simp: holds_cells_def suspendPacking_def)
  next
    case resumes
    then show ?thesis using stepped.IH by (auto simp: holds_cells_def resumePacking_def)
  qed (use holds_pack [OF stepped.IH] un in auto)
qed (rule assms(2))

text \<open>C9: However the users of a map's data pack and unpack it, while one of them has it unpacked its
  cells are the loaded ones: they are neither lost nor changed by the packing, and the cell of
  every valid point can be read.\<close>
theorem used_cells_are_loaded_cells:
  assumes "data_reach compress decompress d0 d" and "lz4_ok compress decompress"
    and "mCells d0 = Some cs" and "mPckData d0 = None" and "length cs = cell_count d0"
    and "c \<in> mRefs d"
  shows "mCells d = Some cs \<and>
    (x < mWidth d \<longrightarrow> y < mHeight d \<longrightarrow> getCell d x y = getCell d0 x y \<and> getCell d x y \<noteq> None)"
proof -
  have h: "holds_cells compress d0 cs d"
    using holds_reach [OF assms(1) _ assms(2,5)] assms(3,4) by (simp add: holds_cells_def)
  then have cs: "mCells d = Some cs" "mWidth d = mWidth d0" "mHeight d = mHeight d0"
    using assms(6) by (auto simp: holds_cells_def)
  have "pos2idx (mWidth d) (unat x) (unat y) < length cs" if "x < mWidth d" "y < mHeight d"
    using pos2idx_bound [of "unat x" d "unat y"] that cs assms(5) shape_cong [of d d0]
    by (simp add: word_less_nat_alt)
  then show ?thesis using cs assms(3) by (simp add: getCell_def Let_def)
qed

lemma used_cells_are_loaded_cells_witness:
  "mCells (unpack (\<lambda>b n. b) (Some (MapRef 7)) (pack id (Some (GenRef 1))
     (MapData\<lparr>mWidth := 1, mHeight := 1, mCells := Some [\<lparr>Accessible = True, Altitude = 5\<rparr>]\<rparr>)))
   = Some [\<lparr>Accessible = True, Altitude = 5\<rparr>]"
proof -
  let ?d = "MapData\<lparr>mWidth := 1, mHeight := 1, mCells := Some [\<lparr>Accessible = True, Altitude = 5\<rparr>]\<rparr>"
  have "data_reach id (\<lambda>b n. b) ?d (unpack (\<lambda>b n. b) (Some (MapRef 7)) (pack id (Some (GenRef 1)) ?d))"
    by (rule data_reach.stepped [OF data_reach.stepped [OF data_reach.loaded data_step.packs] data_step.unpacks])
  moreover have "MapRef 7 \<in> mRefs (unpack (\<lambda>b n. b) (Some (MapRef 7)) (pack id (Some (GenRef 1)) ?d))"
    by (simp add: unpack_def pack_def Let_def MapData_def)
  ultimately show ?thesis
    using used_cells_are_loaded_cells [of id "\<lambda>b n. b" ?d _ _ "MapRef 7" 0 0]
    by (simp add: lz4_ok_def MapData_def cell_count_def)
qed

section \<open>Reading a DMap file\<close>

text \<open>
  The checksum of a cell; the code computes it with signed 32-bit integers, whose overflow is
  undefined, and the model wraps around.
\<close>

definition cell_sum :: "u16 \<Rightarrow> u16 \<Rightarrow> u16 \<Rightarrow> nat \<Rightarrow> nat \<Rightarrow> u32" where
  "cell_sum msk terrain altitude x y =
     ucast msk * (ucast terrain + of_nat y + 1) + (scast altitude + 2) * (of_nat x + 1 + ucast terrain)"

definition read_cell :: "nat \<Rightarrow> nat \<Rightarrow> u8 list \<Rightarrow> (cell \<times> u32 \<times> u8 list) option" where
  "read_cell y x rd =
     (case rd16 rd of None \<Rightarrow> None | Some (msk, rd) \<Rightarrow>
      case rd16 rd of None \<Rightarrow> None | Some (terrain, rd) \<Rightarrow>
      case rd16 rd of None \<Rightarrow> None | Some (altitude, rd) \<Rightarrow>
        Some (\<lparr>Accessible = (msk \<noteq> 1), Altitude = altitude\<rparr>, cell_sum msk terrain altitude x y, rd))"

text \<open>The inner loop: the error, the checksum so far, the cells and the bytes left.\<close>

fun read_row :: "nat \<Rightarrow> nat \<Rightarrow> nat \<Rightarrow> u32 \<Rightarrow> u8 list \<Rightarrow> err_t \<times> u32 \<times> cell list \<times> u8 list" where
  "read_row y x 0 checksum rd = (ERROR_SUCCESS, checksum, [], rd)"
| "read_row y x (Suc n) checksum rd =
     (case read_cell y x rd of
        None \<Rightarrow> (ERROR_READ_FAULT, checksum, [], rd)
      | Some (c, d, rd) \<Rightarrow>
          let (err, checksum, cs, rd) = read_row y (Suc x) n (checksum + d) rd
          in (err, checksum, c # cs, rd))"

text \<open>
  After a row the stored checksum is read unless an error occurred and compared in any case; the
  comparison overrides an earlier error.
\<close>

definition check_row :: "err_t \<Rightarrow> u32 \<Rightarrow> u8 list \<Rightarrow> err_t \<times> u8 list" where
  "check_row err checksum rd =
     (let (err, tmp, rd) =
        (if IS_SUCCESS err then
           (case rd32 rd of None \<Rightarrow> (ERROR_READ_FAULT, 0, rd) | Some (tmp, rd) \<Rightarrow> (ERROR_SUCCESS, tmp, rd))
         else (err, 0, rd))
      in (if checksum \<noteq> tmp then ERROR_BAD_CHECKSUM else err, rd))"

fun read_rows :: "nat \<Rightarrow> nat \<Rightarrow> nat \<Rightarrow> u8 list \<Rightarrow> err_t \<times> cell list \<times> u8 list" where
  "read_rows w y 0 rd = (ERROR_SUCCESS, [], rd)"
| "read_rows w y (Suc n) rd =
     (let (err, checksum, cs, rd) = read_row y 0 w 0 rd;
          (err, rd) = check_row err checksum rd
      in if err \<noteq> ERROR_SUCCESS then (err, cs, rd)
         else let (err, cs', rd) = read_rows w (Suc y) n rd in (err, cs @ cs', rd))"

text \<open>A read that must succeed.\<close>

definition fetch ::
  "('a \<times> u8 list) option \<Rightarrow> ('a \<Rightarrow> u8 list \<Rightarrow> err_t + 'b) \<Rightarrow> err_t + 'b" where
  "fetch r f = (case r of None \<Rightarrow> Inl ERROR_READ_FAULT | Some (v, rd) \<Rightarrow> f v rd)"

lemma fetch_simps [simp]:
  "fetch None f = Inl ERROR_READ_FAULT" "fetch (Some (v, rd)) f = f v rd"
  by (simp_all add: fetch_def)

text \<open>The passages; the code tests the x coordinate twice and the y coordinate never.\<close>

definition read_passage :: "u8 list \<Rightarrow> err_t + (passage \<times> u8 list)" where
  "read_passage rd =
     (fetch (rd32 rd) (\<lambda>posX rd.
      fetch (rd32 rd) (\<lambda>posY rd.
      fetch (rd32 rd) (\<lambda>index rd.
        if posX < UINT16_MAX \<and> posX < UINT16_MAX
        then Inr (\<lparr>PosX = ucast posX, PosY = ucast posY, Index = index\<rparr>, rd)
        else Inl ERROR_BAD_LENGTH))))"

fun read_passages :: "nat \<Rightarrow> u8 list \<Rightarrow> err_t + (passage list \<times> u8 list)" where
  "read_passages 0 rd = Inr ([], rd)"
| "read_passages (Suc n) rd =
     (case read_passage rd of
        Inl err \<Rightarrow> Inl err
      | Inr (p, rd) \<Rightarrow> (case read_passages n rd of Inl err \<Rightarrow> Inl err | Inr (ps, rd) \<Rightarrow> Inr (p # ps, rd)))"

text \<open>
  A negative count makes the code's \<^verbatim>\<open>reserve\<close> throw; the model reads no passage then.
\<close>

definition loadPassageData :: "u8 list \<Rightarrow> err_t + (passage list \<times> u8 list)" where
  "loadPassageData rd =
     (case rd32 rd of
        None \<Rightarrow> Inl ERROR_READ_FAULT
      | Some (count, rd) \<Rightarrow> read_passages (nat (sint count)) rd)"


text \<open>
  The scene file of a terrain layer: \<open>start\<close> is the position of the layer.  Positions are computed
  in 32 bits; a position beyond the map would be written outside the array, which the model
  leaves out.
\<close>

definition scene_pos :: "u32 \<Rightarrow> u32 \<Rightarrow> nat \<Rightarrow> u32 \<Rightarrow> u32" where
  "scene_pos start offset k extent = ((start + offset) + of_nat k) - extent"

definition read_scene_cell ::
  "u16 \<Rightarrow> u32 \<times> u32 \<Rightarrow> u8 list \<Rightarrow> cell list \<Rightarrow> err_t + (cell list \<times> u8 list)" where
  "read_scene_cell w pos rd cs =
     (case pos of (posX, posY) \<Rightarrow>
        if posX < UINT16_MAX \<and> posX < UINT16_MAX
        then
          fetch (rd32 rd) (\<lambda>msk rd.
          fetch (rd32 rd) (\<lambda>terrain rd.
          fetch (rd32 rd) (\<lambda>altitude rd.
            Inr (cs[pos2idx w (unat (ucast posX :: u16)) (unat (ucast posY :: u16)) :=
                    \<lparr>Accessible = (msk \<noteq> 0), Altitude = ucast altitude\<rparr>], rd))))
        else Inl ERROR_BAD_LENGTH)"

fun read_scene_cells ::
  "u16 \<Rightarrow> (u32 \<times> u32) list \<Rightarrow> u8 list \<Rightarrow> cell list \<Rightarrow> err_t + (cell list \<times> u8 list)" where
  "read_scene_cells w [] rd cs = Inr (cs, rd)"
| "read_scene_cells w (p # ps) rd cs =
     (case read_scene_cell w p rd cs of
        Inl err \<Rightarrow> Inl err
      | Inr (cs, rd) \<Rightarrow> read_scene_cells w ps rd cs)"

text \<open>One part: file name, title, offsets and interval are skipped (332 bytes), then the sizes.\<close>

definition read_part ::
  "u16 \<Rightarrow> u32 \<Rightarrow> u32 \<Rightarrow> u8 list \<Rightarrow> cell list \<Rightarrow> err_t + (cell list \<times> u8 list)" where
  "read_part w startX startY rd cs =
     (fetch (rd32 (drop (256 + 64 + 4 + 4 + 4) rd)) (\<lambda>width rd.
      fetch (rd32 rd) (\<lambda>height rd.
      fetch (rd32 (drop 4 rd)) (\<lambda>sceneOffsetX rd.
      fetch (rd32 rd) (\<lambda>sceneOffsetY rd.
        read_scene_cells w
          [(scene_pos startX sceneOffsetX x width, scene_pos startY sceneOffsetY y height).
             y \<leftarrow> [0..<unat height], x \<leftarrow> [0..<unat width]] (drop 4 rd) cs)))))"

fun read_parts ::
  "u16 \<Rightarrow> u32 \<Rightarrow> u32 \<Rightarrow> nat \<Rightarrow> u8 list \<Rightarrow> cell list \<Rightarrow> err_t + cell list" where
  "read_parts w startX startY 0 rd cs = Inr cs"
| "read_parts w startX startY (Suc n) rd cs =
     (case read_part w startX startY rd cs of
        Inl err \<Rightarrow> Inl err
      | Inr (cs, rd) \<Rightarrow> read_parts w startX startY n rd cs)"

definition MAX_PATH :: nat where "MAX_PATH = 260"

text \<open>
  The layers.  \<open>files\<close> gives the content of the scene files that exist.  When the name or the
  position of a terrain layer cannot be read, the code goes on with what was in the buffer; the
  model reports the failed read.  An empty name passes the test of \<open>fileExists\<close> and cannot be opened, so
  that the first read finds no stream.
\<close>

definition scene_name :: "u8 list \<Rightarrow> u8 list" where
  "scene_name buf = map (\<lambda>c. if c = 0x5C then 0x2F else c) (takeWhile (\<lambda>c. c \<noteq> 0) buf)"

definition read_terrain ::
  "(u8 list \<Rightarrow> u8 list option) \<Rightarrow> u16 \<Rightarrow> u8 list \<Rightarrow> cell list \<Rightarrow> err_t + (cell list \<times> u8 list)" where
  "read_terrain files w rd cs =
     (if length rd < MAX_PATH then Inl ERROR_READ_FAULT
      else
        let name = scene_name (take MAX_PATH rd) in
        fetch (rd32 (drop MAX_PATH rd)) (\<lambda>startX rd.
        fetch (rd32 rd) (\<lambda>startY rd.
        if name = [] then Inl ERROR_BAD_STATE
        else case files name of None \<Rightarrow> Inl ERROR_FILE_NOT_FOUND | Some scene \<Rightarrow>
        fetch (rd32 scene) (\<lambda>count scene.
        case read_parts w startX startY (nat (sint count)) scene cs of
          Inl err \<Rightarrow> Inl err
        | Inr cs \<Rightarrow> Inr (cs, rd)))))"

definition MAP_TERRAIN :: int where "MAP_TERRAIN = 1"
definition MAP_COVER :: int where "MAP_COVER = 4"
definition MAP_3DEFFECT :: int where "MAP_3DEFFECT = 10"
definition MAP_SOUND :: int where "MAP_SOUND = 15"
definition MAP_3DEFFECTNEW :: int where "MAP_3DEFFECTNEW = 19"

lemmas layer_defs =
  MAP_TERRAIN_def MAP_COVER_def MAP_3DEFFECT_def MAP_SOUND_def MAP_3DEFFECTNEW_def

text \<open>A type that cannot be read leaves \<^verbatim>\<open>MAP_NONE\<close>, which is an unknown layer.\<close>

definition read_layer ::
  "(u8 list \<Rightarrow> u8 list option) \<Rightarrow> u16 \<Rightarrow> u8 list \<Rightarrow> cell list \<Rightarrow> err_t + (cell list \<times> u8 list)" where
  "read_layer files w rd cs =
     (case rd32 rd of
        None \<Rightarrow> Inl ERROR_BAD_FORMAT
      | Some (ty, rd) \<Rightarrow>
          if sint ty = MAP_COVER then Inr (cs, drop 416 rd)
          else if sint ty = MAP_TERRAIN then read_terrain files w rd cs
          else if sint ty = MAP_SOUND then Inr (cs, drop 276 rd)
          else if sint ty = MAP_3DEFFECT then Inr (cs, drop 72 rd)
          else if sint ty = MAP_3DEFFECTNEW then Inr (cs, drop 96 rd)
          else Inl ERROR_BAD_FORMAT)"

fun read_layers ::
  "(u8 list \<Rightarrow> u8 list option) \<Rightarrow> u16 \<Rightarrow> nat \<Rightarrow> u8 list \<Rightarrow> cell list \<Rightarrow> err_t + cell list" where
  "read_layers files w 0 rd cs = Inr cs"
| "read_layers files w (Suc n) rd cs =
     (case read_layer files w rd cs of
        Inl err \<Rightarrow> Inl err
      | Inr (cs, rd) \<Rightarrow> read_layers files w n rd cs)"

definition loadLayerData ::
  "(u8 list \<Rightarrow> u8 list option) \<Rightarrow> u16 \<Rightarrow> u8 list \<Rightarrow> cell list \<Rightarrow> err_t + cell list" where
  "loadLayerData files w rd cs =
     (case rd32 rd of
        None \<Rightarrow> Inl ERROR_READ_FAULT
      | Some (count, rd) \<Rightarrow> read_layers files w (nat (sint count)) rd cs)"

text \<open>Version, data and the name of the puzzle file are skipped over.\<close>

definition read_header :: "u8 list \<Rightarrow> err_t + (u16 \<times> u16 \<times> u8 list)" where
  "read_header rd =
     (fetch (rd32 rd) (\<lambda>version rd.
      fetch (rd32 rd) (\<lambda>data rd.
      fetch (rd32 (drop MAX_PATH rd)) (\<lambda>width rd.
      fetch (rd32 rd) (\<lambda>height rd.
        if width < UINT16_MAX \<and> height < UINT16_MAX
        then Inr (ucast width, ucast height, rd)
        else Inl ERROR_BAD_LENGTH)))))"

definition loadMapData :: "(u8 list \<Rightarrow> u8 list option) \<Rightarrow> u8 list \<Rightarrow> err_t + mapdata" where
  "loadMapData files rd =
     (case read_header rd of Inl err \<Rightarrow> Inl err | Inr (w, h, rd) \<Rightarrow>
        let (err, cs, rd) = read_rows (unat w) 0 (unat h) rd in
        if err \<noteq> ERROR_SUCCESS then Inl err
        else
          case loadPassageData rd of Inl err \<Rightarrow> Inl err | Inr (ps, rd) \<Rightarrow>
          case loadLayerData files w rd cs of Inl err \<Rightarrow> Inl err | Inr cs \<Rightarrow>
            Inr (MapData\<lparr>mWidth := w, mHeight := h, mCells := Some cs, mPassages := ps\<rparr>))"

text \<open>\<open>MapData::load\<close>: the path must not be empty, and the file must exist.\<close>

definition load :: "(u8 list \<Rightarrow> u8 list option) \<Rightarrow> u8 list \<Rightarrow> err_t + mapdata" where
  "load files aPath =
     (if aPath = [] then Inl ERROR_INVALID_PARAMETER
      else case files aPath of None \<Rightarrow> Inl ERROR_FILE_NOT_FOUND | Some content \<Rightarrow> loadMapData files content)"

section \<open>Reading back a written map\<close>

text \<open>The DMap format, as a writer: cells with a terrain number each, then passages, no layer.\<close>

definition cell_mask :: "cell \<Rightarrow> u16" where "cell_mask c = (if Accessible c then 0 else 1)"

definition write_cell :: "cell \<times> u16 \<Rightarrow> u8 list" where
  "write_cell ct = (case ct of (c, t) \<Rightarrow> wr16 (cell_mask c) @ wr16 t @ wr16 (Altitude c))"

fun row_sum :: "nat \<Rightarrow> nat \<Rightarrow> (cell \<times> u16) list \<Rightarrow> u32" where
  "row_sum y x [] = 0"
| "row_sum y x ((c, t) # r) = cell_sum (cell_mask c) t (Altitude c) x y + row_sum y (Suc x) r"

definition write_row :: "nat \<Rightarrow> (cell \<times> u16) list \<Rightarrow> u8 list" where
  "write_row y r = concat (map write_cell r) @ wr32 (row_sum y 0 r)"

fun write_rows :: "nat \<Rightarrow> (cell \<times> u16) list list \<Rightarrow> u8 list" where
  "write_rows y [] = []"
| "write_rows y (r # rs) = write_row y r @ write_rows (Suc y) rs"

definition write_passage :: "passage \<Rightarrow> u8 list" where
  "write_passage p = wr32 (ucast (PosX p)) @ wr32 (ucast (PosY p)) @ wr32 (Index p)"

definition write_map :: "u8 list \<Rightarrow> u16 \<Rightarrow> (cell \<times> u16) list list \<Rightarrow> passage list \<Rightarrow> u8 list" where
  "write_map puzzle w rows ps =
     wr32 1003 @ wr32 0 @ puzzle @ wr32 (ucast w) @ wr32 (of_nat (length rows)) @ write_rows 0 rows @
     wr32 (of_nat (length ps)) @ concat (map write_passage ps) @ wr32 0"

lemma read_cell_write:
  "read_cell y x (write_cell (c, t) @ rest) = Some (c, cell_sum (cell_mask c) t (Altitude c) x y, rest)"
  by (simp add: read_cell_def write_cell_def) (simp add: cell_mask_def)

lemma read_row_write:
  "read_row y x (length r) acc (concat (map write_cell r) @ rest) =
   (ERROR_SUCCESS, acc + row_sum y x r, map fst r, rest)"
proof (induction r arbitrary: x acc)
  case (Cons ct r)
  then show ?case by (cases ct) (simp add: read_cell_write add.assoc)
qed simp

lemma read_rows_write:
  "list_all (\<lambda>r. length r = w) rows \<Longrightarrow>
   read_rows w y (length rows) (write_rows y rows @ rest) = (ERROR_SUCCESS, concat (map (map fst) rows), rest)"
proof (induction rows arbitrary: y)
  case (Cons r rows)
  have "read_row y 0 w 0 (write_row y r @ write_rows (Suc y) rows @ rest) =
      (ERROR_SUCCESS, row_sum y 0 r, map fst r, wr32 (row_sum y 0 r) @ write_rows (Suc y) rows @ rest)"
    using read_row_write [of y 0 r 0] Cons.prems by (simp add: write_row_def)
  then show ?case
    using Cons by (simp add: check_row_def IS_SUCCESS_def)
qed simp

lemma read_passage_write:
  assumes "PosX p < 65535"
  shows "read_passage (write_passage p @ rest) = Inr (p, rest)"
proof -
  have "(ucast (PosX p) :: u32) < UINT16_MAX"
    using assms by (simp add: UINT16_MAX_def word_less_nat_alt unsigned_ucast_eq take_bit_nat_eq_self
        order.strict_trans [OF unsigned_less])
  moreover have "(ucast (ucast (v :: u16) :: u32) :: u16) = v" for v
    by (rule bit_word_eqI) (simp add: bit_simps)
  ultimately show ?thesis by (simp add: read_passage_def write_passage_def)
qed

lemma read_passages_write:
  "list_all (\<lambda>p. PosX p < 65535) ps \<Longrightarrow>
   read_passages (length ps) (concat (map write_passage ps) @ rest) = Inr (ps, rest)"
  by (induction ps) (simp_all add: read_passage_write)




text \<open>A passage whose y coordinate does not fit is accepted at a truncated position.\<close>

lemma passage_y_unchecked:
  "read_passage (wr32 3 @ wr32 65540 @ wr32 9) = Inr (\<lparr>PosX = 3, PosY = 4, Index = 9\<rparr>, [])"
  using rd_wr(2) [of 9 "[]"] by (simp add: read_passage_def UINT16_MAX_def)

text \<open>A row that ends early is reported as a bad checksum once a cell with a checksum was read.\<close>

lemma short_row_is_bad_checksum:
  "check_row ERROR_READ_FAULT acc rd = (if acc \<noteq> 0 then ERROR_BAD_CHECKSUM else ERROR_READ_FAULT, rd)"
  by (simp add: check_row_def IS_SUCCESS_def)

end
