(* ===== verification/GameMap.thy ===== *)
theory GameMap
  imports Player MapData
begin

text \<open>
  The entities of the world, the maps they are on and what they see of each other
  (\<^verbatim>\<open>Entity/entity.cpp\<close>, \<^verbatim>\<open>Map/gamemap.cpp\<close>).  An entity pointer is identified by the entity's
  unique id.  Every entity has a view set; a player is told what enters and what leaves its own.
  Messages go to the log of the world, with the player they are sent to.
\<close>

section \<open>Entities\<close>

definition SCENEID_FIRST :: u32 where "SCENEID_FIRST = 1"
definition SCENEID_LAST :: u32 where "SCENEID_LAST = 299999"
definition SYSNPCID_FIRST :: u32 where "SYSNPCID_FIRST = 1"
definition SYSNPCID_LAST :: u32 where "SYSNPCID_LAST = 99999"
definition DYNANPCID_FIRST :: u32 where "DYNANPCID_FIRST = 100001"
definition DYNANPCID_LAST :: u32 where "DYNANPCID_LAST = 199999"
definition MONSTERID_FIRST :: u32 where "MONSTERID_FIRST = 400001"
definition MONSTERID_LAST :: u32 where "MONSTERID_LAST = 499999"
definition PETID_FIRST :: u32 where "PETID_FIRST = 500001"
definition PETID_LAST :: u32 where "PETID_LAST = 599999"
definition CALLPETID_FIRST :: u32 where "CALLPETID_FIRST = 700001"
definition CALLPETID_LAST :: u32 where "CALLPETID_LAST = 799999"
definition PLAYERID_FIRST :: u32 where "PLAYERID_FIRST = 1000000"
definition PLAYERID_LAST :: u32 where "PLAYERID_LAST = 1999999999"
definition CELLS_PER_VIEW :: int where "CELLS_PER_VIEW = 18"

definition isNpc :: "u32 \<Rightarrow> bool" where "isNpc uid \<longleftrightarrow> uid \<ge> SCENEID_FIRST \<and> uid \<le> SCENEID_LAST"
definition isSysNpc :: "u32 \<Rightarrow> bool" where "isSysNpc uid \<longleftrightarrow> uid \<ge> SYSNPCID_FIRST \<and> uid \<le> SYSNPCID_LAST"
definition isDynNpc :: "u32 \<Rightarrow> bool" where "isDynNpc uid \<longleftrightarrow> uid \<ge> DYNANPCID_FIRST \<and> uid \<le> DYNANPCID_LAST"
definition isMonster :: "u32 \<Rightarrow> bool" where "isMonster uid \<longleftrightarrow> uid \<ge> MONSTERID_FIRST \<and> uid \<le> MONSTERID_LAST"
definition isPet :: "u32 \<Rightarrow> bool" where "isPet uid \<longleftrightarrow> uid \<ge> PETID_FIRST \<and> uid \<le> PETID_LAST"
definition isCallPet :: "u32 \<Rightarrow> bool" where "isCallPet uid \<longleftrightarrow> uid \<ge> CALLPETID_FIRST \<and> uid \<le> CALLPETID_LAST"
definition isPlayer :: "u32 \<Rightarrow> bool" where "isPlayer uid \<longleftrightarrow> uid \<ge> PLAYERID_FIRST \<and> uid \<le> PLAYERID_LAST"

lemmas id_defs =
  SCENEID_FIRST_def SCENEID_LAST_def SYSNPCID_FIRST_def SYSNPCID_LAST_def DYNANPCID_FIRST_def
  DYNANPCID_LAST_def MONSTERID_FIRST_def MONSTERID_LAST_def PETID_FIRST_def PETID_LAST_def
  CALLPETID_FIRST_def CALLPETID_LAST_def PLAYERID_FIRST_def PLAYERID_LAST_def

text \<open>
  The fields of \<open>Entity\<close>, with those of \<open>Player\<close> that movement uses; the view set holds the ids of
  the entities it points to.
\<close>

record ent =
  e_UID :: u32
  e_MapId :: u32
  e_PosX :: u16
  e_PosY :: u16
  e_Direction :: u8
  e_Pose :: u16
  e_CurHP :: u16
  e_PrevMap :: u32
  e_PrevX :: u16
  e_PrevY :: u16
  e_View :: "(u32, unit) table"

definition Entity :: "u32 \<Rightarrow> ent" where
  "Entity aUID =
     \<lparr>e_UID = aUID, e_MapId = 0, e_PosX = 0, e_PosY = 0, e_Direction = 0, e_Pose = POSE_STANDBY,
      e_CurHP = 0, e_PrevMap = 0, e_PrevX = 0, e_PrevY = 0, e_View = []\<rparr>"

section \<open>Maps\<close>

record map_info =
  DocID :: u16
  Type :: u32
  OwnerUID :: u32
  Weather :: u32
  PortalX :: u16
  PortalY :: u16
  RebornMap :: u32
  RebornPortal :: u32
  Light :: u32

record game_map =
  g_UID :: u32
  g_Info :: map_info
  g_Data :: addr
  g_Entities :: "(u32, unit) table"
  g_PlayerCount :: u64

definition GameMap :: "u32 \<Rightarrow> map_info \<Rightarrow> addr \<Rightarrow> game_map" where
  "GameMap aUID aInfo aData =
     \<lparr>g_UID = aUID, g_Info = aInfo, g_Data = aData, g_Entities = [], g_PlayerCount = 0\<rparr>"

definition has_flag :: "u32 \<Rightarrow> game_map \<Rightarrow> bool" where
  "has_flag flag g \<longleftrightarrow> Type (g_Info g) AND flag \<noteq> 0"

definition isPkField :: "game_map \<Rightarrow> bool" where "isPkField = has_flag 0x0001"
definition isChgMapDisabled :: "game_map \<Rightarrow> bool" where "isChgMapDisabled = has_flag 0x0002"
definition isRecordDisabled :: "game_map \<Rightarrow> bool" where "isRecordDisabled = has_flag 0x0004"
definition isPkDisabled :: "game_map \<Rightarrow> bool" where "isPkDisabled = has_flag 0x0008"
definition isBoothEnabled :: "game_map \<Rightarrow> bool" where "isBoothEnabled = has_flag 0x0010"
definition isTeamDisabled :: "game_map \<Rightarrow> bool" where "isTeamDisabled = has_flag 0x0020"
definition isTeleportDisabled :: "game_map \<Rightarrow> bool" where "isTeleportDisabled = has_flag 0x0040"
definition isSynMap :: "game_map \<Rightarrow> bool" where "isSynMap = has_flag 0x0080"
definition isPrisonMap :: "game_map \<Rightarrow> bool" where "isPrisonMap = has_flag 0x0100"
definition isWingDisabled :: "game_map \<Rightarrow> bool" where "isWingDisabled = has_flag 0x0200"
definition isFamilyMap :: "game_map \<Rightarrow> bool" where "isFamilyMap = has_flag 0x0400"
definition isMineField :: "game_map \<Rightarrow> bool" where "isMineField = has_flag 0x0800"
definition isNewbieMap :: "game_map \<Rightarrow> bool" where "isNewbieMap g \<longleftrightarrow> g_UID g = 1010"
definition isDynaMap :: "game_map \<Rightarrow> bool" where "isDynaMap g \<longleftrightarrow> g_UID g \<ge> 1000000"
definition isTrainMap :: "game_map \<Rightarrow> bool" where "isTrainMap g \<longleftrightarrow> g_UID g = 1039"
definition map_isActive :: "game_map \<Rightarrow> bool" where "map_isActive g \<longleftrightarrow> g_PlayerCount g > 0"

definition distance :: "u16 \<Rightarrow> u16 \<Rightarrow> u16 \<Rightarrow> u16 \<Rightarrow> int" where
  "distance x1 y1 x2 y2 = max \<bar>uint x1 - uint x2\<bar> \<bar>uint y1 - uint y2\<bar>"

lemma distance_sym: "distance x1 y1 x2 y2 = distance x2 y2 x1 y1"
  by (simp add: distance_def abs_minus_commute)

section \<open>The world\<close>

record wstate =
  ents :: "u32 \<Rightarrow> ent option"
  gmaps :: "(u32, game_map) table"
  datas :: "addr \<Rightarrow> mapdata option"
  wlog :: "(u32 \<times> eff) list"

text \<open>The LZ4 functions.\<close>

record lz4 =
  compress :: "u8 list \<Rightarrow> u8 list"
  decompress :: "u8 list \<Rightarrow> nat \<Rightarrow> u8 list"

definition log_to :: "u32 \<Rightarrow> eff \<Rightarrow> wstate \<Rightarrow> wstate" where
  "log_to uid e w = w\<lparr>wlog := wlog w @ [(uid, e)]\<rparr>"

definition send_to :: "u32 \<Rightarrow> msg \<Rightarrow> wstate \<Rightarrow> wstate" where
  "send_to uid m = log_to uid (Send m)"

definition on_ent :: "u32 \<Rightarrow> (ent \<Rightarrow> ent) \<Rightarrow> wstate \<Rightarrow> wstate" where
  "on_ent uid f w = w\<lparr>ents := (ents w)(uid := map_option f (ents w uid))\<rparr>"

definition getMap :: "u32 \<Rightarrow> wstate \<Rightarrow> game_map option" where
  "getMap aUID w = tget aUID (gmaps w)"

definition put_map :: "game_map \<Rightarrow> wstate \<Rightarrow> wstate" where
  "put_map g w = w\<lparr>gmaps := tput (g_UID g) g (gmaps w)\<rparr>"

definition on_data :: "addr \<Rightarrow> (mapdata \<Rightarrow> mapdata) \<Rightarrow> wstate \<Rightarrow> wstate" where
  "on_data a f w = w\<lparr>datas := (datas w)(a := map_option f (datas w a))\<rparr>"

definition view :: "wstate \<Rightarrow> u32 \<Rightarrow> (u32, unit) table" where
  "view w uid = (case ents w uid of None \<Rightarrow> [] | Some e \<Rightarrow> e_View e)"

definition set_view :: "u32 \<Rightarrow> (u32, unit) table \<Rightarrow> wstate \<Rightarrow> wstate" where
  "set_view uid v = on_ent uid (\<lambda>e. e\<lparr>e_View := v\<rparr>)"

definition posX :: "wstate \<Rightarrow> u32 \<Rightarrow> u16" where
  "posX w uid = (case ents w uid of None \<Rightarrow> 0 | Some e \<Rightarrow> e_PosX e)"
definition posY :: "wstate \<Rightarrow> u32 \<Rightarrow> u16" where
  "posY w uid = (case ents w uid of None \<Rightarrow> 0 | Some e \<Rightarrow> e_PosY e)"

section \<open>Broadcast sets\<close>

text \<open>\<open>sendShow\<close> of an NPC, and of a monster or player.\<close>

definition sendShow :: "u32 \<Rightarrow> u32 \<Rightarrow> wstate \<Rightarrow> wstate" where
  "sendShow shown aPlayer =
     send_to aPlayer (if isNpc shown then MsgNpcInfo shown else MsgPlayer shown)"

definition addEntityToBCSet :: "u32 \<Rightarrow> u32 \<Rightarrow> wstate \<Rightarrow> wstate" where
  "addEntityToBCSet this aEntity w =
     (if tget aEntity (view w this) = None then
        (let w = set_view this (tput aEntity () (view w this)) w
         in if isPlayer this then sendShow aEntity this w else w)
      else w)"

definition removeEntityFromBCSet :: "u32 \<Rightarrow> u32 \<Rightarrow> wstate \<Rightarrow> wstate" where
  "removeEntityFromBCSet this aEntity w =
     (if tget aEntity (view w this) \<noteq> None then
        (let w = set_view this (tdel aEntity (view w this)) w
         in if isPlayer this then send_to this (MsgAction aEntity 0 ACTION_LEAVE_MAP) w else w)
      else w)"

text \<open>One turn of the loop of \<open>clearBroadcastSet\<close>, at the first entry of the set.\<close>

definition clear_one :: "u32 \<Rightarrow> u32 \<Rightarrow> wstate \<Rightarrow> wstate" where
  "clear_one this other w =
     (let w = removeEntityFromBCSet other this w;
          w = set_view this (tdel other (view w this)) w
      in if isPlayer this then send_to this (MsgAction other 0 ACTION_LEAVE_MAP) w else w)"

definition clearBroadcastSet :: "u32 \<Rightarrow> wstate \<Rightarrow> wstate" where
  "clearBroadcastSet this w =
     (let w = fold (clear_one this) (tkeys (view w this)) w in set_view this [] w)"

definition in_view :: "u32 \<Rightarrow> u32 \<Rightarrow> wstate \<Rightarrow> bool" where
  "in_view a b w \<longleftrightarrow> distance (posX w a) (posY w a) (posX w b) (posY w b) \<le> CELLS_PER_VIEW"

definition update_one :: "u32 \<Rightarrow> u32 \<Rightarrow> wstate \<Rightarrow> wstate" where
  "update_one aEntity other w =
     (if other = aEntity then w
      else if in_view aEntity other w
      then addEntityToBCSet other aEntity (addEntityToBCSet aEntity other w)
      else removeEntityFromBCSet other aEntity (removeEntityFromBCSet aEntity other w))"

definition map_updateBroadcastSet :: "game_map \<Rightarrow> u32 \<Rightarrow> wstate \<Rightarrow> wstate" where
  "map_updateBroadcastSet g aEntity w =
     (if tget aEntity (g_Entities g) \<noteq> None
      then fold (update_one aEntity) (tkeys (g_Entities g)) w
      else w)"

definition updateBroadcastSet :: "bool \<Rightarrow> u32 \<Rightarrow> wstate \<Rightarrow> wstate" where
  "updateBroadcastSet aClearSet this w =
     (let w = (if aClearSet then clearBroadcastSet this w else w) in
      case ents w this of
        None \<Rightarrow> w
      | Some e \<Rightarrow>
          (case getMap (e_MapId e) w of
             None \<Rightarrow> w
           | Some g \<Rightarrow> map_updateBroadcastSet g this w))"

definition broadcastRoomMsg :: "u32 \<Rightarrow> msg \<Rightarrow> bool \<Rightarrow> wstate \<Rightarrow> wstate" where
  "broadcastRoomMsg this m aIncludeSelf w =
     (let w = (if aIncludeSelf \<and> isPlayer this then send_to this m w else w)
      in fold (\<lambda>other w. if isPlayer other then send_to other m w else w) (tkeys (view w this)) w)"

text \<open>\<open>sendBlockInfo\<close> uses a strict comparison where \<open>updateBroadcastSet\<close> does not.\<close>

definition sendBlockInfo :: "game_map \<Rightarrow> u32 \<Rightarrow> wstate \<Rightarrow> wstate" where
  "sendBlockInfo g aPlayer w =
     (if tget aPlayer (g_Entities g) \<noteq> None then
        fold (\<lambda>other w.
                if other = aPlayer then w
                else if distance (posX w aPlayer) (posY w aPlayer) (posX w other) (posY w other)
                          < CELLS_PER_VIEW
                then sendShow other aPlayer w else w)
          (tkeys (g_Entities g)) w
      else w)"

definition sendMapInfo :: "game_map \<Rightarrow> u32 \<Rightarrow> wstate \<Rightarrow> wstate" where
  "sendMapInfo g aPlayer w =
     (if tget aPlayer (g_Entities g) \<noteq> None then send_to aPlayer (MsgMapInfo (g_UID g)) w else w)"

section \<open>Entering and leaving\<close>

definition enterRoom :: "lz4 \<Rightarrow> u32 \<Rightarrow> u32 \<Rightarrow> wstate \<Rightarrow> wstate" where
  "enterRoom z m aEntity w =
     (case getMap m w of
        None \<Rightarrow> w
      | Some g \<Rightarrow>
          if tget aEntity (g_Entities g) = None then
            (let w = (if isPlayer aEntity \<and> g_PlayerCount g = 0
                      then on_data (g_Data g) (unpack (decompress z) (Some (MapRef m))) w else w);
                 g = (if isPlayer aEntity then g\<lparr>g_PlayerCount := g_PlayerCount g + 1\<rparr> else g)
             in put_map (g\<lparr>g_Entities := tput aEntity () (g_Entities g)\<rparr>) w)
          else w)"

definition leaveRoom :: "lz4 \<Rightarrow> u32 \<Rightarrow> u32 \<Rightarrow> wstate \<Rightarrow> wstate" where
  "leaveRoom z m aEntity w =
     (case getMap m w of
        None \<Rightarrow> w
      | Some g \<Rightarrow>
          if tget aEntity (g_Entities g) \<noteq> None then
            (let g = g\<lparr>g_Entities := tdel aEntity (g_Entities g)\<rparr>;
                 g = (if isPlayer aEntity then g\<lparr>g_PlayerCount := g_PlayerCount g - 1\<rparr> else g);
                 w = put_map g w
             in if isPlayer aEntity \<and> g_PlayerCount g = 0
                then on_data (g_Data g) (pack (compress z) (Some (MapRef m))) w else w)
          else w)"

text \<open>
  The floor of a map.  Reading a cell that does not exist or is packed is undefined; it counts
  as inaccessible ground here.
\<close>

definition cell_at :: "game_map \<Rightarrow> u16 \<Rightarrow> u16 \<Rightarrow> wstate \<Rightarrow> cell option" where
  "cell_at g x y w = (case datas w (g_Data g) of None \<Rightarrow> None | Some d \<Rightarrow> getCell d x y)"

definition getFloorAccess :: "game_map \<Rightarrow> u16 \<Rightarrow> u16 \<Rightarrow> wstate \<Rightarrow> bool" where
  "getFloorAccess g x y w = (case cell_at g x y w of None \<Rightarrow> False | Some c \<Rightarrow> Accessible c)"

definition getFloorAlt :: "game_map \<Rightarrow> u16 \<Rightarrow> u16 \<Rightarrow> wstate \<Rightarrow> int" where
  "getFloorAlt g x y w = (case cell_at g x y w of None \<Rightarrow> 0 | Some c \<Rightarrow> sint (Altitude c))"

definition isStandEnable :: "game_map \<Rightarrow> u16 \<Rightarrow> u16 \<Rightarrow> wstate \<Rightarrow> bool" where
  "isStandEnable = getFloorAccess"

definition isLayItemEnable :: "game_map \<Rightarrow> u16 \<Rightarrow> u16 \<Rightarrow> wstate \<Rightarrow> bool" where
  "isLayItemEnable = getFloorAccess"

definition isValidPoint :: "game_map \<Rightarrow> u16 \<Rightarrow> u16 \<Rightarrow> wstate \<Rightarrow> bool" where
  "isValidPoint g x y w =
     (case datas w (g_Data g) of None \<Rightarrow> False | Some d \<Rightarrow> x < mWidth d \<and> y < mHeight d)"

end
