(* ===== verification/Views.thy ===== *)
theory Views
  imports GameMap
begin

text \<open>
  What the broadcast sets do: the sets as a relation, and the operations as updates of the
  relation.  The locale \<open>view_store\<close> is what the two loops of the code (updating and clearing a
  broadcast set) need of adding and removing single entries; it is interpreted on the entities
  of the world.
\<close>

section \<open>The loops over an abstract store\<close>

locale view_store =
  fixes sees :: "'s \<Rightarrow> 'k \<Rightarrow> 'k \<Rightarrow> bool"
    and link :: "'k \<Rightarrow> 'k \<Rightarrow> 's \<Rightarrow> 's"
    and unlink :: "'k \<Rightarrow> 'k \<Rightarrow> 's \<Rightarrow> 's"
    and near :: "'s \<Rightarrow> 'k \<Rightarrow> 'k \<Rightarrow> bool"
    and live :: "'s \<Rightarrow> 'k \<Rightarrow> bool"
    and ok :: "'s \<Rightarrow> bool"
  assumes sees_link: "ok s \<Longrightarrow> live s a \<Longrightarrow> sees (link a b s) x y \<longleftrightarrow> x = a \<and> y = b \<or> sees s x y"
    and sees_unlink: "ok s \<Longrightarrow> sees (unlink a b s) x y \<longleftrightarrow> sees s x y \<and> \<not> (x = a \<and> y = b)"
    and near_link: "near (link a b s) = near s" and near_unlink: "near (unlink a b s) = near s"
    and live_link: "live (link a b s) = live s" and live_unlink: "live (unlink a b s) = live s"
    and ok_link: "ok s \<Longrightarrow> ok (link a b s)" and ok_unlink: "ok s \<Longrightarrow> ok (unlink a b s)"
begin

lemmas store_frame = near_link near_unlink live_link live_unlink ok_link ok_unlink

text \<open>Both entries of a pair are set or reset, by the distance.\<close>

lemma update_fold:
  assumes "ok s" and "live s a" and "\<forall>b \<in> set ks. live s b"
  shows "sees (fold (\<lambda>b s. if b = a then s else if near s a b then link b a (link a b s)
                          else unlink b a (unlink a b s)) ks s) x y \<longleftrightarrow>
    (if x = a \<and> y \<noteq> a \<and> y \<in> set ks then near s a y
     else if y = a \<and> x \<noteq> a \<and> x \<in> set ks then near s a x
     else sees s x y)"
  using assms
proof (induction ks arbitrary: s)
  case (Cons b ks)
  define t where "t = (if b = a then s else if near s a b then link b a (link a b s)
    else unlink b a (unlink a b s))"
  have t: "near t = near s" "live t = live s" "ok t"
    using Cons.prems(1) by (simp_all add: t_def store_frame)
  have st: "sees t x y \<longleftrightarrow>
      (if b \<noteq> a \<and> (x = a \<and> y = b \<or> x = b \<and> y = a) then near s a b else sees s x y)"
    using Cons.prems by (simp add: t_def sees_link sees_unlink store_frame) blast
  have "sees (fold (\<lambda>b s. if b = a then s else if near s a b then link b a (link a b s)
                          else unlink b a (unlink a b s)) ks t) x y \<longleftrightarrow>
    (if x = a \<and> y \<noteq> a \<and> y \<in> set ks then near t a y
     else if y = a \<and> x \<noteq> a \<and> x \<in> set ks then near t a x
     else sees t x y)"
    using Cons.prems t by (intro Cons.IH) simp_all
  then show ?case
    unfolding t st fold_simps t_def [symmetric] by (cases "x = a"; cases "y = a") auto
qed simp

lemma fold_keeps:
  assumes "ok s"
  shows "ok (fold (\<lambda>b s. if b = a then s else if near s a b then link b a (link a b s)
                          else unlink b a (unlink a b s)) ks s)"
  using assms by (induction ks arbitrary: s) (simp_all add: store_frame)

lemma clear_fold:
  assumes "ok s"
  shows "sees (fold (\<lambda>b s. unlink a b (unlink b a s)) ks s) x y \<longleftrightarrow>
    sees s x y \<and> \<not> (x = a \<and> y \<in> set ks) \<and> \<not> (y = a \<and> x \<in> set ks)"
    and "ok (fold (\<lambda>b s. unlink a b (unlink b a s)) ks s)"
  using assms
  by (induction ks arbitrary: s) (auto simp: sees_unlink store_frame)

end

section \<open>The broadcast sets provide it\<close>

definition sees :: "wstate \<Rightarrow> u32 \<Rightarrow> u32 \<Rightarrow> bool" where
  "sees w a b \<longleftrightarrow> tget b (view w a) \<noteq> None"

definition live :: "wstate \<Rightarrow> u32 \<Rightarrow> bool" where
  "live w a \<longleftrightarrow> ents w a \<noteq> None"

definition views_ok :: "wstate \<Rightarrow> bool" where
  "views_ok w \<longleftrightarrow> (\<forall>a. table_ok (view w a))"

text \<open>The entities without their view sets, which the operations on view sets leave alone.\<close>

definition bare :: "wstate \<Rightarrow> u32 \<Rightarrow> ent option" where
  "bare w a = map_option (\<lambda>e. e\<lparr>e_View := []\<rparr>) (ents w a)"

definition same_world :: "wstate \<Rightarrow> wstate \<Rightarrow> bool" where
  "same_world w w' \<longleftrightarrow> bare w' = bare w \<and> gmaps w' = gmaps w \<and> datas w' = datas w"

lemma same_refl [simp]: "same_world w w"
  by (simp add: same_world_def)

lemma same_trans: "same_world w w' \<Longrightarrow> same_world w' w'' \<Longrightarrow> same_world w w''"
  by (simp add: same_world_def)

lemma via_bare:
  "posX w a = (case bare w a of None \<Rightarrow> 0 | Some e \<Rightarrow> e_PosX e)"
  "posY w a = (case bare w a of None \<Rightarrow> 0 | Some e \<Rightarrow> e_PosY e)"
  "live w a \<longleftrightarrow> bare w a \<noteq> None"
  by (simp_all add: posX_def posY_def live_def bare_def split: option.split)

lemma same_worldD:
  assumes "same_world w w'"
  shows "posX w' = posX w" and "posY w' = posY w" and "live w' = live w" and "in_view a b w' = in_view a b w"
    and "gmaps w' = gmaps w" and "datas w' = datas w" and "getMap m w' = getMap m w"
  using assms by (simp_all add: same_world_def fun_eq_iff via_bare in_view_def getMap_def)

lemma log_to_frame [simp, frame_simps]:
  "ents (log_to p e w) = ents w" "gmaps (log_to p e w) = gmaps w" "datas (log_to p e w) = datas w"
  "wlog (log_to p e w) = wlog w @ [(p, e)]" "view (log_to p e w) = view w"
  by (simp_all add: log_to_def view_def fun_eq_iff)

lemma log_to_same [simp]: "same_world w (log_to p e w')  \<longleftrightarrow> same_world w w'"
  by (simp add: same_world_def bare_def fun_eq_iff)

lemma set_view_frame [simp, frame_simps]:
  "gmaps (set_view a v w) = gmaps w" "datas (set_view a v w) = datas w" "wlog (set_view a v w) = wlog w"
  "view (set_view a v w) b = (if b = a \<and> live w a then v else view w b)"
  by (simp_all add: set_view_def on_ent_def view_def live_def split: option.split)

lemma set_view_same [simp]: "same_world w (set_view a v w') \<longleftrightarrow> same_world w w'"
proof -
  have "bare (set_view a v w') = bare w'"
    by (auto simp: bare_def set_view_def on_ent_def fun_eq_iff option.map_comp comp_def)
  then show ?thesis by (simp add: same_world_def)
qed

lemmas send_defs = send_to_def sendShow_def

lemma entry_same:
  "same_world w (addEntityToBCSet a b w)" "same_world w (removeEntityFromBCSet a b w)"
  by (simp_all add: addEntityToBCSet_def removeEntityFromBCSet_def Let_def send_defs)

lemma live_log [simp]: "live (log_to p e w) = live w" "live (set_view a v w) = live w"
  using same_worldD(3) [of w "log_to p e w"] same_worldD(3) [of w "set_view a v w"] by simp_all

lemma views_okD: "views_ok w \<Longrightarrow> table_ok (view w a)"
  by (simp add: views_ok_def)

lemma view_add:
  "view (addEntityToBCSet a b w) x =
     (if x = a \<and> live w a \<and> tget b (view w a) = None then tput b () (view w a) else view w x)"
  by (auto simp: addEntityToBCSet_def Let_def send_defs)

lemma view_dead: "\<not> live w a \<Longrightarrow> view w a = []"
  by (simp add: live_def view_def)

lemma tdel_view [simp]:
  "(if x = a \<and> live w a then tdel b (view w a) else view w x) = (if x = a then tdel b (view w a) else view w x)"
  using view_dead [of w a] by (auto simp: tdel_def)

lemma view_remove:
  "view (removeEntityFromBCSet a b w) x = (if x = a then tdel b (view w a) else view w x)"
  using tdel_absent [of "view w a" b] view_dead [of w a]
  by (cases "tget b (view w a)"; cases "live w a")
    (auto simp: removeEntityFromBCSet_def Let_def send_defs tget_def tdel_def)

lemma sees_live: "sees w a b \<Longrightarrow> live w a"
  by (auto simp: sees_def live_def view_def split: option.splits)

lemma sees_add:
  "views_ok w \<Longrightarrow> live w a \<Longrightarrow> sees (addEntityToBCSet a b w) x y \<longleftrightarrow> x = a \<and> y = b \<or> sees w x y"
  using views_okD [of w a] by (auto simp: sees_def view_add table_simps)

lemma sees_remove:
  "views_ok w \<Longrightarrow> sees (removeEntityFromBCSet a b w) x y \<longleftrightarrow> sees w x y \<and> \<not> (x = a \<and> y = b)"
  using views_okD [of w a] by (auto simp: sees_def view_remove table_simps)

lemma views_ok_entry:
  "views_ok w \<Longrightarrow> views_ok (addEntityToBCSet a b w)"
  "views_ok w \<Longrightarrow> views_ok (removeEntityFromBCSet a b w)"
  by (simp_all add: views_ok_def view_add view_remove tab.inv_put tab.inv_del)

interpretation bc: view_store sees addEntityToBCSet removeEntityFromBCSet
  "\<lambda>w a b. in_view a b w" live views_ok
proof unfold_locales
  fix w a b
  show "(\<lambda>c d. in_view c d (addEntityToBCSet a b w)) = (\<lambda>c d. in_view c d w)"
    "(\<lambda>c d. in_view c d (removeEntityFromBCSet a b w)) = (\<lambda>c d. in_view c d w)"
    "live (addEntityToBCSet a b w) = live w" "live (removeEntityFromBCSet a b w) = live w"
    using same_worldD [OF entry_same(1)] same_worldD [OF entry_same(2)] by (auto simp: fun_eq_iff)
qed (simp_all add: sees_add sees_remove views_ok_entry)

section \<open>Updating and clearing\<close>

lemma update_one_fold:
  "update_one a = (\<lambda>b w. if b = a then w else if in_view a b w
     then addEntityToBCSet b a (addEntityToBCSet a b w)
     else removeEntityFromBCSet b a (removeEntityFromBCSet a b w))"
  by (auto simp: update_one_def fun_eq_iff)

lemma update_one_same: "same_world w (update_one a b w)"
  by (auto simp: update_one_def intro: same_trans entry_same)

lemma fold_same:
  "(\<And>b w. b \<in> set ks \<Longrightarrow> same_world w (f b w)) \<Longrightarrow> same_world w (fold f ks w)"
  by (induction ks arbitrary: w) (auto intro: same_trans)

lemma map_update_same: "same_world w (map_updateBroadcastSet g a w)"
  by (simp add: map_updateBroadcastSet_def fold_same update_one_same)

definition roommates :: "game_map \<Rightarrow> u32 set" where
  "roommates g = {b. tget b (g_Entities g) \<noteq> None}"

lemma tkeys_dom: "set (tkeys t) = {k. tget k t \<noteq> None}"
  by (auto simp: tkeys_def tget_def map_of_eq_None_iff)

lemma sees_map_update:
  assumes "views_ok w" and "\<forall>b \<in> roommates g. live w b" and "a \<in> roommates g"
  shows "sees (map_updateBroadcastSet g a w) x y \<longleftrightarrow>
    (if x = a \<and> y \<noteq> a \<and> y \<in> roommates g then in_view a y w
     else if y = a \<and> x \<noteq> a \<and> x \<in> roommates g then in_view a x w
     else sees w x y)"
  using bc.update_fold [of w a "tkeys (g_Entities g)" x y] assms
  by (simp add: map_updateBroadcastSet_def update_one_fold roommates_def tkeys_dom)

lemma views_ok_map_update: "views_ok w \<Longrightarrow> views_ok (map_updateBroadcastSet g a w)"
  using bc.fold_keeps [of w a "tkeys (g_Entities g)"]
  by (simp add: map_updateBroadcastSet_def update_one_fold)

text \<open>The removal of the own entry in \<open>clear_one\<close>, up to the message.\<close>

lemma view_clear_one:
  "view (clear_one a b w) = view (removeEntityFromBCSet a b (removeEntityFromBCSet b a w))"
  by (simp add: clear_one_def Let_def send_defs fun_eq_iff view_remove [of a])

lemma sees_clear_one:
  assumes "views_ok w"
  shows "sees (clear_one a b w) x y \<longleftrightarrow> sees w x y \<and> \<not> (x = a \<and> y = b) \<and> \<not> (x = b \<and> y = a)"
    and "views_ok (clear_one a b w)"
proof -
  have v: "views_ok (removeEntityFromBCSet b a w)" by (rule views_ok_entry(2) [OF assms])
  have "sees (clear_one a b w) x y = sees (removeEntityFromBCSet a b (removeEntityFromBCSet b a w)) x y"
    by (simp add: sees_def view_clear_one)
  then show "sees (clear_one a b w) x y \<longleftrightarrow> sees w x y \<and> \<not> (x = a \<and> y = b) \<and> \<not> (x = b \<and> y = a)"
    using sees_remove [OF v, of a b x y] sees_remove [OF assms, of b a x y] by blast
  show "views_ok (clear_one a b w)"
    using views_ok_entry(2) [OF v, of a b] by (simp add: views_ok_def view_clear_one)
qed

lemma clear_one_same: "same_world w (clear_one a b w)"
  using entry_same(2) [of w b a] by (simp add: clear_one_def Let_def send_defs)

lemma sees_clear_fold:
  "views_ok w \<Longrightarrow> sees (fold (clear_one a) ks w) x y \<longleftrightarrow>
     sees w x y \<and> \<not> (x = a \<and> y \<in> set ks) \<and> \<not> (y = a \<and> x \<in> set ks)"
  "views_ok w \<Longrightarrow> views_ok (fold (clear_one a) ks w)"
  by (induction ks arbitrary: w) (auto simp: sees_clear_one)

lemma table_empty:
  assumes "\<And>k. tget k t = None"
  shows "t = []"
proof (cases t)
  case (Cons p t')
  then show ?thesis using assms [of "fst p"] by (simp add: tget_def)
qed

lemma clear_view_empty:
  assumes "views_ok w"
  shows "view (fold (clear_one a) (tkeys (view w a)) w) a = []"
proof (rule table_empty)
  fix k show "tget k (view (fold (clear_one a) (tkeys (view w a)) w) a) = None"
    using sees_clear_fold(1) [OF assms, of a "tkeys (view w a)" a k]
    by (auto simp: sees_def tkeys_dom)
qed

lemma clear_fold_only:
  assumes "views_ok w"
  shows "view (clearBroadcastSet a w) = view (fold (clear_one a) (tkeys (view w a)) w)"
  using clear_view_empty [OF assms, of a] by (auto simp: clearBroadcastSet_def Let_def fun_eq_iff)

lemma sees_clear:
  assumes "views_ok w"
  shows "sees (clearBroadcastSet a w) x y \<longleftrightarrow> sees w x y \<and> x \<noteq> a \<and> \<not> (y = a \<and> sees w a x)"
    and "views_ok (clearBroadcastSet a w)"
  using sees_clear_fold [OF assms, of a "tkeys (view w a)"] clear_fold_only [OF assms, of a]
  by (auto simp: sees_def views_ok_def tkeys_dom)

lemma clear_same: "same_world w (clearBroadcastSet a w)"
  by (simp add: clearBroadcastSet_def Let_def fold_same clear_one_same)

section \<open>What the clients were told\<close>

text \<open>
  The screen of a client after the messages sent to it: what was shown and has not left since.
\<close>

definition see_eff :: "u32 \<Rightarrow> u32 \<times> eff \<Rightarrow> u32 set \<Rightarrow> u32 set" where
  "see_eff p m S =
     (case m of (q, e) \<Rightarrow>
        if q \<noteq> p then S
        else case e of
               Send (MsgPlayer u) \<Rightarrow> insert u S
             | Send (MsgNpcInfo u) \<Rightarrow> insert u S
             | Send (MsgAction u d act) \<Rightarrow> if act = ACTION_LEAVE_MAP then S - {u} else S
             | _ \<Rightarrow> S)"

definition screen :: "u32 \<Rightarrow> wstate \<Rightarrow> u32 set" where
  "screen p w = fold (see_eff p) (wlog w) {}"

definition screens_ok :: "wstate \<Rightarrow> bool" where
  "screens_ok w \<longleftrightarrow> (\<forall>p. isPlayer p \<longrightarrow> live w p \<longrightarrow> screen p w = {b. sees w p b})"

lemma see_eff_simps [simp]:
  "see_eff p (q, Send (MsgPlayer u)) S = (if q = p then insert u S else S)"
  "see_eff p (q, Send (MsgNpcInfo u)) S = (if q = p then insert u S else S)"
  "see_eff p (q, Send (MsgAction u d act)) S = (if q = p \<and> act = ACTION_LEAVE_MAP then S - {u} else S)"
  by (simp_all add: see_eff_def)

lemma screen_log [simp]: "screen p (log_to q e w) = see_eff p (q, e) (screen p w)"
  by (simp add: screen_def)

lemma screen_view [simp]: "screen p (set_view a v w) = screen p w"
  by (simp add: screen_def)

lemma screen_add:
  "screen p (addEntityToBCSet a b w) =
     (if p = a \<and> isPlayer a \<and> \<not> sees w a b then insert b (screen p w) else screen p w)"
  by (auto simp: addEntityToBCSet_def Let_def send_defs sees_def)

lemma screen_remove:
  "screen p (removeEntityFromBCSet a b w) =
     (if p = a \<and> isPlayer a \<and> sees w a b then screen p w - {b} else screen p w)"
  by (auto simp: removeEntityFromBCSet_def Let_def send_defs sees_def)

lemma entry_live [simp]:
  "live (addEntityToBCSet a b w) = live w" "live (removeEntityFromBCSet a b w) = live w"
  by (simp_all add: bc.live_link bc.live_unlink)

lemma screens_entry:
  assumes "views_ok w" and "screens_ok w"
  shows "screens_ok (addEntityToBCSet a b w)" and "screens_ok (removeEntityFromBCSet a b w)"
proof -
  show "screens_ok (addEntityToBCSet a b w)"
    unfolding screens_ok_def
  proof (intro allI impI)
    fix p assume p: "isPlayer p" "live (addEntityToBCSet a b w) p"
    have old: "screen p w = {b. sees w p b}" using assms(2) p by (simp add: screens_ok_def)
    show "screen p (addEntityToBCSet a b w) = {c. sees (addEntityToBCSet a b w) p c}"
    proof (cases "live w a")
      case True
      then show ?thesis
        using old p sees_add [OF assms(1) True] by (auto simp: screen_add)
    next
      case False
      then show ?thesis
        using old p by (auto simp: screen_add sees_def view_add)
    qed
  qed
  show "screens_ok (removeEntityFromBCSet a b w)"
    using assms(2) by (auto simp: screens_ok_def screen_remove sees_remove [OF assms(1)])
qed

lemma screens_update_one:
  assumes "views_ok w" and "screens_ok w"
  shows "screens_ok (update_one a b w)" and "views_ok (update_one a b w)"
  using assms by (simp_all add: update_one_def screens_entry views_ok_entry)

lemma screens_fold_update:
  "views_ok w \<Longrightarrow> screens_ok w \<Longrightarrow> screens_ok (fold (update_one a) ks w)"
  by (induction ks arbitrary: w) (simp_all add: screens_update_one)

lemma screens_map_update: "views_ok w \<Longrightarrow> screens_ok w \<Longrightarrow> screens_ok (map_updateBroadcastSet g a w)"
  by (simp add: map_updateBroadcastSet_def screens_fold_update)

lemma screen_clear_one:
  "screen p (clear_one a b w) =
     (if p = a \<and> isPlayer a then screen p (removeEntityFromBCSet b a w) - {b}
      else screen p (removeEntityFromBCSet b a w))"
  by (auto simp: clear_one_def Let_def send_defs)

lemma clear_one_live [simp]: "live (clear_one a b w) = live w"
  using same_worldD(3) [OF clear_one_same] .

lemma screens_clear_one:
  assumes "views_ok w" and "screens_ok w"
  shows "screens_ok (clear_one a b w)"
  unfolding screens_ok_def
proof (intro allI impI)
  fix p assume p: "isPlayer p" "live (clear_one a b w) p"
  let ?w = "removeEntityFromBCSet b a w"
  have old: "screen p ?w = {c. sees ?w p c}"
    using screens_entry(2) [OF assms, of b a] p by (simp add: screens_ok_def)
  have "{c. sees (clear_one a b w) p c} = (if p = a then {c. sees ?w p c} - {b} else {c. sees ?w p c})"
    using sees_clear_one(1) [OF assms(1), of a b p] sees_remove [OF assms(1), of b a p] by auto
  then show "screen p (clear_one a b w) = {c. sees (clear_one a b w) p c}"
    using old p(1) by (cases "p = a") (simp_all add: screen_clear_one)
qed

lemma screens_clear:
  assumes "views_ok w" and "screens_ok w"
  shows "screens_ok (clearBroadcastSet a w)"
proof -
  have "views_ok w \<Longrightarrow> screens_ok w \<Longrightarrow> screens_ok (fold (clear_one a) ks w)" for ks w
    by (induction ks arbitrary: w) (simp_all add: screens_clear_one sees_clear_one)
  from this [of w "tkeys (view w a)"] show ?thesis
    using assms clear_fold_only [OF assms(1), of a]
    by (simp add: screens_ok_def sees_def clearBroadcastSet_def Let_def)
qed

text \<open>Messages that neither show nor remove anything leave the screens alone.\<close>

definition quiet :: "msg \<Rightarrow> bool" where
  "quiet m \<longleftrightarrow> (\<forall>p q S. see_eff p (q, Send m) S = S)"

lemma quiet_simps [simp]:
  "quiet (MsgAction u d act) \<longleftrightarrow> act \<noteq> ACTION_LEAVE_MAP"
  "quiet (MsgBack n b)" "quiet (MsgSys str)" "quiet (MsgMapInfo m)" "quiet (MsgItem u d act)" "quiet (MsgTick t)"
proof -
  show "quiet (MsgAction u d act) \<longleftrightarrow> act \<noteq> ACTION_LEAVE_MAP"
  proof
    assume "quiet (MsgAction u d act)"
    then have "see_eff 0 (0, Send (MsgAction u d act)) {u} = {u}" unfolding quiet_def by blast
    then show "act \<noteq> ACTION_LEAVE_MAP" by auto
  qed (simp add: quiet_def)
qed (simp_all add: quiet_def see_eff_def)

lemma send_frame [simp]:
  "view (send_to p m w) = view w" "live (send_to p m w) = live w" "gmaps (send_to p m w) = gmaps w"
  "datas (send_to p m w) = datas w" "ents (send_to p m w) = ents w"
  by (simp_all add: send_to_def)

lemma send_same [simp]: "same_world w (send_to p m w') = same_world w w'"
  by (simp add: send_to_def)

lemma views_ok_send [simp]: "views_ok (send_to p m w) = views_ok w"
  by (simp add: views_ok_def)

lemma sees_send [simp]: "sees (send_to p m w) = sees w"
  by (simp add: sees_def fun_eq_iff)

lemma screens_send: "quiet m \<Longrightarrow> screens_ok w \<Longrightarrow> screens_ok (send_to p m w)"
  by (simp add: screens_ok_def send_to_def quiet_def sees_def)

text \<open>A broadcast, as the sends it consists of.\<close>

lemma broadcast_induct:
  assumes "P w" and "\<And>q w. P w \<Longrightarrow> P (send_to q m w)"
  shows "P (broadcastRoomMsg a m self w)"
proof -
  have "P w \<Longrightarrow> P (fold (\<lambda>other w. if isPlayer other then send_to other m w else w) ks w)" for ks w
    by (induction ks arbitrary: w) (simp_all add: assms(2))
  then show ?thesis using assms by (simp add: broadcastRoomMsg_def Let_def)
qed

lemma broadcast_frame [simp]:
  "view (broadcastRoomMsg a m self w) = view w" "live (broadcastRoomMsg a m self w) = live w"
  "gmaps (broadcastRoomMsg a m self w) = gmaps w" "datas (broadcastRoomMsg a m self w) = datas w"
  "ents (broadcastRoomMsg a m self w) = ents w"
  by (rule broadcast_induct; simp)+

lemma broadcast_ok [simp]:
  "views_ok (broadcastRoomMsg a m self w) = views_ok w" "sees (broadcastRoomMsg a m self w) = sees w"
  by (simp_all add: views_ok_def sees_def fun_eq_iff)

lemma broadcast_same [simp]: "same_world w (broadcastRoomMsg a m self w)"
  by (rule broadcast_induct) simp_all

lemma screens_broadcast: "quiet m \<Longrightarrow> screens_ok w \<Longrightarrow> screens_ok (broadcastRoomMsg a m self w)"
  by (rule broadcast_induct) (simp_all add: screens_send)

end
