(* ===== verification/Rooms.thy ===== *)
theory Rooms
  imports Views
begin

text \<open>
  The invariant of the maps: a map counts its players exactly, while it has one it holds its
  data unpacked, and who is on a map is alive and knows the map.  Entering and leaving keep it.
\<close>

section \<open>Packing keeps data well formed\<close>

lemma data_ok_pack: "data_ok d \<Longrightarrow> data_ok (pack cmp c d)"
  by (cases c) (auto simp: data_ok_def pack_def Let_def split: option.splits)

lemma data_ok_unpack: "data_ok d \<Longrightarrow> data_ok (unpack dcm c d) \<and> mCells (unpack dcm c d) \<noteq> None"
  by (cases c) (auto simp: data_ok_def unpack_def Let_def split: option.splits)

lemma unpack_shape:
  "mRefs (unpack dcm c d) = (case c of None \<Rightarrow> mRefs d | Some k \<Rightarrow> insert k (mRefs d))"
  "mWidth (unpack dcm c d) = mWidth d" "mHeight (unpack dcm c d) = mHeight d"
  by (auto simp: unpack_def Let_def split: option.split)

lemma pack_shape:
  "mRefs (pack cmp c d) = (case c of None \<Rightarrow> mRefs d | Some k \<Rightarrow> mRefs d - {k})"
  "mWidth (pack cmp c d) = mWidth d" "mHeight (pack cmp c d) = mHeight d"
  by (auto simp: pack_def Let_def split: option.split)

section \<open>The invariant\<close>

definition players_in :: "game_map \<Rightarrow> u32 set" where
  "players_in g = {b \<in> roommates g. isPlayer b}"

definition room_ok :: "wstate \<Rightarrow> u32 \<Rightarrow> game_map \<Rightarrow> bool" where
  "room_ok w m g \<longleftrightarrow>
     g_UID g = m \<and> table_ok (g_Entities g) \<and> unat (g_PlayerCount g) = card (players_in g) \<and>
     (\<exists>d. datas w (g_Data g) = Some d \<and> (players_in g \<noteq> {} \<longrightarrow> MapRef m \<in> mRefs d)) \<and>
     (\<forall>b \<in> roommates g. \<exists>e. ents w b = Some e \<and> e_MapId e = m)"

definition rooms_ok :: "wstate \<Rightarrow> bool" where
  "rooms_ok w \<longleftrightarrow>
     table_ok (gmaps w) \<and> (\<forall>m g. getMap m w = Some g \<longrightarrow> room_ok w m g) \<and>
     (\<forall>a d. datas w a = Some d \<longrightarrow> data_ok d)"

lemma players_finite [simp]: "finite (players_in g)"
  by (rule finite_subset [OF subset_UNIV]) simp

lemma players_card: "card (players_in g) < 2 ^ 64 - 1"
proof -
  have "card (players_in g) \<le> card (UNIV :: u32 set)" by (rule card_mono) simp_all
  then show ?thesis by (simp add: card_word)
qed

lemma roommates_put:
  "table_ok (g_Entities g) \<Longrightarrow>
   roommates (g\<lparr>g_PlayerCount := n, g_Entities := tput a () (g_Entities g)\<rparr>) = insert a (roommates g)"
  by (auto simp: roommates_def table_simps)

lemma roommates_del:
  "table_ok (g_Entities g) \<Longrightarrow>
   roommates (g\<lparr>g_Entities := tdel a (g_Entities g), g_PlayerCount := n\<rparr>) = roommates g - {a}"
  by (auto simp: roommates_def table_simps)

lemma count_inc: "unat n = k \<Longrightarrow> k < 2 ^ 64 - 1 \<Longrightarrow> unat (n + 1 :: u64) = Suc k"
  by (simp add: unat_word_ariths)

lemma count_dec: "unat n = k \<Longrightarrow> 0 < k \<Longrightarrow> unat (n - 1 :: u64) = k - 1"
  by (metis One_nat_def less_numeral_extra(3) unat_0 unat_minus_one)

lemma same_rooms:
  assumes "same_world w w'"
  shows "rooms_ok w' = rooms_ok w"
proof -
  have "(\<exists>e. ents w' b = Some e \<and> e_MapId e = m) \<longleftrightarrow> (\<exists>e. ents w b = Some e \<and> e_MapId e = m)" for b m
  proof -
    have "(\<exists>e. ents v b = Some e \<and> e_MapId e = m) \<longleftrightarrow> (\<exists>e. bare v b = Some e \<and> e_MapId e = m)" for v
      by (auto simp: bare_def)
    then show ?thesis using assms by (simp add: same_world_def)
  qed
  then show ?thesis
    using assms same_worldD [OF assms] by (simp add: rooms_ok_def room_ok_def)
qed

lemma put_map_frame [simp]:
  "ents (put_map g w) = ents w" "datas (put_map g w) = datas w" "view (put_map g w) = view w"
  "wlog (put_map g w) = wlog w" "live (put_map g w) = live w" "gmaps (put_map g w) = tput (g_UID g) g (gmaps w)"
  by (simp_all add: put_map_def view_def live_def fun_eq_iff)

lemma on_data_frame [simp]:
  "ents (on_data a f w) = ents w" "gmaps (on_data a f w) = gmaps w" "view (on_data a f w) = view w"
  "wlog (on_data a f w) = wlog w" "live (on_data a f w) = live w"
  "datas (on_data a f w) b = (if b = a then map_option f (datas w a) else datas w b)"
  by (simp_all add: on_data_def view_def live_def fun_eq_iff)

text \<open>Replacing one map and the data it uses.\<close>

lemma rooms_replace:
  assumes "rooms_ok w" and "getMap m w = Some g"
    and "g_UID g' = m" "g_Data g' = g_Data g" "table_ok (g_Entities g')"
    and "unat (g_PlayerCount g') = card (players_in g')"
    and "\<And>d. data_ok d \<Longrightarrow> data_ok (f d)" and "\<And>d k. k \<noteq> MapRef m \<Longrightarrow> k \<in> mRefs d \<Longrightarrow> k \<in> mRefs (f d)"
    and "\<And>d. datas w (g_Data g) = Some d \<Longrightarrow> players_in g' \<noteq> {} \<Longrightarrow> MapRef m \<in> mRefs (f d)"
    and "\<And>b. b \<in> roommates g' \<Longrightarrow> \<exists>e. ents w b = Some e \<and> e_MapId e = m"
  shows "rooms_ok (put_map g' (on_data (g_Data g) f w))"
proof -
  have t: "table_ok (gmaps w)" using assms(1) by (simp add: rooms_ok_def)
  have get: "getMap k (put_map g' (on_data (g_Data g) f w)) = (if k = m then Some g' else getMap k w)" for k
    using t assms(3) by (simp add: getMap_def table_simps)
  have "room_ok w m g" using assms(1,2) by (simp add: rooms_ok_def)
  then obtain d where d: "datas w (g_Data g) = Some d" by (auto simp: room_ok_def)
  have "room_ok (put_map g' (on_data (g_Data g) f w)) k g''"
    if k: "getMap k (put_map g' (on_data (g_Data g) f w)) = Some g''" for k g''
  proof (cases "k = m")
    case True
    then have "g'' = g'" using k get by simp
    then show ?thesis
      using True assms(3-6) assms(9) [OF d] assms(10) d by (simp add: room_ok_def)
  next
    case False
    then have "room_ok w k g''" using k get assms(1) by (simp add: rooms_ok_def)
    then show ?thesis
      using False assms(8) by (auto simp: room_ok_def)
  qed
  moreover have "data_ok x" if "datas (put_map g' (on_data (g_Data g) f w)) a = Some x" for a x
    using that assms(1,7) by (auto simp: rooms_ok_def split: if_splits)
  ultimately show ?thesis
    using t by (simp add: rooms_ok_def tab.inv_put)
qed

lemma on_data_id [simp]: "on_data a id w = w" "on_data a (\<lambda>d. d) w = w"
  by (simp_all add: on_data_def option.map_id0 option.map_ident fun_upd_idem)

lemma on_data_put: "on_data a f (put_map g w) = put_map g (on_data a f w)"
  by (simp add: on_data_def put_map_def)

section \<open>Entering and leaving\<close>

lemma enterRoom_unfold:
  assumes "getMap m w = Some g" and "tget a (g_Entities g) = None"
  shows "enterRoom z m a w =
    put_map (g\<lparr>g_PlayerCount := (if isPlayer a then g_PlayerCount g + 1 else g_PlayerCount g),
               g_Entities := tput a () (g_Entities g)\<rparr>)
      (on_data (g_Data g) (if isPlayer a \<and> g_PlayerCount g = 0
                           then unpack (decompress z) (Some (MapRef m)) else id) w)"
  using assms by (simp add: enterRoom_def Let_def)

lemma leaveRoom_unfold:
  assumes "getMap m w = Some g" and "tget a (g_Entities g) \<noteq> None"
  shows "leaveRoom z m a w =
    put_map (g\<lparr>g_Entities := tdel a (g_Entities g),
               g_PlayerCount := (if isPlayer a then g_PlayerCount g - 1 else g_PlayerCount g)\<rparr>)
      (on_data (g_Data g) (if isPlayer a \<and> g_PlayerCount g = 1
                           then pack (compress z) (Some (MapRef m)) else id) w)"
  using assms by (auto simp: leaveRoom_def Let_def on_data_put)

lemma rooms_enter:
  assumes "rooms_ok w" and "ents w a = Some e" and "e_MapId e = m"
  shows "rooms_ok (enterRoom z m a w)"
proof (cases "\<exists>g. getMap m w = Some g \<and> tget a (g_Entities g) = None")
  case True
  then obtain g where g: "getMap m w = Some g" "tget a (g_Entities g) = None" by blast
  let ?g = "g\<lparr>g_PlayerCount := (if isPlayer a then g_PlayerCount g + 1 else g_PlayerCount g),
              g_Entities := tput a () (g_Entities g)\<rparr>"
  have r: "room_ok w m g" using assms(1) g by (simp add: rooms_ok_def)
  then have t: "table_ok (g_Entities g)" and c: "unat (g_PlayerCount g) = card (players_in g)"
    by (simp_all add: room_ok_def)
  have rm: "roommates ?g = insert a (roommates g)" using roommates_put [OF t] by simp
  have new: "a \<notin> players_in g" using g(2) by (simp add: players_in_def roommates_def)
  have pl: "players_in ?g = (if isPlayer a then insert a (players_in g) else players_in g)"
    unfolding players_in_def rm by auto
  have "unat (g_PlayerCount ?g) = card (players_in ?g)"
    using new c count_inc [OF c players_card] by (simp add: pl)
  moreover have "MapRef m \<in> mRefs ((if isPlayer a \<and> g_PlayerCount g = 0
      then unpack (decompress z) (Some (MapRef m)) else id) d)"
    if d: "datas w (g_Data g) = Some d" and p: "players_in ?g \<noteq> {}" for d
  proof (cases "isPlayer a \<and> g_PlayerCount g = 0")
    case False
    then have "players_in g \<noteq> {}" using p pl c by (auto simp: unat_eq_zero [symmetric] split: if_splits)
    then show ?thesis using False r d by (auto simp: room_ok_def)
  qed (simp add: unpack_shape)
  ultimately show ?thesis
    unfolding enterRoom_unfold [OF g]
    using r assms(2,3) t
    by (intro rooms_replace [OF assms(1) g(1)])
      (auto simp: rm room_ok_def tab.inv_put data_ok_unpack unpack_shape)
qed (use assms(1) in \<open>auto simp: enterRoom_def split: option.split\<close>)

lemma rooms_leave:
  assumes "rooms_ok w"
  shows "rooms_ok (leaveRoom z m a w)"
proof (cases "\<exists>g. getMap m w = Some g \<and> tget a (g_Entities g) \<noteq> None")
  case True
  then obtain g where g: "getMap m w = Some g" "tget a (g_Entities g) \<noteq> None" by blast
  let ?g = "g\<lparr>g_Entities := tdel a (g_Entities g),
              g_PlayerCount := (if isPlayer a then g_PlayerCount g - 1 else g_PlayerCount g)\<rparr>"
  have r: "room_ok w m g" using assms(1) g by (simp add: rooms_ok_def)
  then have t: "table_ok (g_Entities g)" and c: "unat (g_PlayerCount g) = card (players_in g)"
    by (simp_all add: room_ok_def)
  have rm: "roommates ?g = roommates g - {a}" using roommates_del [OF t] by simp
  have pl: "players_in ?g = players_in g - {a}" unfolding players_in_def rm by auto
  have mem: "isPlayer a \<longleftrightarrow> a \<in> players_in g" using g(2) by (simp add: players_in_def roommates_def)
  then have pos: "isPlayer a \<Longrightarrow> 0 < card (players_in g)" by (auto simp: card_gt_0_iff)
  have cnt: "unat (g_PlayerCount ?g) = card (players_in ?g)"
    unfolding pl using mem c count_dec [OF c] pos by (cases "isPlayer a") simp_all
  have "MapRef m \<in> mRefs ((if isPlayer a \<and> g_PlayerCount g = 1
      then pack (compress z) (Some (MapRef m)) else id) d)"
    if d: "datas w (g_Data g) = Some d" and p: "players_in ?g \<noteq> {}" for d
  proof -
    have "\<not> (isPlayer a \<and> g_PlayerCount g = 1)"
    proof
      assume a: "isPlayer a \<and> g_PlayerCount g = 1"
      then have "card (players_in ?g) = 0" using cnt by simp
      then show False using p by (metis card_eq_0_iff players_finite)
    qed
    then show ?thesis using r d p pl by (auto simp: room_ok_def)
  qed
  with cnt show ?thesis
    unfolding leaveRoom_unfold [OF g]
    using r t
    by (intro rooms_replace [OF assms(1) g(1)])
      (auto simp: rm room_ok_def tab.inv_del data_ok_pack pack_shape)
qed (use assms(1) in \<open>auto simp: leaveRoom_def split: option.split\<close>)

text \<open>On a map with a player every valid point has a cell.\<close>

lemma active_floor:
  assumes "rooms_ok w" and "getMap m w = Some g" and "players_in g \<noteq> {}" and "isValidPoint g x y w"
  shows "cell_at g x y w \<noteq> None"
proof -
  obtain d where d: "datas w (g_Data g) = Some d" "MapRef m \<in> mRefs d"
  proof -
    have "room_ok w m g" using assms(1,2) by (simp add: rooms_ok_def)
    then show ?thesis using assms(3) that by (auto simp: room_ok_def)
  qed
  have "data_ok d" using assms(1) d by (auto simp: rooms_ok_def)
  then obtain cs where cs: "mCells d = Some cs" "length cs = cell_count d"
    using d(2) by (auto simp: data_ok_def split: option.splits)
  have "pos2idx (mWidth d) (unat x) (unat y) < cell_count d"
    using pos2idx_bound assms(4) d by (simp add: isValidPoint_def word_less_nat_alt)
  then show ?thesis using d cs by (simp add: cell_at_def getCell_def Let_def)
qed

lemma room_views [simp]:
  "view (enterRoom z m a w) = view w" "view (leaveRoom z m a w) = view w"
  "live (enterRoom z m a w) = live w" "live (leaveRoom z m a w) = live w"
  "ents (enterRoom z m a w) = ents w" "ents (leaveRoom z m a w) = ents w"
  "wlog (enterRoom z m a w) = wlog w" "wlog (leaveRoom z m a w) = wlog w"
  by (auto simp: enterRoom_def leaveRoom_def Let_def split: option.split)

end
