(* ===== verification/Movement.thy ===== *)
theory Movement
  imports Rooms
begin

text \<open>
  Players on maps (\<^verbatim>\<open>Player::enterMap\<close>, \<open>leaveMap\<close>, both \<open>move\<close> and \<open>kickBack\<close>) and the handlers that
  move them (\<^verbatim>\<open>MsgWalk\<close>, and the actions of \<^verbatim>\<open>MsgAction\<close> that touch the map).  \<open>move\<close> and \<open>kickBack\<close>
  call each other and need not return: a result of \<open>None\<close> is a call that never returns.
\<close>

definition ACTION_CHG_DIR :: nat where "ACTION_CHG_DIR = 79"
definition ACTION_EMOTION :: nat where "ACTION_EMOTION = 81"
definition ACTION_CHG_MAP :: nat where "ACTION_CHG_MAP = 85"
definition ACTION_FLY_MAP :: nat where "ACTION_FLY_MAP = 86"
definition ACTION_ENTER_MAP :: nat where "ACTION_ENTER_MAP = 74"
definition ACTION_JUMP :: nat where "ACTION_JUMP = 133"
definition ACTION_MAP_ARGB :: nat where "ACTION_MAP_ARGB = 104"

lemmas action_defs =
  ACTION_CHG_DIR_def ACTION_EMOTION_def ACTION_CHG_MAP_def ACTION_FLY_MAP_def ACTION_ENTER_MAP_def
  ACTION_JUMP_def ACTION_MAP_ARGB_def ACTION_LEAVE_MAP_def

definition sysMsg :: "u32 \<Rightarrow> string \<Rightarrow> wstate \<Rightarrow> wstate" where
  "sysMsg this str = send_to this (MsgSys str)"

definition disconnect_client :: "u32 \<Rightarrow> wstate \<Rightarrow> wstate" where
  "disconnect_client this = log_to this Disconnect"

section \<open>Entering, leaving, changing maps\<close>

definition enterMap :: "lz4 \<Rightarrow> u32 \<Rightarrow> wstate \<Rightarrow> wstate" where
  "enterMap z this w =
     (case ents w this of
        None \<Rightarrow> w
      | Some e \<Rightarrow>
          (case getMap (e_MapId e) w of
             None \<Rightarrow> disconnect_client this w
           | Some g \<Rightarrow>
               let w = send_to this (MsgAction this (Light (g_Info g)) ACTION_MAP_ARGB) w;
                   w = enterRoom z (e_MapId e) this w;
                   w = (case getMap (e_MapId e) w of None \<Rightarrow> w | Some g \<Rightarrow> sendMapInfo g this w)
               in updateBroadcastSet True this w))"

definition leaveMap :: "lz4 \<Rightarrow> u32 \<Rightarrow> wstate \<Rightarrow> wstate" where
  "leaveMap z this w =
     (case ents w this of
        None \<Rightarrow> w
      | Some e \<Rightarrow>
          let w = leaveRoom z (e_MapId e) this w;
              w = broadcastRoomMsg this (MsgAction this 0 ACTION_LEAVE_MAP) False w
          in clearBroadcastSet this w)"

definition change_map :: "u32 \<Rightarrow> u16 \<Rightarrow> u16 \<Rightarrow> ent \<Rightarrow> ent" where
  "change_map aMapId aX aY e =
     e\<lparr>e_PrevMap := e_MapId e, e_PrevX := e_PosX e, e_PrevY := e_PosY e,
       e_MapId := aMapId, e_PosX := aX, e_PosY := aY, e_Pose := POSE_STANDBY\<rparr>"

text \<open>\<open>move(aMapId, aX, aY)\<close>\<close>

definition move_map :: "lz4 \<Rightarrow> u32 \<Rightarrow> u32 \<Rightarrow> u16 \<Rightarrow> u16 \<Rightarrow> wstate \<Rightarrow> bool \<times> wstate" where
  "move_map z this aMapId aX aY w =
     (case getMap aMapId w of
        None \<Rightarrow> (False, w)
      | Some g \<Rightarrow>
          let w = leaveMap z this w;
              w = on_ent this (change_map aMapId aX aY) w;
              w = send_to this (MsgAction this aMapId ACTION_FLY_MAP) w
          in (True, enterMap z this w))"

section \<open>Moving on a map\<close>

definition bad_cell :: "game_map \<Rightarrow> u16 \<Rightarrow> u16 \<Rightarrow> wstate \<Rightarrow> bool" where
  "bad_cell g aX aY w \<longleftrightarrow> \<not> isValidPoint g aX aY w \<or> \<not> isStandEnable g aX aY w"

definition too_steep :: "game_map \<Rightarrow> ent \<Rightarrow> u16 \<Rightarrow> u16 \<Rightarrow> wstate \<Rightarrow> bool" where
  "too_steep g e aX aY w \<longleftrightarrow> getFloorAlt g aX aY w - getFloorAlt g (e_PosX e) (e_PosY e) w > 210"

definition step_to :: "u16 \<Rightarrow> u16 \<Rightarrow> u8 \<Rightarrow> ent \<Rightarrow> ent" where
  "step_to aX aY aDir e =
     e\<lparr>e_PrevX := e_PosX e, e_PrevY := e_PosY e, e_PosX := aX, e_PosY := aY, e_Direction := aDir,
       e_Pose := POSE_STANDBY\<rparr>"

text \<open>The message \<open>kickBack\<close> broadcasts after its move.\<close>

definition kicked :: "u32 \<Rightarrow> ent \<Rightarrow> wstate \<Rightarrow> wstate" where
  "kicked this e w = broadcastRoomMsg this (MsgAction this (e_MapId e) ACTION_FLY_MAP) True w"

text \<open>\<open>move(aX, aY, aDir)\<close>, with the body of \<open>kickBack\<close> at its two calls.\<close>

partial_function (option) move :: "u32 \<Rightarrow> u16 \<Rightarrow> u16 \<Rightarrow> u8 \<Rightarrow> wstate \<Rightarrow> (bool \<times> wstate) option" where
  "move this aX aY aDir w =
     (case ents w this of
        None \<Rightarrow> Some (False, w)
      | Some e \<Rightarrow>
          (case getMap (e_MapId e) w of
             None \<Rightarrow> Some (False, w)
           | Some g \<Rightarrow>
               if bad_cell g aX aY w then
                 Option.bind (move this (e_PrevX e) (e_PrevY e) (e_Direction e)
                                (sysMsg this ''STR_INVALID_COORDINATE'' w))
                   (\<lambda>r. Some (False, kicked this e (snd r)))
               else if too_steep g e aX aY w then
                 Option.bind (move this (e_PrevX e) (e_PrevY e) (e_Direction e) w)
                   (\<lambda>r. Some (False, kicked this e (snd r)))
               else Some (True, updateBroadcastSet False this (on_ent this (step_to aX aY aDir) w))))"

definition kickBack :: "u32 \<Rightarrow> wstate \<Rightarrow> wstate option" where
  "kickBack this w =
     (case ents w this of
        None \<Rightarrow> Some w
      | Some e \<Rightarrow>
          Option.bind (move this (e_PrevX e) (e_PrevY e) (e_Direction e) w)
            (\<lambda>r. Some (kicked this e (snd r))))"

section \<open>Walking\<close>

record msg_walk =
  mw_UniqId :: u32
  mw_Direction :: u8
  mw_Mode :: u8

definition dir_step :: "u8 \<Rightarrow> u16 \<times> u16 \<Rightarrow> u16 \<times> u16" where
  "dir_step dir p =
     (case p of (newX, newY) \<Rightarrow>
        if dir = 0 then (newX, newY + 1)
        else if dir = 1 then (newX - 1, newY + 1)
        else if dir = 2 then (newX - 1, newY)
        else if dir = 3 then (newX - 1, newY - 1)
        else if dir = 4 then (newX, newY - 1)
        else if dir = 5 then (newX + 1, newY - 1)
        else if dir = 6 then (newX + 1, newY)
        else if dir = 7 then (newX + 1, newY + 1)
        else (newX, newY))"

definition walk_target :: "msg_walk \<Rightarrow> u16 \<times> u16 \<Rightarrow> u8 \<times> u16 \<times> u16" where
  "walk_target m p =
     (let dir = mw_Direction m mod 8;
          p = dir_step dir p
      in if mw_Mode m \<ge> 20 \<and> mw_Mode m \<le> 27
         then (mw_Mode m - 20, dir_step (mw_Mode m - 20) p)
         else (dir, p))"

definition MSG_WALK :: nat where "MSG_WALK = 1005"
definition MSG_ACTION :: nat where "MSG_ACTION = 1010"

definition walk_back :: "msg_walk \<Rightarrow> msg" where
  "walk_back m = MsgBack MSG_WALK [mw_UniqId m, ucast (mw_Direction m), ucast (mw_Mode m)]"

text \<open>The message goes back to the sender before the move, and to the others after it.\<close>

definition MsgWalk_process :: "u32 \<Rightarrow> msg_walk \<Rightarrow> wstate \<Rightarrow> wstate option" where
  "MsgWalk_process this m w =
     (if this \<noteq> mw_UniqId m then Some (disconnect_client this w)
      else
        case ents w this of
          None \<Rightarrow> Some w
        | Some e \<Rightarrow>
            (case walk_target m (e_PosX e, e_PosY e) of
               (dir, newX, newY) \<Rightarrow>
                 if \<not> e_CurHP e > 0 then Some (sysMsg this ''STR_DIE'' w)
                 else
                   Option.bind (move this newX newY dir (send_to this (walk_back m) w))
                     (\<lambda>r. Some (if fst r then broadcastRoomMsg this (walk_back m) False (snd r) else snd r))))"

section \<open>Actions\<close>

record msg_action =
  ma_UniqId :: u32
  ma_Data :: u32
  ma_PosX :: u16
  ma_PosY :: u16
  ma_Direction :: u16

definition action_back :: "nat \<Rightarrow> msg_action \<Rightarrow> msg" where
  "action_back act m =
     MsgBack MSG_ACTION [of_nat act, ma_UniqId m, ma_Data m, ucast (ma_PosX m), ucast (ma_PosY m),
                         ucast (ma_Direction m)]"

definition low16 :: "u32 \<Rightarrow> u16" where "low16 d = ucast d"
definition high16 :: "u32 \<Rightarrow> u16" where "high16 d = ucast (drop_bit 16 d)"

definition process_CHG_DIR :: "u32 \<Rightarrow> msg_action \<Rightarrow> wstate \<Rightarrow> wstate" where
  "process_CHG_DIR this m w =
     (if this \<noteq> ma_UniqId m then disconnect_client this w
      else broadcastRoomMsg this (action_back ACTION_CHG_DIR m) False
             (on_ent this (\<lambda>e. e\<lparr>e_Direction := ucast (ma_Direction m)\<rparr>) w))"

text \<open>
  \<open>now\<close> is \<open>timeGetTime()\<close> and \<open>lastCool\<close> the time of the player's last cool show (a \<open>time_t\<close>, in
  which the difference is computed); the result has the new time of the last show.
\<close>

definition process_EMOTION :: "u32 \<Rightarrow> int \<Rightarrow> u8 \<Rightarrow> u32 \<Rightarrow> msg_action \<Rightarrow> wstate \<Rightarrow> wstate \<times> int" where
  "process_EMOTION now lastCool prof this m w =
     (if this \<noteq> ma_UniqId m then (disconnect_client this w, lastCool)
      else
        let pose = low16 (ma_Data m);
            w = on_ent this (\<lambda>e. e\<lparr>e_Pose := pose\<rparr>) w;
            cool = pose = POSE_COOL \<and> uint now - lastCool > 3000;
            m = (if cool then m\<lparr>ma_Data := ma_Data m OR (ucast prof * 0x00010000 + 0x01000000)\<rparr> else m)
        in (broadcastRoomMsg this (action_back ACTION_EMOTION m) True w, if cool then uint now else lastCool))"

text \<open>\<open>passway\<close> is the answer of the database for a map and a passage number.\<close>

definition process_CHG_MAP ::
  "lz4 \<Rightarrow> (u32 \<Rightarrow> u8 \<Rightarrow> (u32 \<times> u16 \<times> u16) option) \<Rightarrow> u32 \<Rightarrow> msg_action \<Rightarrow> wstate \<Rightarrow> wstate option" where
  "process_CHG_MAP z passway this m w =
     (if this \<noteq> ma_UniqId m then Some (disconnect_client this w)
      else
        case ents w this of
          None \<Rightarrow> Some w
        | Some e \<Rightarrow>
            (case getMap (e_MapId e) w of
               None \<Rightarrow> Some (disconnect_client this w)
             | Some g \<Rightarrow>
                 let passageX = low16 (ma_Data m); passageY = high16 (ma_Data m) in
                 if distance (e_PosX e) (e_PosY e) passageX passageY > 5 then Some w
                 else
                   let passageId = (case datas w (g_Data g) of None \<Rightarrow> - 1
                                    | Some d \<Rightarrow> getPassage d passageX passageY)
                   in case (if passageId \<noteq> - 1 then passway (e_MapId e) (word_of_int passageId) else None) of
                        Some (mapId, x, y) \<Rightarrow> Some (snd (move_map z this mapId x y w))
                      | None \<Rightarrow> kickBack this w))"

definition process_ENTER_MAP :: "lz4 \<Rightarrow> u32 \<Rightarrow> msg_action \<Rightarrow> wstate \<Rightarrow> wstate" where
  "process_ENTER_MAP z this m w =
     (case ents w this of
        None \<Rightarrow> w
      | Some e \<Rightarrow>
          (case getMap (e_MapId e) w of
             None \<Rightarrow> disconnect_client this w
           | Some g \<Rightarrow>
               enterMap z this
                 (send_to this (action_back ACTION_ENTER_MAP
                    (m\<lparr>ma_PosX := e_PosX e, ma_PosY := e_PosY e, ma_Data := ucast (DocID (g_Info g)),
                       ma_Direction := ucast (e_Direction e)\<rparr>)) w)))"

definition process_JUMP :: "u32 \<Rightarrow> msg_action \<Rightarrow> wstate \<Rightarrow> wstate option" where
  "process_JUMP this m w =
     (if this \<noteq> ma_UniqId m then Some (disconnect_client this w)
      else
        case ents w this of
          None \<Rightarrow> Some w
        | Some e \<Rightarrow>
            if e_PosX e \<noteq> ma_PosX m \<or> e_PosY e \<noteq> ma_PosY m then kickBack this w
            else if \<not> e_CurHP e > 0 then kickBack this (sysMsg this ''STR_DIE'' w)
            else
              (case getMap (e_MapId e) w of
                 None \<Rightarrow> Some w
               | Some g \<Rightarrow>
                   let newX = low16 (ma_Data m); newY = high16 (ma_Data m);
                       dir = ucast (ma_Direction m)
                   in if distance (e_PosX e) (e_PosY e) newX newY > 17 then Some w
                      else
                        Option.bind (move this newX newY dir (send_to this (action_back ACTION_JUMP m) w))
                          (\<lambda>r. Some (if fst r then broadcastRoomMsg this (action_back ACTION_JUMP m) False (snd r)
                                     else snd r))))"

section \<open>When a move returns\<close>

text \<open>The verdict on a position, which the messages sent on the way do not change.\<close>

definition rejected :: "u32 \<Rightarrow> u16 \<Rightarrow> u16 \<Rightarrow> wstate \<Rightarrow> bool" where
  "rejected this x y w \<longleftrightarrow>
     (\<exists>e g. ents w this = Some e \<and> getMap (e_MapId e) w = Some g \<and> (bad_cell g x y w \<or> too_steep g e x y w))"

definition prev_rejected :: "u32 \<Rightarrow> wstate \<Rightarrow> bool" where
  "prev_rejected this w \<longleftrightarrow> (\<exists>e. ents w this = Some e \<and> rejected this (e_PrevX e) (e_PrevY e) w)"

lemma cell_at_send [simp]: "cell_at g x y (send_to p m w) = cell_at g x y w"
  by (simp add: cell_at_def)

lemma verdict_send [simp]:
  "bad_cell g x y (send_to p m w) = bad_cell g x y w" "too_steep g e x y (send_to p m w) = too_steep g e x y w"
  "getMap k (send_to p m w) = getMap k w"
  by (simp_all add: bad_cell_def too_steep_def isValidPoint_def isStandEnable_def getFloorAccess_def
      getFloorAlt_def getMap_def)

lemma rejected_send [simp]:
  "rejected this x y (send_to p m w) = rejected this x y w" "prev_rejected this (send_to p m w) = prev_rejected this w"
  by (simp_all add: rejected_def prev_rejected_def)

lemmas sysMsg_simps = sysMsg_def

lemma rejected_cases:
  assumes "ents w this = Some e" and "getMap (e_MapId e) w = Some g"
  shows "rejected this x y w \<longleftrightarrow> bad_cell g x y w \<or> too_steep g e x y w"
  using assms by (auto simp: rejected_def)

text \<open>The accepting case, and the rejecting case as one recursive call.\<close>

lemma move_accept:
  assumes "ents w this = Some e" and "getMap (e_MapId e) w = Some g" and "\<not> rejected this x y w"
  shows "move this x y dir w = Some (True, updateBroadcastSet False this (on_ent this (step_to x y dir) w))"
  using assms by (simp add: move.simps [of this x] rejected_cases)

text \<open>What is sent to the player when a position is refused.\<close>

definition refused :: "u32 \<Rightarrow> u16 \<Rightarrow> u16 \<Rightarrow> wstate \<Rightarrow> wstate" where
  "refused this x y w =
     (if \<exists>e g. ents w this = Some e \<and> getMap (e_MapId e) w = Some g \<and> bad_cell g x y w
      then sysMsg this ''STR_INVALID_COORDINATE'' w else w)"

lemma refused_frame [simp]:
  "ents (refused this x y w) = ents w" "getMap k (refused this x y w) = getMap k w"
  "rejected this x' y' (refused this x y w) = rejected this x' y' w"
  "prev_rejected this (refused this x y w) = prev_rejected this w"
  "views_ok (refused this x y w) = views_ok w" "sees (refused this x y w) = sees w"
  "datas (refused this x y w) = datas w" "gmaps (refused this x y w) = gmaps w"
  by (simp_all add: refused_def sysMsg_def)

lemma move_refuse:
  assumes "ents w this = Some e" and "getMap (e_MapId e) w = Some g" and "rejected this x y w"
  shows "move this x y dir w =
    Option.bind (move this (e_PrevX e) (e_PrevY e) (e_Direction e) (refused this x y w))
      (\<lambda>r. Some (False, kicked this e (snd r)))"
proof (cases "bad_cell g x y w")
  case True
  then show ?thesis using assms(1,2) by (simp add: move.simps [of this x y dir w] refused_def)
next
  case False
  then show ?thesis
    using assms by (simp add: move.simps [of this x y dir w] rejected_cases refused_def)
qed

text \<open>A move to a refused position whose last position is refused too never returns.\<close>

lemma move_diverges:
  assumes "rejected this x y w" and "prev_rejected this w"
  shows "move this x y dir w = None"
proof -
  have "\<not> (rejected this x y w \<and> prev_rejected this w)" if ret: "move this x y dir w = Some r" for r
  proof (rule move.raw_induct [where P = "\<lambda>this x y dir w r. \<not> (rejected this x y w \<and> prev_rejected this w)",
        OF _ ret])
    fix f this x y dir w and r :: "bool \<times> wstate"
    assume IH: "\<And>this x y dir w r. f this x y dir w = Some r \<Longrightarrow> \<not> (rejected this x y w \<and> prev_rejected this w)"
      and eq: "(case ents w this of
        None \<Rightarrow> Some (False, w)
      | Some e \<Rightarrow>
          (case getMap (e_MapId e) w of
             None \<Rightarrow> Some (False, w)
           | Some g \<Rightarrow>
               if bad_cell g x y w then
                 Option.bind (f this (e_PrevX e) (e_PrevY e) (e_Direction e)
                                (sysMsg this ''STR_INVALID_COORDINATE'' w))
                   (\<lambda>r. Some (False, kicked this e (snd r)))
               else if too_steep g e x y w then
                 Option.bind (f this (e_PrevX e) (e_PrevY e) (e_Direction e) w)
                   (\<lambda>r. Some (False, kicked this e (snd r)))
               else Some (True, updateBroadcastSet False this (on_ent this (step_to x y dir) w)))) = Some r"
    show "\<not> (rejected this x y w \<and> prev_rejected this w)"
    proof
      assume rej: "rejected this x y w \<and> prev_rejected this w"
      then obtain e g where e: "ents w this = Some e" and g: "getMap (e_MapId e) w = Some g"
        and bad: "bad_cell g x y w \<or> too_steep g e x y w" and p: "rejected this (e_PrevX e) (e_PrevY e) w"
        by (auto simp: rejected_def prev_rejected_def)
      obtain w' q where q: "f this (e_PrevX e) (e_PrevY e) (e_Direction e) w' = Some q"
        and w': "w' = w \<or> w' = sysMsg this ''STR_INVALID_COORDINATE'' w"
        using eq e g bad by (auto split: if_splits simp: bind_eq_Some_conv)
      have "rejected this (e_PrevX e) (e_PrevY e) w' \<and> prev_rejected this w'"
        using w' p rej by (auto simp: sysMsg_def)
      with IH [OF q] show False by blast
    qed
  qed
  then show ?thesis using assms by (cases "move this x y dir w") auto
qed

lemma no_map_returns:
  assumes "\<And>e. ents w this = Some e \<Longrightarrow> getMap (e_MapId e) w = None"
  shows "move this x y dir w = Some (False, w)" and "\<not> rejected this x y w"
  using assms by (auto simp: move.simps [of this x y dir w] rejected_def split: option.split)

end
