(* ===== verification/Presence.thy ===== *)
theory Presence
  imports Movement
begin

text \<open>
  The invariant that ties rooms, view sets, positions and clients' screens together: who is in a
  view set is on the same map and at most eighteen cells away, view sets are symmetric, players
  see every player and NPC that near, and a client's screen is its view set.
\<close>

section \<open>Who is where\<close>

definition in_room :: "wstate \<Rightarrow> u32 \<Rightarrow> u32 \<Rightarrow> bool" where
  "in_room w m b \<longleftrightarrow> (\<exists>g. getMap m w = Some g \<and> b \<in> roommates g)"

definition share :: "wstate \<Rightarrow> u32 \<Rightarrow> u32 \<Rightarrow> bool" where
  "share w a b \<longleftrightarrow> (\<exists>m. in_room w m a \<and> in_room w m b)"

definition pair_ok :: "wstate \<Rightarrow> u32 \<Rightarrow> u32 \<Rightarrow> bool" where
  "pair_ok w x y \<longleftrightarrow>
     (sees w x y \<longrightarrow> x \<noteq> y \<and> share w x y \<and> in_view x y w \<and> sees w y x) \<and>
     (x \<noteq> y \<and> share w x y \<and> in_view x y w \<and> isPlayer x \<and> \<not> isMonster y \<longrightarrow> sees w x y \<and> sees w y x)"

definition world_ok :: "wstate \<Rightarrow> bool" where
  "world_ok w \<longleftrightarrow> rooms_ok w \<and> views_ok w \<and> screens_ok w \<and> (\<forall>x y. pair_ok w x y)"

lemma in_view_sym: "in_view a b w \<longleftrightarrow> in_view b a w"
  by (simp add: in_view_def distance_sym)

lemma in_room_ent:
  assumes "rooms_ok w" and "in_room w m b"
  obtains e where "ents w b = Some e" and "e_MapId e = m"
proof -
  obtain g where g: "getMap m w = Some g" "b \<in> roommates g" using assms(2) by (auto simp: in_room_def)
  then have "room_ok w m g" using assms(1) by (simp add: rooms_ok_def)
  then show ?thesis using g(2) that by (auto simp: room_ok_def)
qed

lemma in_room_unique: "rooms_ok w \<Longrightarrow> in_room w m b \<Longrightarrow> in_room w k b \<Longrightarrow> m = k"
  by (metis in_room_ent option.inject)

lemma share_sym: "share w a b \<longleftrightarrow> share w b a"
  by (auto simp: share_def)

lemma share_here: "rooms_ok w \<Longrightarrow> in_room w m a \<Longrightarrow> share w a b \<longleftrightarrow> in_room w m b"
  unfolding share_def by (metis in_room_unique)

lemma same_share:
  assumes "same_world w w'"
  shows "in_room w' = in_room w" and "share w' = share w"
  using same_worldD(7) [OF assms] by (simp_all add: in_room_def share_def fun_eq_iff)

text \<open>
  While an entity \<open>a\<close> moves, only the others are certain; what \<open>a\<close> sees is still on its map.
\<close>

definition loose :: "u32 \<Rightarrow> wstate \<Rightarrow> bool" where
  "loose a w \<longleftrightarrow> rooms_ok w \<and> views_ok w \<and> screens_ok w \<and>
     (\<forall>x y. x \<noteq> a \<longrightarrow> y \<noteq> a \<longrightarrow> pair_ok w x y) \<and>
     (\<forall>y. sees w a y \<or> sees w y a \<longrightarrow> y \<noteq> a \<and> share w a y)"

lemma pair_okD:
  assumes "pair_ok w x y"
  shows "sees w x y \<Longrightarrow> x \<noteq> y" and "sees w x y \<Longrightarrow> share w x y"
    and "sees w x y \<Longrightarrow> in_view x y w" and "sees w x y \<Longrightarrow> sees w y x"
  using assms by (simp_all add: pair_ok_def)

lemma looseD: "loose a w \<Longrightarrow> rooms_ok w" "loose a w \<Longrightarrow> views_ok w" "loose a w \<Longrightarrow> screens_ok w"
  unfolding loose_def by blast+

lemma worldD: "world_ok w \<Longrightarrow> rooms_ok w" "world_ok w \<Longrightarrow> views_ok w" "world_ok w \<Longrightarrow> screens_ok w"
  "world_ok w \<Longrightarrow> pair_ok w x y"
  unfolding world_ok_def by blast+

lemma world_loose: "world_ok w \<Longrightarrow> loose a w"
  unfolding world_ok_def loose_def using share_sym pair_okD by metis

lemma pair_same:
  assumes "same_world w w'" and "sees w' x y \<longleftrightarrow> sees w x y" and "sees w' y x \<longleftrightarrow> sees w y x"
  shows "pair_ok w' x y \<longleftrightarrow> pair_ok w x y"
  using assms same_share [OF assms(1)] same_worldD(4) [OF assms(1)] by (simp add: pair_ok_def)

text \<open>Who is on no map is seen by nobody.\<close>

lemma loose_homeless:
  assumes "loose a w" and "\<And>k. \<not> in_room w k a"
  shows "world_ok w"
proof -
  have none: "\<not> share w a b" "\<not> share w b a" for b using assms(2) by (simp_all add: share_def)
  then have blind: "\<not> sees w a b" "\<not> sees w b a" for b using assms(1) by (auto simp: loose_def)
  have "pair_ok w x y" for x y
  proof (cases "x = a \<or> y = a")
    case True
    then show ?thesis unfolding pair_ok_def using none blind by blast
  next
    case False
    then show ?thesis using assms(1) by (simp add: loose_def)
  qed
  then show ?thesis using assms(1) by (simp add: loose_def world_ok_def)
qed

section \<open>Updating a broadcast set restores it\<close>

lemma loose_map_update:
  assumes "loose a w" and "ents w a = Some e" and m: "e_MapId e = m" and "getMap m w = Some g"
  shows "world_ok (map_updateBroadcastSet g a w)"
proof -
  let ?w = "map_updateBroadcastSet g a w"
  have ok: "rooms_ok w" "views_ok w" "screens_ok w"
    and far: "\<And>x y. x \<noteq> a \<Longrightarrow> y \<noteq> a \<Longrightarrow> pair_ok w x y"
    and own: "\<And>y. sees w a y \<or> sees w y a \<Longrightarrow> y \<noteq> a \<and> share w a y"
    using assms(1) by (auto simp: loose_def)
  have same: "same_world w ?w" by (rule map_update_same)
  have "pair_ok ?w x y" for x y
  proof (cases "a \<in> roommates g")
    case True
    have here: "in_room w m a" using True assms(4) by (simp add: in_room_def)
    have room: "share w a b \<longleftrightarrow> b \<in> roommates g" for b
      using share_here [OF ok(1) here] assms(4) by (simp add: in_room_def)
    have "\<forall>b \<in> roommates g. live w b"
      using in_room_ent [OF ok(1)] assms(4) unfolding in_room_def live_def by (metis option.distinct(1))
    note S = sees_map_update [OF ok(2) this True]
    have self: "\<not> sees ?w a a" using S [of a a] own [of a] by auto
    have seen: "sees ?w a b \<longleftrightarrow> b \<in> roommates g \<and> in_view a b w"
      "sees ?w b a \<longleftrightarrow> b \<in> roommates g \<and> in_view a b w" if "b \<noteq> a" for b
      using S [of a b] S [of b a] own [of b] room [of b] that by auto
    consider "x = y" "x = a" | "x = a" "y \<noteq> a" | "x \<noteq> a" "y = a" | "x \<noteq> a" "y \<noteq> a" by blast
    then show ?thesis
    proof cases
      case 1
      then show ?thesis using self by (simp add: pair_ok_def)
    next
      case 2
      then show ?thesis
        using seen [of y] room [of y] unfolding pair_ok_def same_share [OF same] same_worldD(4) [OF same] by blast
    next
      case 3
      then show ?thesis
        using seen [of x] room [of x] share_sym [of w a x] in_view_sym [of a x w]
        unfolding pair_ok_def same_share [OF same] same_worldD(4) [OF same] by blast
    next
      case 4
      then show ?thesis using far [of x y] S [of x y] S [of y x] pair_same [OF same] by simp
    qed
  next
    case False
    have "\<not> in_room w k a" for k
    proof
      assume k: "in_room w k a"
      obtain e' where "ents w a = Some e'" "e_MapId e' = k" by (rule in_room_ent [OF ok(1) k])
      then show False using k False assms(2-4) by (simp add: in_room_def)
    qed
    then have "world_ok w" by (rule loose_homeless [OF assms(1)])
    moreover have "?w = w" using False by (simp add: map_updateBroadcastSet_def roommates_def)
    ultimately show ?thesis by (simp add: world_ok_def)
  qed
  then show ?thesis
    using ok same_rooms [OF same] views_ok_map_update screens_map_update by (simp add: world_ok_def)
qed

section \<open>The steps in between keep the rest\<close>

lemma on_ent_frame [simp]:
  "gmaps (on_ent a f w) = gmaps w" "datas (on_ent a f w) = datas w" "wlog (on_ent a f w) = wlog w"
  "live (on_ent a f w) = live w" "ents (on_ent a f w) b = (if b = a then map_option f (ents w a) else ents w b)"
  "in_room (on_ent a f w) = in_room w" "share (on_ent a f w) = share w"
  by (auto simp: on_ent_def live_def fun_eq_iff in_room_def share_def getMap_def)

lemma on_ent_view:
  assumes "\<And>e. e_View (f e) = e_View e"
  shows "view (on_ent a f w) = view w" "sees (on_ent a f w) = sees w" "views_ok (on_ent a f w) = views_ok w"
    "screens_ok (on_ent a f w) = screens_ok w"
proof -
  show v: "view (on_ent a f w) = view w"
    using assms by (auto simp: view_def fun_eq_iff split: option.split)
  then show s: "sees (on_ent a f w) = sees w" and "views_ok (on_ent a f w) = views_ok w"
    by (simp_all add: sees_def views_ok_def fun_eq_iff)
  show "screens_ok (on_ent a f w) = screens_ok w"
    using s by (simp add: screens_ok_def screen_def)
qed

lemma rooms_on_ent:
  assumes "rooms_ok w" and "(\<forall>e. e_MapId (f e) = e_MapId e) \<or> (\<forall>m. \<not> in_room w m a)"
  shows "rooms_ok (on_ent a f w)"
proof -
  have "room_ok (on_ent a f w) m g" if g: "getMap m w = Some g" for m g
  proof -
    have r: "room_ok w m g" using assms(1) g by (simp add: rooms_ok_def)
    have "\<exists>e. ents (on_ent a f w) b = Some e \<and> e_MapId e = m" if b: "b \<in> roommates g" for b
    proof -
      have "\<exists>e. ents w b = Some e \<and> e_MapId e = m" using r b by (simp add: room_ok_def)
      moreover have "in_room w m b" using g b by (auto simp: in_room_def)
      ultimately show ?thesis using assms(2) by (cases "b = a") auto
    qed
    then show ?thesis using r by (simp add: room_ok_def)
  qed
  then show ?thesis using assms(1) by (simp add: rooms_ok_def getMap_def)
qed

lemma in_view_on_ent: "x \<noteq> a \<Longrightarrow> y \<noteq> a \<Longrightarrow> in_view x y (on_ent a f w) = in_view x y w"
  by (simp add: in_view_def posX_def posY_def)

lemma loose_on_ent:
  assumes "loose a w" and v: "\<And>e. e_View (f e) = e_View e"
    and "(\<forall>e. e_MapId (f e) = e_MapId e) \<or> (\<forall>m. \<not> in_room w m a)"
  shows "loose a (on_ent a f w)"
proof -
  have "pair_ok (on_ent a f w) x y \<longleftrightarrow> pair_ok w x y" if "x \<noteq> a" "y \<noteq> a" for x y
    unfolding pair_ok_def on_ent_view [OF v] in_view_on_ent [OF that] on_ent_frame ..
  then show ?thesis
    using assms(1) rooms_on_ent [OF looseD(1) [OF assms(1)] assms(3)]
    unfolding loose_def on_ent_view [OF v] on_ent_frame by blast
qed

text \<open>Messages that do not touch a screen.\<close>

lemma loose_same:
  assumes "loose a w" and "same_world w w'" and "sees w' = sees w" and "views_ok w' = views_ok w" and "screens_ok w'"
  shows "loose a w'"
proof -
  have "pair_ok w' x y \<longleftrightarrow> pair_ok w x y" for x y by (rule pair_same) (simp_all add: assms)
  then show ?thesis
    using assms(1) unfolding loose_def same_rooms [OF assms(2)] same_share [OF assms(2)] assms(3,4)
    by (blast intro: assms(5))
qed

lemma world_same:
  assumes "world_ok w" and "same_world w w'" and "sees w' = sees w" and "views_ok w' = views_ok w" and "screens_ok w'"
  shows "world_ok w'"
proof -
  have "pair_ok w' x y \<longleftrightarrow> pair_ok w x y" for x y by (rule pair_same) (simp_all add: assms)
  then show ?thesis
    using assms(1) unfolding world_ok_def same_rooms [OF assms(2)] assms(4) by (blast intro: assms(5))
qed

lemma quiet_world:
  assumes "world_ok w"
  shows "quiet m \<Longrightarrow> world_ok (send_to p m w)" and "quiet m \<Longrightarrow> world_ok (broadcastRoomMsg a m self w)"
    and "world_ok (disconnect_client p w)"
proof -
  have s: "screens_ok w" using assms by (simp add: world_ok_def)
  show "quiet m \<Longrightarrow> world_ok (send_to p m w)" "quiet m \<Longrightarrow> world_ok (broadcastRoomMsg a m self w)"
    by (rule world_same [OF assms]; simp add: s screens_send screens_broadcast)+
  have "screens_ok (disconnect_client p w)" "sees (disconnect_client p w) = sees w"
    using s by (simp_all add: screens_ok_def disconnect_client_def sees_def see_eff_def fun_eq_iff)
  then show "world_ok (disconnect_client p w)"
    by (intro world_same [OF assms]) (simp_all add: disconnect_client_def views_ok_def)
qed

lemma quiet_loose: "loose a w \<Longrightarrow> quiet m \<Longrightarrow> loose a (send_to p m w)"
  by (rule loose_same [where w = w]) (simp_all add: looseD screens_send)

section \<open>Rooms, clearing, entering\<close>

lemma getMap_put: "table_ok (gmaps w) \<Longrightarrow> getMap k (put_map g w) = (if k = g_UID g then Some g else getMap k w)"
  by (simp add: getMap_def table_simps)

lemma getMap_on_data [simp]: "getMap k (on_data a f w) = getMap k w"
  by (simp add: getMap_def)

lemma room_of:
  assumes "rooms_ok w" and "getMap m w = Some g"
  shows "g_UID g = m" and "table_ok (g_Entities g)" and "table_ok (gmaps w)"
  using assms by (simp_all add: rooms_ok_def room_ok_def)

lemma in_room_enter:
  assumes "rooms_ok w"
  shows "in_room (enterRoom z m a w) k b \<longleftrightarrow> in_room w k b \<or> k = m \<and> b = a \<and> getMap m w \<noteq> None"
proof (cases "\<exists>g. getMap m w = Some g \<and> tget a (g_Entities g) = None")
  case True
  then obtain g where g: "getMap m w = Some g" "tget a (g_Entities g) = None" by blast
  note r = room_of [OF assms g(1)]
  show ?thesis
    unfolding enterRoom_unfold [OF g] in_room_def
    using r roommates_put [OF r(2)] g(1) by (auto simp: getMap_put)
next
  case False
  have id: "enterRoom z m a w = w" using False by (auto simp: enterRoom_def split: option.split)
  show ?thesis
  proof (cases "getMap m w")
    case (Some g)
    then have "a \<in> roommates g" using False by (auto simp: roommates_def)
    then show ?thesis using id Some by (auto simp: in_room_def)
  qed (use id in simp)
qed

lemma in_room_leave:
  assumes "rooms_ok w"
  shows "in_room (leaveRoom z m a w) k b \<longleftrightarrow> in_room w k b \<and> \<not> (k = m \<and> b = a)"
proof (cases "\<exists>g. getMap m w = Some g \<and> tget a (g_Entities g) \<noteq> None")
  case True
  then obtain g where g: "getMap m w = Some g" "tget a (g_Entities g) \<noteq> None" by blast
  note r = room_of [OF assms g(1)]
  show ?thesis
    unfolding leaveRoom_unfold [OF g] in_room_def
    using r roommates_del [OF r(2)] g(1) by (auto simp: getMap_put)
next
  case False
  then have id: "leaveRoom z m a w = w" by (auto simp: leaveRoom_def split: option.split)
  have "\<not> in_room w m a" using False by (auto simp: in_room_def roommates_def)
  then show ?thesis using id by auto
qed

lemma room_sees [simp]:
  "sees (enterRoom z m a w) = sees w" "sees (leaveRoom z m a w) = sees w"
  "views_ok (enterRoom z m a w) = views_ok w" "views_ok (leaveRoom z m a w) = views_ok w"
  "screens_ok (enterRoom z m a w) = screens_ok w" "screens_ok (leaveRoom z m a w) = screens_ok w"
  "in_view x y (enterRoom z m a w) = in_view x y w" "in_view x y (leaveRoom z m a w) = in_view x y w"
  by (simp_all add: sees_def views_ok_def screens_ok_def screen_def in_view_def posX_def posY_def fun_eq_iff)

lemma loose_enter:
  assumes "loose a w" and "ents w a = Some e" and "e_MapId e = m"
  shows "loose a (enterRoom z m a w)"
proof -
  note ok = looseD [OF assms(1)]
  have sh: "share (enterRoom z m a w) x y \<longleftrightarrow> share w x y" if "x \<noteq> a" "y \<noteq> a" for x y
    using that by (auto simp: share_def in_room_enter [OF ok(1)])
  have up: "share w x y \<Longrightarrow> share (enterRoom z m a w) x y" for x y
    by (auto simp: share_def in_room_enter [OF ok(1)])
  have "pair_ok (enterRoom z m a w) x y \<longleftrightarrow> pair_ok w x y" if "x \<noteq> a" "y \<noteq> a" for x y
    unfolding pair_ok_def sh [OF that] room_sees ..
  then show ?thesis
    using assms(1) rooms_enter [OF ok(1) assms(2,3)] up unfolding loose_def room_sees by blast
qed

lemma loose_clear:
  assumes "loose a w"
  shows "loose a (clearBroadcastSet a w)"
proof -
  note ok = looseD [OF assms] and S = sees_clear(1) [OF looseD(2) [OF assms], of a]
  have "pair_ok (clearBroadcastSet a w) x y \<longleftrightarrow> pair_ok w x y" if "x \<noteq> a" "y \<noteq> a" for x y
    using that by (intro pair_same [OF clear_same]) (simp_all add: S)
  then show ?thesis
    using assms ok sees_clear(2) screens_clear S
    unfolding loose_def same_rooms [OF clear_same] same_share [OF clear_same] by blast
qed

text \<open>An entity whose map does not exist is in no room.\<close>

lemma loose_nomap:
  assumes "loose a w" and "\<And>e. ents w a = Some e \<Longrightarrow> getMap (e_MapId e) w = None"
  shows "world_ok w"
proof (rule loose_homeless [OF assms(1)])
  fix k show "\<not> in_room w k a"
  proof
    assume k: "in_room w k a"
    obtain e where "ents w a = Some e" "e_MapId e = k" by (rule in_room_ent [OF looseD(1) [OF assms(1)] k])
    then show False using assms(2) k by (auto simp: in_room_def)
  qed
qed

lemma loose_update:
  assumes "loose a w"
  shows "world_ok (updateBroadcastSet c a w)"
proof -
  define w' where "w' = (if c then clearBroadcastSet a w else w)"
  have l: "loose a w'" using assms loose_clear by (simp add: w'_def)
  consider "\<And>e. ents w' a = Some e \<Longrightarrow> getMap (e_MapId e) w' = None"
    | e g where "ents w' a = Some e" "getMap (e_MapId e) w' = Some g"
    by (metis not_None_eq)
  then show ?thesis
  proof cases
    case 1
    then have "updateBroadcastSet c a w = w'"
      by (auto simp: updateBroadcastSet_def Let_def split: option.split simp flip: w'_def)
    then show ?thesis using loose_nomap [OF l 1] by simp
  next
    case 2
    then show ?thesis
      using loose_map_update [OF l 2(1) refl 2(2)] by (simp add: updateBroadcastSet_def Let_def flip: w'_def)
  qed
qed

lemma world_enterMap:
  assumes "loose a w"
  shows "world_ok (enterMap z a w)"
proof -
  consider "ents w a = None" | e where "ents w a = Some e" "getMap (e_MapId e) w = None"
    | e g where "ents w a = Some e" "getMap (e_MapId e) w = Some g"
    by fastforce
  then show ?thesis
  proof cases
    case 1
    then show ?thesis using loose_nomap [OF assms] by (simp add: enterMap_def)
  next
    case 2
    then show ?thesis using loose_nomap [OF assms] by (simp add: enterMap_def quiet_world)
  next
    case 3
    let ?w = "send_to a (MsgAction a (Light (g_Info g)) ACTION_MAP_ARGB) w"
    have "loose a ?w" using assms by (intro quiet_loose) (simp_all add: action_defs)
    then have r: "loose a (enterRoom z (e_MapId e) a ?w)" using 3 by (intro loose_enter) simp_all
    have "loose a (case getMap (e_MapId e) (enterRoom z (e_MapId e) a ?w) of
        None \<Rightarrow> enterRoom z (e_MapId e) a ?w
      | Some g \<Rightarrow> sendMapInfo g a (enterRoom z (e_MapId e) a ?w))"
      using r by (auto simp: sendMapInfo_def intro: quiet_loose split: option.split)
    then show ?thesis using loose_update 3 by (simp add: enterMap_def Let_def)
  qed
qed

section \<open>Leaving\<close>

text \<open>
  While \<open>a\<close> leaves, those who see it have been told already; only \<open>a\<close> may be missing from a screen.
\<close>

definition screens_but :: "u32 \<Rightarrow> wstate \<Rightarrow> bool" where
  "screens_but a w \<longleftrightarrow>
     (\<forall>p. isPlayer p \<longrightarrow> live w p \<longrightarrow>
        screen p w \<subseteq> {b. sees w p b} \<and> {b. sees w p b} - {a} \<subseteq> screen p w \<and>
        (p = a \<longrightarrow> screen p w = {b. sees w p b}))"

lemma screens_but_leave_msg:
  assumes "screens_but a w" and "\<not> sees w a a"
  shows "screens_but a (send_to q (MsgAction a d ACTION_LEAVE_MAP) w)"
  using assms by (auto simp: screens_but_def send_to_def sees_def)

lemma screens_but_clear_one:
  assumes "screens_but a w" and "views_ok w"
  shows "screens_but a (clear_one a b w)"
  using assms(1) unfolding screens_but_def screen_clear_one screen_remove sees_clear_one(1) [OF assms(2)]
    clear_one_live
  by auto

lemma screens_but_clear:
  assumes "screens_but a w" and "views_ok w" and "\<And>x. sees w x a \<Longrightarrow> sees w a x"
  shows "screens_ok (clearBroadcastSet a w)"
proof -
  have f: "views_ok w \<Longrightarrow> screens_but a w \<Longrightarrow> screens_but a (fold (clear_one a) ks w)" for ks w
    by (induction ks arbitrary: w) (simp_all add: screens_but_clear_one sees_clear_one)
  let ?w = "fold (clear_one a) (tkeys (view w a)) w"
  have v: "view (clearBroadcastSet a w) = view ?w" by (rule clear_fold_only [OF assms(2)])
  have scr: "screen p (clearBroadcastSet a w) = screen p ?w" "live (clearBroadcastSet a w) = live ?w" for p
    by (simp_all add: clearBroadcastSet_def Let_def)
  have "\<not> sees ?w p a" for p
    using sees_clear(1) [OF assms(2), of a p a] assms(3) v by (auto simp: sees_def)
  then have "screens_ok ?w" using f [OF assms(2,1)] unfolding screens_ok_def screens_but_def by blast
  then show ?thesis unfolding screens_ok_def scr sees_def v .
qed

lemma world_leave:
  assumes "world_ok w"
  shows "world_ok (leaveMap z a w)" and "\<not> in_room (leaveMap z a w) k a" and "\<not> sees (leaveMap z a w) x a"
    and "\<not> sees (leaveMap z a w) a x"
proof -
  note ok = worldD [OF assms]
  have "world_ok (leaveMap z a w) \<and> (\<forall>k. \<not> in_room (leaveMap z a w) k a) \<and>
    (\<forall>x. \<not> sees (leaveMap z a w) x a \<and> \<not> sees (leaveMap z a w) a x)"
  proof (cases "ents w a")
    case None
    have out: "\<not> in_room w k a" for k using None in_room_ent [OF ok(1)] by fastforce
    then have "\<not> share w a x" "\<not> share w x a" for x by (simp_all add: share_def)
    then have "\<not> sees w a x \<and> \<not> sees w x a" for x using pair_okD(2) [OF ok(4)] by blast
    then show ?thesis using None out assms by (simp add: leaveMap_def)
  next
    case (Some e)
    define w1 where "w1 = leaveRoom z (e_MapId e) a w"
    define w2 where "w2 = broadcastRoomMsg a (MsgAction a 0 ACTION_LEAVE_MAP) False w1"
    have lv: "leaveMap z a w = clearBroadcastSet a w2" using Some by (simp add: leaveMap_def Let_def w1_def w2_def)
    have same: "same_world w1 (leaveMap z a w)"
      unfolding lv w2_def by (rule same_trans [OF _ clear_same]) simp
    have vok: "views_ok w2" using ok(2) by (simp add: w2_def w1_def)
    have sees2: "sees w2 = sees w" by (simp add: w2_def w1_def)
    have sym: "sees w x a \<Longrightarrow> sees w a x" for x using pair_okD(4) [OF ok(4)] by blast
    have S: "sees (leaveMap z a w) x y \<longleftrightarrow> sees w x y \<and> x \<noteq> a \<and> y \<noteq> a" for x y
      unfolding lv sees_clear(1) [OF vok] sees2 using sym by blast
    have R: "in_room (leaveMap z a w) k b \<longleftrightarrow> in_room w k b \<and> b \<noteq> a" for k b
      unfolding same_share [OF same] w1_def in_room_leave [OF ok(1)]
      using in_room_ent [OF ok(1), of k a] Some by (metis option.inject)
    have "share (leaveMap z a w) x y \<longleftrightarrow> share w x y \<and> x \<noteq> a \<and> y \<noteq> a" for x y
      by (auto simp: share_def R)
    moreover have "in_view x y (leaveMap z a w) = in_view x y w" for x y
      unfolding same_worldD(4) [OF same] by (simp add: w1_def)
    ultimately have "pair_ok (leaveMap z a w) x y" for x y
      using ok(4) [of x y] unfolding pair_ok_def S by blast
    moreover have "rooms_ok (leaveMap z a w)"
      unfolding same_rooms [OF same] w1_def by (rule rooms_leave [OF ok(1)])
    moreover have "views_ok (leaveMap z a w)" unfolding lv by (rule sees_clear(2) [OF vok])
    moreover have "screens_ok (leaveMap z a w)"
      unfolding lv
    proof (rule screens_but_clear [OF _ vok])
      have "\<not> sees w a a" using pair_okD(1) [OF ok(4)] by blast
      moreover have "screens_but a w1" using ok(3) by (auto simp: w1_def screens_ok_def screens_but_def screen_def)
      ultimately show "screens_but a w2"
        unfolding w2_def
        by (intro broadcast_induct [where P = "\<lambda>w. screens_but a w \<and> \<not> sees w a a", THEN conjunct1])
          (auto simp: w1_def screens_but_leave_msg)
    qed (use sym sees2 in simp)
    ultimately show ?thesis by (simp add: world_ok_def S R)
  qed
  then show "world_ok (leaveMap z a w)" "\<not> in_room (leaveMap z a w) k a" "\<not> sees (leaveMap z a w) x a"
    "\<not> sees (leaveMap z a w) a x"
    by blast+
qed

lemma world_move_map: "world_ok w \<Longrightarrow> world_ok (snd (move_map z a m x y w))"
proof (cases "getMap m w")
  case (Some g)
  assume w: "world_ok w"
  have "loose a (on_ent a (change_map m x y) (leaveMap z a w))"
    using world_leave(2) [OF w]
    by (intro loose_on_ent world_loose world_leave(1) [OF w]) (simp_all add: change_map_def)
  then have "loose a (send_to a (MsgAction a m ACTION_FLY_MAP) (on_ent a (change_map m x y) (leaveMap z a w)))"
    by (rule quiet_loose) (simp add: action_defs)
  then show ?thesis using world_enterMap Some by (simp add: move_map_def Let_def)
qed (simp add: move_map_def)

section \<open>Moving\<close>

text \<open>The three ways a move that returns can go.\<close>

lemma move_cases:
  assumes "move this x y dir w = Some r"
  obtains (nomap) "r = (False, w)" and "\<And>e. ents w this = Some e \<Longrightarrow> getMap (e_MapId e) w = None"
  | (accept) e g where "ents w this = Some e" and "getMap (e_MapId e) w = Some g" and "\<not> rejected this x y w"
      and "r = (True, updateBroadcastSet False this (on_ent this (step_to x y dir) w))"
  | (reject) e g where "ents w this = Some e" and "getMap (e_MapId e) w = Some g"
      and "rejected this x y w" and "\<not> prev_rejected this w"
      and "r = (False, kicked this e (updateBroadcastSet False this
                 (on_ent this (step_to (e_PrevX e) (e_PrevY e) (e_Direction e)) (refused this x y w))))"
proof -
  consider (none) "\<And>e. ents w this = Some e \<Longrightarrow> getMap (e_MapId e) w = None"
    | (some) e g where "ents w this = Some e" "getMap (e_MapId e) w = Some g"
    by (metis not_None_eq)
  then show thesis
  proof cases
    case none
    then show ?thesis using no_map_returns [OF none] assms nomap by simp
  next
    case some
    show ?thesis
    proof (cases "rejected this x y w")
      case False
      then show ?thesis using move_accept [OF some False] assms accept [OF some] by simp
    next
      case True
      have p: "\<not> prev_rejected this w" using move_diverges [OF True] assms by auto
      then have "\<not> rejected this (e_PrevX e) (e_PrevY e) (refused this x y w)"
        using some by (simp add: prev_rejected_def)
      then show ?thesis
        using move_refuse [OF some True] move_accept [of "refused this x y w"] some assms
          reject [OF some True p] by simp
    qed
  qed
qed

text \<open>The move returns exactly when the position, or else the previous one, is acceptable.\<close>

lemma move_returns: "move this x y dir w = None \<longleftrightarrow> rejected this x y w \<and> prev_rejected this w"
proof
  assume n: "move this x y dir w = None"
  obtain e g where some: "ents w this = Some e" "getMap (e_MapId e) w = Some g"
    using no_map_returns(1) [of w this] n by (metis option.distinct(1) not_None_eq)
  then have rej: "rejected this x y w" using move_accept [OF some] n by fastforce
  moreover have "prev_rejected this w"
  proof (rule ccontr)
    assume "\<not> prev_rejected this w"
    then have "\<not> rejected this (e_PrevX e) (e_PrevY e) (refused this x y w)"
      using some by (simp add: prev_rejected_def)
    then show False using move_refuse [OF some rej] move_accept [of "refused this x y w"] some n by simp
  qed
  ultimately show "rejected this x y w \<and> prev_rejected this w" ..
qed (use move_diverges in blast)

lemma world_step_to:
  assumes "world_ok w"
  shows "world_ok (updateBroadcastSet c a (on_ent a (step_to x y dir) w))"
  by (rule loose_update) (intro loose_on_ent world_loose assms; simp add: step_to_def)

section \<open>What the handlers are made of\<close>

lemma quiet_back [simp]: "quiet (walk_back m)" "quiet (action_back act m')"
  by (simp_all add: walk_back_def action_back_def)

lemma world_look:
  assumes "world_ok w" and "\<And>e. e_View (f e) = e_View e" and "\<And>e. e_MapId (f e) = e_MapId e"
    and p: "\<And>e. e_PosX (f e) = e_PosX e" "\<And>e. e_PosY (f e) = e_PosY e"
  shows "world_ok (on_ent a f w)"
proof -
  have v: "in_view x y (on_ent a f w) = in_view x y w" for x y
    by (auto simp: in_view_def posX_def posY_def p split: option.split)
  have "pair_ok (on_ent a f w) x y \<longleftrightarrow> pair_ok w x y" for x y
    unfolding pair_ok_def on_ent_view [OF assms(2)] on_ent_frame v ..
  then show ?thesis
    using worldD [OF assms(1)] rooms_on_ent [of w f a] assms(3)
    unfolding world_ok_def on_ent_view [OF assms(2)] by blast
qed

text \<open>What a jump can come to.\<close>

lemma jump_cases:
  assumes "process_JUMP this m w = Some w'"
  obtains (stay) "w' = w \<or> w' = disconnect_client this w"
  | (kicked) v where "v = w \<or> v = sysMsg this ''STR_DIE'' w" "kickBack this v = Some w'"
  | (jump) r where "\<exists>e g. ents w this = Some e \<and> getMap (e_MapId e) w = Some g \<and>
        distance (e_PosX e) (e_PosY e) (low16 (ma_Data m)) (high16 (ma_Data m)) \<le> 17"
      and "this = ma_UniqId m"
      and "move this (low16 (ma_Data m)) (high16 (ma_Data m)) (ucast (ma_Direction m))
             (send_to this (action_back ACTION_JUMP m) w) = Some r"
      and "w' = (if fst r then broadcastRoomMsg this (action_back ACTION_JUMP m) False (snd r) else snd r)"
proof (cases "this = ma_UniqId m \<and> ents w this \<noteq> None")
  case own: True
  then obtain e where e: "ents w this = Some e" by blast
  note J = assms(1) [unfolded process_JUMP_def]
  consider (moved) "e_PosX e \<noteq> ma_PosX m \<or> e_PosY e \<noteq> ma_PosY m"
    | (dead) "e_PosX e = ma_PosX m" "e_PosY e = ma_PosY m" "\<not> e_CurHP e > 0"
    | (alive) "e_PosX e = ma_PosX m" "e_PosY e = ma_PosY m" "e_CurHP e > 0"
    by blast
  then show ?thesis
  proof cases
    case moved
    then have "kickBack this w = Some w'" using J own e by simp
    then show ?thesis using kicked by blast
  next
    case dead
    then have "kickBack this (sysMsg this ''STR_DIE'' w) = Some w'" using J own e by simp
    then show ?thesis using kicked by blast
  next
    case alive
    show ?thesis
    proof (cases "getMap (e_MapId e) w = None \<or>
        distance (e_PosX e) (e_PosY e) (low16 (ma_Data m)) (high16 (ma_Data m)) > 17")
      case True
      then have "w' = w" using J own e alive by (auto simp: Let_def split: option.splits)
      then show ?thesis using stay by simp
    next
      case False
      then obtain r where
        r: "move this (low16 (ma_Data m)) (high16 (ma_Data m)) (ucast (ma_Direction m))
              (send_to this (action_back ACTION_JUMP m) w) = Some r"
        and w': "w' = (if fst r then broadcastRoomMsg this (action_back ACTION_JUMP m) False (snd r) else snd r)"
        using J own e alive by (auto simp: Let_def bind_eq_Some_conv)
      show ?thesis by (rule jump [OF _ _ r w']) (use own e False in auto)
    qed
  qed
next
  case False
  then have "w' = disconnect_client this w \<or> w' = w"
    using assms(1) by (auto simp: process_JUMP_def split: if_splits)
  then show ?thesis using stay by blast
qed

text \<open>
  A property that the pieces keep is kept by every handler.
\<close>

locale kept =
  fixes P :: "wstate \<Rightarrow> bool"
  assumes send: "P w \<Longrightarrow> quiet m \<Longrightarrow> P (send_to p m w)"
    and broadcast: "P w \<Longrightarrow> quiet m \<Longrightarrow> P (broadcastRoomMsg a m self w)"
    and gone: "P w \<Longrightarrow> P (disconnect_client p w)"
    and look: "P w \<Longrightarrow> (\<And>e. e_View (f e) = e_View e) \<Longrightarrow> (\<And>e. e_MapId (f e) = e_MapId e) \<Longrightarrow>
      (\<And>e. e_PosX (f e) = e_PosX e) \<Longrightarrow> (\<And>e. e_PosY (f e) = e_PosY e) \<Longrightarrow> P (on_ent a f w)"
    and moved: "P w \<Longrightarrow> P (updateBroadcastSet False a (on_ent a (step_to x y dir) w))"
    and entered: "P w \<Longrightarrow> P (enterMap z a w)"
    and flown: "P w \<Longrightarrow> P (snd (move_map z a k x y w))"
begin

lemmas kept_msgs = send broadcast gone

lemma P_kicked: "P w \<Longrightarrow> P (kicked this e w)"
  unfolding kicked_def by (rule broadcast) (simp_all add: action_defs)

lemma P_refused: "P w \<Longrightarrow> P (refused this x y w)"
  unfolding refused_def sysMsg_def by (simp add: send)

lemma P_move:
  assumes "move this x y dir w = Some r" and "P w"
  shows "P (snd r)"
  using assms(1) by (cases rule: move_cases) (simp_all add: assms(2) moved P_kicked P_refused)

lemma P_kickBack:
  assumes "kickBack this w = Some w'" and "P w"
  shows "P w'"
  using assms by (auto simp: kickBack_def bind_eq_Some_conv P_kicked dest: P_move split: option.splits)

lemma P_walk:
  assumes "MsgWalk_process this m w = Some w'" and "P w"
  shows "P w'"
proof (cases "this = mw_UniqId m \<and> ents w this \<noteq> None")
  case True
  then obtain e dir newX newY where e: "ents w this = Some e"
    and t: "walk_target m (e_PosX e, e_PosY e) = (dir, newX, newY)"
    by (metis not_None_eq prod.exhaust)
  show ?thesis
  proof (cases "e_CurHP e > 0")
    case alive: True
    then obtain r where r: "move this newX newY dir (send_to this (walk_back m) w) = Some r"
      and w': "w' = (if fst r then broadcastRoomMsg this (walk_back m) False (snd r) else snd r)"
      using assms(1) True e t by (auto simp: MsgWalk_process_def bind_eq_Some_conv)
    have "P (snd r)" by (rule P_move [OF r]) (simp add: kept_msgs assms(2))
    then show ?thesis by (simp add: w' kept_msgs)
  next
    case False
    then have "w' = sysMsg this ''STR_DIE'' w" using assms(1) True e t by (simp add: MsgWalk_process_def)
    then show ?thesis by (simp add: sysMsg_def kept_msgs assms(2))
  qed
next
  case False
  then have "w' = disconnect_client this w \<or> w' = w"
    using assms(1) by (auto simp: MsgWalk_process_def split: if_splits)
  then show ?thesis using assms(2) by (auto simp: kept_msgs)
qed

lemma P_jump:
  assumes "process_JUMP this m w = Some w'" and "P w"
  shows "P w'"
  using assms(1)
proof (cases rule: jump_cases)
  case stay
  then show ?thesis using assms(2) by (auto simp: gone)
next
  case kicked
  then show ?thesis using P_kickBack assms(2) by (auto simp: sysMsg_def send)
next
  case (jump r)
  have "P (snd r)" by (rule P_move [OF jump(3)]) (simp add: send assms(2))
  then show ?thesis by (simp add: jump(4) broadcast)
qed

lemma P_chg_map:
  assumes "process_CHG_MAP z passway this m w = Some w'" and "P w"
  shows "P w'"
proof (cases "this = ma_UniqId m \<and> ents w this \<noteq> None")
  case True
  then obtain e where e: "ents w this = Some e" by blast
  note C = assms(1) [unfolded process_CHG_MAP_def]
  have own: "(this \<noteq> ma_UniqId m) = False" using True by simp
  show ?thesis
  proof (cases "getMap (e_MapId e) w")
    case None
    then have "w' = disconnect_client this w" using C True e by simp
    then show ?thesis using assms(2) by (simp add: kept_msgs)
  next
    case g: (Some g)
    let ?id = "case datas w (g_Data g) of None \<Rightarrow> - 1
      | Some d \<Rightarrow> getPassage d (low16 (ma_Data m)) (high16 (ma_Data m))"
    let ?to = "if ?id \<noteq> - 1 then passway (e_MapId e) (word_of_int ?id) else None"
    show ?thesis
    proof (cases "distance (e_PosX e) (e_PosY e) (low16 (ma_Data m)) (high16 (ma_Data m)) > 5")
      case far: True
      then have "w' = w" using C True e g by (simp add: Let_def)
      then show ?thesis using assms(2) by simp
    next
      case False
      define to where "to = ?to"
      have eq: "(case to of Some (mapId, x, y) \<Rightarrow> Some (snd (move_map z this mapId x y w))
          | None \<Rightarrow> kickBack this w) = Some w'"
        using C own False unfolding to_def by (simp only: e g option.case Let_def if_False)
      show ?thesis
      proof (cases to)
        case None
        then show ?thesis using eq P_kickBack assms(2) by simp
      next
        case (Some t)
        obtain k x y where "t = (k, x, y)" by (cases t)
        then have "w' = snd (move_map z this k x y w)" using eq Some by simp
        then show ?thesis using flown assms(2) by simp
      qed
    qed
  qed
next
  case False
  then have "w' = disconnect_client this w \<or> w' = w"
    using assms(1) by (auto simp: process_CHG_MAP_def split: if_splits)
  then show ?thesis using assms(2) by (auto simp: kept_msgs)
qed

lemma P_enter_map:
  assumes "P w"
  shows "P (process_ENTER_MAP z this m w)"
  using assms
  by (auto simp: process_ENTER_MAP_def kept_msgs split: option.split intro!: entered)

lemma P_chg_dir: "P w \<Longrightarrow> P (process_CHG_DIR this m w)"
  by (auto simp: process_CHG_DIR_def kept_msgs intro!: broadcast look)

lemma P_emotion: "P w \<Longrightarrow> P (fst (process_EMOTION now cool prof this m w))"
  by (auto simp: process_EMOTION_def Let_def kept_msgs intro!: broadcast look)

end

interpretation ok: kept world_ok
  by unfold_locales
    (simp_all add: quiet_world world_look world_step_to world_enterMap world_loose world_move_map)

section \<open>New entities\<close>

lemma new_ent:
  assumes w: "world_ok w" and none: "ents w uid = None" and v: "e_View e = []"
    and w1: "ents w1 = (ents w)(uid \<mapsto> e)" "gmaps w1 = gmaps w" "datas w1 = datas w"
  shows "rooms_ok w1" and "views_ok w1" and "pair_ok w1 x y" and "sees w1 = sees w"
    and "in_room w1 = in_room w" and "\<not> in_room w k uid" and "\<not> sees w uid x" and "\<not> sees w x uid"
proof -
  note ok = worldD [OF w]
  show out: "\<not> in_room w k uid" for k
  proof
    assume "in_room w k uid"
    then show False using in_room_ent [OF ok(1), of k uid] none by auto
  qed
  have vw: "view w1 a = view w a" for a using none v by (simp add: view_def w1)
  show sees: "sees w1 = sees w" by (intro ext) (simp add: sees_def vw)
  show "views_ok w1" using ok(2) unfolding views_ok_def vw .
  show room: "in_room w1 = in_room w" by (simp add: in_room_def getMap_def w1 fun_eq_iff)
  have sh: "share w1 = share w" by (simp add: share_def room fun_eq_iff)
  have alone: "\<not> share w uid x" "\<not> share w x uid" for x using out by (simp_all add: share_def)
  show blind: "\<not> sees w uid x" "\<not> sees w x uid" for x using pair_okD(2) [OF ok(4)] alone by blast+
  show "pair_ok w1 x y" for x y
  proof (cases "x = uid \<or> y = uid")
    case True
    then show ?thesis unfolding pair_ok_def sees sh using alone blind by blast
  next
    case False
    then have iv: "in_view x y w1 = in_view x y w" by (simp add: in_view_def posX_def posY_def w1)
    show ?thesis using ok(4) [of x y] unfolding pair_ok_def sees sh iv .
  qed
  have "room_ok w1 m g" if g: "getMap m w = Some g" for m g
  proof -
    have r: "room_ok w m g" using ok(1) g by (simp add: rooms_ok_def)
    have "ents w1 b = ents w b" if "b \<in> roommates g" for b
      using r that none by (auto simp: room_ok_def w1)
    then show ?thesis using r by (simp add: room_ok_def w1)
  qed
  then show "rooms_ok w1" using ok(1) by (simp add: rooms_ok_def getMap_def w1)
qed

lemma screen_other: "p \<noteq> uid \<Longrightarrow> fold (see_eff p) (filter (\<lambda>m. fst m \<noteq> uid) l) S = fold (see_eff p) l S"
  by (induction l arbitrary: S) (auto simp: see_eff_def)

lemma screen_gone: "fold (see_eff uid) (filter (\<lambda>m. fst m \<noteq> uid) l) S = S"
  by (induction l arbitrary: S) (auto simp: see_eff_def)

lemma world_on_data:
  assumes "world_ok w" and "\<And>d. data_ok d \<Longrightarrow> data_ok (f d)"
    and "\<And>d m. MapRef m \<in> mRefs d \<Longrightarrow> MapRef m \<in> mRefs (f d)"
  shows "world_ok (on_data a f w)"
proof -
  note ok = worldD [OF assms(1)]
  have room: "in_room (on_data a f w) = in_room w" by (simp add: in_room_def fun_eq_iff)
  then have sh: "share (on_data a f w) = share w" by (simp add: share_def fun_eq_iff)
  have sees: "sees (on_data a f w) = sees w" by (simp add: sees_def fun_eq_iff)
  have "room_ok (on_data a f w) m g" if g: "getMap m w = Some g" for m g
  proof -
    have r: "room_ok w m g" using ok(1) g by (simp add: rooms_ok_def)
    then show ?thesis using assms(3) by (auto simp: room_ok_def)
  qed
  moreover have "data_ok d" if "datas (on_data a f w) b = Some d" for b d
    using that ok(1) assms(2) by (auto simp: rooms_ok_def split: if_splits)
  ultimately have "rooms_ok (on_data a f w)" using ok(1) by (simp add: rooms_ok_def)
  moreover have "pair_ok (on_data a f w) x y" for x y
  proof -
    have iv: "in_view x y (on_data a f w) = in_view x y w" by (simp add: in_view_def posX_def posY_def)
    show ?thesis using ok(4) [of x y] unfolding pair_ok_def sees sh iv .
  qed
  moreover have "screens_ok (on_data a f w)"
    using ok(3) unfolding screens_ok_def sees by (simp add: screen_def)
  ultimately show ?thesis using ok(2) by (simp add: world_ok_def views_ok_def)
qed

lemma world_enter_monster:
  assumes "world_ok w" and e: "ents w a = Some e" "e_MapId e = m" and a: "isMonster a"
    and alone: "\<And>x. \<not> sees w a x" "\<And>x. \<not> sees w x a"
  shows "world_ok (enterRoom z m a w)"
proof -
  note ok = worldD [OF assms(1)]
  have np: "\<not> isPlayer a"
    using a by (auto simp: isMonster_def isPlayer_def id_defs word_le_nat_alt)
  have "pair_ok (enterRoom z m a w) x y" for x y
  proof (cases "x = a \<or> y = a")
    case True
    then show ?thesis unfolding pair_ok_def room_sees using alone a np by blast
  next
    case False
    then have sh: "share (enterRoom z m a w) x y \<longleftrightarrow> share w x y" by (auto simp: share_def in_room_enter [OF ok(1)])
    show ?thesis using ok(4) [of x y] unfolding pair_ok_def room_sees sh .
  qed
  then show ?thesis using ok rooms_enter [OF ok(1) e] by (simp add: world_ok_def)
qed

section \<open>Worlds before anybody came\<close>

definition fresh_world :: "(u32, game_map) table \<Rightarrow> (addr \<Rightarrow> mapdata option) \<Rightarrow> wstate" where
  "fresh_world gm dt = \<lparr>ents = (\<lambda>_. None), gmaps = gm, datas = dt, wlog = []\<rparr>"

definition maps_ok :: "(u32, game_map) table \<Rightarrow> (addr \<Rightarrow> mapdata option) \<Rightarrow> bool" where
  "maps_ok gm dt \<longleftrightarrow>
     table_ok gm \<and>
     (\<forall>m g. tget m gm = Some g \<longrightarrow>
        g_UID g = m \<and> g_Entities g = [] \<and> g_PlayerCount g = 0 \<and> dt (g_Data g) \<noteq> None) \<and>
     (\<forall>a d. dt a = Some d \<longrightarrow> data_ok d)"

lemma fresh_world_ok:
  assumes "maps_ok gm dt"
  shows "world_ok (fresh_world gm dt)"
proof -
  have "room_ok (fresh_world gm dt) m g" if "getMap m (fresh_world gm dt) = Some g" for m g
    using that assms
    by (auto simp: maps_ok_def fresh_world_def getMap_def room_ok_def players_in_def roommates_def)
  then have "rooms_ok (fresh_world gm dt)"
    using assms by (auto simp: rooms_ok_def maps_ok_def fresh_world_def)
  moreover have "\<not> in_room (fresh_world gm dt) m b" for m b
    using assms by (auto simp: in_room_def maps_ok_def fresh_world_def getMap_def roommates_def)
  ultimately show ?thesis
    by (auto simp: world_ok_def views_ok_def screens_ok_def pair_ok_def share_def sees_def live_def
        view_def fresh_world_def)
qed

end
