(* ===== verification/Generator.thy ===== *)
theory Generator
  imports Presence BaseFunc Timers "HOL-Library.Signed_Division"
begin

text \<open>
  The generators of monsters (\<^verbatim>\<open>generator.cpp\<close>) and the allocation of the monsters' unique ids
  (\<^verbatim>\<open>World::generateMonster\<close>, \<open>recycleMonsterUID\<close>).  \<open>infos\<close> is the database's table of monsters, of
  which only the life matters here.  A result of \<open>None\<close> is the call of \<open>abort()\<close> when all ids are
  in use.
\<close>

section \<open>Unique ids\<close>

record uids =
  mLastMonsterUID :: u32
  mRecycledMonsterUIDs :: "u32 list"

definition World_uids :: uids where
  "World_uids = \<lparr>mLastMonsterUID = MONSTERID_FIRST - 1, mRecycledMonsterUIDs = []\<rparr>"

definition take_uid :: "uids \<Rightarrow> (u32 \<times> uids) option" where
  "take_uid u =
     (if mLastMonsterUID u < MONSTERID_LAST
      then Some (mLastMonsterUID u + 1, u\<lparr>mLastMonsterUID := mLastMonsterUID u + 1\<rparr>)
      else
        case mRecycledMonsterUIDs u of
          [] \<Rightarrow> None
        | uid # rest \<Rightarrow> Some (uid, u\<lparr>mRecycledMonsterUIDs := rest\<rparr>))"

definition recycleMonsterUID :: "u32 \<Rightarrow> uids \<Rightarrow> uids" where
  "recycleMonsterUID aUID u = u\<lparr>mRecycledMonsterUIDs := mRecycledMonsterUIDs u @ [aUID]\<rparr>"

definition Monster :: "u32 \<Rightarrow> u16 \<Rightarrow> ent" where
  "Monster aUID life = (Entity aUID)\<lparr>e_CurHP := life\<rparr>"

section \<open>Generators\<close>

record generator =
  gen_Id :: u32
  MonsterType :: u32
  gen_Map :: u32
  BoundX :: u16
  BoundY :: u16
  BoundCX :: u16
  BoundCY :: u16
  Grid :: u32       \<comment> \<open>signed\<close>
  RestSecs :: u16
  MaxPerGen :: u16
  gen_Amount :: u32
  GenAmount :: u32
  CurGen :: u32
  gen_Timer :: timer
  MaxNPC :: u32
  IdxLastGen :: u32

text \<open>The common use of \<open>random\<close>: a number between 0 and a bound, both included.\<close>

definition draw :: "int \<Rightarrow> u64 \<Rightarrow> int \<times> u64" where
  "draw aMax seed = random2 0 0 aMax False seed"

definition max_npc :: "u16 \<Rightarrow> u16 \<Rightarrow> u16 \<Rightarrow> u32" where
  "max_npc aBoundCX aBoundCY aMaxNPC =
     (let n = (if uint aMaxNPC < 1 then 1
               else word_of_int ((uint aBoundCX div uint aMaxNPC) * (uint aBoundCY div uint aMaxNPC)))
      in if n < 1 then 1 else n)"

definition Generator ::
  "u32 \<Rightarrow> u32 \<Rightarrow> u16 \<Rightarrow> u16 \<Rightarrow> u16 \<Rightarrow> u16 \<Rightarrow> u16 \<Rightarrow> u16 \<Rightarrow> u16 \<Rightarrow> u32 \<Rightarrow> u64 \<Rightarrow> generator \<times> u64" where
  "Generator aId aMap aBoundX aBoundY aBoundCX aBoundCY aMaxNPC aRestSecs aMaxPerGen aMonsterType seed =
     (let (rest, seed) = draw (uint aRestSecs) seed;
          n = max_npc aBoundCX aBoundCY aMaxNPC;
          (last, seed) = draw (sint n) seed
      in (\<lparr>gen_Id = aId, MonsterType = aMonsterType, gen_Map = aMap, BoundX = aBoundX, BoundY = aBoundY,
           BoundCX = aBoundCX, BoundCY = aBoundCY, Grid = ucast aMaxNPC, RestSecs = aRestSecs,
           MaxPerGen = aMaxPerGen, gen_Amount = 0, GenAmount = 0, CurGen = 0,
           gen_Timer = setInterval (word_of_int (uint aRestSecs + rest)) (Timer 0),
           MaxNPC = n, IdxLastGen = word_of_int last\<rparr>, seed))"

text \<open>\<open>makeGenerator\<close>: a generator of a row of the database, if its map exists.\<close>

definition makeGenerator ::
  "(u32 \<Rightarrow> bool) \<Rightarrow> u32 \<times> u32 \<times> u16 \<times> u16 \<times> u16 \<times> u16 \<times> u16 \<times> u16 \<times> u16 \<times> u32 \<Rightarrow> u64 \<Rightarrow>
   err_t + (generator \<times> u64)" where
  "makeGenerator map_exists row seed =
     (case row of (i, mapId, x, y, cx, cy, maxNpc, rest, perGen, mtype) \<Rightarrow>
        if map_exists mapId then Inr (Generator i mapId x y cx cy maxNpc rest perGen mtype seed)
        else Inl ERROR_NOT_FOUND)"

text \<open>The position is added to the bound in 16 bits.\<close>

definition findGenPos :: "generator \<Rightarrow> u64 \<Rightarrow> u16 \<times> u16 \<times> generator \<times> u64" where
  "findGenPos g seed =
     (if MaxNPC g \<le> 1 then
        (let (rx, seed) = draw (uint (BoundCX g)) seed;
             (ry, seed) = draw (uint (BoundCY g)) seed
         in (BoundX g + word_of_int rx, BoundY g + word_of_int ry, g, seed))
      else
        (let i = IdxLastGen g + 1;
             i = (if i \<ge> MaxNPC g then 0 else i);
             g = g\<lparr>IdxLastGen := i\<rparr>;
             gridX = word_of_int (uint (BoundCX g) sdiv sint (Grid g));
             gridX = (if sint gridX < 0 then 1 else gridX);
             (rx, seed) = draw (sint (Grid g)) seed;
             (ry, seed) = draw (sint (Grid g)) seed
         in (BoundX g + ucast (Grid g * (i mod gridX) + word_of_int rx),
             BoundY g + ucast (Grid g * (i div gridX) + word_of_int ry), g, seed)))"

record gstate =
  gs_gen :: generator
  gs_uids :: uids
  gs_seed :: u64
  gs_world :: wstate

definition RANDOM_GENERATOR_SECS :: u16 where "RANDOM_GENERATOR_SECS = 600"

text \<open>A position in the generator's grid, or else anywhere in its bounds.\<close>

definition stand_at :: "u16 \<Rightarrow> u16 \<Rightarrow> gstate \<Rightarrow> bool" where
  "stand_at x y s =
     (case getMap (gen_Map (gs_gen s)) (gs_world s) of
        None \<Rightarrow> False | Some g \<Rightarrow> isStandEnable g x y (gs_world s))"

definition choose_pos :: "gstate \<Rightarrow> (u16 \<times> u16) option \<times> gstate" where
  "choose_pos s =
     (let (x, y, g, seed) = findGenPos (gs_gen s) (gs_seed s);
          s = s\<lparr>gs_gen := g, gs_seed := seed\<rparr>
      in if stand_at x y s then (Some (x, y), s)
         else
           (let (rx, seed) = draw (uint (BoundCX g)) seed;
                (ry, seed) = draw (uint (BoundCY g)) seed;
                x = word_of_int (uint (BoundX g) + rx);
                y = word_of_int (uint (BoundY g) + ry);
                s = s\<lparr>gs_seed := seed\<rparr>
            in if stand_at x y s then (Some (x, y), s) else (None, s)))"

text \<open>\<open>generateMonster\<close>, with the placing of the new monster.\<close>

definition place :: "lz4 \<Rightarrow> u32 \<Rightarrow> u16 \<Rightarrow> u32 \<Rightarrow> u16 \<Rightarrow> u16 \<Rightarrow> wstate \<Rightarrow> wstate" where
  "place z uid life m x y w =
     enterRoom z m uid
       (w\<lparr>ents := (ents w)(uid \<mapsto> (Monster uid life)\<lparr>e_MapId := m, e_PosX := x, e_PosY := y\<rparr>)\<rparr>)"

definition generateMonster :: "lz4 \<Rightarrow> (u32 \<Rightarrow> u16 option) \<Rightarrow> u16 \<Rightarrow> u16 \<Rightarrow> gstate \<Rightarrow> gstate option" where
  "generateMonster z infos x y s =
     (case infos (MonsterType (gs_gen s)) of
        None \<Rightarrow> Some s
      | Some life \<Rightarrow>
          (case take_uid (gs_uids s) of
             None \<Rightarrow> None
           | Some (uid, u) \<Rightarrow>
               Some (s\<lparr>gs_uids := u, gs_gen := (gs_gen s)\<lparr>gen_Amount := gen_Amount (gs_gen s) + 1\<rparr>,
                       gs_world := place z uid life (gen_Map (gs_gen s)) x y (gs_world s)\<rparr>)))"

definition count_one :: "generator \<Rightarrow> generator" where
  "count_one g = g\<lparr>CurGen := CurGen g - 1, GenAmount := GenAmount g + 1\<rparr>"

fun generate_loop ::
  "lz4 \<Rightarrow> (u32 \<Rightarrow> u16 option) \<Rightarrow> nat \<Rightarrow> gstate \<Rightarrow> u32 \<Rightarrow> (gstate \<times> u32) option" where
  "generate_loop z infos 0 s generated = Some (s, generated)"
| "generate_loop z infos (Suc n) s generated =
     (case choose_pos s of
        (None, s) \<Rightarrow> generate_loop z infos n s generated
      | (Some (x, y), s) \<Rightarrow>
          (case generateMonster z infos x y s of
             None \<Rightarrow> None
           | Some s \<Rightarrow>
               let s = s\<lparr>gs_gen := count_one (gs_gen s)\<rparr> in
               if CurGen (gs_gen s) \<le> 0 then Some (s, generated + 1)
               else generate_loop z infos n s (generated + 1)))"

text \<open>The wave a generator starts when its timer has run out.\<close>

definition next_wave :: "int \<Rightarrow> generator \<Rightarrow> u64 \<Rightarrow> generator \<times> u64" where
  "next_wave now g seed =
     (case toNextTime now (gen_Timer g) of
        (False, t) \<Rightarrow> (g\<lparr>gen_Timer := t\<rparr>, seed)
      | (True, t) \<Rightarrow>
          (let (t, seed) =
                 (if RestSecs g \<ge> RANDOM_GENERATOR_SECS then
                    (let (r, seed) = draw (uint (RestSecs g)) seed
                     in (start now (word_of_int (uint (RestSecs g) + r)) t, seed))
                  else (t, seed))
           in (g\<lparr>gen_Timer := t, CurGen := ucast (MaxPerGen g)\<rparr>, seed)))"

definition on_gen_data :: "(mapdata \<Rightarrow> mapdata) \<Rightarrow> gstate \<Rightarrow> gstate" where
  "on_gen_data f s =
     (case getMap (gen_Map (gs_gen s)) (gs_world s) of
        None \<Rightarrow> s | Some g \<Rightarrow> s\<lparr>gs_world := on_data (g_Data g) f (gs_world s)\<rparr>)"

definition generate ::
  "lz4 \<Rightarrow> (u32 \<Rightarrow> u16 option) \<Rightarrow> int \<Rightarrow> u32 \<Rightarrow> bool \<Rightarrow> gstate \<Rightarrow> (gstate \<times> u32) option" where
  "generate z infos now aAmount aInitializing s =
     (if \<not> aInitializing \<and>
         \<not> (case getMap (gen_Map (gs_gen s)) (gs_world s) of None \<Rightarrow> False | Some g \<Rightarrow> map_isActive g)
      then Some (s, 0)
      else if GenAmount (gs_gen s) \<ge> MaxNPC (gs_gen s) then Some (s, 0)
      else
        (let (g, seed) = next_wave now (gs_gen s) (gs_seed s);
             s = s\<lparr>gs_gen := g, gs_seed := seed\<rparr>
         in if CurGen g \<le> 0 then Some (s, 0)
            else
              map_option
                (\<lambda>(s, generated). (on_gen_data (pack (compress z) (Some (GenRef (gen_Id g)))) s, generated))
                (generate_loop z infos (unat aAmount)
                  (on_gen_data (unpack (decompress z) (Some (GenRef (gen_Id g)))) s) 0)))"

section \<open>Fresh ids\<close>

text \<open>Ids not yet handed out and ids given back name nobody, and no id waits twice.\<close>

definition uids_ok :: "uids \<Rightarrow> wstate \<Rightarrow> bool" where
  "uids_ok u w \<longleftrightarrow>
     MONSTERID_FIRST - 1 \<le> mLastMonsterUID u \<and> mLastMonsterUID u \<le> MONSTERID_LAST \<and>
     (\<forall>uid. mLastMonsterUID u < uid \<longrightarrow> uid \<le> MONSTERID_LAST \<longrightarrow> ents w uid = None) \<and>
     distinct (mRecycledMonsterUIDs u) \<and>
     (\<forall>uid \<in> set (mRecycledMonsterUIDs u).
        isMonster uid \<and> uid \<le> mLastMonsterUID u \<and> ents w uid = None)"

lemma unat16: "unat (x :: u16) < 65536"
  using unsigned_less [of x, where 'a = nat] by simp

lemma unat_word32: "k < 2 ^ 32 \<Longrightarrow> unat (word_of_nat k :: u32) = k"
  by (simp add: unat_of_nat)

lemma unat_word16: "k < 2 ^ 16 \<Longrightarrow> unat (word_of_nat k :: u16) = k"
  by (simp add: unat_of_nat)

lemma unat_succ:
  fixes x :: u32
  assumes "x < m"
  shows "unat (x + 1) = Suc (unat x)"
proof -
  have "unat x < unat m" using assms by (simp add: word_less_nat_alt)
  then have "Suc (unat x) < 2 ^ 32" using unsigned_less [of m, where 'a = nat] by simp
  then show ?thesis by (simp add: unat_word_ariths)
qed

lemma take_uid_fresh:
  assumes ok: "uids_ok u w" and t: "take_uid u = Some (uid, u')"
  shows "isMonster uid" and "ents w uid = None" and "ents w' = (ents w)(uid \<mapsto> e) \<Longrightarrow> uids_ok u' w'"
proof -
  let ?l = "mLastMonsterUID u"
  have b: "MONSTERID_FIRST - 1 \<le> ?l" "?l \<le> MONSTERID_LAST"
    and later: "\<And>v. ?l < v \<Longrightarrow> v \<le> MONSTERID_LAST \<Longrightarrow> ents w v = None"
    and d: "distinct (mRecycledMonsterUIDs u)"
    and freed: "\<And>v. v \<in> set (mRecycledMonsterUIDs u) \<Longrightarrow> isMonster v \<and> v \<le> ?l \<and> ents w v = None"
    using ok by (auto simp: uids_ok_def)
  show "isMonster uid" "ents w uid = None" "ents w' = (ents w)(uid \<mapsto> e) \<Longrightarrow> uids_ok u' w'"
  proof -
    consider (new) "?l < MONSTERID_LAST" "uid = ?l + 1" "u' = u\<lparr>mLastMonsterUID := ?l + 1\<rparr>"
      | (old) rest where "\<not> ?l < MONSTERID_LAST" "mRecycledMonsterUIDs u = uid # rest"
          "u' = u\<lparr>mRecycledMonsterUIDs := rest\<rparr>"
      using t by (auto simp: take_uid_def split: if_splits list.splits)
    then have "isMonster uid \<and> ents w uid = None \<and> (ents w' = (ents w)(uid \<mapsto> e) \<longrightarrow> uids_ok u' w')"
    proof cases
      case new
      have n: "unat (?l + 1) = Suc (unat ?l)" by (rule unat_succ [OF new(1)])
      have lt: "?l < ?l + 1" "?l + 1 \<le> MONSTERID_LAST"
        using n new(1) by (simp_all add: word_less_nat_alt word_le_nat_alt)
      have "MONSTERID_FIRST \<le> ?l + 1" using b(1) n by (simp add: word_le_nat_alt id_defs)
      then have m: "isMonster uid" using new lt by (simp add: isMonster_def)
      have out: "v \<noteq> ?l + 1" if "v \<in> set (mRecycledMonsterUIDs u)" for v
        using freed [OF that] lt(1) by auto
      have "uids_ok u' w'" if "ents w' = (ents w)(uid \<mapsto> e)"
        unfolding uids_ok_def
      proof (intro conjI allI impI ballI)
        show "MONSTERID_FIRST - 1 \<le> mLastMonsterUID u'" using b(1) lt(1) new by simp
        show "mLastMonsterUID u' \<le> MONSTERID_LAST" using lt(2) new by simp
        show "distinct (mRecycledMonsterUIDs u')" using d new by simp
        show "ents w' v = None" if "mLastMonsterUID u' < v" "v \<le> MONSTERID_LAST" for v
          using that later [of v] lt(1) new \<open>ents w' = _\<close> by auto
        show "isMonster v" "v \<le> mLastMonsterUID u'" "ents w' v = None"
          if "v \<in> set (mRecycledMonsterUIDs u')" for v
          using that freed [of v] out [of v] new lt(1) \<open>ents w' = _\<close> by auto
      qed
      then show ?thesis using m later lt new by simp
    next
      case old
      have m: "isMonster uid" "ents w uid = None" "uid \<le> ?l" using freed [of uid] old by simp_all
      have "uids_ok u' w'" if w': "ents w' = (ents w)(uid \<mapsto> e)"
        using b d freed later old m(3) unfolding uids_ok_def w' by (auto simp: leD)
      then show ?thesis using m by simp
    qed
    then show "isMonster uid" "ents w uid = None" "ents w' = (ents w)(uid \<mapsto> e) \<Longrightarrow> uids_ok u' w'" by blast+
  qed
qed

lemma recycle_ok:
  assumes "uids_ok u w" and "ents w uid = None" and "isMonster uid"
    and "uid \<le> mLastMonsterUID u" and "uid \<notin> set (mRecycledMonsterUIDs u)"
  shows "uids_ok (recycleMonsterUID uid u) w"
  using assms by (auto simp: uids_ok_def recycleMonsterUID_def)

lemma World_uids_ok: "(\<And>uid. isMonster uid \<Longrightarrow> ents w uid = None) \<Longrightarrow> uids_ok World_uids w"
proof -
  have "(400000 :: u32) < uid \<Longrightarrow> 400001 \<le> uid" for uid :: u32 using inc_le [of 400000 uid] by simp
  then show "(\<And>uid. isMonster uid \<Longrightarrow> ents w uid = None) \<Longrightarrow> uids_ok World_uids w"
    by (simp add: uids_ok_def World_uids_def isMonster_def id_defs)
qed

section \<open>Positions\<close>

text \<open>What the constructor establishes: the grid and the number of its cells.\<close>

definition gen_ok :: "generator \<Rightarrow> bool" where
  "gen_ok g \<longleftrightarrow> (\<exists>n :: u16. Grid g = ucast n \<and> MaxNPC g = max_npc (BoundCX g) (BoundCY g) n)"

lemma Generator_ok: "gen_ok (fst (Generator i m x y cx cy n rest per t seed))"
  by (auto simp: Generator_def gen_ok_def Let_def split_beta)

lemma max_npc_many:
  assumes "max_npc cx cy n > 1"
  shows "0 < unat n" and "unat (max_npc cx cy n) = (unat cx div unat n) * (unat cy div unat n)"
    and "0 < unat cx div unat n" and "0 < unat cy div unat n"
proof -
  have n: "\<not> uint n < 1" using assms by (auto simp: max_npc_def Let_def split: if_splits)
  have u: "uint c = int (unat c)" for c :: u16 by simp
  show n0: "0 < unat n" using n unfolding u by linarith
  have p: "(unat cx div unat n) * (unat cy div unat n) < 2 ^ 32"
  proof -
    have "unat c div k \<le> 65535" for c :: u16 and k
      by (rule order.trans [OF div_le_dividend]) (use unat16 [of c] in simp)
    note this [of cx "unat n"] this [of cy "unat n"]
    then have "(unat cx div unat n) * (unat cy div unat n) \<le> 65535 * 65535" by (intro mult_le_mono)
    then show ?thesis by simp
  qed
  have w: "unat (word_of_int ((uint cx div uint n) * (uint cy div uint n)) :: u32) =
      (unat cx div unat n) * (unat cy div unat n)"
    unfolding u zdiv_int [symmetric] of_nat_mult [symmetric] of_int_of_nat_eq by (rule unat_word32 [OF p])
  show "unat (max_npc cx cy n) = (unat cx div unat n) * (unat cy div unat n)"
    using assms n w by (auto simp: max_npc_def Let_def split: if_splits)
  moreover have "1 < unat (max_npc cx cy n)" using assms by (simp add: word_less_nat_alt)
  ultimately have "(unat cx div unat n) * (unat cy div unat n) \<noteq> 0" by linarith
  then show "0 < unat cx div unat n" "0 < unat cy div unat n" by (metis mult_is_0 neq0_conv)+
qed

lemma unat_widened: "unat (ucast (n :: u16) :: u32) = unat n"
proof -
  have "uint (ucast n :: u32) = uint n"
    using uint_bounded [of n] by (simp add: unsigned_ucast_eq take_bit_int_eq_self)
  then have "int (unat (ucast n :: u32)) = int (unat n)" by simp
  then show ?thesis by (simp only: of_nat_eq_iff)
qed

lemma sint_nat32: "k < 2 ^ 31 \<Longrightarrow> sint (word_of_nat k :: u32) = int k"
  by (simp add: signed_of_nat signed_take_bit_int_eq_self)

lemma sint_widened: "sint (ucast (n :: u16) :: u32) = int (unat n)"
proof -
  have "word_of_nat (unat n) = (ucast n :: u32)" by simp
  moreover have "unat n < 2 ^ 31" by (rule less_trans [OF unat16]) simp
  ultimately show ?thesis using sint_nat32 [of "unat n"] by metis
qed

lemma draw_bounds:
  assumes "0 \<le> b" and "b < 2 ^ 20"
  obtains k seed' where "draw b seed = (int k, seed')" and "k \<le> nat b"
proof -
  have "0 \<le> fst (draw b seed)" "fst (draw b seed) \<le> b"
    using random2_bounds [of 0 b 0 False seed] assms by (simp_all add: draw_def)
  then show ?thesis
    by (intro that [of "nat (fst (draw b seed))" "snd (draw b seed)"]) auto
qed

lemma draw_u16:
  obtains k seed' where "draw (int (unat (b :: u16))) seed = (int k, seed')" and "k \<le> unat b"
proof (rule draw_bounds [of "int (unat b)" seed])
  show "int (unat b) < 2 ^ 20" using uint_bounded [of b] by simp
qed (simp_all add: that)

lemma offset_word:
  assumes "n * i + r < 65536" and "unat a = n" and "unat b = i"
  shows "ucast (a * b + word_of_nat r :: u32) = (word_of_nat (n * i + r) :: u16)"
proof -
  have "a = word_of_nat n" "b = word_of_nat i" using assms(2,3) by auto
  then have "a * b + word_of_nat r = (word_of_nat (n * i + r) :: u32)" by simp
  moreover have "ucast (word_of_nat (n * i + r) :: u32) = (word_of_nat (unat (word_of_nat (n * i + r) :: u32)) :: u16)"
    by simp
  moreover have "unat (word_of_nat (n * i + r) :: u32) = n * i + r" using assms(1) by (intro unat_word32) simp
  ultimately show ?thesis by metis
qed

text \<open>The offset within the grid never leaves the bounds.\<close>

lemma grid_offset:
  fixes i gx n r c :: nat
  assumes "i < gx" and "gx = c div n" and "r \<le> n"
  shows "n * i + r \<le> c"
proof -
  have "n * i + r \<le> n * Suc i" using assms(3) by simp
  also have "\<dots> \<le> n * gx" using assms(1) by (intro mult_le_mono2) simp
  also have "\<dots> \<le> c" unfolding assms(2) by (rule times_div_less_eq_dividend)
  finally show ?thesis .
qed

definition spans :: "u16 \<Rightarrow> u16 \<Rightarrow> u16 \<Rightarrow> bool" where
  "spans b c x \<longleftrightarrow> unat b \<le> unat x \<and> unat x \<le> unat b + unat c"

lemma spans_add:
  assumes "k \<le> unat c" and "unat b + unat c < 65536"
  shows "spans b c (b + word_of_nat k)"
proof -
  have "unat (word_of_nat k :: u16) = k" by (rule unat_word16) (use assms in simp)
  then show ?thesis using assms by (simp add: spans_def unat_word_ariths)
qed

lemma findGenPos_spans:
  assumes "gen_ok g" and "unat (BoundX g) + unat (BoundCX g) < 65536"
    and "unat (BoundY g) + unat (BoundCY g) < 65536" and f: "findGenPos g seed = (x, y, g', seed')"
  shows "spans (BoundX g) (BoundCX g) x" and "spans (BoundY g) (BoundCY g) y" and "gen_ok g'"
    and "g' = g\<lparr>IdxLastGen := IdxLastGen g'\<rparr>"
proof -
  have u: "uint c = int (unat c)" for c :: u16 by simp
  have "spans (BoundX g) (BoundCX g) x \<and> spans (BoundY g) (BoundCY g) y \<and> gen_ok g' \<and>
    g' = g\<lparr>IdxLastGen := IdxLastGen g'\<rparr>"
  proof (cases "MaxNPC g \<le> 1")
    case True
    obtain rx s1 where rx: "draw (uint (BoundCX g)) seed = (int rx, s1)" "rx \<le> unat (BoundCX g)"
      unfolding u by (rule draw_u16)
    obtain ry s2 where ry: "draw (uint (BoundCY g)) s1 = (int ry, s2)" "ry \<le> unat (BoundCY g)"
      unfolding u by (rule draw_u16)
    have "x = BoundX g + word_of_nat rx" "y = BoundY g + word_of_nat ry" "g' = g"
      using f True rx(1) ry(1) by (auto simp: findGenPos_def Let_def)
    then show ?thesis using spans_add [OF rx(2) assms(2)] spans_add [OF ry(2) assms(3)] assms(1) by simp
  next
    case False
    obtain n :: u16 where n: "Grid g = ucast n" "MaxNPC g = max_npc (BoundCX g) (BoundCY g) n"
      using assms(1) by (auto simp: gen_ok_def)
    define gx gy where "gx = unat (BoundCX g) div unat n" and "gy = unat (BoundCY g) div unat n"
    have many: "max_npc (BoundCX g) (BoundCY g) n > 1" using False n by simp
    note N = max_npc_many [OF many, folded gx_def gy_def]
    define i where "i = (if IdxLastGen g + 1 \<ge> MaxNPC g then 0 else IdxLastGen g + 1)"
    have "MaxNPC g > 1" using False by simp
    then have "i < MaxNPC g" unfolding i_def by (simp add: word_less_nat_alt word_le_nat_alt)
    then have i: "unat i < gx * gy" using N(2) n(2) by (simp add: word_less_nat_alt)
    have gs: "sint (Grid g) = int (unat n)" unfolding n(1) by (rule sint_widened)
    have "int a sdiv int b = int (a div b)" if "0 < b" for a b :: nat
      using that by (auto simp: signed_divide_int_def sgn_if zdiv_int)
    from this [OF N(1), of "unat (BoundCX g)"] have "uint (BoundCX g) sdiv sint (Grid g) = int gx"
      unfolding gs gx_def by simp
    then have gridX: "(word_of_int (uint (BoundCX g) sdiv sint (Grid g)) :: u32) = word_of_nat gx"
      by simp
    have gxb: "gx < 65536" unfolding gx_def using div_le_dividend le_less_trans unat16 by blast
    have gxu: "unat (word_of_nat gx :: u32) = gx" using gxb by (intro unat_word32) simp
    have gxs: "\<not> sint (word_of_nat gx :: u32) < 0" using gxb by (simp add: sint_nat32)
    obtain rx s1 where rx: "draw (sint (Grid g)) seed = (int rx, s1)" "rx \<le> unat n"
      unfolding gs by (rule draw_u16)
    obtain ry s2 where ry: "draw (sint (Grid g)) s1 = (int ry, s2)" "ry \<le> unat n"
      unfolding gs by (rule draw_u16)
    let ?ox = "Grid g * (i mod word_of_nat gx) + word_of_nat rx" and ?oy = "Grid g * (i div word_of_nat gx) + word_of_nat ry"
    have res: "x = BoundX g + ucast ?ox" "y = BoundY g + ucast ?oy" "g' = g\<lparr>IdxLastGen := i\<rparr>"
      using f False gxs rx(1) ry(1) by (simp_all add: findGenPos_def Let_def gridX flip: i_def)
    have Gn: "unat (Grid g) = unat n" unfolding n(1) by (rule unat_widened)
    have bx: "unat n * (unat i mod gx) + rx \<le> unat (BoundCX g)"
      by (rule grid_offset [OF _ _ rx(2)]) (use N(3) gx_def in simp_all)
    have "unat i div gx < gy" using i N(3) by (simp add: less_mult_imp_div_less mult.commute)
    then have b_y: "unat n * (unat i div gx) + ry \<le> unat (BoundCY g)"
      by (rule grid_offset [OF _ gy_def ry(2)])
    have "x = BoundX g + word_of_nat (unat n * (unat i mod gx) + rx)"
      unfolding res by (subst offset_word [OF _ Gn]) (use bx unat16 [of "BoundCX g"] gxu in \<open>simp_all add: unat_mod\<close>)
    moreover have "y = BoundY g + word_of_nat (unat n * (unat i div gx) + ry)"
      unfolding res by (subst offset_word [OF _ Gn]) (use b_y unat16 [of "BoundCY g"] gxu in \<open>simp_all add: unat_div\<close>)
    moreover have "gen_ok g'" using assms(1) by (simp add: res gen_ok_def)
    ultimately show ?thesis
      using spans_add [OF bx assms(2)] spans_add [OF b_y assms(3)] by (simp add: res(3))
  qed
  then show "spans (BoundX g) (BoundCX g) x" "spans (BoundY g) (BoundCY g) y" "gen_ok g'"
    "g' = g\<lparr>IdxLastGen := IdxLastGen g'\<rparr>" by blast+
qed

section \<open>Placing a monster\<close>

definition floor_ok :: "u32 \<Rightarrow> u16 \<Rightarrow> u16 \<Rightarrow> wstate \<Rightarrow> bool" where
  "floor_ok m x y w = (case getMap m w of None \<Rightarrow> False | Some g \<Rightarrow> isStandEnable g x y w)"

lemma stand_at_floor: "stand_at x y s = floor_ok (gen_Map (gs_gen s)) x y (gs_world s)"
  by (simp add: stand_at_def floor_ok_def)

lemma floor_cong: "datas w' = datas w \<Longrightarrow> getMap m w' = getMap m w \<Longrightarrow> floor_ok m x y w' = floor_ok m x y w"
  by (simp add: floor_ok_def isStandEnable_def getFloorAccess_def cell_at_def split: option.split)

lemma monster_not_player: "isMonster a \<Longrightarrow> \<not> isPlayer a"
  by (auto simp: isMonster_def isPlayer_def id_defs word_le_nat_alt)

lemma floor_enter:
  assumes "rooms_ok w" and "\<not> isPlayer a"
  shows "floor_ok k x y (enterRoom z m a w) = floor_ok k x y w" and "datas (enterRoom z m a w) = datas w"
proof -
  show d: "datas (enterRoom z m a w) = datas w"
    using assms(2) by (simp add: enterRoom_def Let_def split: option.split)
  show "floor_ok k x y (enterRoom z m a w) = floor_ok k x y w"
  proof (cases "\<exists>g. getMap m w = Some g \<and> tget a (g_Entities g) = None")
    case True
    then obtain g where g: "getMap m w = Some g" "tget a (g_Entities g) = None" by blast
    note r = room_of [OF assms(1) g(1)]
    have "getMap k (enterRoom z m a w) = (if k = m
        then Some (g\<lparr>g_PlayerCount := g_PlayerCount g, g_Entities := tput a () (g_Entities g)\<rparr>) else getMap k w)"
      using assms(2) r unfolding enterRoom_unfold [OF g] by (simp add: getMap_put)
    then show ?thesis
      using d g(1) by (simp add: floor_ok_def isStandEnable_def getFloorAccess_def cell_at_def split: option.split)
  next
    case False
    then have "enterRoom z m a w = w" by (auto simp: enterRoom_def split: option.split)
    then show ?thesis by simp
  qed
qed

lemma world_place:
  assumes "world_ok w" and "isMonster uid" and "ents w uid = None"
  shows "world_ok (place z uid life m x y w)"
    and "ents (place z uid life m x y w) =
      (ents w)(uid \<mapsto> (Monster uid life)\<lparr>e_MapId := m, e_PosX := x, e_PosY := y\<rparr>)"
    and "floor_ok k a b (place z uid life m x y w) = floor_ok k a b w"
proof -
  let ?e = "(Monster uid life)\<lparr>e_MapId := m, e_PosX := x, e_PosY := y\<rparr>"
  define w1 where "w1 = w\<lparr>ents := (ents w)(uid \<mapsto> ?e)\<rparr>"
  have p: "place z uid life m x y w = enterRoom z m uid w1" by (simp add: place_def w1_def)
  have w1: "ents w1 = (ents w)(uid \<mapsto> ?e)" "gmaps w1 = gmaps w" "datas w1 = datas w" by (simp_all add: w1_def)
  note new = new_ent [OF assms(1,3) _ w1, unfolded Monster_def Entity_def, simplified]
  note np = monster_not_player [OF assms(2)]
  have "screens_ok w1"
    unfolding screens_ok_def
  proof (intro allI impI)
    fix p assume q: "isPlayer p" "live w1 p"
    then have "p \<noteq> uid" using np by auto
    then have "live w p" using q(2) by (simp add: live_def w1)
    moreover have "screen p w1 = screen p w" by (simp add: screen_def w1_def)
    ultimately show "screen p w1 = {b. sees w1 p b}" using worldD(3) [OF assms(1)] q(1) by (simp add: screens_ok_def new(4))
  qed
  then have "world_ok w1" using new(1-3) by (simp add: world_ok_def)
  then show "world_ok (place z uid life m x y w)"
    unfolding p by (rule world_enter_monster [where e = ?e]) (simp_all add: w1 assms(2) new(4,7,8))
  show "ents (place z uid life m x y w) = (ents w)(uid \<mapsto> ?e)" by (simp add: p w1)
  have "floor_ok k a b (enterRoom z m uid w1) = floor_ok k a b w1" by (rule floor_enter(1) [OF new(1) np])
  also have "\<dots> = floor_ok k a b w" by (rule floor_cong) (simp_all add: w1_def getMap_def)
  finally show "floor_ok k a b (place z uid life m x y w) = floor_ok k a b w" by (simp add: p)
qed

section \<open>The loop\<close>

text \<open>
  What a run of the loop from \<open>s\<close> to \<open>s'\<close> has done: the invariants hold, and who is new is a monster
  that stands on accessible ground of the generator's map.
\<close>

definition spawned :: "gstate \<Rightarrow> gstate \<Rightarrow> bool" where
  "spawned s s' \<longleftrightarrow>
     (world_ok (gs_world s) \<longrightarrow> uids_ok (gs_uids s) (gs_world s) \<longrightarrow>
      world_ok (gs_world s') \<and> uids_ok (gs_uids s') (gs_world s') \<and>
      (\<forall>m x y. floor_ok m x y (gs_world s') = floor_ok m x y (gs_world s)) \<and>
      (\<forall>uid. ents (gs_world s) uid \<noteq> None \<longrightarrow> ents (gs_world s') uid = ents (gs_world s) uid) \<and>
      (\<forall>uid e. ents (gs_world s) uid = None \<longrightarrow> ents (gs_world s') uid = Some e \<longrightarrow>
         isMonster uid \<and> e_MapId e = gen_Map (gs_gen s) \<and>
         floor_ok (gen_Map (gs_gen s)) (e_PosX e) (e_PosY e) (gs_world s))) \<and>
     gen_Map (gs_gen s') = gen_Map (gs_gen s)"

lemma spawned_trans: "spawned s t \<Longrightarrow> spawned t u \<Longrightarrow> spawned s u"
  unfolding spawned_def by (metis option.exhaust)

lemma spawned_same:
  "gs_world s' = gs_world s \<Longrightarrow> gs_uids s' = gs_uids s \<Longrightarrow> gen_Map (gs_gen s') = gen_Map (gs_gen s) \<Longrightarrow> spawned s s'"
  by (simp add: spawned_def)

lemma findGenPos_frame:
  assumes "findGenPos g seed = (x, y, g', seed')"
  shows "g' = g\<lparr>IdxLastGen := IdxLastGen g'\<rparr>"
  using assms by (auto simp: findGenPos_def Let_def split_beta split: if_splits)

lemma choose_pos_frame:
  assumes "choose_pos s = (p, s')"
  shows "gs_world s' = gs_world s" and "gs_uids s' = gs_uids s"
    and "gs_gen s' = (gs_gen s)\<lparr>IdxLastGen := IdxLastGen (gs_gen s')\<rparr>"
    and "p = Some (x, y) \<Longrightarrow> floor_ok (gen_Map (gs_gen s)) x y (gs_world s)"
proof -
  obtain x1 y1 g seed where f: "findGenPos (gs_gen s) (gs_seed s) = (x1, y1, g, seed)" by (metis prod_cases4)
  note fr = findGenPos_frame [OF f]
  have m: "gen_Map g = gen_Map (gs_gen s)" by (subst fr) simp
  have "gs_world s' = gs_world s \<and> gs_uids s' = gs_uids s \<and> gs_gen s' = g \<and>
    (p = Some (x, y) \<longrightarrow> floor_ok (gen_Map (gs_gen s)) x y (gs_world s))"
    using assms f m
    by (auto simp: choose_pos_def Let_def split_beta stand_at_floor split: if_splits)
  then show "gs_world s' = gs_world s" "gs_uids s' = gs_uids s"
    "gs_gen s' = (gs_gen s)\<lparr>IdxLastGen := IdxLastGen (gs_gen s')\<rparr>"
    "p = Some (x, y) \<Longrightarrow> floor_ok (gen_Map (gs_gen s)) x y (gs_world s)"
    using fr by auto
qed

lemma generateMonster_spawned:
  assumes "generateMonster z infos x y s = Some s'" and "floor_ok (gen_Map (gs_gen s)) x y (gs_world s)"
  shows "spawned s s'" and "gs_gen s' = (gs_gen s)\<lparr>gen_Amount := gen_Amount (gs_gen s')\<rparr>"
proof -
  have "spawned s s' \<and> gs_gen s' = (gs_gen s)\<lparr>gen_Amount := gen_Amount (gs_gen s')\<rparr>"
  proof (cases "infos (MonsterType (gs_gen s))")
    case None
    then show ?thesis using assms(1) by (simp add: generateMonster_def spawned_same)
  next
    case (Some life)
    then obtain uid u where t: "take_uid (gs_uids s) = Some (uid, u)"
      and s': "s' = s\<lparr>gs_uids := u, gs_gen := (gs_gen s)\<lparr>gen_Amount := gen_Amount (gs_gen s) + 1\<rparr>,
        gs_world := place z uid life (gen_Map (gs_gen s)) x y (gs_world s)\<rparr>"
      using assms(1) by (auto simp: generateMonster_def split: option.splits)
    have "spawned s s'" if w: "world_ok (gs_world s)" and u: "uids_ok (gs_uids s) (gs_world s)"
    proof -
      note fresh = take_uid_fresh [OF u t]
      note pl = world_place [OF w fresh(1,2)]
      show ?thesis
        using pl fresh(1,2) fresh(3) [OF pl(2)] assms(2) by (auto simp: spawned_def s' Monster_def)
    qed
    then show ?thesis by (auto simp: spawned_def s')
  qed
  then show "spawned s s'" "gs_gen s' = (gs_gen s)\<lparr>gen_Amount := gen_Amount (gs_gen s')\<rparr>" by blast+
qed

lemma generate_loop_spawned: "generate_loop z infos n s k = Some (s', k') \<Longrightarrow> spawned s s'"
proof (induction z infos n s k rule: generate_loop.induct)
  case (1 z infos s k)
  then show ?case by (simp add: spawned_same)
next
  case (2 z infos n s k)
  obtain p t where c: "choose_pos s = (p, t)" by (metis prod.exhaust)
  have st: "spawned s t" using choose_pos_frame [OF c] by (intro spawned_same) (simp_all, metis generator.select_convs(3) generator.surjective generator.update_convs(16))
  show ?case
  proof (cases p)
    case None
    then show ?thesis using 2 c st spawned_trans by fastforce
  next
    case (Some xy)
    obtain x y where p: "p = Some (x, y)" using Some by (cases xy) simp
    obtain v where v: "generateMonster z infos x y t = Some v"
      using 2(3) c p by (auto split: option.splits)
    let ?v = "v\<lparr>gs_gen := count_one (gs_gen v)\<rparr>"
    have "floor_ok (gen_Map (gs_gen t)) x y (gs_world t)"
      using choose_pos_frame [OF c] p st by (simp add: spawned_def)
    then have "spawned t v" by (rule generateMonster_spawned(1) [OF v])
    moreover have "spawned v ?v" by (intro spawned_same) (simp_all add: count_one_def)
    ultimately have sv: "spawned s ?v" using st spawned_trans by blast
    have "s' = ?v \<or> spawned ?v s'"
      using 2 c p v by (auto simp: Let_def split: if_splits)
    then show ?thesis using sv spawned_trans by auto
  qed
qed

lemma loop_counts:
  assumes "generate_loop z infos n s k = Some (s', k')" and "0 < CurGen (gs_gen s)"
  shows "\<exists>j. j \<le> n \<and> j \<le> unat (CurGen (gs_gen s)) \<and> k' = k + word_of_nat j \<and>
    GenAmount (gs_gen s') = GenAmount (gs_gen s) + word_of_nat j"
  using assms
proof (induction z infos n s k rule: generate_loop.induct)
  case (1 z infos s k)
  then show ?case by auto
next
  case (2 z infos n s k)
  obtain p t where c: "choose_pos s = (p, t)" by (metis prod.exhaust)
  have t: "CurGen (gs_gen t) = CurGen (gs_gen s)" "GenAmount (gs_gen t) = GenAmount (gs_gen s)"
    by (subst choose_pos_frame(3) [OF c], simp)+
  show ?case
  proof (cases p)
    case None
    have "generate_loop z infos n t k = Some (s', k')" using 2(3) c None by simp
    from 2(1) [OF c [unfolded None, symmetric] refl this]
    obtain j where "j \<le> n" "j \<le> unat (CurGen (gs_gen s))" "k' = k + word_of_nat j"
      "GenAmount (gs_gen s') = GenAmount (gs_gen s) + word_of_nat j"
      using 2(4) t by auto
    then show ?thesis using le_SucI by blast
  next
    case (Some xy)
    obtain x y where p: "p = Some (x, y)" using Some by (cases xy) simp
    obtain v where v: "generateMonster z infos x y t = Some v"
      using 2(3) c p by (auto split: option.splits)
    let ?v = "v\<lparr>gs_gen := count_one (gs_gen v)\<rparr>"
    have "floor_ok (gen_Map (gs_gen t)) x y (gs_world t)"
      using choose_pos_frame(1,3,4) [OF c] p by (metis generator.select_convs(3) generator.surjective generator.update_convs(16))
    note gv = generateMonster_spawned(2) [OF v this]
    have vv: "CurGen (gs_gen ?v) = CurGen (gs_gen s) - 1" "GenAmount (gs_gen ?v) = GenAmount (gs_gen s) + 1"
      by (simp_all add: count_one_def, (subst gv, simp add: t)+)
    have pos: "0 < unat (CurGen (gs_gen s))" using 2(4) by (simp add: word_less_nat_alt)
    show ?thesis
    proof (cases "CurGen (gs_gen ?v) \<le> 0")
      case True
      then have "s' = ?v" "k' = k + 1" using 2(3) c p v by (simp_all add: Let_def)
      then show ?thesis using pos vv by (intro exI [of _ 1]) simp
    next
      case False
      have r: "generate_loop z infos n ?v (k + 1) = Some (s', k')" using 2(3) c p v False by (simp add: Let_def)
      have "0 < CurGen (gs_gen ?v)" using False by (simp add: word_gt_0)
      from 2(2) [OF c [unfolded p, symmetric] refl refl v refl False r this]
      obtain j where j: "j \<le> n" "j \<le> unat (CurGen (gs_gen ?v))" "k' = k + 1 + word_of_nat j"
        "GenAmount (gs_gen s') = GenAmount (gs_gen ?v) + word_of_nat j" by blast
      have "unat (CurGen (gs_gen s) - 1) = unat (CurGen (gs_gen s)) - 1"
        using pos by (intro unat_minus_one) auto
      then have "Suc j \<le> unat (CurGen (gs_gen s))" using j(2) pos unfolding vv(1) by simp
      then show ?thesis using j(1,3,4) vv(2) by (intro exI [of _ "Suc j"]) (simp add: algebra_simps)
    qed
  qed
qed

section \<open>A whole call\<close>

lemma next_wave_frame:
  assumes "next_wave now g seed = (g', seed')"
  shows "gen_Map g' = gen_Map g" and "GenAmount g' = GenAmount g" and "gen_Id g' = gen_Id g"
    and "CurGen g' = CurGen g \<or> CurGen g' = ucast (MaxPerGen g)"
  using assms by (auto simp: next_wave_def Let_def split_beta split: prod.splits bool.splits if_splits)

lemma on_gen_data_frame:
  assumes "\<And>d. data_ok d \<Longrightarrow> data_ok (f d)" and "\<And>d m. MapRef m \<in> mRefs d \<Longrightarrow> MapRef m \<in> mRefs (f d)"
  shows "gs_gen (on_gen_data f s) = gs_gen s" "gs_uids (on_gen_data f s) = gs_uids s"
    "ents (gs_world (on_gen_data f s)) = ents (gs_world s)"
    "world_ok (gs_world s) \<Longrightarrow> world_ok (gs_world (on_gen_data f s))"
    "uids_ok u (gs_world (on_gen_data f s)) = uids_ok u (gs_world s)"
  using world_on_data [OF _ assms] by (auto simp: on_gen_data_def uids_ok_def split: option.split)

text \<open>The state in which the positions of a wave are chosen: the cells of the map are unpacked.\<close>

definition opened :: "lz4 \<Rightarrow> gstate \<Rightarrow> wstate" where
  "opened z s = gs_world (on_gen_data (unpack (decompress z) (Some (GenRef (gen_Id (gs_gen s))))) s)"

lemma unpack_gen: "data_ok d \<Longrightarrow> data_ok (unpack dcm (Some (GenRef i)) d)"
  "MapRef m \<in> mRefs d \<Longrightarrow> MapRef m \<in> mRefs (unpack dcm (Some (GenRef i)) d)"
  by (simp_all add: data_ok_unpack unpack_shape)

lemma pack_gen: "data_ok d \<Longrightarrow> data_ok (pack cmp (Some (GenRef i)) d)"
  "MapRef m \<in> mRefs d \<Longrightarrow> MapRef m \<in> mRefs (pack cmp (Some (GenRef i)) d)"
  by (simp_all add: data_ok_pack pack_shape)

lemma unpack_frame:
  fixes s i c
  defines "u \<equiv> on_gen_data (unpack c (Some (GenRef i))) s"
  shows "gs_gen u = gs_gen s" "gs_uids u = gs_uids s" "ents (gs_world u) = ents (gs_world s)"
    "world_ok (gs_world s) \<Longrightarrow> world_ok (gs_world u)" "uids_ok v (gs_world u) = uids_ok v (gs_world s)"
  unfolding u_def by (rule on_gen_data_frame; simp add: unpack_gen)+

lemma pack_frame:
  fixes s i c
  defines "u \<equiv> on_gen_data (pack c (Some (GenRef i))) s"
  shows "gs_gen u = gs_gen s" "gs_uids u = gs_uids s" "ents (gs_world u) = ents (gs_world s)"
    "world_ok (gs_world s) \<Longrightarrow> world_ok (gs_world u)" "uids_ok v (gs_world u) = uids_ok v (gs_world s)"
  unfolding u_def by (rule on_gen_data_frame; simp add: pack_gen)+

text \<open>A call either ends at once or runs the loop on the unpacked map.\<close>

lemma generate_cases:
  assumes "generate z infos now aAmount aInitializing s = Some (s', n)"
  obtains (idle) g seed where "s' = s\<lparr>gs_gen := g, gs_seed := seed\<rparr>" "n = 0" "GenAmount g = GenAmount (gs_gen s)"
  | (wave) g seed t where "next_wave now (gs_gen s) (gs_seed s) = (g, seed)" "0 < CurGen g"
      "generate_loop z infos (unat aAmount)
        (on_gen_data (unpack (decompress z) (Some (GenRef (gen_Id g)))) (s\<lparr>gs_gen := g, gs_seed := seed\<rparr>)) 0
         = Some (t, n)"
      "s' = on_gen_data (pack (compress z) (Some (GenRef (gen_Id g)))) t"
proof -
  obtain g seed where nw: "next_wave now (gs_gen s) (gs_seed s) = (g, seed)" by (metis prod.exhaust)
  consider "s' = s" "n = 0" | "s' = s\<lparr>gs_gen := g, gs_seed := seed\<rparr>" "n = 0"
    | t where "\<not> CurGen g \<le> 0" "generate_loop z infos (unat aAmount)
        (on_gen_data (unpack (decompress z) (Some (GenRef (gen_Id g)))) (s\<lparr>gs_gen := g, gs_seed := seed\<rparr>)) 0
         = Some (t, n)" "s' = on_gen_data (pack (compress z) (Some (GenRef (gen_Id g)))) t"
    using assms unfolding generate_def nw Let_def prod.case by (auto split: if_splits)
  then show ?thesis
  proof cases
    case 1
    then show ?thesis using idle [where g = "gs_gen s" and seed = "gs_seed s"] by simp
  next
    case 2
    then show ?thesis using idle next_wave_frame(2) [OF nw] by simp
  next
    case 3
    then show ?thesis using wave [OF nw _ 3(2,3)] by (simp add: word_gt_0)
  qed
qed

lemma generate_effect:
  assumes "world_ok (gs_world s)" and "uids_ok (gs_uids s) (gs_world s)"
    and "generate z infos now aAmount aInitializing s = Some (s', n)"
  shows "world_ok (gs_world s') \<and> uids_ok (gs_uids s') (gs_world s') \<and>
    (\<forall>uid. ents (gs_world s) uid \<noteq> None \<longrightarrow> ents (gs_world s') uid = ents (gs_world s) uid) \<and>
    (\<forall>uid e. ents (gs_world s) uid = None \<longrightarrow> ents (gs_world s') uid = Some e \<longrightarrow>
       isMonster uid \<and> e_MapId e = gen_Map (gs_gen s) \<and>
       floor_ok (gen_Map (gs_gen s)) (e_PosX e) (e_PosY e) (opened z s)) \<and>
    n \<le> aAmount \<and> GenAmount (gs_gen s') = GenAmount (gs_gen s) + n"
  using assms(3)
proof (cases rule: generate_cases)
  case idle
  then show ?thesis using assms(1,2) by simp
next
  case (wave g seed t)
  let ?u = "on_gen_data (unpack (decompress z) (Some (GenRef (gen_Id g)))) (s\<lparr>gs_gen := g, gs_seed := seed\<rparr>)"
  note fr = next_wave_frame [OF wave(1)] and sp = generate_loop_spawned [OF wave(3)]
  have g: "gs_gen ?u = g" by (simp add: unpack_frame)
  have w0: "gs_world (s\<lparr>gs_gen := g, gs_seed := seed\<rparr>) = gs_world s" by simp
  have "world_ok (gs_world ?u)" by (rule unpack_frame(4), unfold w0, rule assms(1))
  moreover have "uids_ok (gs_uids ?u) (gs_world ?u)" using assms(2) by (simp add: unpack_frame)
  moreover have "opened z s = gs_world ?u" using fr(1,3) by (simp add: opened_def on_gen_data_def split: option.split)
  moreover obtain j where j: "j \<le> unat aAmount" "n = word_of_nat j" "GenAmount (gs_gen t) = GenAmount g + word_of_nat j"
    using loop_counts [OF wave(3)] wave(2) g by auto
  moreover have "j < 2 ^ 32" using j(1) by (rule le_less_trans) (use unsigned_less [of aAmount] in simp)
  then have "n \<le> aAmount" using j(1) unfolding j(2) by (simp add: word_le_nat_alt unat_word32)
  ultimately show ?thesis
    using sp fr pack_frame(4) unfolding spawned_def wave(4) g by (simp add: pack_frame unpack_frame)
qed

section \<open>Properties\<close>

text \<open>C8: A position a generator picks lies in its bounds, on both axes, for every seed and in every state its
  constructor and its own runs can put it in: the grid cell, the offset in the cell and the
  wrap-around of the index never lead out of the rectangle.\<close>
theorem findGenPos_in_bounds:
  assumes "gen_ok g" and "unat (BoundX g) + unat (BoundCX g) < 2 ^ 16"
    and "unat (BoundY g) + unat (BoundCY g) < 2 ^ 16"
  shows "case findGenPos g seed of (x, y, g', seed') \<Rightarrow>
    unat (BoundX g) \<le> unat x \<and> unat x \<le> unat (BoundX g) + unat (BoundCX g) \<and>
    unat (BoundY g) \<le> unat y \<and> unat y \<le> unat (BoundY g) + unat (BoundCY g) \<and> gen_ok g'"
proof -
  obtain x y g' seed' where f: "findGenPos g seed = (x, y, g', seed')" by (metis prod_cases4)
  have "unat (BoundX g) + unat (BoundCX g) < 65536" "unat (BoundY g) + unat (BoundCY g) < 65536"
    using assms(2,3) by simp_all
  from findGenPos_spans [OF assms(1) this f] show ?thesis by (simp add: f spans_def)
qed

lemma findGenPos_in_bounds_witness:
  "case findGenPos (fst (Generator 1 1002 30 40 20 10 5 60 3 7 99)) 5 of (x, y, g', seed') \<Rightarrow>
    30 \<le> unat x \<and> unat x \<le> 50 \<and> 40 \<le> unat y \<and> unat y \<le> 50 \<and> gen_ok g'"
  using findGenPos_in_bounds [OF Generator_ok, of 1 1002 30 40 20 10 5 60 3 7 99 5]
  by (simp add: Generator_def Let_def split_beta)


text \<open>A generator of a one-cell map, for the witness.\<close>

definition yard :: gstate where
  "yard =
     \<lparr>gs_gen = fst (Generator 1 1002 0 0 0 0 0 0 3 7 99), gs_uids = World_uids, gs_seed = 42,
      gs_world = fresh_world
        [(1002, GameMap 1002 \<lparr>DocID = 1, Type = 0, OwnerUID = 0, Weather = 0, PortalX = 0, PortalY = 0,
                            RebornMap = 0, RebornPortal = 0, Light = 0\<rparr> 1)]
        ((\<lambda>_. None)(1 := Some (MapData\<lparr>mWidth := 1, mHeight := 1,
                                      mCells := Some [\<lparr>Accessible = True, Altitude = 0\<rparr>]\<rparr>)))\<rparr>"

definition no_lz4 :: lz4 where
  "no_lz4 = \<lparr>compress = (\<lambda>b. b), decompress = (\<lambda>b n. b)\<rparr>"

lemma yard_ok: "world_ok (gs_world yard)" "uids_ok (gs_uids yard) (gs_world yard)"
proof -
  show "world_ok (gs_world yard)"
    unfolding yard_def gstate.select_convs
    by (rule fresh_world_ok)
      (auto simp: maps_ok_def table_ok_def tget_def GameMap_def data_ok_def MapData_def cell_count_def split: if_splits)
  show "uids_ok (gs_uids yard) (gs_world yard)"
    by (simp add: yard_def World_uids_ok fresh_world_def)
qed

lemma draw_0: "fst (draw 0 seed) = 0"
proof -
  obtain k seed' where "draw (int (unat (0 :: u16))) seed = (int k, seed')" "k \<le> unat (0 :: u16)" by (rule draw_u16)
  then show ?thesis by simp
qed

lemma yard_wave: "\<exists>s'. generate no_lz4 (\<lambda>_. Some 10) 9 1 True yard = Some (s', 1)"
  by (simp add: generate_def yard_def Generator_def max_npc_def Let_def split_beta draw_0 next_wave_def
   toNextTime_def isTimeOut_def setInterval_def Timer_def RANDOM_GENERATOR_SECS_def choose_pos_def findGenPos_def
   stand_at_def on_gen_data_def fresh_world_def getMap_def tget_def isStandEnable_def getFloorAccess_def cell_at_def GameMap_def
   generateMonster_def take_uid_def World_uids_def id_defs count_one_def MapData_def unpack_def getCell_def pos2idx_def)


end
