(* ===== verification/WorldRun.thy ===== *)
theory WorldRun
  imports Generator
begin

text \<open>
  The world under all that happens to it: players connecting and disconnecting, the messages that
  touch the map, and waves of monsters, in any order.  Each handler runs to its end before the
  next starts, as the event loop of the server has it; the generators' worker thread is one more
  source of steps.
\<close>

section \<open>Connecting and disconnecting\<close>

text \<open>
  A new player, as the constructor and the database leave it: the previous position stays at the
  constructor's zeros.  A new connection has been sent nothing.
\<close>

definition login :: "u32 \<Rightarrow> u32 \<Rightarrow> u16 \<Rightarrow> u16 \<Rightarrow> u16 \<Rightarrow> wstate \<Rightarrow> wstate" where
  "login uid mapId x y hp w =
     w\<lparr>ents := (ents w)(uid \<mapsto>
         (Entity uid)\<lparr>e_MapId := mapId, e_PosX := x, e_PosY := y, e_CurHP := hp, e_PrevMap := mapId\<rparr>),
       wlog := filter (\<lambda>m. fst m \<noteq> uid) (wlog w)\<rparr>"

text \<open>\<open>disconnectionHandler\<close>: the player leaves its map and is deleted.\<close>

definition logout :: "lz4 \<Rightarrow> u32 \<Rightarrow> wstate \<Rightarrow> wstate" where
  "logout z uid w = (let w = leaveMap z uid w in w\<lparr>ents := (ents w)(uid := None)\<rparr>)"

section \<open>Steps\<close>

inductive world_step ::
  "lz4 \<Rightarrow> (u32 \<Rightarrow> u8 \<Rightarrow> (u32 \<times> u16 \<times> u16) option) \<Rightarrow> (u32 \<Rightarrow> u16 option) \<Rightarrow>
   wstate \<times> uids \<Rightarrow> wstate \<times> uids \<Rightarrow> bool"
  for z passway infos where
  connect: "isPlayer uid \<Longrightarrow> ents w uid = None \<Longrightarrow>
    world_step z passway infos (w, u) (login uid mapId x y hp w, u)"
| disconnect: "isPlayer uid \<Longrightarrow> world_step z passway infos (w, u) (logout z uid w, u)"
| enter_map: "world_step z passway infos (w, u) (process_ENTER_MAP z this m w, u)"
| chg_dir: "world_step z passway infos (w, u) (process_CHG_DIR this m w, u)"
| emotion: "world_step z passway infos (w, u) (fst (process_EMOTION now cool prof this m w), u)"
| chg_map: "process_CHG_MAP z passway this m w = Some w' \<Longrightarrow> world_step z passway infos (w, u) (w', u)"
| jump: "process_JUMP this m w = Some w' \<Longrightarrow> world_step z passway infos (w, u) (w', u)"
| walk: "MsgWalk_process this mw w = Some w' \<Longrightarrow> world_step z passway infos (w, u) (w', u)"
| wave: "generate z infos now amount init s = Some (s', n) \<Longrightarrow>
    world_step z passway infos (gs_world s, gs_uids s) (gs_world s', gs_uids s')"

inductive world_reach ::
  "lz4 \<Rightarrow> (u32 \<Rightarrow> u8 \<Rightarrow> (u32 \<times> u16 \<times> u16) option) \<Rightarrow> (u32 \<Rightarrow> u16 option) \<Rightarrow> wstate \<times> uids \<Rightarrow> bool"
  for z passway infos where
  start: "maps_ok gm dt \<Longrightarrow> world_reach z passway infos (fresh_world gm dt, World_uids)"
| step: "world_reach z passway infos s \<Longrightarrow> world_step z passway infos s s' \<Longrightarrow> world_reach z passway infos s'"

section \<open>Who is alive\<close>

lemma same_live: "same_world w w' \<Longrightarrow> live w' = live w"
  by (rule same_worldD(3))

lemma live_clear [simp]: "live (clearBroadcastSet a w) = live w"
  using same_live [OF clear_same] .

lemma live_map_update [simp]: "live (map_updateBroadcastSet g a w) = live w"
  using same_live [OF map_update_same] .

lemma live_update [simp]: "live (updateBroadcastSet c a w) = live w"
  by (auto simp: updateBroadcastSet_def Let_def split: option.split)

lemma live_enterMap [simp]: "live (enterMap z a w) = live w"
  by (auto simp: enterMap_def Let_def disconnect_client_def sendMapInfo_def split: option.split)

lemma live_leaveMap [simp]: "live (leaveMap z a w) = live w"
  by (auto simp: leaveMap_def Let_def split: option.split)

lemma live_move_map [simp]: "live (snd (move_map z a m x y w)) = live w"
  by (auto simp: move_map_def Let_def split: option.split)

lemma live_disconnect [simp]: "live (disconnect_client p w) = live w"
  by (simp add: disconnect_client_def)

text \<open>No handler creates or deletes an entity.\<close>

interpretation alive: kept "\<lambda>w. live w = L" for L
  by unfold_locales simp_all

section \<open>The invariant of the world\<close>

lemma world_login:
  assumes "world_ok w" and "ents w uid = None"
  shows "world_ok (login uid m x y hp w)"
proof -
  let ?e = "(Entity uid)\<lparr>e_MapId := m, e_PosX := x, e_PosY := y, e_CurHP := hp, e_PrevMap := m\<rparr>"
  let ?w = "login uid m x y hp w"
  have w1: "ents ?w = (ents w)(uid \<mapsto> ?e)" "gmaps ?w = gmaps w" "datas ?w = datas w"
    by (simp_all add: login_def)
  note new = new_ent [OF assms(1,2) _ w1, unfolded Entity_def, simplified]
  have "screens_ok ?w"
    unfolding screens_ok_def
  proof (intro allI impI)
    fix p assume p: "isPlayer p" "live ?w p"
    show "screen p ?w = {b. sees ?w p b}"
    proof (cases "p = uid")
      case True
      then have "screen p ?w = {}" by (simp add: screen_def login_def screen_gone)
      moreover have "{b. sees ?w p b} = {}" using new(7) True unfolding new(4) by simp
      ultimately show ?thesis by simp
    next
      case False
      then have "live w p" using p(2) w1 by (simp add: live_def)
      moreover have "screen p ?w = screen p w" using False by (simp add: screen_def login_def screen_other)
      ultimately show ?thesis using worldD(3) [OF assms(1)] p(1) by (simp add: screens_ok_def new(4))
    qed
  qed
  then show ?thesis using new(1-3) by (simp add: world_ok_def)
qed

lemma world_remove:
  assumes "world_ok w" and out: "\<And>k. \<not> in_room w k uid" and "\<And>x. \<not> sees w uid x" and "\<And>x. \<not> sees w x uid"
  shows "world_ok (w\<lparr>ents := (ents w)(uid := None)\<rparr>)" (is "world_ok ?w")
proof -
  note ok = worldD [OF assms(1)]
  have view: "view ?w a = (if a = uid then [] else view w a)" for a by (simp add: view_def)
  have sees: "sees ?w = sees w" using assms(3) by (intro ext) (simp add: sees_def view)
  have room: "in_room ?w = in_room w" by (simp add: in_room_def getMap_def fun_eq_iff)
  have sh: "share ?w = share w" by (simp add: share_def room fun_eq_iff)
  have "pair_ok ?w x y" for x y
  proof (cases "x = uid \<or> y = uid")
    case True
    then show ?thesis unfolding pair_ok_def sees sh share_def using out assms(3,4) by blast
  next
    case False
    then have iv: "in_view x y ?w = in_view x y w" by (simp add: in_view_def posX_def posY_def)
    show ?thesis using ok(4) [of x y] unfolding pair_ok_def sees sh iv .
  qed
  moreover have "room_ok ?w m g" if g: "getMap m w = Some g" for m g
  proof -
    have r: "room_ok w m g" using ok(1) g by (simp add: rooms_ok_def)
    have "uid \<notin> roommates g" using out g by (auto simp: in_room_def)
    then show ?thesis using r by (auto simp: room_ok_def)
  qed
  then have "rooms_ok ?w" using ok(1) by (simp add: rooms_ok_def getMap_def)
  moreover have "views_ok ?w" using ok(2) by (simp add: views_ok_def view)
  moreover have "screens_ok ?w"
    using ok(3) unfolding screens_ok_def sees by (simp add: live_def screen_def)
  ultimately show ?thesis by (simp add: world_ok_def)
qed

lemma world_logout: "world_ok w \<Longrightarrow> world_ok (logout z uid w)"
  unfolding logout_def Let_def using world_leave by (intro world_remove) blast+

lemma uids_live:
  assumes "uids_ok u w" and "\<And>uid. isMonster uid \<Longrightarrow> live w' uid = live w uid"
  shows "uids_ok u w'"
proof -
  have "ents w' uid = None \<longleftrightarrow> ents w uid = None" if "isMonster uid" for uid
    using assms(2) [OF that] by (auto simp: live_def)
  moreover have "isMonster uid" if "mLastMonsterUID u < uid" "uid \<le> MONSTERID_LAST" for uid
  proof -
    have "400000 < uid" using that(1) assms(1) by (auto simp: uids_ok_def id_defs)
    then have "400001 \<le> uid" using inc_le [of 400000 uid] by simp
    then show ?thesis using that(2) by (simp add: isMonster_def id_defs)
  qed
  ultimately show ?thesis using assms(1) by (auto simp: uids_ok_def)
qed

lemma uids_same: "uids_ok u w \<Longrightarrow> live w' = live w \<Longrightarrow> uids_ok u w'"
  by (rule uids_live) simp_all

lemma step_ok:
  assumes "world_step z passway infos s s'" and "world_ok (fst s)" and "uids_ok (snd s) (fst s)"
  shows "world_ok (fst s') \<and> uids_ok (snd s') (fst s')"
  using assms
proof (induction rule: world_step.induct)
  case (connect uid w u m x y hp)
  have "live (login uid m x y hp w) v = live w v" if "isMonster v" for v
    using monster_not_player [OF that] connect(1) by (auto simp: live_def login_def)
  then show ?case using connect world_login uids_live by simp
next
  case (disconnect uid w u)
  have "live (logout z uid w) v = live w v" if "isMonster v" for v
  proof -
    have "v \<noteq> uid" using monster_not_player [OF that] disconnect(1) by auto
    then have "live (logout z uid w) v = live (leaveMap z uid w) v" by (simp add: live_def logout_def Let_def del: live_leaveMap)
    then show ?thesis by simp
  qed
  then show ?case using disconnect world_logout uids_live by simp
next
  case (wave now amount init s s' n)
  then show ?case using generate_effect [of s] by simp
qed (auto intro: ok.P_enter_map ok.P_chg_dir ok.P_emotion ok.P_chg_map ok.P_jump ok.P_walk
    uids_same [OF _ alive.P_enter_map [OF refl]] uids_same [OF _ alive.P_chg_dir [OF refl]]
    uids_same [OF _ alive.P_emotion [OF refl]] uids_same [OF _ alive.P_chg_map [OF _ refl]]
    uids_same [OF _ alive.P_jump [OF _ refl]] uids_same [OF _ alive.P_walk [OF _ refl]])

lemma reach_ok: "world_reach z passway infos s \<Longrightarrow> world_ok (fst s) \<and> uids_ok (snd s) (fst s)"
proof (induction rule: world_reach.induct)
  case (start gm dt)
  then show ?case using fresh_world_ok World_uids_ok by (simp add: fresh_world_def)
next
  case (step s s')
  then show ?case using step_ok by blast
qed

section \<open>Where a move ends\<close>

lemma bare_fields:
  assumes "bare w' a = bare w a" and "ents w a = Some e"
  obtains e' where "ents w' a = Some e'" and "e_PosX e' = e_PosX e" and "e_PosY e' = e_PosY e"
    and "e_PrevX e' = e_PrevX e" and "e_PrevY e' = e_PrevY e" and "e_MapId e' = e_MapId e"
    and "e_CurHP e' = e_CurHP e" and "e_Direction e' = e_Direction e"
proof -
  obtain e' where e': "ents w' a = Some e'" "e'\<lparr>e_View := []\<rparr> = e\<lparr>e_View := []\<rparr>"
    using assms by (auto simp: bare_def map_option_case split: option.splits)
  show ?thesis
    using that [OF e'(1)] arg_cong [OF e'(2), of e_PosX] arg_cong [OF e'(2), of e_PosY]
      arg_cong [OF e'(2), of e_PrevX] arg_cong [OF e'(2), of e_PrevY] arg_cong [OF e'(2), of e_MapId]
      arg_cong [OF e'(2), of e_CurHP] arg_cong [OF e'(2), of e_Direction]
    by simp
qed

lemma same_bare: "same_world w w' \<Longrightarrow> bare w' = bare w"
  by (simp add: same_world_def)

lemma update_same: "same_world w (updateBroadcastSet c a w)"
  using clear_same [of w a] map_update_same
  by (auto simp: updateBroadcastSet_def Let_def intro: same_trans split: option.split)

lemma bare_room: "bare (enterRoom z m a w) = bare w" "bare (leaveRoom z m a w) = bare w"
  by (simp_all add: bare_def fun_eq_iff)

lemma bare_send: "bare (send_to p m w) = bare w" "bare (broadcastRoomMsg a m self w) = bare w"
  "bare (disconnect_client p w) = bare w" "bare (sendMapInfo g a w) = bare w" "bare (refused a x y w) = bare w"
  "bare (kicked a e w) = bare w"
  by (simp_all add: bare_def fun_eq_iff disconnect_client_def sendMapInfo_def kicked_def)

lemma bare_enterMap: "bare (enterMap z a w) = bare w"
  by (auto simp: enterMap_def Let_def bare_send bare_room same_bare [OF update_same] split: option.split)

lemma bare_process_ENTER_MAP: "bare (process_ENTER_MAP z a m w) = bare w"
  by (auto simp: process_ENTER_MAP_def bare_send bare_enterMap split: option.split)

text \<open>The positions after an accepted and after a refused move.\<close>

lemma move_positions:
  assumes "move this x y dir w = Some r" and e: "ents w this = Some e" and g: "getMap (e_MapId e) w = Some g"
  obtains (accept) e' where "\<not> rejected this x y w" "fst r" "ents (snd r) this = Some e'"
      "e_PosX e' = x" "e_PosY e' = y" "e_PrevX e' = e_PosX e" "e_PrevY e' = e_PosY e"
  | (refuse) e' where "rejected this x y w" "\<not> fst r" "ents (snd r) this = Some e'"
      "e_PosX e' = e_PrevX e" "e_PosY e' = e_PrevY e" "e_PrevX e' = e_PosX e" "e_PrevY e' = e_PosY e"
proof -
  have pos: "\<exists>e'. ents v this = Some e' \<and> e_PosX e' = a \<and> e_PosY e' = b \<and> e_PrevX e' = e_PosX e \<and> e_PrevY e' = e_PosY e"
    if v: "bare v this = bare (on_ent this (step_to a b d) u) this" and u: "ents u this = Some e" for v u a b d
  proof -
    have s: "ents (on_ent this (step_to a b d) u) this = Some (step_to a b d e)" by (simp add: u)
    obtain e' where "ents v this = Some e'" "e_PosX e' = e_PosX (step_to a b d e)" "e_PosY e' = e_PosY (step_to a b d e)"
      "e_PrevX e' = e_PrevX (step_to a b d e)" "e_PrevY e' = e_PrevY (step_to a b d e)"
      using bare_fields [OF v s] by metis
    then show ?thesis by (auto simp: step_to_def)
  qed
  from assms(1) show thesis
  proof (cases rule: move_cases)
    case nomap
    then show ?thesis using e g by simp
  next
    case (accept e1 g1)
    then show ?thesis
      using pos [of "snd r" x y dir w] e that(1) by (auto simp: same_bare [OF update_same])
  next
    case (reject e1 g1)
    then have "e1 = e" using e by simp
    then show ?thesis
      using reject pos [of "snd r" "e_PrevX e" "e_PrevY e" "e_Direction e" "refused this x y w"] e that(2)
      by (auto simp: bare_send same_bare [OF update_same])
  qed
qed

lemma move_result:
  assumes "move this x y dir w = Some r" and e: "ents w this = Some e"
  shows "\<exists>e'. ents (snd r) this = Some e' \<and>
    (e_PosX e' = e_PosX e \<and> e_PosY e' = e_PosY e \<or> e_PosX e' = e_PrevX e \<and> e_PosY e' = e_PrevY e \<or>
     e_PosX e' = x \<and> e_PosY e' = y \<and> (\<exists>g. getMap (e_MapId e) w = Some g \<and> \<not> bad_cell g x y w))"
proof (cases "getMap (e_MapId e) w")
  case None
  then show ?thesis using no_map_returns(1) [of w this x y dir] assms by auto
next
  case (Some g)
  from assms(1) e Some show ?thesis
  proof (cases rule: move_positions)
    case (accept e')
    then show ?thesis using rejected_cases [OF e Some] Some by blast
  qed blast
qed

lemma kickBack_result:
  assumes "kickBack this w = Some w'" and e: "ents w this = Some e"
  shows "\<exists>e'. ents w' this = Some e' \<and>
    (e_PosX e' = e_PosX e \<and> e_PosY e' = e_PosY e \<or> e_PosX e' = e_PrevX e \<and> e_PosY e' = e_PrevY e)"
proof -
  obtain r where r: "move this (e_PrevX e) (e_PrevY e) (e_Direction e) w = Some r" "w' = kicked this e (snd r)"
    using assms by (auto simp: kickBack_def bind_eq_Some_conv)
  then show ?thesis using move_result [OF r(1) e] by (auto simp: kicked_def)
qed

section \<open>A village\<close>

text \<open>A map of three by three cells whose corner is blocked, for the witnesses.\<close>

definition village :: wstate where
  "village = fresh_world
     [(1002, GameMap 1002 \<lparr>DocID = 1, Type = 0, OwnerUID = 0, Weather = 0, PortalX = 0, PortalY = 0,
                         RebornMap = 0, RebornPortal = 0, Light = 0\<rparr> 1)]
     ((\<lambda>_. None)(1 := Some (MapData\<lparr>mWidth := 3, mHeight := 3,
        mCells := Some (\<lparr>Accessible = False, Altitude = 0\<rparr> # replicate 8 \<lparr>Accessible = True, Altitude = 0\<rparr>)\<rparr>)))"

definition hello :: "u32 \<Rightarrow> msg_action" where
  "hello uid = \<lparr>ma_UniqId = uid, ma_Data = 0, ma_PosX = 0, ma_PosY = 0, ma_Direction = 0\<rparr>"

definition two_players :: wstate where
  "two_players =
     process_ENTER_MAP no_lz4 1000002 (hello 1000002)
       (process_ENTER_MAP no_lz4 1000001 (hello 1000001)
         (login 1000002 1002 2 2 50 (login 1000001 1002 1 1 100 village)))"

lemma village_maps:
  "\<exists>gm dt. village = fresh_world gm dt \<and> maps_ok gm dt"
  unfolding village_def
  by (intro exI conjI, rule refl)
    (auto simp: maps_ok_def table_ok_def tget_def GameMap_def data_ok_def MapData_def cell_count_def split: if_splits)

lemma two_players_reached: "world_reach no_lz4 (\<lambda>_ _. None) (\<lambda>_. None) (two_players, World_uids)"
proof -
  obtain gm dt where v: "village = fresh_world gm dt" "maps_ok gm dt" using village_maps by blast
  have p: "isPlayer 1000001" "isPlayer 1000002" by (simp_all add: isPlayer_def id_defs)
  have "world_reach no_lz4 (\<lambda>_ _. None) (\<lambda>_. None) (login 1000001 1002 1 1 100 village, World_uids)"
    unfolding v(1) by (rule world_reach.step [OF world_reach.start [OF v(2)]], rule world_step.connect [OF p(1)])
      (simp add: fresh_world_def)
  then have "world_reach no_lz4 (\<lambda>_ _. None) (\<lambda>_. None)
      (login 1000002 1002 2 2 50 (login 1000001 1002 1 1 100 village), World_uids)"
    by (rule world_reach.step, intro world_step.connect [OF p(2)]) (simp add: login_def v(1) fresh_world_def)
  then show ?thesis
    unfolding two_players_def by (intro world_reach.step [OF _ world_step.enter_map])
qed

lemmas village_simps = village_def fresh_world_def login_def Entity_def getMap_def tget_def GameMap_def MapData_def

text \<open>One player alone in the village, next to the blocked corner.\<close>

definition lone_player :: wstate where
  "lone_player = process_ENTER_MAP no_lz4 1000001 (hello 1000001) (login 1000001 1002 1 1 100 village)"

lemmas enter_simps = process_ENTER_MAP_def enterMap_def enterRoom_def updateBroadcastSet_def clearBroadcastSet_def
  map_updateBroadcastSet_def update_one_def sendMapInfo_def put_map_def on_data_def set_view_def on_ent_def
  view_def tkeys_def tput.simps send_to_def log_to_def unpack_def isPlayer_def id_defs

lemma lone_player_reached: "world_reach no_lz4 (\<lambda>_ _. None) (\<lambda>_. None) (lone_player, World_uids)"
proof -
  obtain gm dt where v: "village = fresh_world gm dt" "maps_ok gm dt" using village_maps by blast
  have "isPlayer 1000001" by (simp add: isPlayer_def id_defs)
  then have "world_reach no_lz4 (\<lambda>_ _. None) (\<lambda>_. None) (login 1000001 1002 1 1 100 village, World_uids)"
    unfolding v(1) by (intro world_reach.step [OF world_reach.start [OF v(2)]] world_step.connect)
      (simp_all add: fresh_world_def)
  then show ?thesis
    unfolding lone_player_def by (intro world_reach.step [OF _ world_step.enter_map])
qed

lemma lone_player_map:
  obtains g d where "getMap 1002 lone_player = Some g" and "g_Data g = 1" and "1000001 \<in> roommates g"
    and "datas lone_player 1 = Some d" and "mWidth d = 3" and "mHeight d = 3"
    and "mCells d = Some (\<lparr>Accessible = False, Altitude = 0\<rparr> # replicate 8 \<lparr>Accessible = True, Altitude = 0\<rparr>)"
  by (simp add: lone_player_def enter_simps village_simps hello_def Let_def roommates_def)

lemma lone_player_ent:
  "\<exists>e. ents lone_player 1000001 = Some e \<and> e_MapId e = 1002 \<and> e_PosX e = 1 \<and> e_PosY e = 1 \<and>
    e_PrevX e = 0 \<and> e_PrevY e = 0 \<and> e_CurHP e = 100"
  by (simp add: lone_player_def enter_simps village_simps hello_def Let_def)

lemma lone_cells:
  obtains g where "getMap 1002 lone_player = Some g" and "isValidPoint g x y lone_player \<longleftrightarrow> x < 3 \<and> y < 3"
    and "getFloorAccess g 0 0 lone_player = False" and "getFloorAccess g 1 1 lone_player"
    and "getFloorAccess g 2 2 lone_player" and "\<And>a b. getFloorAlt g a b lone_player = 0"
    and "1000001 \<in> roommates g"
proof (rule lone_player_map)
  fix g d
  assume g: "getMap 1002 lone_player = Some g" "g_Data g = 1" "1000001 \<in> roommates g" "datas lone_player 1 = Some d"
    "mWidth d = 3" "mHeight d = 3"
    and cs: "mCells d = Some (\<lparr>Accessible = False, Altitude = 0\<rparr> # replicate 8 \<lparr>Accessible = True, Altitude = 0\<rparr>)"
  have flat: "Altitude c = 0" if "c \<in> set (\<lparr>Accessible = False, Altitude = 0\<rparr> # replicate 8 \<lparr>Accessible = True, Altitude = 0\<rparr>)" for c
    using that by auto
  show ?thesis
  proof (rule that [OF g(1)])
    show "getFloorAlt g a b lone_player = 0" for a b
      using g(2,4) flat [OF nth_mem] by (simp add: getFloorAlt_def cell_at_def getCell_def cs Let_def)
  qed (simp_all add: g g(4) [simplified] isValidPoint_def getFloorAccess_def cell_at_def getCell_def cs pos2idx_def Let_def nth_Cons')
qed

section \<open>Properties\<close>

text \<open>C1: In every world that any sequence of connections, disconnections, walks, jumps, map changes and
  monster waves leads to: who is in a view set is on the same map, at most eighteen cells away and
  alive, and has the viewer in its own view set; every player sees every player and NPC that near; and
  what a client has been shown and not been told to remove is exactly its player's view set.\<close>
theorem views_follow_positions:
  assumes "world_reach z passway infos (w, u)"
  shows "(\<forall>x y. sees w x y \<longrightarrow>
      share w x y \<and> distance (posX w x) (posY w x) (posX w y) (posY w y) \<le> CELLS_PER_VIEW \<and>
      live w y \<and> sees w y x) \<and>
    (\<forall>x y. isPlayer x \<longrightarrow> \<not> isMonster y \<longrightarrow> x \<noteq> y \<longrightarrow> share w x y \<longrightarrow>
      distance (posX w x) (posY w x) (posX w y) (posY w y) \<le> CELLS_PER_VIEW \<longrightarrow> sees w x y) \<and>
    (\<forall>p. isPlayer p \<longrightarrow> live w p \<longrightarrow> screen p w = {b. sees w p b})"
proof -
  note ok = worldD [OF reach_ok [OF assms, THEN conjunct1, unfolded fst_conv]]
  show ?thesis
    using ok(3,4) sees_live unfolding screens_ok_def pair_ok_def in_view_def by blast
qed

lemma views_follow_positions_witness:
  "screen 1000001 two_players = {b. sees two_players 1000001 b}"
proof -
  have "isPlayer 1000001" by (simp add: isPlayer_def id_defs)
  moreover have "live two_players = live (login 1000002 1002 2 2 50 (login 1000001 1002 1 1 100 village))"
    unfolding two_players_def by (intro alive.P_enter_map refl)
  then have "live two_players 1000001" by (simp add: live_def login_def)
  ultimately show ?thesis using views_follow_positions [OF two_players_reached] by blast
qed

text \<open>C4: After a disconnection nobody sees the deleted player and no map lists it: no pointer to the deleted
  object is left behind.\<close>
theorem logout_leaves_nothing:
  assumes "world_reach z passway infos (w, u)"
  shows "ents (logout z uid w) uid = None \<and> (\<forall>x. \<not> sees (logout z uid w) x uid) \<and>
    (\<forall>m. \<not> in_room (logout z uid w) m uid)"
proof -
  have w: "world_ok w" using reach_ok [OF assms] by simp
  let ?l = "leaveMap z uid w"
  have "in_room (logout z uid w) = in_room ?l" by (simp add: logout_def Let_def in_room_def getMap_def fun_eq_iff)
  moreover have "sees (logout z uid w) x uid \<Longrightarrow> sees ?l x uid" for x
    by (auto simp: logout_def Let_def sees_def view_def split: if_splits)
  ultimately show ?thesis using world_leave(2,3) [OF w] by (auto simp: logout_def Let_def)
qed

lemma logout_leaves_nothing_witness:
  "ents (logout no_lz4 1000001 two_players) 1000001 = None \<and>
    (\<forall>x. \<not> sees (logout no_lz4 1000001 two_players) x 1000001)"
  using logout_leaves_nothing [OF two_players_reached, of 1000001] by blast

text \<open>C6: While a player is on a map its cells are unpacked, so that looking up any valid point reads a cell.\<close>
theorem active_cells_readable:
  assumes "world_reach z passway infos (w, u)" and "in_room w m p" and "isPlayer p"
    and "getMap m w = Some g" and "isValidPoint g x y w"
  shows "cell_at g x y w \<noteq> None"
proof -
  have "p \<in> players_in g" using assms(2-4) by (auto simp: in_room_def players_in_def)
  then show ?thesis
    using active_floor [OF _ assms(4) _ assms(5)] worldD(1) reach_ok [OF assms(1)] by auto
qed

text \<open>C3: A move returns exactly when the wanted position or else the previous position is acceptable;
  otherwise \<open>move\<close> and \<open>kickBack\<close> call each other forever.\<close>
theorem move_returns_iff:
  "(\<exists>r. move this x y dir w = Some r) \<longleftrightarrow> \<not> (rejected this x y w \<and> prev_rejected this w)"
  using move_returns [of this x y dir w] by (cases "move this x y dir w") auto

text \<open>A refused move that returns puts the player back to its previous position and makes the position it
  was at the previous one: a second refusal brings it back again.\<close>
theorem refused_move_swaps:
  assumes "move this x y dir w = Some r" and "ents w this = Some e" and "getMap (e_MapId e) w = Some g"
    and "rejected this x y w"
  shows "\<not> fst r \<and> (\<exists>e'. ents (snd r) this = Some e' \<and>
    e_PosX e' = e_PrevX e \<and> e_PosY e' = e_PrevY e \<and> e_PrevX e' = e_PosX e \<and> e_PrevY e' = e_PosY e)"
  using assms(1-3) by (cases rule: move_positions) (use assms(4) in auto)

lemma lone_verdicts:
  "rejected 1000001 0 0 lone_player" "prev_rejected 1000001 lone_player" "\<not> rejected 1000001 2 2 lone_player"
proof -
  obtain e where e: "ents lone_player 1000001 = Some e" "e_MapId e = 1002" "e_PrevX e = 0" "e_PrevY e = 0"
    using lone_player_ent by blast
  obtain g where g: "getMap 1002 lone_player = Some g" "\<not> getFloorAccess g 0 0 lone_player"
    "isValidPoint g 2 2 lone_player" "getFloorAccess g 2 2 lone_player" "\<And>a b. getFloorAlt g a b lone_player = 0"
    by (rule lone_cells [of 2 2]) auto
  note verdict = rejected_cases [of lone_player 1000001, OF e(1), of g, unfolded e(2), OF g(1)]
  show r: "rejected 1000001 0 0 lone_player"
    unfolding verdict using g(2) by (simp add: bad_cell_def isStandEnable_def)
  show "prev_rejected 1000001 lone_player" using e r by (auto simp: prev_rejected_def)
  show "\<not> rejected 1000001 2 2 lone_player"
    unfolding verdict using g by (simp add: bad_cell_def isStandEnable_def too_steep_def)
qed

lemma active_cells_readable_witness:
  "\<exists>g. getMap 1002 lone_player = Some g \<and> cell_at g 2 1 lone_player \<noteq> None"
proof -
  obtain g where g: "getMap 1002 lone_player = Some g" "isValidPoint g 2 1 lone_player" "1000001 \<in> roommates g"
    by (rule lone_cells [of 2 1]) auto
  then have "in_room lone_player 1002 1000001" by (auto simp: in_room_def)
  moreover have "isPlayer 1000001" by (simp add: isPlayer_def id_defs)
  ultimately show ?thesis using active_cells_readable [OF lone_player_reached _ _ g(1,2)] g(1) by blast
qed

lemma refused_move_swaps_witness:
  "\<exists>w r e'. move 1000001 2 2 0 lone_player = Some (True, w) \<and> move 1000001 0 0 0 w = Some r \<and> \<not> fst r \<and>
     ents (snd r) 1000001 = Some e' \<and> e_PosX e' = 1 \<and> e_PosY e' = 1 \<and> e_PrevX e' = 2 \<and> e_PrevY e' = 2"
proof -
  obtain e where e: "ents lone_player 1000001 = Some e" "e_MapId e = 1002" "e_PosX e = 1" "e_PosY e = 1"
    using lone_player_ent by blast
  obtain g where g: "getMap 1002 lone_player = Some g" "\<not> getFloorAccess g 0 0 lone_player"
    "isValidPoint g 1 1 lone_player" "getFloorAccess g 1 1 lone_player" "\<And>a b. getFloorAlt g a b lone_player = 0"
    by (rule lone_cells [of 1 1]) auto
  define w where "w = updateBroadcastSet False 1000001 (on_ent 1000001 (step_to 2 2 0) lone_player)"
  have m: "move 1000001 2 2 0 lone_player = Some (True, w)"
    using move_accept [OF e(1) _ lone_verdicts(3)] e(2) g(1) by (simp add: w_def)
  have same: "same_world (on_ent 1000001 (step_to 2 2 0) lone_player) w" unfolding w_def by (rule update_same)
  have frame: "datas w = datas lone_player" "getMap k w = getMap k lone_player" for k
    using same_worldD(6,7) [OF same] by (simp_all add: getMap_def)
  have s: "ents (on_ent 1000001 (step_to 2 2 0) lone_player) 1000001 = Some (step_to 2 2 0 e)" by (simp add: e)
  obtain f where f: "ents w 1000001 = Some f" "e_PosX f = 2" "e_PosY f = 2" "e_PrevX f = 1" "e_PrevY f = 1" "e_MapId f = 1002"
    using bare_fields [of w 1000001, OF _ s] same_bare [OF same] e by (auto simp: step_to_def)
  have gw: "getMap (e_MapId f) w = Some g" using g(1) f(6) frame by simp
  have cells: "getFloorAccess g a b w = getFloorAccess g a b lone_player" "getFloorAlt g a b w = getFloorAlt g a b lone_player"
    "isValidPoint g a b w = isValidPoint g a b lone_player" for a b
    by (simp_all add: getFloorAccess_def getFloorAlt_def isValidPoint_def cell_at_def frame)
  have rej: "rejected 1000001 0 0 w" "\<not> prev_rejected 1000001 w"
    using g f(1,4,5) rejected_cases [OF f(1) gw]
    by (simp_all add: prev_rejected_def bad_cell_def isStandEnable_def too_steep_def cells)
  then obtain r where r: "move 1000001 0 0 0 w = Some r" using move_returns by fastforce
  show ?thesis using m r refused_move_swaps [OF r f(1) gw rej(1)] f by metis
qed

text \<open>C2: The first refused step after connecting never returns, on any map whose cell at the origin is not
  accessible: the database loads no previous position, so that the player is kicked back to (0, 0),
  which is refused in turn.\<close>
theorem first_refusal_after_login:
  assumes "w = process_ENTER_MAP z uid enter (login uid mapId x y hp w0)"
    and "walk_target m (x, y) = (dir, newX, newY)" and "mw_UniqId m = uid" and "hp > 0"
    and "rejected uid newX newY w" and "rejected uid 0 0 w"
  shows "MsgWalk_process uid m w = None"
proof -
  let ?e = "(Entity uid)\<lparr>e_MapId := mapId, e_PosX := x, e_PosY := y, e_CurHP := hp, e_PrevMap := mapId\<rparr>"
  have "bare w uid = bare (login uid mapId x y hp w0) uid" by (simp add: assms(1) bare_process_ENTER_MAP)
  moreover have "ents (login uid mapId x y hp w0) uid = Some ?e" by (simp add: login_def)
  ultimately obtain e where e: "ents w uid = Some e" "e_PosX e = x" "e_PosY e = y" "e_PrevX e = 0" "e_PrevY e = 0"
    "e_CurHP e = hp"
    by (rule bare_fields) (simp_all add: Entity_def)
  have "move uid newX newY dir (send_to uid (walk_back m) w) = None"
    using assms(5,6) e(1,4,5) by (intro move_diverges) (simp_all add: prev_rejected_def)
  then show ?thesis using assms(2,3,4) e by (simp add: MsgWalk_process_def)
qed

lemma first_refusal_after_login_witness:
  "MsgWalk_process 1000001 \<lparr>mw_UniqId = 1000001, mw_Direction = 3, mw_Mode = 0\<rparr> lone_player = None"
  by (rule first_refusal_after_login [OF lone_player_def _ _ _ lone_verdicts(1,1)])
    (simp_all add: walk_target_def dir_step_def)

text \<open>C7: Whatever a client sends as a jump, the player ends where it was, at its previous position, or at the
  requested cell, which then is at most seventeen cells away, inside the map and accessible.\<close>
theorem jump_lands:
  assumes "process_JUMP this m w = Some w'" and "ents w this = Some e"
  shows "\<exists>e'. ents w' this = Some e' \<and>
    (e_PosX e' = e_PosX e \<and> e_PosY e' = e_PosY e \<or> e_PosX e' = e_PrevX e \<and> e_PosY e' = e_PrevY e \<or>
     e_PosX e' = low16 (ma_Data m) \<and> e_PosY e' = high16 (ma_Data m) \<and>
     distance (e_PosX e) (e_PosY e) (e_PosX e') (e_PosY e') \<le> 17 \<and>
     (\<exists>g. getMap (e_MapId e) w = Some g \<and> isValidPoint g (e_PosX e') (e_PosY e') w \<and>
        getFloorAccess g (e_PosX e') (e_PosY e') w))"
  using assms(1)
proof (cases rule: jump_cases)
  case stay
  then have "ents w' this = Some e" using assms(2) by (auto simp: disconnect_client_def)
  then show ?thesis by blast
next
  case (kicked v)
  then have "ents v this = Some e" using assms(2) by (auto simp: sysMsg_def)
  then show ?thesis using kickBack_result [OF kicked(2)] by blast
next
  case (jump r)
  obtain e' where e': "ents (snd r) this = Some e'" and
    c: "e_PosX e' = e_PosX e \<and> e_PosY e' = e_PosY e \<or> e_PosX e' = e_PrevX e \<and> e_PosY e' = e_PrevY e \<or>
      e_PosX e' = low16 (ma_Data m) \<and> e_PosY e' = high16 (ma_Data m) \<and>
      (\<exists>g. getMap (e_MapId e) w = Some g \<and> \<not> bad_cell g (low16 (ma_Data m)) (high16 (ma_Data m)) w)"
    using move_result [OF jump(3)] assms(2) by auto
  have "ents w' this = Some e'" using e' by (simp add: jump(4))
  moreover have "distance (e_PosX e) (e_PosY e) (low16 (ma_Data m)) (high16 (ma_Data m)) \<le> 17"
    using jump(1) assms(2) by auto
  ultimately show ?thesis using c unfolding bad_cell_def isStandEnable_def by fastforce
qed

lemma jump_lands_witness:
  "\<exists>w e. process_JUMP 1000001 \<lparr>ma_UniqId = 1000001, ma_Data = 0x00020002, ma_PosX = 1, ma_PosY = 1, ma_Direction = 0\<rparr>
     lone_player = Some w \<and> ents w 1000001 = Some e \<and>
     (e_PosX e = 1 \<and> e_PosY e = 1 \<or> e_PosX e = 0 \<and> e_PosY e = 0 \<or> e_PosX e = 2 \<and> e_PosY e = 2)"
proof -
  let ?m = "\<lparr>ma_UniqId = 1000001, ma_Data = 0x00020002, ma_PosX = 1, ma_PosY = 1, ma_Direction = 0\<rparr>"
  obtain e where e: "ents lone_player 1000001 = Some e" "e_MapId e = 1002" "e_PosX e = 1" "e_PosY e = 1"
    "e_PrevX e = 0" "e_PrevY e = 0" "e_CurHP e = 100"
    using lone_player_ent by blast
  have t: "low16 (ma_Data ?m) = 2" "high16 (ma_Data ?m) = 2" by (simp_all add: low16_def high16_def drop_bit_eq_div)
  obtain w where w: "process_JUMP 1000001 ?m lone_player = Some w"
  proof -
    have "move 1000001 2 2 0 (send_to 1000001 (action_back ACTION_JUMP ?m) lone_player) \<noteq> None"
      using lone_verdicts(3) by (simp add: move_returns)
    then obtain r where r: "move 1000001 2 2 0 (send_to 1000001 (action_back ACTION_JUMP ?m) lone_player) = Some r"
      by blast
    obtain g where "getMap 1002 lone_player = Some g" by (rule lone_player_map)
    then show ?thesis
      by (intro that) (simp add: process_JUMP_def e t [simplified] r Let_def distance_def)
  qed
  show ?thesis using w jump_lands [OF w e(1)] e t by auto
qed

end
