(* ===== verification/BigInt.thy ===== *)
theory BigInt
  imports BaseFunc "HOL-Library.Signed_Division"
begin

text \<open>
  The operations of \<^verbatim>\<open>third_party/bigint\<close> the key exchange uses, on the integers that the
  big numbers stand for (the component arrays of \<^verbatim>\<open>bigint_int.c\<close> are not modelled), and the
  conversions between numbers and strings of \<^verbatim>\<open>diffiehellman.cpp\<close>.  The reference definitions
  are the powers of \<^verbatim>\<open>Main\<close> and the big-endian bytes of a number.
\<close>

section \<open>Modular powers (bigint_ext.c)\<close>

definition bi_rem :: "int \<Rightarrow> int \<Rightarrow> int" where "bi_rem a m = a - (a sdiv m) * m"

definition bi_mod :: "int \<Rightarrow> int \<Rightarrow> int" where
  "bi_mod a m = (let r = bi_rem a m in if r < 0 then r + m else r)"

definition bi_mod_multiply :: "int \<Rightarrow> int \<Rightarrow> int \<Rightarrow> int" where
  "bi_mod_multiply a b m = bi_mod (a * b) m"

definition bi_mod_square :: "int \<Rightarrow> int \<Rightarrow> int" where "bi_mod_square a m = bi_mod_multiply a a m"

definition bi_bit :: "nat \<Rightarrow> nat \<Rightarrow> bool" where "bi_bit e k \<longleftrightarrow> odd (e div 2 ^ k)"

fun bi_bits :: "nat \<Rightarrow> nat" where
  "bi_bits e = (if e = 0 then 0 else Suc (bi_bits (e div 2)))"

declare bi_bits.simps [simp del]

text \<open>
  The loop of \<open>bi_mod_power\<close>, \<open>n\<close> bits left.  The exponents are the private keys, which are
  never negative, so the branch that inverts the result is left out.
\<close>

fun power_loop :: "nat \<Rightarrow> nat \<Rightarrow> nat \<Rightarrow> int \<Rightarrow> int \<Rightarrow> int \<Rightarrow> int" where
  "power_loop 0 bitnum biexp bim bi biR = biR"
| "power_loop (Suc n) bitnum biexp bim bi biR =
     (let bi = bi_mod_square bi bim;
          biR = (if bi_bit biexp bitnum then bi_mod_multiply biR bi bim else biR)
      in power_loop n (bitnum + 1) biexp bim bi biR)"

definition bi_mod_power :: "int \<Rightarrow> nat \<Rightarrow> int \<Rightarrow> int" where
  "bi_mod_power bi biexp bim =
     (let biR = (if bi_bit biexp 0 then bi_mod bi bim else 1)
      in power_loop (bi_bits biexp - 1) 1 biexp bim bi biR)"

lemma bi_mod_eq: "0 < m \<Longrightarrow> bi_mod a m = a mod m"
proof -
  assume m: "0 < m"
  have "a - sgn a * (\<bar>a\<bar> div m) * m = sgn a * (\<bar>a\<bar> - \<bar>a\<bar> div m * m)"
    by (simp add: right_diff_distrib sgn_mult_abs mult.assoc)
  then have r: "bi_rem a m = sgn a * (\<bar>a\<bar> mod m)"
    using m by (simp add: bi_rem_def signed_divide_int_def minus_div_mult_eq_mod)
  show ?thesis
  proof (cases "a < 0")
    case False
    then have "bi_rem a m = a mod m" using r by (cases "a = 0") simp_all
    moreover have "\<not> a mod m < 0" unfolding not_less by (rule pos_mod_sign [OF m])
    ultimately show ?thesis by (simp add: bi_mod_def Let_def)
  next
    case True
    then have s: "bi_rem a m = - (- a mod m)" using r by simp
    show ?thesis
    proof (cases "- a mod m = 0")
      case True
      then have "a mod m = 0" by (simp only: mod_eq_0_iff_dvd dvd_minus_iff)
      with s True show ?thesis by (simp add: bi_mod_def)
    next
      case F: False
      then have "- a mod m > 0" using m by (simp add: order.not_eq_order_implies_strict)
      then show ?thesis using s F zmod_zminus1_eq_if [of "- a" m] by (simp add: bi_mod_def Let_def)
    qed
  qed
qed

lemma bits_bound: "e < 2 ^ bi_bits e"
proof (induction e rule: bi_bits.induct)
  case (1 e)
  show ?case
  proof (cases "e = 0")
    case False
    with 1 have "e div 2 < 2 ^ bi_bits (e div 2)" by simp
    then have "e < 2 * 2 ^ bi_bits (e div 2)" by linarith
    then show ?thesis using False bi_bits.simps [of e] by simp
  qed simp
qed

lemma bits_pos: "0 < e \<Longrightarrow> 0 < bi_bits e" using bi_bits.simps [of e] by simp

lemma mod_next_bit: "e mod 2 ^ Suc k = (e :: nat) mod 2 ^ k + (if bi_bit e k then 2 ^ k else 0)"
proof -
  have "e mod (2 ^ k * 2) = 2 ^ k * (e div 2 ^ k mod 2) + e mod 2 ^ k" by (rule mod_mult2_eq)
  then show ?thesis by (simp add: bi_bit_def mult.commute mod2_eq_if)
qed

text \<open>
  After bit \<open>k\<close> the loop holds the power of the low bits, reduced as soon as one of them is set.
\<close>

lemma power_loop_eq:
  assumes "1 < m" and "k + n = bi_bits e" and "0 < k"
    and "bi mod m = b ^ 2 ^ (k - 1) mod m" and "biR = b ^ (e mod 2 ^ k) mod m"
  shows "power_loop n k e m bi biR = b ^ e mod m"
  using assms
proof (induction n arbitrary: k bi biR)
  case 0
  then show ?case using bits_bound [of e] by simp
next
  case (Suc n)
  obtain j where k: "k = Suc j" using Suc.prems(3) by (cases k) auto
  have m: "0 < m" using Suc.prems(1) by simp
  have sq: "bi_mod_square bi m = b ^ 2 ^ k mod m"
  proof -
    have "bi_mod_square bi m = (bi mod m) * (bi mod m) mod m"
      by (simp add: bi_mod_square_def bi_mod_multiply_def bi_mod_eq m mod_simps)
    also have "\<dots> = b ^ 2 ^ j * b ^ 2 ^ j mod m" using Suc.prems(4) k by (simp add: mod_simps)
    finally show ?thesis by (simp add: k power_add [symmetric] mult_2)
  qed
  have R: "(if bi_bit e k then bi_mod_multiply biR (bi_mod_square bi m) m else biR) = b ^ (e mod 2 ^ Suc k) mod m"
    using Suc.prems(5) sq
    by (simp add: mod_next_bit [of e k] bi_mod_multiply_def bi_mod_eq m mod_simps power_add del: power_Suc)
  have "power_loop (Suc n) k e m bi biR = power_loop n (Suc k) e m (bi_mod_square bi m)
      (if bi_bit e k then bi_mod_multiply biR (bi_mod_square bi m) m else biR)"
    by (simp add: Let_def)
  also have "\<dots> = b ^ e mod m"
    by (rule Suc.IH) (use Suc.prems(1,2) sq R in simp_all)
  finally show ?case .
qed

lemma power_eq:
  assumes "1 < m"
  shows "bi_mod_power b e m = b ^ e mod m"
proof (cases "e = 0")
  case True
  then show ?thesis using assms by (simp add: bi_mod_power_def bi_bit_def bi_bits.simps)
next
  case False
  have "(if bi_bit e 0 then bi_mod b m else 1) = b ^ (e mod 2 ^ 1) mod m"
    using assms by (simp add: bi_bit_def bi_mod_eq mod2_eq_if)
  then show ?thesis
    using power_loop_eq [of m 1 "bi_bits e - 1" e b b] assms bits_pos [of e] False
    by (simp add: bi_mod_power_def)
qed

text \<open>C38: The square-and-multiply loop computes the modular power.
\<close>
theorem bi_mod_power_is_power:
  assumes "1 < m"
  shows "bi_mod_power b e m = b ^ e mod m"
  by (rule power_eq [OF assms])

lemma bi_mod_power_is_power_witness: "bi_mod_power 5 117 19 = 1"
  using bi_mod_power_is_power [of 19 5 117] by simp

section \<open>Numbers and strings (diffiehellman.cpp, bigint_ext.c)\<close>

text \<open>\<^verbatim>\<open>tolower\<close> of the C locale; a string is the list of its bytes.\<close>

definition tolower :: "u8 \<Rightarrow> u8" where
  "tolower c = (if 0x41 \<le> c \<and> c \<le> 0x5A then c + 0x20 else c)"

definition format_bi_str :: "u8 list \<Rightarrow> u8 list" where "format_bi_str = map tolower"

text \<open>Of the upper-case letters, only one is read as a digit.\<close>

definition char_to_digit :: "u8 \<Rightarrow> int" where
  "char_to_digit c =
     (if 0x30 \<le> c \<and> c \<le> 0x39 then uint c - 0x30
      else if 0x61 \<le> c \<and> c \<le> 0x7A then uint c - 0x61 + 10
      else if 0x41 \<le> c \<and> c \<le> 0x41 then uint c - 0x41 + 10
      else -1)"

fun read_digits :: "int \<Rightarrow> int \<Rightarrow> u8 list \<Rightarrow> int" where
  "read_digits base biR [] = biR"
| "read_digits base biR (c # str) =
     (let d = char_to_digit c in
      if d = -1 \<or> d \<ge> base then biR else read_digits base (biR * base + d) str)"

definition str_to_bi_base :: "u8 list \<Rightarrow> int \<Rightarrow> int" where
  "str_to_bi_base str base =
     (case str of
        c # cs \<Rightarrow> if c = 0x2D then - read_digits base 0 cs else read_digits base 0 str
      | [] \<Rightarrow> 0)"

definition digit_to_char :: "int \<Rightarrow> u8" where
  "digit_to_char d = (if 0 \<le> d \<and> d \<le> 9 then word_of_int d + 0x30 else word_of_int (d - 10) + 0x41)"

text \<open>The base is 16 in every call.\<close>

function bi_to_str_pos :: "int \<Rightarrow> u8 list" where
  "bi_to_str_pos bi =
     (if bi \<ge> 16 then bi_to_str_pos (bi div 16) else []) @ [digit_to_char (bi mod 16)]"
  by auto
termination by (relation "measure nat") auto

declare bi_to_str_pos.simps [simp del]

definition bi_to_str_base :: "int \<Rightarrow> u8 list" where
  "bi_to_str_base bi = (if bi < 0 then 0x2D # bi_to_str_pos (- bi) else bi_to_str_pos bi)"

lemma digit_cases:
  assumes "0 \<le> d" and "d < 16"
  shows "char_to_digit (tolower (digit_to_char d)) = d" and "isxdigit (digit_to_char d)"
    and "char2int (digit_to_char d) = word_of_int d" and "tolower (digit_to_char d) \<noteq> 0x2D"
    and "digit_to_char d \<noteq> 0"
proof -
  let ?P = "\<lambda>d. char_to_digit (tolower (digit_to_char d)) = d \<and> isxdigit (digit_to_char d) \<and>
    char2int (digit_to_char d) = word_of_int d \<and> tolower (digit_to_char d) \<noteq> 0x2D \<and> digit_to_char d \<noteq> 0"
  have "list_all (\<lambda>k. ?P (int k)) [0..<16]" by code_simp
  moreover have "nat d \<in> set [0..<16]" using assms by auto
  ultimately have "?P (int (nat d))" unfolding list_all_iff by blast
  then show "char_to_digit (tolower (digit_to_char d)) = d" "isxdigit (digit_to_char d)"
    "char2int (digit_to_char d) = word_of_int d" "tolower (digit_to_char d) \<noteq> 0x2D" "digit_to_char d \<noteq> 0"
    using assms by simp_all
qed

lemma read_digits_append_digit:
  assumes "list_all (\<lambda>c. char_to_digit c \<noteq> -1 \<and> char_to_digit c < base) str"
  shows "read_digits base biR (str @ cs) = read_digits base (read_digits base biR str) cs"
  using assms by (induction str arbitrary: biR) (auto simp: Let_def)

lemma read_written_pos:
  "0 \<le> n \<Longrightarrow> list_all (\<lambda>c. char_to_digit c \<noteq> -1 \<and> char_to_digit c < 16) (format_bi_str (bi_to_str_pos n)) \<and>
    read_digits 16 0 (format_bi_str (bi_to_str_pos n)) = n"
proof (induction n rule: bi_to_str_pos.induct)
  case (1 n)
  have d: "0 \<le> n mod 16" "n mod 16 < 16" by simp_all
  then have nd: "n mod 16 \<noteq> -1" "\<not> 16 \<le> n mod 16" by linarith+
  show ?case
  proof (cases "n \<ge> 16")
    case True
    then have IH: "list_all (\<lambda>c. char_to_digit c \<noteq> -1 \<and> char_to_digit c < 16)
        (format_bi_str (bi_to_str_pos (n div 16)))"
      "read_digits 16 0 (format_bi_str (bi_to_str_pos (n div 16))) = n div 16"
      using 1 by simp_all
    then show ?thesis
      using True d nd read_digits_append_digit [OF IH(1)] bi_to_str_pos.simps [of n]
      by (simp add: format_bi_str_def digit_cases Let_def)
  next
    case False
    then show ?thesis using d nd 1 bi_to_str_pos.simps [of n]
      by (simp add: format_bi_str_def digit_cases Let_def)
  qed
qed

lemma head_of_pos: "0 \<le> n \<Longrightarrow> \<exists>c cs. format_bi_str (bi_to_str_pos n) = c # cs \<and> c \<noteq> 0x2D"
proof (induction n rule: bi_to_str_pos.induct)
  case (1 n)
  show ?case
  proof (cases "n \<ge> 16")
    case True
    then obtain c cs where "format_bi_str (bi_to_str_pos (n div 16)) = c # cs" "c \<noteq> 0x2D"
      using 1 by fastforce
    then show ?thesis using True bi_to_str_pos.simps [of n] by (simp add: format_bi_str_def)
  next
    case False
    then show ?thesis using digit_cases(4) [of "n mod 16"] bi_to_str_pos.simps [of n]
      by (simp add: format_bi_str_def)
  qed
qed

text \<open>
  The number read from the lower-cased hexadecimal form of a number is that number.
\<close>
theorem read_written_number: "str_to_bi_base (format_bi_str (bi_to_str_base n)) 16 = n"
proof (cases "n < 0")
  case True
  then show ?thesis
    using read_written_pos [of "- n"]
    by (simp add: bi_to_str_base_def str_to_bi_base_def format_bi_str_def tolower_def)
next
  case False
  then obtain c cs where "format_bi_str (bi_to_str_pos n) = c # cs" "c \<noteq> 0x2D"
    using head_of_pos [of n] by auto
  then show ?thesis
    using False read_written_pos [of n] by (simp add: bi_to_str_base_def str_to_bi_base_def)
qed

text \<open>Without the lower-casing, the digits are lost: this is why \<open>format_bi_str\<close> exists.\<close>

lemma upper_case_lost: "str_to_bi_base (bi_to_str_base 0xB5) 16 = 0"
  by code_simp

section \<open>The bytes of a number\<close>

text \<open>Big-endian, without leading zeros; this is what a hexadecimal string decodes to.\<close>

function be_bytes :: "int \<Rightarrow> u8 list" where
  "be_bytes n = (if n \<ge> 256 then be_bytes (n div 256) else []) @ [word_of_int (n mod 256)]"
  by auto
termination by (relation "measure nat") auto

declare be_bytes.simps [simp del]

lemma two_digits:
  "256 \<le> n \<Longrightarrow> bi_to_str_pos n =
     bi_to_str_pos (n div 256) @ [digit_to_char (n div 16 mod 16), digit_to_char (n mod 16)]"
  "16 \<le> n \<Longrightarrow> n < 256 \<Longrightarrow> bi_to_str_pos n = [digit_to_char (n div 16 mod 16), digit_to_char (n mod 16)]"
  "0 \<le> n \<Longrightarrow> n < 16 \<Longrightarrow> bi_to_str_pos n = [digit_to_char (n mod 16)]"
proof -
  have q: "n div 16 div 16 = n div 256" by (simp add: zdiv_zmult2_eq [symmetric])
  have "bi_to_str_pos n = bi_to_str_pos (n div 16) @ [digit_to_char (n mod 16)]" if "16 \<le> n"
    using that bi_to_str_pos.simps [of n] by simp
  moreover have "bi_to_str_pos (n div 16) = bi_to_str_pos (n div 256) @ [digit_to_char (n div 16 mod 16)]"
    if "256 \<le> n"
  proof -
    have "16 \<le> n div 16" using that by presburger
    then show ?thesis using bi_to_str_pos.simps [of "n div 16"] q by simp
  qed
  moreover have "bi_to_str_pos (n div 16) = [digit_to_char (n div 16 mod 16)]" if "n < 256"
  proof -
    have "\<not> 16 \<le> n div 16" using that by presburger
    then show ?thesis using bi_to_str_pos.simps [of "n div 16"] by simp
  qed
  ultimately show "256 \<le> n \<Longrightarrow> bi_to_str_pos n =
     bi_to_str_pos (n div 256) @ [digit_to_char (n div 16 mod 16), digit_to_char (n mod 16)]"
    "16 \<le> n \<Longrightarrow> n < 256 \<Longrightarrow> bi_to_str_pos n = [digit_to_char (n div 16 mod 16), digit_to_char (n mod 16)]"
    by simp_all
  show "0 \<le> n \<Longrightarrow> n < 16 \<Longrightarrow> bi_to_str_pos n = [digit_to_char (n mod 16)]"
    using bi_to_str_pos.simps [of n] by simp
qed

lemma loop_prefix:
  "i \<le> length s \<Longrightarrow> hex2bin_loop (s @ t) i j ok out = hex2bin_loop s i j ok out"
proof (induction i arbitrary: j ok out rule: less_induct)
  case (less i)
  show ?case
  proof (cases i)
    case (Suc k)
    then have eqs: "(s @ t) ! k = s ! k" "(s @ t) ! (k - 1) = s ! (k - 1)"
      using less.prems Suc less_imp_diff_less [of k "length s" 1] by (simp_all add: nth_append)
    have "hex2bin_loop (s @ t) (k - 1) j ok out = hex2bin_loop s (k - 1) j ok out" for j ok out
      using less Suc by simp
    then show ?thesis unfolding Suc by (simp only: hex2bin_loop.simps Let_def eqs)
  qed simp
qed

text \<open>The last two digits write the last byte.\<close>

lemma loop_last_byte:
  assumes "0 \<le> n"
  shows "hex2bin_loop (s @ [digit_to_char (n div 16 mod 16), digit_to_char (n mod 16)]) (length s + 2) (Suc j) True out
    = hex2bin_loop s (length s) j True (out[j := word_of_int (n mod 256)])"
proof -
  let ?t = "[digit_to_char (n div 16 mod 16), digit_to_char (n mod 16)]"
  have "n mod 256 = n mod 16 + n div 16 mod 16 * 16"
    using zmod_zmult2_eq [of 16 n 16] by simp
  then have "(word_of_int (n mod 16) + word_of_int (n div 16 mod 16) * 0x10 :: u8) = word_of_int (n mod 256)"
    by simp
  then have "hex2bin_loop (s @ ?t) (length s + 2) (Suc j) True out
      = hex2bin_loop (s @ ?t) (length s) j True (out[j := word_of_int (n mod 256)])"
    by (simp add: nth_append Let_def digit_cases numeral_2_eq_2)
  then show ?thesis by (simp add: loop_prefix)
qed

lemma hex2bin_loop_number:
  "0 \<le> n \<Longrightarrow>
   (length (bi_to_str_pos n) + 1) div 2 = length (be_bytes n) \<and>
   (length (be_bytes n) \<le> length out \<longrightarrow>
    hex2bin_loop (bi_to_str_pos n) (length (bi_to_str_pos n)) (length (be_bytes n)) True out
      = (True, be_bytes n @ drop (length (be_bytes n)) out))"
proof (induction n arbitrary: out rule: be_bytes.induct)
  case (1 n)
  consider (small) "n < 16" | (two) "16 \<le> n" "n < 256" | (more) "256 \<le> n" by linarith
  then show ?case
  proof cases
    case small
    then show ?thesis
      using 1 two_digits(3) [of n] be_bytes.simps [of n] digit_cases [of n]
      by (cases out) (simp_all add: Let_def)
  next
    case two
    then show ?thesis
      using 1 two_digits(2) [of n] be_bytes.simps [of n] loop_last_byte [of n "[]" 0 out]
      by (cases out) simp_all
  next
    case more
    let ?m = "n div 256" and ?J = "length (be_bytes (n div 256))"
    let ?out = "out[?J := word_of_int (n mod 256)]"
    have IH: "(length (bi_to_str_pos ?m) + 1) div 2 = ?J"
      "?J \<le> length ?out \<Longrightarrow> hex2bin_loop (bi_to_str_pos ?m) (length (bi_to_str_pos ?m)) ?J True ?out
        = (True, be_bytes ?m @ drop ?J ?out)"
      using 1(1) [of ?out] 1(2) more by simp_all
    have be: "be_bytes n = be_bytes ?m @ [word_of_int (n mod 256)]"
      using more be_bytes.simps [of n] by simp
    have len: "(length (bi_to_str_pos n) + 1) div 2 = length (be_bytes n)"
      using IH(1) by (simp add: two_digits(1) [OF more] be)
    have "hex2bin_loop (bi_to_str_pos n) (length (bi_to_str_pos n)) (length (be_bytes n)) True out
        = (True, be_bytes n @ drop (length (be_bytes n)) out)" if "length (be_bytes n) \<le> length out"
    proof -
      have J: "?J < length out" using that by (simp add: be)
      have "hex2bin_loop (bi_to_str_pos n) (length (bi_to_str_pos n)) (length (be_bytes n)) True out
          = (True, be_bytes ?m @ drop ?J ?out)"
        using loop_last_byte [of n "bi_to_str_pos ?m" ?J out] IH(2) J more
        by (simp add: two_digits(1) [OF more] be)
      also have "drop ?J ?out = word_of_int (n mod 256) # drop (Suc ?J) out"
        using J Cons_nth_drop_Suc [of ?J ?out] by simp
      finally show ?thesis by (simp add: be)
    qed
    with len show ?thesis by blast
  qed
qed

lemma hex2bin_written:
  assumes "0 \<le> n" and "length (be_bytes n) \<le> length out"
  shows "hex2bin (bi_to_str_base n) out
    = (True, be_bytes n @ drop (length (be_bytes n)) out, length (be_bytes n))"
proof -
  have "length s div 2 + length s mod 2 = (length s + 1) div 2" for s :: "u8 list" by presburger
  then show ?thesis
    using hex2bin_loop_number [OF assms(1), of out] assms by (simp add: hex2bin_def bi_to_str_base_def Let_def)
qed

text \<open>Decoding the hexadecimal form of a number, also one with an odd number of digits, gives its
  big-endian bytes without leading zeros.
\<close>
theorem hex2bin_number:
  assumes "0 \<le> n" and "length (be_bytes n) \<le> length out"
  shows "hex2bin (bi_to_str_base n) out
    = (True, be_bytes n @ drop (length (be_bytes n)) out, length (be_bytes n))"
  by (rule hex2bin_written [OF assms])

lemma hex2bin_number_witness: "hex2bin (bi_to_str_base 0xABC) [0, 0, 5] = (True, [0xA, 0xBC, 5], 2)"
proof -
  have "be_bytes 0xABC = [0xA, 0xBC]" by code_simp
  then show ?thesis using hex2bin_number [of "0xABC" "[0, 0, 5]"] by simp
qed

lemma be_bytes_length: "0 \<le> n \<Longrightarrow> n < 256 ^ k \<Longrightarrow> 0 < k \<Longrightarrow> length (be_bytes n) \<le> k"
proof (induction n arbitrary: k rule: be_bytes.induct)
  case (1 n)
  show ?case
  proof (cases "n \<ge> 256")
    case True
    then obtain j where k: "k = Suc j" "0 < j" using 1(3,4) by (cases k; cases "k - 1") auto
    have "n div 256 < 256 ^ j" using 1(3) k by (simp add: div_less_iff_less_mult mult.commute)
    then show ?thesis using 1(1) [OF True, of j] True 1(2) k be_bytes.simps [of n] by simp
  next
    case False
    then show ?thesis using 1(4) be_bytes.simps [of n] by simp
  qed
qed

end
