(* ===== verification/Exchange.thy ===== *)
theory Exchange
  imports BigInt Blowfish Wire
begin

text \<open>
  The key exchange of a game connection: the class of \<^verbatim>\<open>diffiehellman.cpp\<close>, the message
  \<^verbatim>\<open>MsgLoginProofA\<close> that offers the public key, the parsing of the answer in
  \<^verbatim>\<open>MsgLoginChallengeS\<close>, and the Blowfish key both ends derive.  The primes the library draws
  are arguments; strings are byte lists without the terminating zero.
\<close>

section \<open>Diffie-Hellman (diffiehellman.cpp)\<close>

record dh =
  dh_p :: int
  dh_g :: int
  dh_a :: "nat option"
  dh_b :: "nat option"
  dh_s :: "int option"
  dh_A :: "int option"
  dh_B :: "int option"

definition DiffieHellman :: "u8 list \<Rightarrow> u8 list \<Rightarrow> dh" where
  "DiffieHellman aP aG =
     \<lparr>dh_p = str_to_bi_base (format_bi_str aP) 16, dh_g = str_to_bi_base (format_bi_str aG) 16,
      dh_a = None, dh_b = None, dh_s = None, dh_A = None, dh_B = None\<rparr>"

definition generateRequest :: "nat \<Rightarrow> dh \<Rightarrow> u8 list \<times> dh" where
  "generateRequest prime d =
     (let A = bi_mod_power (dh_g d) prime (dh_p d)
      in (bi_to_str_base A, d\<lparr>dh_a := Some prime, dh_A := Some A\<rparr>))"

definition generateResponse :: "nat \<Rightarrow> u8 list \<Rightarrow> dh \<Rightarrow> u8 list \<times> dh" where
  "generateResponse prime aPubKey d =
     (let B = bi_mod_power (dh_g d) prime (dh_p d);
          A = str_to_bi_base (format_bi_str aPubKey) 16;
          s = bi_mod_power A prime (dh_p d)
      in (bi_to_str_base B, d\<lparr>dh_b := Some prime, dh_B := Some B, dh_A := Some A, dh_s := Some s\<rparr>))"

text \<open>Without a private key of its own the object would copy a null pointer.\<close>

definition handleResponse :: "u8 list \<Rightarrow> dh \<Rightarrow> (u8 list \<times> dh) option" where
  "handleResponse aPubKey d =
     (let B = str_to_bi_base (format_bi_str aPubKey) 16 in
      case dh_a d of
        None \<Rightarrow> None
      | Some a \<Rightarrow>
          let s = bi_mod_power B a (dh_p d)
          in Some (bi_to_str_base s, d\<lparr>dh_B := Some B, dh_s := Some s\<rparr>))"

section \<open>The messages of the exchange\<close>

definition PROOF_PADDING_LEN :: nat where "PROOF_PADDING_LEN = 11"
definition PROOF_JUNK_LEN :: nat where "PROOF_JUNK_LEN = 12"

text \<open>The length of the whole buffer: the fixed fields, and three strings for three placeholders.\<close>

definition MsgLoginProofA_len :: "u8 list \<Rightarrow> u8 list \<Rightarrow> u8 list \<Rightarrow> nat" where
  "MsgLoginProofA_len aP aG aA = 70 + length aP + length aG + length aA - 3"

definition MsgLoginProofA ::
  "u8 list \<Rightarrow> u8 list \<Rightarrow> u8 list \<Rightarrow> u8 list \<Rightarrow> u8 list \<Rightarrow> u8 list \<Rightarrow> u8 list \<Rightarrow> u8 list" where
  "MsgLoginProofA padding junk aEncryptIV aDecryptIV aP aG aA =
     (let mLen = MsgLoginProofA_len aP aG aA
      in take PROOF_PADDING_LEN padding @
         wr32 (of_nat (mLen - PROOF_PADDING_LEN + 8)) @
         wr32 (of_nat PROOF_JUNK_LEN) @ take PROOF_JUNK_LEN junk @
         wr32 (of_nat BLOCK_SIZE) @ take BLOCK_SIZE aEncryptIV @
         wr32 (of_nat BLOCK_SIZE) @ take BLOCK_SIZE aDecryptIV @
         wr32 (of_nat (length aP)) @ aP @
         wr32 (of_nat (length aG)) @ aG @
         wr32 (of_nat (length aA)) @ aA)"

definition CHALLENGE_PADDING_LEN :: nat where "CHALLENGE_PADDING_LEN = 7"

text \<open>A C string in a buffer ends at the first zero byte.\<close>

definition c_string :: "u8 list \<Rightarrow> u8 list" where "c_string = takeWhile (\<lambda>b. b \<noteq> 0)"

text \<open>
  The public key in an answer.  The lengths in it come from the client and are not checked:
  \<open>None\<close> stands for a read outside of the buffer (or a negative length), which is undefined.
\<close>

definition challenge_key :: "u8 list \<Rightarrow> u8 list option" where
  "challenge_key buf =
     (case at32 buf (CHALLENGE_PADDING_LEN + 4) of
        None \<Rightarrow> None
      | Some junk \<Rightarrow>
          let ptr = nat (int (CHALLENGE_PADDING_LEN + 4) + sint junk + 4) in
          if sint junk < - int (CHALLENGE_PADDING_LEN + 8) then None
          else
            (case at32 buf ptr of
               None \<Rightarrow> None
             | Some b_len \<Rightarrow>
                 if sint b_len < 0 then None
                 else map_option c_string (bytes_at buf (ptr + 4) (nat (sint b_len)))))"

text \<open>
  \<open>MsgLoginChallengeS::process\<close>: the new key and vectors of the cipher.  The seed buffer has 256
  bytes.
\<close>

definition challenge_process ::
  "u8 list \<Rightarrow> u8 list \<Rightarrow> u8 list \<Rightarrow> dh \<Rightarrow> blowfish \<Rightarrow> blowfish option" where
  "challenge_process buf aEncryptIV aDecryptIV exchange cipher =
     (case challenge_key buf of
        None \<Rightarrow> None
      | Some b_key \<Rightarrow>
          (case handleResponse b_key exchange of
             None \<Rightarrow> None
           | Some (s_key, _) \<Rightarrow>
               (case hex2bin s_key (replicate 256 0) of
                  (_, seed, seed_len) \<Rightarrow>
                    map_option (bf_setIVs (Some aEncryptIV) (Some aDecryptIV))
                      (bf_generateKey (take seed_len seed) cipher))))"

section \<open>Agreement\<close>

lemma dh_simps [simp]:
  "dh_p (DiffieHellman P G) = str_to_bi_base (format_bi_str P) 16"
  "dh_g (DiffieHellman P G) = str_to_bi_base (format_bi_str G) 16"
  by (simp_all add: DiffieHellman_def)

lemma mod_power_power: "(((g :: int) ^ a mod p) ^ b) mod p = ((g ^ b mod p) ^ a) mod p"
  by (simp add: mod_simps power_mult [symmetric] mult.commute)

text \<open>
  Both ends of an exchange compute the same secret: what the requester makes of the response is
  the secret the responder has kept, for every modulus above one, generator and pair of private
  keys; it is smaller than the modulus.
\<close>
lemma exchange_agrees:
  assumes "1 < str_to_bi_base (format_bi_str P) 16"
    and "generateRequest a (DiffieHellman P G) = (request, d)"
    and "generateResponse b request (DiffieHellman P G) = (response, e)"
  shows "\<exists>s d'. dh_s e = Some s \<and> handleResponse response d = Some (bi_to_str_base s, d') \<and>
    dh_s d' = Some s \<and> 0 \<le> s \<and> s < dh_p d"
proof -
  let ?p = "str_to_bi_base (format_bi_str P) 16" and ?g = "str_to_bi_base (format_bi_str G) 16"
  note pow = power_eq [OF assms(1)]
  have d: "d = (DiffieHellman P G)\<lparr>dh_a := Some a, dh_A := Some (?g ^ a mod ?p)\<rparr>"
    and request: "request = bi_to_str_base (?g ^ a mod ?p)"
    using assms(2) by (auto simp: generateRequest_def pow Let_def)
  have response: "response = bi_to_str_base (?g ^ b mod ?p)"
    and s: "dh_s e = Some ((?g ^ a mod ?p) ^ b mod ?p)"
    using assms(3) by (auto simp: generateResponse_def pow request read_written_number Let_def)
  have "handleResponse response d = Some (bi_to_str_base ((?g ^ b mod ?p) ^ a mod ?p),
      d\<lparr>dh_B := Some (?g ^ b mod ?p), dh_s := Some ((?g ^ b mod ?p) ^ a mod ?p)\<rparr>)"
    by (simp add: handleResponse_def d response read_written_number pow Let_def)
  then show ?thesis
    using s mod_power_power [of ?g b ?p a] assms(1) by (simp add: d)
qed

section \<open>The session key\<close>

text \<open>An answer as the peer writes it.\<close>

definition write_challenge :: "u8 list \<Rightarrow> u8 list \<Rightarrow> u8 list \<Rightarrow> u8 list" where
  "write_challenge padding junk key =
     take CHALLENGE_PADDING_LEN padding @
     wr32 (of_nat (4 + 4 + length junk + 4 + length key + 8)) @
     wr32 (of_nat (length junk)) @ junk @ wr32 (of_nat (length key)) @ key"

lemma sint_of_length: "n < 2 ^ 31 \<Longrightarrow> sint (of_nat n :: u32) = int n"
  by (simp add: signed_take_bit_int_eq_self signed_of_nat)

lemma challenge_key_written:
  assumes "length padding = 7" and "length junk < 2 ^ 31" and "length key < 2 ^ 31" and "0 \<notin> set key"
  shows "challenge_key (write_challenge padding junk key @ rest) = Some key"
proof -
  let ?pre = "padding @ wr32 (of_nat (4 + 4 + length junk + 4 + length key + 8))"
  let ?pre2 = "?pre @ wr32 (of_nat (length junk)) @ junk"
  have buf: "write_challenge padding junk key @ rest
      = ?pre @ wr32 (of_nat (length junk)) @ (junk @ wr32 (of_nat (length key)) @ key @ rest)"
    "write_challenge padding junk key @ rest = ?pre2 @ wr32 (of_nat (length key)) @ (key @ rest)"
    "write_challenge padding junk key @ rest = (?pre2 @ wr32 (of_nat (length key))) @ key @ rest"
    using assms(1) by (simp_all add: write_challenge_def CHALLENGE_PADDING_LEN_def)
  have len: "length ?pre = 11" "length ?pre2 = 15 + length junk"
    "length (?pre2 @ wr32 (of_nat (length key))) = 15 + length junk + 4"
    using assms(1) by simp_all
  have a: "at32 (write_challenge padding junk key @ rest) 11 = Some (of_nat (length junk))"
    unfolding buf(1) by (rule at_written(3) [OF len(1)])
  have b: "at32 (write_challenge padding junk key @ rest) (15 + length junk) = Some (of_nat (length key))"
    unfolding buf(2) by (rule at_written(3) [OF len(2)])
  have c: "bytes_at (write_challenge padding junk key @ rest) (15 + length junk + 4) (length key) = Some key"
    unfolding buf(3) by (rule at_written(4) [OF len(3)]) simp
  have s: "c_string key = key" using assms(4) by (auto simp: c_string_def takeWhile_eq_all_conv)
  have p: "nat (11 + int (length junk) + 4) = 15 + length junk" by simp
  show ?thesis
    using a b c assms(2,3) s p
    by (simp add: challenge_key_def CHALLENGE_PADDING_LEN_def sint_of_length Let_def add.commute)
qed

lemma no_zero_digit: "0 \<le> n \<Longrightarrow> 0 \<notin> set (bi_to_str_pos n)"
proof (induction n rule: bi_to_str_pos.induct)
  case (1 n)
  then show ?case
    using digit_cases(5) [of "n mod 16"] bi_to_str_pos.simps [of n] by (cases "n \<ge> 16") auto
qed

lemma be_bytes_not_empty [simp]: "be_bytes n \<noteq> []" by (subst be_bytes.simps) simp

text \<open>
  The cipher after the answer of a peer: the key generated from the big-endian bytes of the
  shared secret, whatever its number of hexadecimal digits.
\<close>

lemma challenge_process_key:
  assumes "length padding = 7" and "length junk < 2 ^ 31" and "length response < 2 ^ 31"
    and "0 \<notin> set response"
    and "handleResponse response d = Some (bi_to_str_base s, d')" and "0 \<le> s" and "length (be_bytes s) \<le> 256"
  shows "challenge_process (write_challenge padding junk response @ rest) encIV decIV d cipher
    = map_option (bf_setIVs (Some encIV) (Some decIV)) (bf_generateKey (be_bytes s) cipher)"
proof -
  have "hex2bin (bi_to_str_base s) (replicate 256 0)
      = (True, be_bytes s @ replicate (256 - length (be_bytes s)) 0, length (be_bytes s))"
    using hex2bin_written [OF assms(6), of "replicate 256 0"] assms(7) by simp
  then show ?thesis
    using challenge_key_written [OF assms(1-4)] assms(5) by (simp add: challenge_process_def)
qed

text \<open>The parameters of the server (\<^verbatim>\<open>Client::generateExchangeRequest\<close>), as strings.\<close>

definition SERVER_P :: "u8 list" where
  "SERVER_P = bytes
     (''E7A69EBDF105F2A6BBDEAD7E798F76A209AD73FB466431E2E7352ED262F8C558'' @
      ''F10BEFEA977DE9E21DCEE9B04D245F300ECCBBA03E72630556D011023F9E857F'')"

definition SERVER_G :: "u8 list" where "SERVER_G = bytes ''05''"

lemma server_p:
  "1 < str_to_bi_base (format_bi_str SERVER_P) 16" "str_to_bi_base (format_bi_str SERVER_P) 16 < 256 ^ 64"
  by code_simp+

lemma exchange_response:
  assumes "generateRequest a (DiffieHellman SERVER_P SERVER_G) = (request, d)"
    and "generateResponse b request (DiffieHellman SERVER_P SERVER_G) = (response, e)"
    and "dh_s e = Some s"
  shows "(\<exists>d'. handleResponse response d = Some (bi_to_str_base s, d')) \<and> 0 \<le> s \<and>
    length (be_bytes s) \<le> 256 \<and> length response \<le> 128 \<and> 0 \<notin> set response"
proof -
  obtain d' where d': "handleResponse response d = Some (bi_to_str_base s, d')" and s: "0 \<le> s" "s < dh_p d"
    using exchange_agrees [OF server_p(1) assms(1,2)] assms(3) by auto
  have p: "dh_p d = str_to_bi_base (format_bi_str SERVER_P) 16"
    using assms(1) by (auto simp: generateRequest_def Let_def)
  have bytes: "length (be_bytes n) \<le> 64" if "0 \<le> n" "n < dh_p d" for n
  proof (rule be_bytes_length [OF that(1)])
    show "n < 256 ^ 64" using that(2) unfolding p by (rule order.strict_trans [OF _ server_p(2)])
  qed simp
  obtain B where B: "response = bi_to_str_base B" "0 \<le> B" "B < dh_p d"
  proof
    let ?p = "str_to_bi_base (format_bi_str SERVER_P) 16" and ?g = "str_to_bi_base (format_bi_str SERVER_G) 16"
    have pos: "0 < ?p" using server_p(1) by linarith
    show "response = bi_to_str_base (?g ^ b mod ?p)"
      using assms(2) by (auto simp: generateResponse_def Let_def power_eq [OF server_p(1)])
    show "0 \<le> ?g ^ b mod ?p" by (rule pos_mod_sign [OF pos])
    show "?g ^ b mod ?p < dh_p d" unfolding p by (rule pos_mod_bound [OF pos])
  qed
  have "(length (bi_to_str_pos B) + 1) div 2 \<le> 64"
    using hex2bin_loop_number [OF B(2), of "[]"] bytes [OF B(2,3)] by simp
  then have len: "length response \<le> 128" using B(1,2) by (simp add: bi_to_str_base_def)
  have nz: "0 \<notin> set response" using no_zero_digit [OF B(2)] B(1,2) by (simp add: bi_to_str_base_def)
  have "length (be_bytes s) \<le> 256" using bytes [OF s] by simp
  with d' s(1) len nz show ?thesis by blast
qed

text \<open>C36: 
  With the parameters of the server, the answer of a peer that has computed its response and its
  secret from the request leaves the server with the cipher of the peer: the peer that generates
  its key from the bytes of its secret and takes the two vectors the other way around decrypts
  what the server encrypts, however the stream is cut, and the server what the peer encrypts.
\<close>
theorem exchange_opens_channel:
  assumes "generateRequest a (DiffieHellman SERVER_P SERVER_G) = (request, d)"
    and "generateResponse b request (DiffieHellman SERVER_P SERVER_G) = (response, e)"
    and "length padding = 7" and "length junk < 2 ^ 31"
    and "dh_s e = Some s" and "bf_generateKey (be_bytes s) peer0 = Some peer1"
    and "peer = bf_setIVs (Some decIV) (Some encIV) peer1"
  shows "\<exists>server. challenge_process (write_challenge padding junk response @ rest) encIV decIV d cipher
      = Some server \<and>
    (\<forall>cs ms. concat cs = concat (bf_encrypt_all server ms) \<longrightarrow> concat (bf_decrypt_all peer cs) = concat ms) \<and>
    (\<forall>cs ms. concat cs = concat (bf_encrypt_all peer ms) \<longrightarrow> concat (bf_decrypt_all server cs) = concat ms)"
proof -
  note r = exchange_response [OF assms(1,2,5)]
  obtain d' where d': "handleResponse response d = Some (bi_to_str_base s, d')" using r by blast
  have len: "length response < 2 ^ 31" and nz: "0 \<notin> set response" and s: "0 \<le> s"
    and b: "length (be_bytes s) \<le> 256" using r by auto
  note server = challenge_process_key [OF assms(3,4) len nz d' s b, of rest encIV decIV cipher]
  obtain server1 where server1: "bf_generateKey (be_bytes s) cipher = Some server1"
    using be_bytes_not_empty [of s] by (auto simp: bf_generateKey_def Let_def bf_KEY_SIZE_def)
  let ?server = "bf_setIVs (Some encIV) (Some decIV) server1"
  have key: "same_key ?server peer" "same_key peer ?server"
    using same_key_generated [OF server1 assms(6)] assms(7) by (simp_all add: same_key_def bf_setIVs_def)
  have regs: "mEn ?server = mDe peer" "mEn peer = mDe ?server"
    using assms(7) by (simp_all add: bf_setIVs_def)
  show ?thesis
    using server server1 bf_rechunk [OF key(1) regs(1)] bf_rechunk [OF key(2) regs(2)]
    by auto
qed

lemma exchange_opens_channel_witness:
  "\<exists>peer1 server. concat (bf_decrypt_all (bf_setIVs (Some [2]) (Some [1]) peer1)
     [concat (bf_encrypt_all server [[9, 8], [7]])]) = [9, 8, 7] \<and>
   challenge_process (write_challenge [1, 2, 3, 4, 5, 6, 7] [0]
     (fst (generateResponse 11 (fst (generateRequest 7 (DiffieHellman SERVER_P SERVER_G)))
        (DiffieHellman SERVER_P SERVER_G)))) [1] [2]
     (snd (generateRequest 7 (DiffieHellman SERVER_P SERVER_G))) blowfish_new = Some server"
proof -
  let ?D = "DiffieHellman SERVER_P SERVER_G"
  obtain request d where req: "generateRequest 7 ?D = (request, d)" by fastforce
  obtain response e where resp: "generateResponse 11 request ?D = (response, e)" by fastforce
  obtain s where s: "dh_s e = Some s" using exchange_agrees [OF server_p(1) req resp] by blast
  obtain peer1 where peer1: "bf_generateKey (be_bytes s) blowfish_new = Some peer1"
    using be_bytes_not_empty [of s] by (auto simp: bf_generateKey_def Let_def bf_KEY_SIZE_def)
  have "length [1, 2, 3, 4, 5, 6, 7 :: u8] = 7" "length [0 :: u8] < 2 ^ 31" by simp_all
  note opened = exchange_opens_channel [OF req resp this s peer1 refl, of "[]" "[1]" "[2]" blowfish_new]
  obtain server where server: "challenge_process (write_challenge [1, 2, 3, 4, 5, 6, 7] [0] response @ [])
      [1] [2] d blowfish_new = Some server"
    and recv: "\<And>cs ms. concat cs = concat (bf_encrypt_all server ms) \<Longrightarrow>
      concat (bf_decrypt_all (bf_setIVs (Some [2]) (Some [1]) peer1) cs) = concat ms"
    using opened by blast
  have "concat (bf_decrypt_all (bf_setIVs (Some [2]) (Some [1]) peer1)
     [concat (bf_encrypt_all server [[9, 8], [7]])]) = [9, 8, 7]"
    using recv [of "[concat (bf_encrypt_all server [[9, 8], [7]])]" "[[9, 8], [7]]"] by simp
  moreover have "challenge_process (write_challenge [1, 2, 3, 4, 5, 6, 7] [0]
     (fst (generateResponse 11 (fst (generateRequest 7 ?D)) ?D))) [1] [2]
     (snd (generateRequest 7 ?D)) blowfish_new = Some server"
    unfolding req fst_conv resp snd_conv using server by (simp only: append_Nil2)
  ultimately show ?thesis by blast
qed

end
