(* ===== verification/Session.thy ===== *)
theory Session
  imports Exchange TqCipher
begin

text \<open>
  A connection: the \<^verbatim>\<open>Client\<close> object and its cipher (\<^verbatim>\<open>client.cpp\<close>), the handlers of
  \<^verbatim>\<open>server.cpp\<close> that open a connection and cut what arrives into messages, and the registry of
  \<^verbatim>\<open>tcpserver.cpp\<close>.  What is written to the socket is kept as a list of buffers.
\<close>

section \<open>Clients (client.h, client.cpp)\<close>

datatype status =
    NOT_AUTHENTICATED | KEY_EXCHANGE | BANNED | INVALID_USERNAME | INVALID_PASSWORD | INVALID_KEY
  | NORMAL | NEW_ACCOUNT

datatype cipher = Tq tq_cipher | Bf blowfish

record client =
  cl_Cipher :: cipher
  cl_Exchange :: "dh option"
  cl_EncryptIV :: "u8 list option"
  cl_DecryptIV :: "u8 list option"
  cl_Status :: status
  cl_Account :: "u8 list"
  cl_AccountID :: u32
  cl_AccLvl :: u8
  cl_Flags :: u32
  cl_Character :: "u8 list"
  cl_Player :: "u32 option"
  cl_Sent :: "u8 list list"

fun cipher_encrypt :: "cipher \<Rightarrow> u8 list \<Rightarrow> u8 list \<times> cipher" where
  "cipher_encrypt (Tq s) buf = (let (buf, s) = tq_encrypt s buf in (buf, Tq s))"
| "cipher_encrypt (Bf s) buf = (let (buf, s) = bf_encrypt s buf in (buf, Bf s))"

fun cipher_decrypt :: "cipher \<Rightarrow> u8 list \<Rightarrow> u8 list \<times> cipher" where
  "cipher_decrypt (Tq s) buf = (let (buf, s) = tq_decrypt s buf in (buf, Tq s))"
| "cipher_decrypt (Bf s) buf = (let (buf, s) = bf_decrypt s buf in (buf, Bf s))"

definition CLIENT_SEED :: "u8 list" where "CLIENT_SEED = bytes ''DR654dt34trg4UI6''"

text \<open>The constructor; the key generation cannot fail on the fixed seed.\<close>

definition client_cipher :: "Algorithm \<Rightarrow> cipher option" where
  "client_cipher aAlgorithm =
     (case aAlgorithm of
        TQ_CIPHER \<Rightarrow> Some (Tq (generateIV 0x13FA0F9D 0x6D5C7962 TqCipher))
      | BLOWFISH \<Rightarrow>
          map_option (\<lambda>s. Bf (bf_setIVs (Some (replicate BLOCK_SIZE 0)) (Some (replicate BLOCK_SIZE 0)) s))
            (bf_generateKey CLIENT_SEED blowfish_new)
      | _ \<Rightarrow> None)"

definition Client :: "Algorithm \<Rightarrow> client option" where
  "Client aAlgorithm =
     map_option (\<lambda>ci. \<lparr>cl_Cipher = ci, cl_Exchange = None, cl_EncryptIV = None, cl_DecryptIV = None,
         cl_Status = NOT_AUTHENTICATED, cl_Account = [], cl_AccountID = -1, cl_AccLvl = 0, cl_Flags = 0,
         cl_Character = [], cl_Player = None, cl_Sent = []\<rparr>)
       (client_cipher aAlgorithm)"

definition SEAL :: "u8 list" where "SEAL = bytes ''TQServer''"

definition send :: "u8 list \<Rightarrow> client \<Rightarrow> client" where
  "send aMsg c =
     (let (data, ci) = cipher_encrypt (cl_Cipher c) (aMsg @ SEAL)
      in c\<lparr>cl_Cipher := ci, cl_Sent := cl_Sent c @ [data]\<rparr>)"

text \<open>The random bytes and the prime are arguments.\<close>

definition generateExchangeRequest ::
  "nat \<Rightarrow> u8 list \<Rightarrow> u8 list \<Rightarrow> u8 list \<Rightarrow> u8 list \<Rightarrow> client \<Rightarrow> client" where
  "generateExchangeRequest prime encIV decIV padding junk c =
     (let (pubKey, d) = generateRequest prime (DiffieHellman SERVER_P SERVER_G);
          c = c\<lparr>cl_Exchange := Some d, cl_EncryptIV := Some encIV, cl_DecryptIV := Some decIV\<rparr>
      in send (MsgLoginProofA padding junk encIV decIV SERVER_P SERVER_G pubKey) c)"

definition handleExchangeResponse :: "u8 list \<Rightarrow> client \<Rightarrow> client option" where
  "handleExchangeResponse buf c =
     (case (cl_Exchange c, cl_EncryptIV c, cl_DecryptIV c, cl_Cipher c) of
        (Some d, Some encIV, Some decIV, Bf s) \<Rightarrow>
          map_option (\<lambda>s. c\<lparr>cl_Cipher := Bf s, cl_Status := NORMAL, cl_Exchange := None,
              cl_EncryptIV := None, cl_DecryptIV := None\<rparr>)
            (challenge_process buf encIV decIV d s)
      | _ \<Rightarrow> None)"

definition ACCSERVER_PORT :: u16 where "ACCSERVER_PORT = 9958"
definition MSGSERVER_PORT :: u16 where "MSGSERVER_PORT = 5816"

definition connectionHandler ::
  "u16 \<Rightarrow> nat \<Rightarrow> u8 list \<Rightarrow> u8 list \<Rightarrow> u8 list \<Rightarrow> u8 list \<Rightarrow> client option" where
  "connectionHandler port prime encIV decIV padding junk =
     (if port = ACCSERVER_PORT then map_option (cl_Status_update (\<lambda>_. NOT_AUTHENTICATED)) (Client TQ_CIPHER)
      else if port = MSGSERVER_PORT then
        map_option (\<lambda>c. generateExchangeRequest prime encIV decIV padding junk (c\<lparr>cl_Status := KEY_EXCHANGE\<rparr>))
          (Client BLOWFISH)
      else None)"

section \<open>Cutting the stream into messages (server.cpp)\<close>

text \<open>
  What the loop of \<open>receiveHandler\<close> hands to \<open>Msg::create\<close>: a copy of one message (\<open>Packet\<close>), or
  the whole buffer together with the length some header in it claims (\<open>Whole\<close>).  \<open>Overrun\<close> stands
  for a read outside of the buffer, which is undefined and ends the model's loop.
\<close>

datatype frame = Packet "u8 list" | Whole "u8 list" u16 | Overrun

definition SEAL_MARK :: u16 where "SEAL_MARK = 20820"
definition SEAL_LEN :: nat where "SEAL_LEN = 8"

partial_function (option) frame_loop :: "u8 list \<Rightarrow> nat \<Rightarrow> frame list option" where
  "frame_loop received i =
     (if i < length received then
        (case at16 received i of
           None \<Rightarrow> Some [Overrun]
         | Some len \<Rightarrow>
             if len = SEAL_MARK then frame_loop received (i + SEAL_LEN)
             else if unat len < length received then
               (case bytes_at received i (unat len) of
                  None \<Rightarrow> Some [Overrun]
                | Some packet \<Rightarrow>
                    Option.bind (frame_loop received (i + unat len)) (\<lambda>fs. Some (Packet packet # fs)))
             else Some [Whole received len])
      else Some [])"

definition HEADER_LEN :: nat where "HEADER_LEN = 4"

text \<open>The \<^verbatim>\<open>default\<close> branch of the status switch, which the key exchange falls through to.\<close>

definition receive_default :: "u8 list \<Rightarrow> client \<Rightarrow> (client \<times> frame list) option" where
  "receive_default received c =
     (if length received < HEADER_LEN then Some (c, [])
      else
        let (received, ci) = cipher_decrypt (cl_Cipher c) received
        in map_option (\<lambda>fs. (c\<lparr>cl_Cipher := ci\<rparr>, fs)) (frame_loop received 0))"

text \<open>
  The \<^verbatim>\<open>KEY_EXCHANGE\<close> branch.  The size field is sign-extended to \<^verbatim>\<open>size_t\<close>; a size that is
  negative, below four or beyond the buffer makes \<open>decrypt\<close> run out of it.
\<close>

definition receive_exchange :: "u8 list \<Rightarrow> client \<Rightarrow> (client \<times> frame list) option" where
  "receive_exchange received c =
     (let n = CHALLENGE_PADDING_LEN + 4 in
      if length received < n then None
      else
        let (hd, ci) = cipher_decrypt (cl_Cipher c) (take n received) in
        case at32 hd CHALLENGE_PADDING_LEN of
          None \<Rightarrow> None
        | Some sz \<Rightarrow>
            if sint sz < 4 \<or> CHALLENGE_PADDING_LEN + nat (sint sz) > length received then None
            else
              let len = CHALLENGE_PADDING_LEN + nat (sint sz);
                  (tl, ci) = cipher_decrypt ci (take (len - n) (drop n received))
              in Option.bind (handleExchangeResponse (hd @ tl) (c\<lparr>cl_Cipher := ci\<rparr>))
                   (receive_default (drop len received)))"

definition receiveHandler :: "u8 list \<Rightarrow> client \<Rightarrow> (client \<times> frame list) option" where
  "receiveHandler aBuf c =
     (if length aBuf < HEADER_LEN then Some (c, [])
      else if cl_Status c = KEY_EXCHANGE then receive_exchange aBuf c
      else receive_default aBuf c)"

text \<open>The buffers of a connection one after the other, with the messages of all of them.\<close>

fun receive_all :: "u8 list list \<Rightarrow> client \<Rightarrow> (client \<times> frame list) option" where
  "receive_all [] c = Some (c, [])"
| "receive_all (buf # bufs) c =
     Option.bind (receiveHandler buf c) (\<lambda>(c, fs).
       map_option (\<lambda>(c, fs'). (c, fs @ fs')) (receive_all bufs c))"

section \<open>The socket layer (networkclient.cpp, tcpserver.cpp)\<close>

definition BUFFER_SIZE :: nat where "BUFFER_SIZE = 4096"

text \<open>
  \<open>incomingData\<close> reads all available bytes into a buffer of fixed size: more than that overflows it.
\<close>

definition incomingData :: "u8 list \<Rightarrow> client \<Rightarrow> (client \<times> frame list) option" where
  "incomingData available c =
     (if length available > BUFFER_SIZE then None else receiveHandler available c)"

record 'c tcp_server =
  mPort :: u16
  mIsListening :: bool
  mClients :: "'c list"

definition TcpServer :: "'c tcp_server" where
  "TcpServer = \<lparr>mPort = 0, mIsListening = False, mClients = []\<rparr>"

definition listen :: "u16 \<Rightarrow> 'c tcp_server \<Rightarrow> 'c tcp_server" where
  "listen aPort s = (if \<not> mIsListening s then s\<lparr>mPort := aPort, mIsListening := True\<rparr> else s)"

text \<open>The callbacks act on the rest of the program, \<open>'w\<close>.\<close>

definition incomingConnection :: "('c \<Rightarrow> 'w \<Rightarrow> 'w) \<Rightarrow> 'c \<Rightarrow> 'c tcp_server \<times> 'w \<Rightarrow> 'c tcp_server \<times> 'w" where
  "incomingConnection onConnect new sw =
     (case sw of (s, w) \<Rightarrow> (s\<lparr>mClients := mClients s @ [new]\<rparr>, onConnect new w))"

definition tcp_disconnect :: "('c \<Rightarrow> 'w \<Rightarrow> 'w) \<Rightarrow> 'c \<Rightarrow> 'c tcp_server \<times> 'w \<Rightarrow> 'c tcp_server \<times> 'w" where
  "tcp_disconnect onDisconnect aClient sw =
     (case sw of (s, w) \<Rightarrow>
        if aClient \<in> set (mClients s)
        then (s\<lparr>mClients := remove1 aClient (mClients s)\<rparr>, onDisconnect aClient w)
        else (s, w))"

section \<open>Framing\<close>

text \<open>A message as the peer sends it, and the messages a peer may send.\<close>

definition sealed :: "u8 list \<Rightarrow> u8 list" where "sealed m = m @ bytes ''TQClient''"

definition well_formed :: "u8 list \<Rightarrow> bool" where
  "well_formed m \<longleftrightarrow> HEADER_LEN \<le> length m \<and> length m \<le> 1024 \<and> at16 m 0 = Some (of_nat (length m))"

lemma seal_bytes: "bytes ''TQClient'' = [0x54, 0x51, 0x43, 0x6C, 0x69, 0x65, 0x6E, 0x74]"
  by code_simp

lemma length_sealed [simp]: "length (sealed m) = length m + 8"
  by (simp add: sealed_def seal_bytes)

lemma loop_end [simp]: "length received \<le> i \<Longrightarrow> frame_loop received i = Some []"
  by (subst frame_loop.simps) simp

lemma loop_message:
  assumes m: "well_formed m" and i: "length pre = i"
  shows "frame_loop (pre @ sealed m @ rest) i =
    map_option (Cons (Packet m)) (frame_loop (pre @ sealed m @ rest) (i + length m + 8))"
proof -
  let ?r = "pre @ sealed m @ rest"
  have len: "4 \<le> length m" "length m \<le> 1024" and hd: "at16 m 0 = Some (of_nat (length m))"
    using m by (auto simp: well_formed_def HEADER_LEN_def)
  have size: "unat (of_nat (length m) :: u16) = length m"
    using len by (simp add: unat_of_nat take_bit_nat_eq_self)
  have ne: "(of_nat (length m) :: u16) \<noteq> SEAL_MARK"
  proof
    assume "(of_nat (length m) :: u16) = SEAL_MARK"
    then have "length m = unat SEAL_MARK" using size by metis
    then show False using len by (simp add: SEAL_MARK_def)
  qed
  have at: "at16 ?r i = Some (of_nat (length m))"
  proof -
    have "at16 ?r i = at16 (m @ bytes ''TQClient'' @ rest) 0"
      using i by (simp add: at16_def sealed_def)
    also have "\<dots> = at16 m 0" using len by (intro at_append(2)) simp
    finally show ?thesis using hd by simp
  qed
  have bytes: "bytes_at ?r i (length m) = Some m"
    using at_written(4) [OF i refl, of m "bytes ''TQClient'' @ rest"] by (simp add: sealed_def)
  have "at16 ?r (i + length m) = Some SEAL_MARK"
    using i by (simp add: at16_def sealed_def seal_bytes rd16_def SEAL_MARK_def)
  then have seal: "frame_loop ?r (i + length m) = frame_loop ?r (i + length m + 8)"
    using i by (subst frame_loop.simps) (simp add: SEAL_LEN_def)
  show ?thesis
    using at ne size bytes i len seal
    by (subst frame_loop.simps) (simp add: map_option_case split: option.splits)
qed

lemma loop_messages:
  assumes "list_all well_formed ms" and "length pre = i"
  shows "frame_loop (pre @ concat (map sealed ms)) i = Some (map Packet ms)"
  using assms
proof (induction ms arbitrary: pre i)
  case (Cons m ms)
  have "frame_loop (pre @ concat (map sealed (m # ms))) i
      = map_option (Cons (Packet m)) (frame_loop ((pre @ sealed m) @ concat (map sealed ms)) (i + length m + 8))"
    using loop_message [of m pre i "concat (map sealed ms)"] Cons.prems by simp
  also have "\<dots> = Some (map Packet (m # ms))"
    using Cons.IH [of "pre @ sealed m" "i + length m + 8"] Cons.prems by simp
  finally show ?case .
qed simp

lemma concat_sealed_length: "ms \<noteq> [] \<Longrightarrow> HEADER_LEN \<le> length (concat (map sealed ms))"
  by (cases ms) (simp_all add: HEADER_LEN_def)

section \<open>When the loop ends\<close>

lemma loop_stuck:
  assumes "i < length received" and "at16 received i = Some 0"
  shows "frame_loop received i = None"
proof -
  have "bytes_at received i 0 = Some []" using assms(1) by (simp add: bytes_at_def)
  then have step: "frame_loop received i = Option.bind (frame_loop received i) (\<lambda>fs. Some (Packet [] # fs))"
    using assms by (subst frame_loop.simps) (auto simp: SEAL_MARK_def unat_eq_0)
  then show ?thesis
  proof (cases "frame_loop received i")
    case (Some fs)
    with step show ?thesis by simp
  qed simp
qed

lemma loop_returns:
  assumes "\<And>j. i \<le> j \<Longrightarrow> at16 received j \<noteq> Some 0"
  shows "frame_loop received i \<noteq> None"
  using assms
proof (induction "length received - i" arbitrary: i rule: less_induct)
  case less
  show ?case
  proof (cases "i < length received")
    case True
    show ?thesis
    proof (cases "at16 received i")
      case None
      then show ?thesis using True by (subst frame_loop.simps) simp
    next
      case (Some len)
      then have pos: "0 < unat len" using less.prems [of i] by (auto simp: unat_gt_0)
      have "frame_loop received (i + unat len) \<noteq> None" "frame_loop received (i + SEAL_LEN) \<noteq> None"
        using less.hyps [of "i + unat len"] less.hyps [of "i + SEAL_LEN"] less.prems True pos
        by (simp_all add: SEAL_LEN_def)
      then show ?thesis
        using True Some by (subst frame_loop.simps) (auto split: option.splits)
    qed
  qed simp
qed

section \<open>A peer and a client\<close>

text \<open>The chunks a peer sends, each a number of sealed messages.\<close>

fun chunks :: "('p \<Rightarrow> u8 list \<Rightarrow> u8 list \<times> 'p) \<Rightarrow> 'p \<Rightarrow> u8 list list list \<Rightarrow> u8 list list" where
  "chunks wrt p [] = []"
| "chunks wrt p (ms # mss) =
     fst (wrt p (concat (map sealed ms))) # chunks wrt (snd (wrt p (concat (map sealed ms)))) mss"

text \<open>
  What the connection needs of a cipher object and the peer's counterpart of it: the peer turns a
  buffer into bytes the object decrypts to that buffer, and both stay in step.
\<close>

locale link =
  fixes wrt :: "'p \<Rightarrow> u8 list \<Rightarrow> u8 list \<times> 'p"
    and linked :: "'p \<Rightarrow> cipher \<Rightarrow> bool"
  assumes decrypt_written: "linked p ci \<Longrightarrow> fst (cipher_decrypt ci (fst (wrt p buf))) = buf"
    and still_linked: "linked p ci \<Longrightarrow> linked (snd (wrt p buf)) (snd (cipher_decrypt ci (fst (wrt p buf))))"
    and length_written: "length (fst (wrt p buf)) = length buf"
begin

lemma receive_chunk:
  assumes "linked p (cl_Cipher c)" and "list_all well_formed ms" and "ms \<noteq> []"
  shows "receive_default (fst (wrt p (concat (map sealed ms)))) c =
    Some (c\<lparr>cl_Cipher := snd (cipher_decrypt (cl_Cipher c) (fst (wrt p (concat (map sealed ms)))))\<rparr>,
          map Packet ms)"
  using loop_messages [OF assms(2), of "[]" 0] concat_sealed_length [OF assms(3)]
    decrypt_written [OF assms(1), of "concat (map sealed ms)"]
  by (simp add: receive_default_def length_written split_beta Let_def not_less)

lemma delivered:
  assumes "linked p (cl_Cipher c)" and "cl_Status c \<noteq> KEY_EXCHANGE"
    and "list_all (\<lambda>ms. ms \<noteq> [] \<and> list_all well_formed ms) mss"
  shows "\<exists>ci. receive_all (chunks wrt p mss) c = Some (c\<lparr>cl_Cipher := ci\<rparr>, map Packet (concat mss))"
  using assms
proof (induction mss arbitrary: p c)
  case Nil
  have "c = c\<lparr>cl_Cipher := cl_Cipher c\<rparr>" by simp
  then show ?case by (metis chunks.simps(1) concat.simps(1) list.map(1) receive_all.simps(1))
next
  case (Cons ms mss)
  let ?buf = "concat (map sealed ms)"
  let ?c = "c\<lparr>cl_Cipher := snd (cipher_decrypt (cl_Cipher c) (fst (wrt p ?buf)))\<rparr>"
  have ms: "list_all well_formed ms" "ms \<noteq> []" using Cons.prems(3) by simp_all
  have "receiveHandler (fst (wrt p ?buf)) c = Some (?c, map Packet ms)"
    using receive_chunk [OF Cons.prems(1) ms] Cons.prems(2) concat_sealed_length [OF ms(2)]
    by (simp add: receiveHandler_def length_written not_less)
  moreover obtain ci where
    "receive_all (chunks wrt (snd (wrt p ?buf)) mss) ?c = Some (?c\<lparr>cl_Cipher := ci\<rparr>, map Packet (concat mss))"
    using Cons.IH [of "snd (wrt p ?buf)" ?c] Cons.prems still_linked [OF Cons.prems(1)] by auto
  ultimately show ?case by auto
qed

end

text \<open>The account service uses the cipher with two counters, the game service Blowfish.\<close>

definition tq_linked :: "tq_cipher \<Rightarrow> cipher \<Rightarrow> bool" where
  "tq_linked t ci \<longleftrightarrow> (case ci of Tq s \<Rightarrow> peer_to_server t s | Bf _ \<Rightarrow> False)"

definition bf_linked :: "blowfish \<Rightarrow> cipher \<Rightarrow> bool" where
  "bf_linked t ci \<longleftrightarrow> (case ci of Bf s \<Rightarrow> same_key t s \<and> mEn t = mDe s | Tq _ \<Rightarrow> False)"

lemma bf_keeps_key [simp]:
  "same_key (snd (bf_encrypt t buf)) s = same_key t s" "same_key t (snd (bf_decrypt s buf)) = same_key t s"
  "mDe (snd (bf_encrypt t buf)) = mDe t" "mEn (snd (bf_decrypt s buf)) = mEn s"
  by (simp_all add: same_key_def bf_encrypt_def bf_decrypt_def split_beta)

lemma bf_link:
  assumes "same_key t s" and "mEn t = mDe s"
  shows "fst (bf_decrypt s (fst (bf_encrypt t buf))) = buf"
    and "mEn (snd (bf_encrypt t buf)) = mDe (snd (bf_decrypt s (fst (bf_encrypt t buf))))"
  using bf.stream.roundtrip [OF assms(2), of t buf] bf.stream.sync_run [OF assms(2), of t buf]
  by (simp_all add: bf_encrypt_def bf_decrypt_def split_beta same_key_encipher [OF assms(1)])

interpretation account: link "run_bytes peer_write" tq_linked
proof
  fix p ci and buf :: "u8 list"
  assume l: "tq_linked p ci"
  then obtain s where s: "ci = Tq s" "peer_to_server p s" by (cases ci) (simp_all add: tq_linked_def)
  show "fst (cipher_decrypt ci (fst (run_bytes peer_write p buf))) = buf"
    using from_peer.roundtrip [OF s(2)] by (simp add: s(1) tq_decrypt_def split_beta)
  show "tq_linked (snd (run_bytes peer_write p buf))
      (snd (cipher_decrypt ci (fst (run_bytes peer_write p buf))))"
    using from_peer.sync_run [OF s(2)] by (simp add: s(1) tq_linked_def tq_decrypt_def split_beta)
qed simp

interpretation game: link bf_encrypt bf_linked
proof
  fix p ci and buf :: "u8 list"
  show "length (fst (bf_encrypt p buf)) = length buf" by (simp add: bf_encrypt_def split_beta)
  assume "bf_linked p ci"
  then obtain s where s: "ci = Bf s" "same_key p s" "mEn p = mDe s" by (cases ci) (simp_all add: bf_linked_def)
  show "fst (cipher_decrypt ci (fst (bf_encrypt p buf))) = buf"
    using bf_link(1) [OF s(2,3)] by (simp add: s(1) split_beta)
  show "bf_linked (snd (bf_encrypt p buf)) (snd (cipher_decrypt ci (fst (bf_encrypt p buf))))"
    using bf_link(2) [OF s(2,3)] s(2) by (simp add: s(1) split_beta bf_linked_def)
qed

section \<open>Opening a game session\<close>

lemma bf_decrypt_append:
  "fst (bf_decrypt s (xs @ ys)) = fst (bf_decrypt s xs) @ fst (bf_decrypt (snd (bf_decrypt s xs)) ys)"
  "snd (bf_decrypt s (xs @ ys)) = snd (bf_decrypt (snd (bf_decrypt s xs)) ys)"
  by (simp_all add: bf_decrypt_def split_beta run_bytes_append bf_encipher_def)

lemma length_bf [simp]: "length (fst (bf_encrypt s b)) = length b" "length (fst (bf_decrypt s b)) = length b"
  by (simp_all add: bf_encrypt_def bf_decrypt_def split_beta)

lemma length_challenge [simp]:
  "length padding = 7 \<Longrightarrow> length (write_challenge padding junk key) = 19 + length junk + length key"
  by (simp add: write_challenge_def CHALLENGE_PADDING_LEN_def)

text \<open>
  The answer of the peer, sealed and encrypted, followed by anything: the branch decrypts exactly
  the answer with the old key and hands the rest to the new one.
\<close>

lemma receive_exchange_split:
  assumes "cl_Cipher c = Bf s" and "same_key p s" and "mEn p = mDe s"
    and "length padding = 7" and "length junk + length key < 2 ^ 30"
  shows "receive_exchange (fst (bf_encrypt p (sealed (write_challenge padding junk key))) @ rest) c =
    Option.bind (handleExchangeResponse (sealed (write_challenge padding junk key))
        (c\<lparr>cl_Cipher := Bf (snd (bf_decrypt s (fst (bf_encrypt p (sealed (write_challenge padding junk key))))))\<rparr>))
      (receive_default rest)"
proof -
  let ?plain = "sealed (write_challenge padding junk key)"
  let ?first = "fst (bf_encrypt p ?plain)"
  let ?n = "27 + length junk + length key"
  have len: "length ?plain = ?n" "length ?first = ?n" using assms(4) by simp_all
  have dec: "fst (bf_decrypt s ?first) = ?plain" using bf_link(1) [OF assms(2,3)] .
  have whole: "?first = take 11 ?first @ drop 11 ?first" by simp
  have pieces: "fst (bf_decrypt s (take 11 ?first)) = take 11 ?plain"
    "fst (bf_decrypt (snd (bf_decrypt s (take 11 ?first))) (drop 11 ?first)) = drop 11 ?plain"
  proof -
    have eq: "fst (bf_decrypt s (take 11 ?first)) @ fst (bf_decrypt (snd (bf_decrypt s (take 11 ?first))) (drop 11 ?first))
        = take 11 ?plain @ drop 11 ?plain"
      using bf_decrypt_append(1) [of s "take 11 ?first" "drop 11 ?first"] dec by simp
    have "length (fst (bf_decrypt s (take 11 ?first))) = length (take 11 ?plain)" using len by simp
    from append_eq_append_conv [THEN iffD1, OF disjI1, OF this eq]
    show "fst (bf_decrypt s (take 11 ?first)) = take 11 ?plain"
      "fst (bf_decrypt (snd (bf_decrypt s (take 11 ?first))) (drop 11 ?first)) = drop 11 ?plain"
      by blast+
  qed
  have last: "snd (bf_decrypt (snd (bf_decrypt s (take 11 ?first))) (drop 11 ?first)) = snd (bf_decrypt s ?first)"
    using bf_decrypt_append(2) [of s "take 11 ?first" "drop 11 ?first"] by simp
  have "at32 (take 11 ?plain) 7 = Some (of_nat (20 + length junk + length key))"
    using at_written(3) [of padding 7 "of_nat (20 + length junk + length key)" "[]"] assms(4)
    by (simp add: sealed_def write_challenge_def CHALLENGE_PADDING_LEN_def add.commute add.left_commute)
  moreover have "sint (of_nat (20 + length junk + length key) :: u32) = 20 + int (length junk) + int (length key)"
    using assms(5) sint_of_length [of "20 + length junk + length key"] by simp
  ultimately show ?thesis
    using assms(1,4) len pieces last
    by (simp add: receive_exchange_def CHALLENGE_PADDING_LEN_def Let_def split_beta nat_add_distrib)
qed

lemma new_client:
  assumes "connectionHandler MSGSERVER_PORT a encIV decIV padding junk = Some c"
  shows "cl_Status c = KEY_EXCHANGE" "cl_Exchange c = Some (snd (generateRequest a (DiffieHellman SERVER_P SERVER_G)))"
    "cl_EncryptIV c = Some encIV" "cl_DecryptIV c = Some decIV" "\<exists>s. cl_Cipher c = Bf s"
  using assms
  by (auto simp: connectionHandler_def MSGSERVER_PORT_def ACCSERVER_PORT_def generateExchangeRequest_def
      send_def Client_def client_cipher_def split_beta Let_def)

section \<open>Properties\<close>

lemma exchange_secret_bounds:
  assumes "generateRequest a (DiffieHellman SERVER_P SERVER_G) = (request, d)"
    and "generateResponse b request (DiffieHellman SERVER_P SERVER_G) = (response, e)"
    and "dh_s e = Some s"
  shows "\<exists>d'. handleResponse response d = Some (bi_to_str_base s, d')" and "0 \<le> s"
    and "length (be_bytes s) \<le> 256" and "length response \<le> 128" and "0 \<notin> set response"
  using exchange_response [OF assms] by auto

text \<open>C35: A game connection from its beginning.  The peer answers the offer of a new connection and sends
  its first messages right behind the answer, in the same buffer; then it goes on with other
  buffers.  The server has the peer's messages, all of them and in their order, and the client is
  in the state of an open session.\<close>
theorem game_session:
  assumes "connectionHandler MSGSERVER_PORT a encIV decIV padding junk = Some c"
    and "generateResponse b (fst (generateRequest a (DiffieHellman SERVER_P SERVER_G)))
           (DiffieHellman SERVER_P SERVER_G) = (response, e)"
    and "dh_s e = Some s" and "bf_linked peer0 (cl_Cipher c)"
    and "bf_generateKey (be_bytes s) peer0 = Some peer1"
    and "peer = bf_setIVs (Some decIV) (Some encIV) peer1"
    and "length padding' = 7" and "length junk' < 2 ^ 29"
    and "answer = fst (bf_encrypt peer0 (sealed (write_challenge padding' junk' response)))"
    and "chunks bf_encrypt peer (ms # mss) = buf # bufs"
    and "list_all (\<lambda>ms. ms \<noteq> [] \<and> list_all well_formed ms) (ms # mss)"
  shows "\<exists>c'. receive_all ((answer @ buf) # bufs) c = Some (c', map Packet (concat (ms # mss))) \<and>
    cl_Status c' = NORMAL \<and> cl_Exchange c' = None"
proof -
  let ?d = "snd (generateRequest a (DiffieHellman SERVER_P SERVER_G))"
  note client = new_client [OF assms(1)]
  obtain st where st: "cl_Cipher c = Bf st" "same_key peer0 st" "mEn peer0 = mDe st"
    using client(5) assms(4) by (auto simp: bf_linked_def)
  note secret = exchange_secret_bounds [OF prod.collapse [symmetric] assms(2,3)]
  obtain d' where d': "handleResponse response ?d = Some (bi_to_str_base s, d')" using secret(1) by blast
  let ?st = "snd (bf_decrypt st answer)"
  obtain st1 where st1: "bf_generateKey (be_bytes s) ?st = Some st1"
    by (auto simp: bf_generateKey_def Let_def bf_KEY_SIZE_def)
  let ?server = "bf_setIVs (Some encIV) (Some decIV) st1"
  let ?c = "c\<lparr>cl_Cipher := Bf ?server, cl_Status := NORMAL, cl_Exchange := None,
      cl_EncryptIV := None, cl_DecryptIV := None\<rparr>"
  have small: "length junk' < 2 ^ 31" "length response < 2 ^ 31" "length junk' + length response < 2 ^ 30"
    using assms(8) secret(4) by simp_all
  have handled: "handleExchangeResponse (sealed (write_challenge padding' junk' response))
      (c\<lparr>cl_Cipher := Bf ?st\<rparr>) = Some ?c"
    using challenge_process_key [OF assms(7) small(1,2) secret(5) d' secret(2,3),
        of "bytes ''TQClient''" encIV decIV ?st] client st1
    by (simp add: handleExchangeResponse_def sealed_def)
  have link: "bf_linked peer (cl_Cipher ?c)"
    using same_key_generated [OF assms(5) st1] assms(6)
    by (simp add: bf_linked_def same_key_def bf_setIVs_def)
  have buf: "buf = fst (bf_encrypt peer (concat (map sealed ms)))"
    and bufs: "bufs = chunks bf_encrypt (snd (bf_encrypt peer (concat (map sealed ms)))) mss"
    using assms(10) by simp_all
  have ms: "list_all well_formed ms" "ms \<noteq> []" using assms(11) by simp_all
  have first: "receiveHandler (answer @ buf) c = receive_default buf ?c"
    using receive_exchange_split [OF st assms(7) small(3), of buf] handled client(1) assms(7,9)
    by (simp add: receiveHandler_def HEADER_LEN_def)
  obtain ci where whole: "receive_all (chunks bf_encrypt peer (ms # mss)) ?c
      = Some (?c\<lparr>cl_Cipher := ci\<rparr>, map Packet (concat (ms # mss)))"
    using game.delivered [OF link _ assms(11)] by auto
  have "receiveHandler buf ?c = receive_default buf ?c"
    using concat_sealed_length [OF ms(2)] by (simp add: receiveHandler_def buf receive_default_def)
  then have "receive_all ((answer @ buf) # bufs) c = receive_all (chunks bf_encrypt peer (ms # mss)) ?c"
    by (simp add: first [unfolded buf] buf bufs)
  with whole show ?thesis by auto
qed

text \<open>On the account port, the server receives exactly the messages the peer sends, in their order,
  when every buffer carries a whole number of sealed messages.\<close>
theorem account_session:
  assumes "connectionHandler ACCSERVER_PORT a encIV decIV padding junk = Some c"
    and "tq_linked peer (cl_Cipher c)"
    and "list_all (\<lambda>ms. ms \<noteq> [] \<and> list_all well_formed ms) mss"
  shows "\<exists>c'. receive_all (chunks (run_bytes peer_write) peer mss) c = Some (c', map Packet (concat mss))"
proof -
  have "cl_Status c \<noteq> KEY_EXCHANGE"
    using assms(1) by (auto simp: connectionHandler_def ACCSERVER_PORT_def Client_def)
  then show ?thesis using account.delivered [OF assms(2) _ assms(3)] by blast
qed

text \<open>C37: A buffer in which no two adjacent bytes are both zero is always cut up; a header with length
  zero is never left again.\<close>
theorem frame_loop_ends:
  "(i < length received \<and> at16 received i = Some 0 \<longrightarrow> frame_loop received i = None) \<and>
   ((\<forall>j \<ge> i. at16 received j \<noteq> Some 0) \<longrightarrow> frame_loop received i \<noteq> None)"
  using loop_stuck [of i received] loop_returns [of i received] by blast

text \<open>A message that arrives in two buffers is not put together: the first part is handed on as a
  message of the full length, which ends beyond the buffer.\<close>
theorem split_message_handed_on:
  assumes "well_formed m" and "2 \<le> k" and "k \<le> length m"
  shows "frame_loop (take k m) 0 = Some [Whole (take k m) (of_nat (length m))]"
proof -
  have len: "4 \<le> length m" "length m \<le> 1024" and hd: "at16 m 0 = Some (of_nat (length m))"
    using assms(1) by (auto simp: well_formed_def HEADER_LEN_def)
  have size: "unat (of_nat (length m) :: u16) = length m"
    using len by (simp add: unat_of_nat take_bit_nat_eq_self)
  then have ne: "(of_nat (length m) :: u16) \<noteq> SEAL_MARK"
    using len by (auto simp: SEAL_MARK_def dest!: arg_cong [of _ _ unat])
  have "at16 (take k m) 0 = Some (of_nat (length m))"
    using at_append(2) [of 0 "take k m" "drop k m"] hd assms(2,3) by simp
  then show ?thesis
    using ne size assms(2,3) len by (subst frame_loop.simps) auto
qed

text \<open>However often a client is disconnected, by its handlers or by its socket, the disconnection
  handler runs at most once.\<close>
theorem disconnected_once:
  assumes "distinct (mClients (fst sw))"
  shows "tcp_disconnect h a (tcp_disconnect h a sw) = tcp_disconnect h a sw \<and>
    distinct (mClients (fst (tcp_disconnect h a sw)))"
  using assms by (cases sw) (auto simp: tcp_disconnect_def distinct_remove1)

section \<open>The properties at concrete inputs\<close>

lemma tick_well_formed: "well_formed [4, 0, 0xF4, 3]"
  by (simp add: well_formed_def HEADER_LEN_def at16_def rd16_def)

lemma game_session_witness:
  "\<exists>c answer buf c'. connectionHandler MSGSERVER_PORT 7 [1] [2] [] [] = Some c \<and>
     receive_all [answer @ buf] c = Some (c', [Packet [4, 0, 0xF4, 3]]) \<and> cl_Status c' = NORMAL"
proof -
  let ?D = "DiffieHellman SERVER_P SERVER_G"
  have "CLIENT_SEED \<noteq> []" by (simp add: CLIENT_SEED_def bytes_def)
  then obtain s0 where s0: "bf_generateKey CLIENT_SEED blowfish_new = Some s0"
    by (auto simp: bf_generateKey_def Let_def bf_KEY_SIZE_def)
  let ?peer0 = "bf_setIVs (Some (replicate BLOCK_SIZE 0)) (Some (replicate BLOCK_SIZE 0)) s0"
  obtain c where c: "connectionHandler MSGSERVER_PORT 7 [1] [2] [] [] = Some c"
    and link: "bf_linked ?peer0 (cl_Cipher c)"
    using s0
    by (simp add: connectionHandler_def MSGSERVER_PORT_def ACCSERVER_PORT_def generateExchangeRequest_def
        send_def Client_def client_cipher_def split_beta Let_def bf_linked_def)
      (simp add: same_key_def bf_encrypt_def split_beta bf_setIVs_def)
  obtain response e where resp: "generateResponse 11 (fst (generateRequest 7 ?D)) ?D = (response, e)"
    by fastforce
  obtain s where s: "dh_s e = Some s"
    using exchange_agrees [OF server_p(1) prod.collapse [symmetric] resp] by blast
  obtain peer1 where peer1: "bf_generateKey (be_bytes s) ?peer0 = Some peer1"
    by (auto simp: bf_generateKey_def Let_def bf_KEY_SIZE_def)
  have ms: "list_all (\<lambda>ms. ms \<noteq> [] \<and> list_all well_formed ms) [[[4, 0, 0xF4, 3]]]"
    using tick_well_formed by simp
  have pad: "length [1, 2, 3, 4, 5, 6, 7 :: u8] = 7" "length ([] :: u8 list) < 2 ^ 29" by simp_all
  have ch: "chunks bf_encrypt (bf_setIVs (Some [2]) (Some [1]) peer1) [[[4, 0, 0xF4, 3]]]
      = [fst (bf_encrypt (bf_setIVs (Some [2]) (Some [1]) peer1) (concat (map sealed [[4, 0, 0xF4, 3]])))]"
    by simp
  show ?thesis
    using game_session [OF c resp s link peer1 refl pad refl ch ms] c by auto
qed

lemma account_session_witness:
  "\<exists>c c' peer. connectionHandler ACCSERVER_PORT 0 [] [] [] [] = Some c \<and>
     receive_all (chunks (run_bytes peer_write) peer [[[4, 0, 0xF4, 3], [4, 0, 1, 0]], [[4, 0, 2, 0]]]) c
       = Some (c', [Packet [4, 0, 0xF4, 3], Packet [4, 0, 1, 0], Packet [4, 0, 2, 0]])"
proof -
  obtain c where c: "connectionHandler ACCSERVER_PORT 0 [] [] [] [] = Some c"
    and link: "tq_linked (generateIV 0x13FA0F9D 0x6D5C7962 TqCipher) (cl_Cipher c)"
    by (simp add: connectionHandler_def ACCSERVER_PORT_def Client_def client_cipher_def tq_linked_def
        peer_to_server_def generateIV_def TqCipher_def Let_def)
  have "list_all (\<lambda>ms. ms \<noteq> [] \<and> list_all well_formed ms)
      [[[4, 0, 0xF4, 3], [4, 0, 1, 0]], [[4, 0, 2, 0]]]"
    by (simp add: well_formed_def HEADER_LEN_def at16_def rd16_def)
  from account_session [OF c link this] c show ?thesis by auto
qed

lemma frame_loop_ends_witness:
  "frame_loop [0, 0, 7, 7] 0 = None \<and> frame_loop [4, 0, 7, 7] 0 \<noteq> None"
proof -
  have "at16 [4, 0, 7, 7] j \<noteq> Some 0" for j
    by (cases "j = 0 \<or> j = 1 \<or> j = 2 \<or> j = 3") (auto simp: at16_def rd16_def)
  moreover have "at16 [0, 0, 7, 7] 0 = Some 0" by (simp add: at16_def rd16_def)
  ultimately show ?thesis
    using frame_loop_ends [of 0 "[0, 0, 7, 7]"] frame_loop_ends [of 0 "[4, 0, 7, 7]"] by simp
qed

lemma split_message_handed_on_witness: "frame_loop [4, 0, 0xF4] 0 = Some [Whole [4, 0, 0xF4] 4]"
  using split_message_handed_on [OF tick_well_formed, of 3] by simp

lemma disconnected_once_witness:
  "tcp_disconnect (\<lambda>a w. Suc w) 7 (tcp_disconnect (\<lambda>a w. Suc w) 7
     (\<lparr>mPort = 0, mIsListening = True, mClients = [5 :: nat, 7]\<rparr>, 0)) =
   (\<lparr>mPort = 0, mIsListening = True, mClients = [5 :: nat]\<rparr>, 1)"
  using disconnected_once [of "(\<lparr>mPort = 0, mIsListening = True, mClients = [5 :: nat, 7]\<rparr>, 0)" "\<lambda>a w. Suc w" 7]
  by (simp add: tcp_disconnect_def)

end
