(* ===== verification/World.thy ===== *)
theory World
  imports GameMap BaseFunc "HOL-Library.List_Lexorder"
begin

text \<open>
  The registries of \<^verbatim>\<open>world.cpp\<close>: the players that are online, by identifier and by name, the
  NPCs and the tasks; and the NPCs themselves (\<^verbatim>\<open>npc.cpp\<close>).  A player object is its address: two
  objects may carry the same identifier while one session replaces another.
\<close>

section \<open>NPCs (npc.h, npc.cpp)\<close>

record npc =
  n_UID :: u32
  n_Name :: "u8 list option"
  n_Type :: u8
  n_Look :: u16
  n_Direction :: u8
  n_MapId :: u32
  n_PosX :: u16
  n_PosY :: u16
  n_Base :: u8
  n_Sort :: u8
  n_Task :: "u32 option"

definition TYPE_SHOPKEEPER :: u8 where "TYPE_SHOPKEEPER = 1"
definition TYPE_TASK :: u8 where "TYPE_TASK = 2"
definition TYPE_STORAGE :: u8 where "TYPE_STORAGE = 3"
definition SORT_TASK :: u8 where "SORT_TASK = 1"

definition Npc ::
  "u32 \<Rightarrow> u8 list option \<Rightarrow> u8 \<Rightarrow> u16 \<Rightarrow> u32 \<Rightarrow> u16 \<Rightarrow> u16 \<Rightarrow> u8 \<Rightarrow> u8 \<Rightarrow> npc" where
  "Npc aUID aName aType aLook aMapId aPosX aPosY aBase aSort =
     \<lparr>n_UID = aUID, n_Name = aName, n_Type = aType, n_Look = aLook, n_Direction = ucast (aLook mod 10),
      n_MapId = aMapId, n_PosX = aPosX, n_PosY = aPosY, n_Base = aBase, n_Sort = aSort, n_Task = None\<rparr>"

definition linkTask :: "u32 \<Rightarrow> npc \<Rightarrow> npc" where "linkTask aTask n = n\<lparr>n_Task := Some aTask\<rparr>"

definition isShopNpc :: "npc \<Rightarrow> bool" where "isShopNpc n \<longleftrightarrow> n_Type n = TYPE_SHOPKEEPER"
definition isTaskNpc :: "npc \<Rightarrow> bool" where
  "isTaskNpc n \<longleftrightarrow> n_Type n = TYPE_TASK \<or> n_Sort n AND SORT_TASK \<noteq> 0"
definition isStorageNpc :: "npc \<Rightarrow> bool" where "isStorageNpc n \<longleftrightarrow> n_Type n = TYPE_STORAGE"

section \<open>The registries\<close>

record world =
  mAllPlayers :: "(u32, addr) table"
  mAllPlayerNames :: "(u8 list, addr) table"
  mAllNPCs :: "(u32, npc) table"
  mAllTasks :: "(u32, u8 list) table"

text \<open>A player object, as far as the registries look at it.\<close>

record player_ref =
  pr_at :: addr
  pr_UID :: u32
  pr_Name :: "u8 list"

definition addPlayer :: "player_ref \<Rightarrow> world \<Rightarrow> bool \<times> world" where
  "addPlayer p w =
     (if tget (pr_UID p) (mAllPlayers w) = None \<and> tget (pr_Name p) (mAllPlayerNames w) = None
      then (True, w\<lparr>mAllPlayers := tput (pr_UID p) (pr_at p) (mAllPlayers w),
                    mAllPlayerNames := tput (pr_Name p) (pr_at p) (mAllPlayerNames w)\<rparr>)
      else (False, w))"

definition removePlayer :: "player_ref \<Rightarrow> world \<Rightarrow> bool \<times> world" where
  "removePlayer p w =
     (if tget (pr_UID p) (mAllPlayers w) \<noteq> None \<and> tget (pr_Name p) (mAllPlayerNames w) \<noteq> None
      then (True, w\<lparr>mAllPlayers := tdel (pr_UID p) (mAllPlayers w),
                    mAllPlayerNames := tdel (pr_Name p) (mAllPlayerNames w)\<rparr>)
      else (False, w))"

text \<open>The queries; \<open>ASSERT_ERR\<close> makes them fail on identifiers of another kind.\<close>

definition queryPlayer :: "u32 \<Rightarrow> world \<Rightarrow> addr option" where
  "queryPlayer aUID w = (if isPlayer aUID then tget aUID (mAllPlayers w) else None)"

definition queryPlayerByName :: "u8 list \<Rightarrow> world \<Rightarrow> addr option" where
  "queryPlayerByName aName w = (if aName \<noteq> [] then tget aName (mAllPlayerNames w) else None)"

definition queryNpc :: "u32 \<Rightarrow> world \<Rightarrow> npc option" where
  "queryNpc aUID w = (if isNpc aUID then tget aUID (mAllNPCs w) else None)"

definition queryTask :: "u32 \<Rightarrow> world \<Rightarrow> u8 list option" where
  "queryTask aUID w = tget aUID (mAllTasks w)"

datatype found = FoundPlayer addr | FoundNpc npc

definition queryEntity :: "u32 \<Rightarrow> world \<Rightarrow> found option" where
  "queryEntity aUID w =
     (if isPlayer aUID then map_option FoundPlayer (queryPlayer aUID w)
      else if isNpc aUID then map_option FoundNpc (queryNpc aUID w)
      else None)"

section \<open>The two player registries agree\<close>

text \<open>
  Every registered object is in both tables under its own identifier and name; \<open>obj\<close> tells what
  the object at an address carries.
\<close>

definition players_ok :: "(addr \<Rightarrow> player_ref) \<Rightarrow> world \<Rightarrow> bool" where
  "players_ok obj w \<longleftrightarrow>
     table_ok (mAllPlayers w) \<and> table_ok (mAllPlayerNames w) \<and>
     (\<forall>uid a. tget uid (mAllPlayers w) = Some a \<longrightarrow>
        pr_UID (obj a) = uid \<and> tget (pr_Name (obj a)) (mAllPlayerNames w) = Some a) \<and>
     (\<forall>name a. tget name (mAllPlayerNames w) = Some a \<longrightarrow>
        pr_Name (obj a) = name \<and> tget (pr_UID (obj a)) (mAllPlayers w) = Some a)"

lemma players_ok_empty [simp]:
  "players_ok obj \<lparr>mAllPlayers = [], mAllPlayerNames = [], mAllNPCs = npcs, mAllTasks = tasks\<rparr>"
  by (simp add: players_ok_def)

lemma add_keeps_players:
  assumes "players_ok obj w" and "obj (pr_at p) = p"
  shows "players_ok obj (snd (addPlayer p w))"
proof (cases "tget (pr_UID p) (mAllPlayers w) = None \<and> tget (pr_Name p) (mAllPlayerNames w) = None")
  case True
  then show ?thesis
    using assms unfolding players_ok_def addPlayer_def
    by (auto simp: table_simps) (metis option.distinct(1))+
next
  case False
  then have "addPlayer p w = (False, w)" by (simp add: addPlayer_def)
  then show ?thesis using assms(1) by simp
qed

text \<open>
  Removing works on the identifier and the name of an object, so it also removes another object
  that carries the same ones.
\<close>

lemma remove_keeps_players:
  assumes "players_ok obj w"
    and "\<And>a. tget (pr_UID p) (mAllPlayers w) = Some a \<Longrightarrow> pr_Name (obj a) = pr_Name p"
  shows "players_ok obj (snd (removePlayer p w))"
proof (cases "tget (pr_UID p) (mAllPlayers w) \<noteq> None \<and> tget (pr_Name p) (mAllPlayerNames w) \<noteq> None")
  case True
  then obtain a where a: "tget (pr_UID p) (mAllPlayers w) = Some a" by auto
  then have "tget (pr_Name p) (mAllPlayerNames w) = Some a"
    using assms unfolding players_ok_def by metis
  with a True show ?thesis
    using assms(1) unfolding players_ok_def removePlayer_def
    by (auto simp: table_simps) (metis option.inject)+
next
  case False
  then have "removePlayer p w = (False, w)" by (auto simp: removePlayer_def)
  then show ?thesis using assms(1) by simp
qed

end
