(* ===== verification/PlayerMsgs.thy ===== *)
theory PlayerMsgs
  imports PlayerItems PlayerTick Movement World
begin

text \<open>
  The messages of a client that act on its own player: \<^verbatim>\<open>MsgItem\<close> (shops, use and repair of items),
  \<^verbatim>\<open>MsgAllot\<close> (attribute points), \<^verbatim>\<open>MsgTick\<close>, and the actions of \<^verbatim>\<open>MsgAction\<close> that only concern the
  player.  The rows the database answers with, the random seed and the scripts are arguments.
\<close>

section \<open>Items (msgitem.cpp)\<close>

record msg_item =
  mi_UniqId :: u32
  mi_Data :: u32
  mi_Action :: u32
  mi_Timestamp :: u32
  mi_TargetUID :: u32

definition MSG_ITEM :: nat where "MSG_ITEM = 1009"

definition ITEM_BUY :: u32 where "ITEM_BUY = 1"
definition ITEM_SELL :: u32 where "ITEM_SELL = 2"
definition ITEM_USE :: u32 where "ITEM_USE = 4"
definition ITEM_EQUIP :: u32 where "ITEM_EQUIP = 5"
definition ITEM_REPAIR :: u32 where "ITEM_REPAIR = 14"
definition ITEM_REPAIRALL :: u32 where "ITEM_REPAIRALL = 15"
definition ITEM_COMPLETE_TASK :: u32 where "ITEM_COMPLETE_TASK = 27"

lemmas item_actions =
  ITEM_BUY_def ITEM_SELL_def ITEM_USE_def ITEM_EQUIP_def ITEM_REPAIR_def ITEM_REPAIRALL_def
  ITEM_COMPLETE_TASK_def

text \<open>The checks shared by the two shop actions: the NPC exists, is a shop, and is in reach.\<close>

definition shop_in_reach :: "world \<Rightarrow> u32 \<Rightarrow> player \<Rightarrow> bool" where
  "shop_in_reach w uid p =
     (case queryNpc uid w of
        None \<Rightarrow> False
      | Some n \<Rightarrow>
          isShopNpc n \<and> p_MapId p = n_MapId n \<and>
          \<not> distance (p_PosX p) (p_PosY p) (n_PosX n) (n_PosY n) > CELLS_PER_VIEW)"

text \<open>
  \<open>shop\<close> is \<open>getItemFromShop\<close>, \<open>inserted\<close> the answer of the database to a new item.  The second
  currency is checked against the conquer points and paid with money.
\<close>

definition item_buy ::
  "(u32 \<Rightarrow> u32 \<Rightarrow> err_t + item_info \<times> u8) \<Rightarrow> u32 option \<Rightarrow> world \<Rightarrow> msg_item \<Rightarrow> pstate \<Rightarrow> pstate" where
  "item_buy shop inserted w m s =
     (if \<not> shop_in_reach w (mi_UniqId m) (me s) then s
      else
        case shop (mi_UniqId m) (mi_Data m) of
          Inl err \<Rightarrow> s
        | Inr (info, moneytype) \<Rightarrow>
            if moneytype = 0 then
              (let price = i_Price info in
               if p_Money (me s) < price then sendSysMsg ''STR_NOT_SO_MUCH_MONEY'' s
               else
                 let (awarded, s) = awardItem inserted info True s
                 in if awarded then snd (spendMoney price True s) else s)
            else if moneytype = 1 then
              (let price = i_CPs info in
               if p_CPs (me s) < price then sendSysMsg ''STR_NOT_SO_MUCH_MONEY'' s
               else
                 let (awarded, s) = awardItem inserted info True s
                 in if awarded then snd (spendMoney price True s) else s)
            else s)"

definition item_sell :: "world \<Rightarrow> msg_item \<Rightarrow> pstate \<Rightarrow> pstate" where
  "item_sell w m s =
     (if \<not> shop_in_reach w (mi_UniqId m) (me s) then s
      else
        case Option.bind (getItem (mi_Data m) s) (heap s) of
          None \<Rightarrow> sendSysMsg ''STR_ITEM_NOT_FOUND'' s
        | Some it \<Rightarrow>
            if \<not> isSellEnable it then sendSysMsg ''STR_NOT_SELL_ENABLE'' s
            else
              let money = getSellPrice it;
                  (erased, s) = eraseItem (mi_Data m) True s
              in if \<not> erased then sendSysMsg ''STR_ITEM_INEXIST'' s
                 else
                   let (gained, s) = gainMoney money True s
                   in if \<not> gained then sendSysMsg ''STR_MONEYBAG_FULL'' s else s)"

definition item_use :: "(nat \<Rightarrow> pstate \<Rightarrow> err_t \<times> pstate) \<Rightarrow> msg_item \<Rightarrow> pstate \<Rightarrow> pstate" where
  "item_use execute m s =
     (if mi_TargetUID m = 0 \<or> mi_TargetUID m = p_UID (me s) then
        (case getItem (mi_UniqId m) s of
           None \<Rightarrow> sendSysMsg ''STR_ITEM_INEXIST'' s
         | Some a \<Rightarrow>
             let (used, s) = useItem execute a (unat (mi_Data m)) True s
             in if \<not> used then sendSysMsg ''STR_UNABLE_USE_ITEM'' s else s)
      else s)"

text \<open>
  The wear of a repair.  The second range can never be reached: what is not below half of the
  limit is not below a tenth of it.
\<close>

definition worn_limit :: "rng_env \<Rightarrow> item \<Rightarrow> u64 \<Rightarrow> u16 \<times> u64" where
  "worn_limit env it seed =
     (let less = word_of_int (max 1 (uint (it_AmountLimit it) - 1));
          (r, seed) = rand env 0 100 seed;
          p = (if uint (it_Amount it) < uint (it_AmountLimit it) div 2 then 5
               else if uint (it_Amount it) < uint (it_AmountLimit it) div 10 then 10
               else 80)
      in (if r < p then less else it_AmountLimit it, seed))"

definition item_repair :: "rng_env \<Rightarrow> msg_item \<Rightarrow> pstate \<Rightarrow> u64 \<Rightarrow> pstate \<times> u64" where
  "item_repair env m s seed =
     (case getItem (mi_UniqId m) s of
        None \<Rightarrow> (sendSysMsg ''STR_ITEM_NOT_FOUND'' s, seed)
      | Some a \<Rightarrow>
          case heap s a of
            None \<Rightarrow> (s, seed)
          | Some it \<Rightarrow>
              if \<not> isRepairEnable it \<or> it_Amount it > it_AmountLimit it
              then (sendSysMsg ''STR_REPAIR_FAILED'' s, seed)
              else
                let money = getRepairCost it;
                    repair = uint (it_AmountLimit it) - uint (it_Amount it)
                in if money = 0 \<or> repair \<le> 0 then (s, seed)
                   else
                     let (paid, s) = spendMoney money True s
                     in if \<not> paid then (sendSysMsg ''STR_REPAIR_NO_MONEY'' s, seed)
                        else
                          let (limit, seed) =
                                (if isEquipment it then worn_limit env it seed
                                 else (it_AmountLimit it, seed));
                              s = setAmountLimit a limit False s;
                              s = setAmount a limit True s
                          in (sendItem ACTION_ITEM_UPDATE (Some a) s, seed))"

definition item_back :: "msg_item \<Rightarrow> msg" where
  "item_back m = MsgBack MSG_ITEM [mi_UniqId m, mi_Data m, mi_Action m, mi_Timestamp m, mi_TargetUID m]"

definition MsgItem_process ::
  "(u32 \<Rightarrow> u32 \<Rightarrow> err_t + item_info \<times> u8) \<Rightarrow> u32 option \<Rightarrow> (nat \<Rightarrow> pstate \<Rightarrow> err_t \<times> pstate) \<Rightarrow>
   rng_env \<Rightarrow> world \<Rightarrow> msg_item \<Rightarrow> pstate \<Rightarrow> u64 \<Rightarrow> pstate \<times> u64" where
  "MsgItem_process shop inserted execute env w m s seed =
     (if mi_Action m = ITEM_BUY then (item_buy shop inserted w m s, seed)
      else if mi_Action m = ITEM_SELL then (item_sell w m s, seed)
      else if mi_Action m = ITEM_USE then (item_use execute m s, seed)
      else if mi_Action m = ITEM_EQUIP then (s, seed)
      else if mi_Action m = ITEM_REPAIR then item_repair env m s seed
      else if mi_Action m = ITEM_REPAIRALL then (s, seed)
      else if mi_Action m = ITEM_COMPLETE_TASK then (send (item_back m) s, seed)
      else (s, seed))"

section \<open>Attribute points (msgallot.cpp)\<close>

record msg_allot =
  ml_Force :: u8
  ml_Dexterity :: u8
  ml_Health :: u8
  ml_Soul :: u8

text \<open>The sum of four bytes fits the 16 bits it is stored in.\<close>

definition MsgAllot_process :: "msg_allot \<Rightarrow> pstate \<Rightarrow> pstate" where
  "MsgAllot_process m s =
     (let sum' = (word_of_int (uint (ml_Force m) + uint (ml_Health m) + uint (ml_Soul m) +
                              uint (ml_Dexterity m)) :: u16)
      in if p_AddPoints (me s) < sum' then sendSysMsg ''STR_CHEAT'' s
         else allot (ml_Force m) (ml_Health m) (ml_Dexterity m) (ml_Soul m) s)"

section \<open>The tick of the client (msgtick.cpp)\<close>

record msg_tick =
  mt_UniqId :: u32
  mt_Timestamp :: u32   \<comment> \<open>signed\<close>
  mt_CheckData :: u32

definition name_checksum :: "u8 list \<Rightarrow> u32" where
  "name_checksum aName =
     (if length aName < 4 then 0x9D4B5703
      else ucast ((push_bit 8 (ucast (aName ! 1)) OR ucast (aName ! 0) :: u16) XOR 0x9823))"

definition MsgTick_process :: "int \<Rightarrow> int \<Rightarrow> msg_tick \<Rightarrow> pstate \<Rightarrow> pstate" where
  "MsgTick_process serverTime rcvTime m s =
     (let time = sint (mt_Timestamp m XOR mt_UniqId m) in
      if mt_UniqId m \<noteq> p_UID (me s) then disconnect s
      else if mt_CheckData m \<noteq> name_checksum (p_Name (me s)) then disconnect s
      else processTick serverTime rcvTime time 1 s)"

section \<open>Actions on the own player (msgaction.cpp)\<close>

definition ACTION_GET_ITEM_SET :: nat where "ACTION_GET_ITEM_SET = 75"
definition ACTION_GET_GOOD_FRIEND :: nat where "ACTION_GET_GOOD_FRIEND = 76"
definition ACTION_GET_WEAPON_SKILL_SET :: nat where "ACTION_GET_WEAPON_SKILL_SET = 77"
definition ACTION_GET_MAGIC_SET :: nat where "ACTION_GET_MAGIC_SET = 78"
definition ACTION_SET_PKMODE :: nat where "ACTION_SET_PKMODE = 96"
definition ACTION_GET_SYN_ATTR :: nat where "ACTION_GET_SYN_ATTR = 97"
definition ACTION_DESTROY_BOOTH :: nat where "ACTION_DESTROY_BOOTH = 114"

lemmas own_actions =
  ACTION_GET_ITEM_SET_def ACTION_GET_GOOD_FRIEND_def ACTION_GET_WEAPON_SKILL_SET_def
  ACTION_GET_MAGIC_SET_def ACTION_SET_PKMODE_def ACTION_GET_SYN_ATTR_def ACTION_DESTROY_BOOTH_def

text \<open>The test that the message is about the own player, which three of the actions miss.\<close>

definition if_own :: "msg_action \<Rightarrow> (pstate \<Rightarrow> pstate) \<Rightarrow> pstate \<Rightarrow> pstate" where
  "if_own m act s = (if p_UID (me s) \<noteq> ma_UniqId m then disconnect s else act s)"

definition pk_mode_of :: "u32 \<Rightarrow> (pk_mode \<times> string) option" where
  "pk_mode_of d =
     (if d = 0 then Some (PKMODE_FREE, ''STR_FREE_PK_MODE'')
      else if d = 1 then Some (PKMODE_SAFE, ''STR_SAFE_PK_MODE'')
      else if d = 2 then Some (PKMODE_TEAM, ''STR_TEAM_PK_MODE'')
      else if d = 3 then Some (PKMODE_ARRESTMENT, ''STR_ARRESTMENT_PK_MODE'')
      else None)"

definition process_SET_PKMODE :: "msg_action \<Rightarrow> pstate \<Rightarrow> pstate" where
  "process_SET_PKMODE m =
     if_own m (\<lambda>s. case pk_mode_of (ma_Data m) of
       None \<Rightarrow> disconnect s
     | Some (mode, str) \<Rightarrow>
         sendSysMsg str (send (action_back ACTION_SET_PKMODE m) (on_me (\<lambda>p. p\<lparr>p_PkMode := mode\<rparr>) s)))"

definition process_own_action :: "nat \<Rightarrow> msg_action \<Rightarrow> pstate \<Rightarrow> pstate" where
  "process_own_action act m s =
     (if act = ACTION_GET_ITEM_SET then if_own m (\<lambda>s. send (action_back act m) (sendItemSet s)) s
      else if act = ACTION_GET_GOOD_FRIEND then send (action_back act m) s
      else if act = ACTION_GET_WEAPON_SKILL_SET
      then if_own m (\<lambda>s. send (action_back act m) (sendWeaponSkillSet s)) s
      else if act = ACTION_GET_MAGIC_SET
      then if_own m (\<lambda>s. send (action_back act m) (sendMagicSkillSet s)) s
      else if act = ACTION_SET_PKMODE then process_SET_PKMODE m s
      else if act = ACTION_GET_SYN_ATTR then send (action_back act m) s
      else s)"

section \<open>What the messages keep\<close>

lemma money_items:
  "items_ok (snd (gainMoney n b s)) = items_ok s" "items_ok (snd (spendMoney n b s)) = items_ok s"
  by (simp_all add: gainMoney_def spendMoney_def Let_def send_attr_def effect_defs items_ok_def inv_on_me
      equip_ok_def)

lemma items_setters:
  "items_ok s \<Longrightarrow> items_ok (setAmount a n u s)" "items_ok s \<Longrightarrow> items_ok (setAmountLimit a n u s)"
  by (simp_all add: items_ok_def equip_ok_def setAmount_def setAmountLimit_def inv_update_item)

lemma items_sends:
  "items_ok (send m s) = items_ok s" "items_ok (sendSysMsg str s) = items_ok s"
  "items_ok (sendItem act a s) = items_ok s" "items_ok (disconnect s) = items_ok s"
  by (simp_all add: effect_defs sendItem_def split: option.split)

lemmas items_frames = money_items items_setters items_sends items_award items_erase

lemma items_addAttrib: "items_ok (snd (addAttrib ty d x y s)) = items_ok s"
  by (cases ty; simp add: addAttrib_def set_attrib_def Let_def effect_defs items_ok_def inv_ok_def entry_ok_def
      equip_ok_def list_all_iff cong: prod.case_cong)

lemma items_use:
  assumes "\<And>task s. items_ok s \<Longrightarrow> items_ok (snd (execute task s))" and "items_ok s" and "a < brk s"
  shows "items_ok (snd (useItem execute a pos b s))"
  using assms
  by (auto simp: useItem_def Let_def split_beta items_equip items_addAttrib items_erase split: option.split)

lemma items_buy: "items_ok s \<Longrightarrow> items_ok (item_buy shop ins w m s)"
  by (auto simp: item_buy_def Let_def split_beta items_frames split: sum.split)

lemma items_sell: "items_ok s \<Longrightarrow> items_ok (item_sell w m s)"
  by (auto simp: item_sell_def Let_def split_beta items_frames split: option.split)

lemma items_repair: "items_ok s \<Longrightarrow> items_ok (fst (item_repair env m s seed))"
  by (auto simp: item_repair_def Let_def split_beta items_frames split: option.split)

text \<open>The points that are asked for, and what an accepted request does.\<close>

definition asked :: "msg_allot \<Rightarrow> nat" where
  "asked m = unat (ml_Force m) + unat (ml_Health m) + unat (ml_Soul m) + unat (ml_Dexterity m)"

lemma asked_u16:
  "unat (word_of_int (uint (ml_Force m) + uint (ml_Health m) + uint (ml_Soul m) + uint (ml_Dexterity m)) :: u16)
    = asked m"
proof -
  have u8: "unat x < 256" for x :: u8 using unsigned_less [of x] by simp
  have "asked m < 2 ^ 16"
    using u8 [of "ml_Force m"] u8 [of "ml_Health m"] u8 [of "ml_Soul m"] u8 [of "ml_Dexterity m"]
    by (simp add: asked_def)
  moreover have "uint (ml_Force m) + uint (ml_Health m) + uint (ml_Soul m) + uint (ml_Dexterity m) = int (asked m)"
    by (simp add: asked_def)
  ultimately show ?thesis
    by (simp only: of_int_of_nat_eq unat_of_nat) (simp add: take_bit_nat_eq_self)
qed

lemma allot_accepts:
  "p_AddPoints (me s) < word_of_int (uint (ml_Force m) + uint (ml_Health m) + uint (ml_Soul m) +
      uint (ml_Dexterity m)) \<longleftrightarrow> unat (p_AddPoints (me s)) < asked m"
  by (simp only: word_less_nat_alt asked_u16)

lemma refused_allot: "unat (p_AddPoints (me s)) < asked m \<Longrightarrow> me (MsgAllot_process m s) = me s"
  unfolding MsgAllot_process_def Let_def allot_accepts by (simp add: sendSysMsg_def)

lemma accepted_allot:
  "\<not> unat (p_AddPoints (me s)) < asked m \<Longrightarrow>
   MsgAllot_process m s = allot (ml_Force m) (ml_Health m) (ml_Dexterity m) (ml_Soul m) s"
  unfolding MsgAllot_process_def Let_def allot_accepts by simp

lemma award_frame:
  "p_CPs (me (snd (awardItem ins aInfo b s))) = p_CPs (me s)"
  "p_Money (me (snd (awardItem ins aInfo b s))) = p_Money (me s)"
proof -
  have "\<exists>t. me (snd (awardItem ins aInfo b s)) = (me s)\<lparr>p_Inventory := t\<rparr>"
  proof (cases "tsize (p_Inventory (me s)) < MAX_INVENTORY_SIZE \<and> createItem ins aInfo \<noteq> None")
    case True
    then obtain it where it: "createItem ins aInfo = Some it" by blast
    have "\<exists>t. me (snd (addItem (brk s) b (awarded it s))) = (me s)\<lparr>p_Inventory := t\<rparr>"
      using addItem_cases(2) [of "awarded it s" "brk s" it b] by (auto intro: exI [of _ "p_Inventory (me s)"])
    with True it show ?thesis by (auto simp: awardItem_unfold hfree_def)
  next
    case False
    then have "me (snd (awardItem ins aInfo b s)) = (me s)\<lparr>p_Inventory := p_Inventory (me s)\<rparr>"
      by (auto simp: awardItem_def sendSysMsg_def)
    then show ?thesis ..
  qed
  then show "p_CPs (me (snd (awardItem ins aInfo b s))) = p_CPs (me s)"
    and "p_Money (me (snd (awardItem ins aInfo b s))) = p_Money (me s)" by auto
qed

lemma wrap_grows: "x < n \<Longrightarrow> x < x - n" for x n :: u32
  using uint_lt2p [of n] uint_ge_0 [of x] by (simp add: uint_sub_if' word_less_def)

section \<open>Properties\<close>

text \<open>C22: Allotting points never creates any: a request for more points than there are is answered with a
  message and changes nothing; otherwise exactly the points asked for are taken off the free
  points, which do not wrap around, and each attribute grows by its own share.\<close>
theorem allot_conserves_points:
  "(unat (p_AddPoints (me s)) < asked m \<longrightarrow> me (MsgAllot_process m s) = me s) \<and>
   (asked m \<le> unat (p_AddPoints (me s)) \<longrightarrow>
      unat (p_AddPoints (me (MsgAllot_process m s))) + asked m = unat (p_AddPoints (me s)) \<and>
      p_Force (me (MsgAllot_process m s)) = p_Force (me s) + ucast (ml_Force m) \<and>
      p_Health (me (MsgAllot_process m s)) = p_Health (me s) + ucast (ml_Health m) \<and>
      p_Dexterity (me (MsgAllot_process m s)) = p_Dexterity (me s) + ucast (ml_Dexterity m) \<and>
      p_Soul (me (MsgAllot_process m s)) = p_Soul (me s) + ucast (ml_Soul m))"
proof (cases "unat (p_AddPoints (me s)) < asked m")
  case True
  then show ?thesis by (simp add: refused_allot)
next
  case False
  let ?n = "word_of_int (uint (ml_Force m) + uint (ml_Health m) + uint (ml_Dexterity m) + uint (ml_Soul m)) :: u16"
  have n: "unat ?n = asked m" using asked_u16 [of m] by (simp add: add_ac)
  then have "unat (p_AddPoints (me s) - ?n) = unat (p_AddPoints (me s)) - asked m"
    using False by (simp add: unat_sub word_le_nat_alt)
  then show ?thesis
    using False unfolding accepted_allot [OF False] allot_def by simp
qed

definition allot_state :: "u16 \<Rightarrow> pstate" where
  "allot_state n = \<lparr>me = (Player 0 1)\<lparr>p_AddPoints := n\<rparr>, heap = (\<lambda>_. None), brk = 0, effs = []\<rparr>"

lemma allot_conserves_points_witness:
  "unat (p_AddPoints (me (MsgAllot_process \<lparr>ml_Force = 2, ml_Dexterity = 0, ml_Health = 1, ml_Soul = 0\<rparr>
     (allot_state 5)))) + 3 = 5"
  using allot_conserves_points [of "allot_state 5"
      "\<lparr>ml_Force = 2, ml_Dexterity = 0, ml_Health = 1, ml_Soul = 0\<rparr>"]
  by (simp add: asked_def allot_state_def)


definition no_rng :: rng_env where "no_rng = \<lparr>r_now = 0, r_sin = id, r_sqrt = id\<rparr>"


text \<open>An item whose price is in conquer points is paid with money: the purchase goes through when the
  player has the conquer points, none of them are taken, and the number of points is taken off
  the money, where it wraps around when there is not enough, so that the player ends up richer.\<close>
theorem conquer_points_bought_with_money:
  assumes "shop_in_reach w (mi_UniqId m) (me s)"
    and "shop (mi_UniqId m) (mi_Data m) = Inr (aInfo, 1)"
    and "i_CPs aInfo \<le> p_CPs (me s)" and "fst (awardItem inserted aInfo True s)"
    and "items_ok s"
  shows "p_CPs (me (item_buy shop inserted w m s)) = p_CPs (me s) \<and>
    p_Money (me (item_buy shop inserted w m s)) = p_Money (me s) - i_CPs aInfo \<and>
    (p_Money (me s) < i_CPs aInfo \<longrightarrow> p_Money (me s) < p_Money (me (item_buy shop inserted w m s)))"
proof -
  let ?s = "snd (awardItem inserted aInfo True s)"
  have aw: "p_CPs (me ?s) = p_CPs (me s)" "p_Money (me ?s) = p_Money (me s)"
    by (rule award_frame)+
  have b: "item_buy shop inserted w m s = snd (spendMoney (i_CPs aInfo) True ?s)"
    using assms by (simp add: item_buy_def split_beta Let_def not_less)
  have "p_CPs (me (snd (spendMoney n x s'))) = p_CPs (me s')" for n x s'
    by (simp add: spendMoney_def Let_def send_attr_def send_def)
  moreover have "x < x - n" if "x < n" for x n :: u32
    using that by (rule wrap_grows)
  ultimately show ?thesis by (simp add: b spendMoney_result aw)
qed

definition sample_shop :: world where
  "sample_shop = \<lparr>mAllPlayers = [], mAllPlayerNames = [],
     mAllNPCs = [(5, Npc 5 None TYPE_SHOPKEEPER 0 0 0 0 0 0)], mAllTasks = []\<rparr>"

definition sample_buyer :: pstate where
  "sample_buyer = on_me (\<lambda>p. p\<lparr>p_CPs := 5\<rparr>) (sample_state (Item 7 Item_Info))"

lemma sample_buyer_ok: "items_ok sample_buyer"
  using sample_state_ok [of "Item 7 Item_Info"]
  by (simp add: sample_buyer_def items_ok_def inv_on_me equip_ok_def)

lemma conquer_points_bought_with_money_witness:
  "p_Money (me (item_buy (\<lambda>_ _. Inr (Item_Info\<lparr>i_CPs := 3\<rparr>, 1)) (Some 9) sample_shop
     \<lparr>mi_UniqId = 5, mi_Data = 1, mi_Action = ITEM_BUY, mi_Timestamp = 0, mi_TargetUID = 0\<rparr>
     sample_buyer)) = - 3"
proof -
  let ?m = "\<lparr>mi_UniqId = 5, mi_Data = 1, mi_Action = ITEM_BUY, mi_Timestamp = 0, mi_TargetUID = 0\<rparr>"
  let ?i = "Item_Info\<lparr>i_CPs := 3\<rparr>"
  have "shop_in_reach sample_shop (mi_UniqId ?m) (me sample_buyer)" by code_simp
  moreover have "fst (awardItem (Some 9) ?i True sample_buyer)"
    by (simp add: awardItem_def createItem_def addItem_def sample_buyer_def sample_state_def hput_def claim_def
        Let_def tget_def tsize_def MAX_INVENTORY_SIZE_def Item_def Player_def setOwner_def setPlayer_def)
  ultimately show ?thesis
    using conquer_points_bought_with_money [of sample_shop ?m sample_buyer "\<lambda>_ _. Inr (?i, 1)" ?i "Some 9"]
    by (simp add: sample_buyer_ok) (simp add: sample_buyer_def sample_state_def Player_def Item_Info_def)
qed

lemma worn_limit_le: "it_Amount it < it_AmountLimit it \<Longrightarrow> fst (worn_limit env it seed) \<le> it_AmountLimit it"
proof -
  assume l: "it_Amount it < it_AmountLimit it"
  then have "1 \<le> uint (it_AmountLimit it)" by (simp add: word_less_def) (use uint_ge_0 [of "it_Amount it"] in linarith)
  moreover have "uint (it_AmountLimit it) < 2 ^ 16" using uint_lt2p [of "it_AmountLimit it"] by simp
  ultimately have "(word_of_int (max 1 (uint (it_AmountLimit it) - 1)) :: u16) \<le> it_AmountLimit it"
    by (simp add: word_le_def uint_word_of_int max_def)
  then show ?thesis by (simp add: worn_limit_def split_beta Let_def)
qed

definition repaired :: "item \<Rightarrow> addr \<Rightarrow> pstate \<Rightarrow> bool" where
  "repaired it a s' \<longleftrightarrow>
     (case heap s' a of None \<Rightarrow> False
      | Some it' \<Rightarrow> it_Amount it' = it_AmountLimit it' \<and> it_AmountLimit it' \<le> it_AmountLimit it)"

lemma set_both_amounts:
  "heap s a = Some it \<Longrightarrow> heap (setAmount a n True (setAmountLimit a n False s)) a =
     Some (it\<lparr>it_AmountLimit := n, it_Amount := n\<rparr>)"
  by (simp add: setAmount_def setAmountLimit_def update_item_heap)

lemma spendMoney_heap [simp]: "heap (snd (spendMoney n b s)) = heap s"
  by (simp add: spendMoney_def Let_def send_attr_def send_def)

lemma sendItem_frame [simp]: "me (sendItem act p s) = me s" "heap (sendItem act p s) = heap s"
  by (simp_all add: sendItem_def send_def split: option.split)

lemma item_repair_paid:
  assumes "getItem (mi_UniqId m) s = Some a" and "heap s a = Some it" and "isRepairEnable it"
    and "it_Amount it < it_AmountLimit it" and "getRepairCost it \<noteq> 0" and "p_Money (me s) \<noteq> getRepairCost it"
  shows "repaired it a (fst (item_repair env m s seed))"
    and "p_Money (me (fst (item_repair env m s seed))) = p_Money (me s) - getRepairCost it"
proof -
  let ?l = "fst (if isEquipment it then worn_limit env it seed else (it_AmountLimit it, seed))"
  let ?p = "snd (spendMoney (getRepairCost it) True s)"
  have "uint (it_AmountLimit it) - uint (it_Amount it) > 0" using assms(4) by (simp add: word_less_def)
  then have r: "fst (item_repair env m s seed) =
      sendItem ACTION_ITEM_UPDATE (Some a) (setAmount a ?l True (setAmountLimit a ?l False ?p))"
    using assms by (simp add: item_repair_def Let_def split_beta spendMoney_result)
  have "?l \<le> it_AmountLimit it" using worn_limit_le [OF assms(4)] by simp
  then show "repaired it a (fst (item_repair env m s seed))"
    using assms(2) by (simp add: repaired_def r set_both_amounts)
  show "p_Money (me (fst (item_repair env m s seed))) = p_Money (me s) - getRepairCost it"
    by (simp add: r spendMoney_result)
qed

text \<open>C24: What a repair costs: with more money than needed the item is repaired and its price is taken.
  With exactly the price, the money is taken and the item stays worn, with a message that there
  is not enough money.  With less than the price the item is repaired and the money wraps around
  to more than before.\<close>
theorem repair_payment:
  assumes "getItem (mi_UniqId m) s = Some a" and "heap s a = Some it" and "isRepairEnable it"
    and "it_Amount it < it_AmountLimit it" and "getRepairCost it \<noteq> 0"
  shows "(getRepairCost it < p_Money (me s) \<longrightarrow> repaired it a (fst (item_repair env m s seed)) \<and>
        p_Money (me (fst (item_repair env m s seed))) = p_Money (me s) - getRepairCost it) \<and>
    (getRepairCost it = p_Money (me s) \<longrightarrow> heap (fst (item_repair env m s seed)) = heap s \<and>
        p_Money (me (fst (item_repair env m s seed))) = 0) \<and>
    (p_Money (me s) < getRepairCost it \<longrightarrow> repaired it a (fst (item_repair env m s seed)) \<and>
        p_Money (me s) < p_Money (me (fst (item_repair env m s seed))))"
proof -
  have "fst (item_repair env m s seed) =
      sendSysMsg ''STR_REPAIR_NO_MONEY'' (snd (spendMoney (getRepairCost it) True s))"
    if "getRepairCost it = p_Money (me s)"
    using that assms spendMoney_result(1) [of "getRepairCost it" True s]
    by (simp add: item_repair_def Let_def split_beta word_less_def)
  then have "getRepairCost it = p_Money (me s) \<Longrightarrow> heap (fst (item_repair env m s seed)) = heap s \<and>
        p_Money (me (fst (item_repair env m s seed))) = 0"
    by (simp add: spendMoney_result sendSysMsg_def)
  then show ?thesis
    using item_repair_paid [OF assms] wrap_grows by auto
qed

definition worn_helmet :: item where
  "worn_helmet = (Item 7 (Item_Info\<lparr>i_Id := 111003\<rparr>))\<lparr>it_AmountLimit := 200, it_Amount := 50\<rparr>"

lemma repair_payment_witness:
  "p_Money (me (sample_state worn_helmet)) <
   p_Money (me (fst (item_repair no_rng
     \<lparr>mi_UniqId = 7, mi_Data = 0, mi_Action = ITEM_REPAIR, mi_Timestamp = 0, mi_TargetUID = 0\<rparr>
     (sample_state worn_helmet) 0)))"
proof -
  have c: "isRepairEnable worn_helmet" "getRepairCost worn_helmet = 1" "it_UID worn_helmet = 7"
    "it_Amount worn_helmet < it_AmountLimit worn_helmet" by code_simp+
  have "getItem 7 (sample_state worn_helmet) = Some 0" "heap (sample_state worn_helmet) 0 = Some worn_helmet"
    by (simp_all add: sample_state_def getItem_def tget_def c(3))
  moreover have "p_Money (me (sample_state worn_helmet)) = 0" by (simp add: sample_state_def Player_def)
  ultimately show ?thesis
    using repair_payment [of "\<lparr>mi_UniqId = 7, mi_Data = 0, mi_Action = ITEM_REPAIR, mi_Timestamp = 0, mi_TargetUID = 0\<rparr>"
        "sample_state worn_helmet" 0 worn_helmet no_rng 0] c by simp
qed

text \<open>The answer to a tick: it counts exactly when it is about the own player, carries the checksum of
  the player's name, and the client's clock neither runs backwards nor looks suspicious.  The
  message counter takes no part: the handler always passes one, so the counter that
  \<open>processTick\<close> compares is one and the comparison never fails.\<close>
theorem tick_verdict:
  assumes "p_MsgCount (me s) = 0 \<or> p_MsgCount (me s) = 1"
  shows "let s' = MsgTick_process serverTime rcvTime m s; t = sint (mt_Timestamp m XOR mt_UniqId m) in
    (Disconnect \<notin> set (drop (length (effs s)) (effs s')) \<longleftrightarrow>
       mt_UniqId m = p_UID (me s) \<and> mt_CheckData m = name_checksum (p_Name (me s)) \<and>
       t \<ge> p_LastClientTick (me s) \<and> \<not> suspicious serverTime t (me s)) \<and>
    (p_MsgCount (me s') = 0 \<or> p_MsgCount (me s') = 1)"
  using assms
  by (auto simp: MsgTick_process_def processTick_def Let_def effect_defs suspicious_def accept_tick_def count_off_def)

lemma tick_verdict_witness:
  "Disconnect \<notin> set (effs (MsgTick_process 1000 1000
     \<lparr>mt_UniqId = 1, mt_Timestamp = 501, mt_CheckData = name_checksum (bytes ''Unknown'')\<rparr> (fresh 1)))"
  using tick_verdict [of "fresh 1" 1000 1000
      "\<lparr>mt_UniqId = 1, mt_Timestamp = 501, mt_CheckData = name_checksum (bytes ''Unknown'')\<rparr>"]
  by (simp add: Let_def fresh_def Player_def suspicious_def)

end
