(* ===== verification/Packets.thy ===== *)
theory Packets
  imports PlayerMsgs Session
begin

text \<open>
  The messages as bytes: the strings that are packed at the end of a message
  (\<^verbatim>\<open>stringpacker.cpp\<close>), and the \<^verbatim>\<open>create\<close> functions of the message classes, which fill a zeroed
  buffer.
\<close>

section \<open>Packed structures\<close>

text \<open>The fields of a packed structure, in their order; \<open>FStr\<close> is a \<^verbatim>\<open>char\<close> array with a C string in it.\<close>

datatype field =
    F8 u8 | F16 u16 | F32 u32 | F64 u64
  | FZero nat
  | FStr nat "u8 list"

definition wr64 :: "u64 \<Rightarrow> u8 list" where
  "wr64 w = wr32 (ucast w) @ wr32 (ucast (drop_bit 32 w))"

fun field_bytes :: "field \<Rightarrow> u8 list" where
  "field_bytes (F8 b) = [b]"
| "field_bytes (F16 w) = wr16 w"
| "field_bytes (F32 w) = wr32 w"
| "field_bytes (F64 w) = wr64 w"
| "field_bytes (FZero n) = replicate n 0"
| "field_bytes (FStr n s) = take n (s @ replicate n 0)"

definition lay :: "field list \<Rightarrow> u8 list" where "lay fs = concat (map field_bytes fs)"

text \<open>
  A message of \<open>extra\<close> bytes beyond its structure: the header, the fields and the zeroes the
  constructor left.
\<close>

definition packed :: "u16 \<Rightarrow> field list \<Rightarrow> nat \<Rightarrow> u8 list" where
  "packed ty fs extra =
     (let body = lay fs; mLen = 4 + length body + extra
      in wr16 (of_nat mLen) @ wr16 ty @ body @ replicate extra 0)"

text \<open>A message that \<open>create\<close> refused to fill.\<close>

definition unfilled :: "nat \<Rightarrow> u8 list" where "unfilled mLen = replicate mLen 0"

section \<open>Packed strings (stringpacker.cpp)\<close>

text \<open>A buffer under construction, and the number of bytes that were written after its end.\<close>

record wbuf =
  w_bytes :: "u8 list"
  w_beyond :: nat

definition poke :: "nat \<Rightarrow> u8 \<Rightarrow> wbuf \<Rightarrow> wbuf" where
  "poke i b w =
     (if i < length (w_bytes w) then w\<lparr>w_bytes := (w_bytes w)[i := b]\<rparr>
      else w\<lparr>w_beyond := w_beyond w + 1\<rparr>)"

fun pokes :: "nat \<Rightarrow> u8 list \<Rightarrow> wbuf \<Rightarrow> wbuf" where
  "pokes i [] w = w"
| "pokes i (b # bs) w = pokes (i + 1) bs (poke i b w)"

record packer =
  sp_Buf :: nat   \<comment> \<open>where the strings begin in the message\<close>
  sp_StrCount :: u8

definition StringPacker :: "nat \<Rightarrow> u8 list \<Rightarrow> packer option" where
  "StringPacker aBuf buf = map_option (\<lambda>n. \<lparr>sp_Buf = aBuf, sp_StrCount = n\<rparr>) (at8 buf aBuf)"

text \<open>The loop that steps over strings by their lengths.\<close>

fun skip_strings :: "u8 list \<Rightarrow> nat \<Rightarrow> nat \<Rightarrow> nat option" where
  "skip_strings buf ptr 0 = Some ptr"
| "skip_strings buf ptr (Suc k) =
     (case at8 buf ptr of None \<Rightarrow> None | Some len \<Rightarrow> skip_strings buf (ptr + 1 + unat len) k)"

text \<open>\<^verbatim>\<open>strcpy\<close> copies the zero of the string too.\<close>

definition addString :: "u8 list \<Rightarrow> packer \<times> wbuf \<Rightarrow> (packer \<times> wbuf) option" where
  "addString aStr pw =
     (case pw of (p, w) \<Rightarrow>
        case skip_strings (w_bytes w) (sp_Buf p + 1) (unat (sp_StrCount p)) of
          None \<Rightarrow> None
        | Some ptr \<Rightarrow>
            let w = poke ptr (of_nat (length aStr)) w;
                w = pokes (ptr + 1) (aStr @ [0]) w;
                p = p\<lparr>sp_StrCount := sp_StrCount p + 1\<rparr>
            in Some (p, poke (sp_Buf p) (sp_StrCount p) w))"

text \<open>\<open>None\<close>: reads after the buffer; \<open>Some None\<close>: false is returned.\<close>

definition getString :: "nat \<Rightarrow> u8 \<Rightarrow> packer \<Rightarrow> u8 list \<Rightarrow> u8 list option option" where
  "getString aLen aIndex p buf =
     (if aIndex < sp_StrCount p then
        (case skip_strings buf (sp_Buf p + 1) (unat aIndex) of
           None \<Rightarrow> None
         | Some ptr \<Rightarrow>
             case at8 buf ptr of
               None \<Rightarrow> None
             | Some len \<Rightarrow>
                 if aLen > unat len then map_option Some (bytes_at buf (ptr + 1) (unat len))
                 else Some None)
      else Some None)"

fun add_all :: "u8 list list \<Rightarrow> packer \<times> wbuf \<Rightarrow> (packer \<times> wbuf) option" where
  "add_all [] pw = Some pw"
| "add_all (s # ss) pw = Option.bind (addString s pw) (add_all ss)"

text \<open>The end of the \<^verbatim>\<open>create\<close> functions with strings: a packer on the last byte of the structure.\<close>

definition with_strings :: "nat \<Rightarrow> u8 list list \<Rightarrow> u8 list \<Rightarrow> wbuf option" where
  "with_strings off strs buf =
     (case StringPacker off buf of
        None \<Rightarrow> None
      | Some p \<Rightarrow> map_option snd (add_all strs (p, \<lparr>w_bytes = buf, w_beyond = 0\<rparr>)))"

section \<open>What packing gives\<close>

definition string_bytes :: "u8 list \<Rightarrow> u8 list" where
  "string_bytes s = of_nat (length s) # s"

lemma length_string_bytes [simp]: "length (string_bytes s) = Suc (length s)"
  by (simp add: string_bytes_def)

lemma at8_nth: "k < length buf \<Longrightarrow> at8 buf k = Some (buf ! k)"
  by (simp add: at8_def Cons_nth_drop_Suc [symmetric])

lemma skip_packed:
  assumes "list_all (\<lambda>s. length s < 256) strs"
  shows "skip_strings (pre @ concat (map string_bytes strs) @ rest) (length pre) (length strs) =
    Some (length pre + length (concat (map string_bytes strs)))"
  using assms
proof (induction strs arbitrary: pre)
  case (Cons s strs)
  have l: "unat (of_nat (length s) :: u8) = length s"
    using Cons.prems by (simp add: unat_of_nat take_bit_nat_eq_self)
  have "at8 (pre @ concat (map string_bytes (s # strs)) @ rest) (length pre) = Some (of_nat (length s))"
    by (simp add: string_bytes_def at_written)
  then have "skip_strings (pre @ concat (map string_bytes (s # strs)) @ rest) (length pre) (length (s # strs)) =
      skip_strings ((pre @ string_bytes s) @ concat (map string_bytes strs) @ rest)
        (length (pre @ string_bytes s)) (length strs)"
    by (simp add: l string_bytes_def)
  also have "\<dots> = Some (length (pre @ string_bytes s) + length (concat (map string_bytes strs)))"
    using Cons.prems by (intro Cons.IH) simp
  finally show ?case by simp
qed simp

lemma poke_out [simp]: "length (w_bytes w) \<le> i \<Longrightarrow> poke i b w = w\<lparr>w_beyond := w_beyond w + 1\<rparr>"
  by (simp add: poke_def)

lemma poke_mid [simp]:
  "poke (length pre) b \<lparr>w_bytes = pre @ x # rest, w_beyond = n\<rparr> = \<lparr>w_bytes = pre @ b # rest, w_beyond = n\<rparr>"
  by (simp add: poke_def list_update_append)

lemma pokes_mid:
  "length bs = length old \<Longrightarrow> pokes (length pre) bs \<lparr>w_bytes = pre @ old @ rest, w_beyond = n\<rparr> =
     \<lparr>w_bytes = pre @ bs @ rest, w_beyond = n\<rparr>"
proof (induction bs old arbitrary: pre rule: list_induct2)
  case (Cons b bs x old)
  have "pokes (length pre) (b # bs) \<lparr>w_bytes = pre @ (x # old) @ rest, w_beyond = n\<rparr> =
      pokes (length (pre @ [b])) bs \<lparr>w_bytes = (pre @ [b]) @ old @ rest, w_beyond = n\<rparr>"
    by simp
  then show ?case using Cons.IH [of "pre @ [b]"] by simp
qed simp

lemma pokes_append: "pokes i (xs @ ys) w = pokes (i + length xs) ys (pokes i xs w)"
  by (induction xs arbitrary: i w) simp_all

text \<open>
  Adding a string behind the ones that are there: the length and the bytes of the string replace
  the zeroes, the zero that ends the string falls on the byte after it, inside of the buffer or
  beyond its end.
\<close>

lemma addString_packed:
  assumes "list_all (\<lambda>s. length s < 256) strs" and "length str < 256" and "length strs < 255"
    and "length gap = 1 + length str"
  shows "addString str (\<lparr>sp_Buf = length pre, sp_StrCount = of_nat (length strs)\<rparr>,
      \<lparr>w_bytes = pre @ of_nat (length strs) # concat (map string_bytes strs) @ gap @ rest, w_beyond = n\<rparr>) =
    Some (\<lparr>sp_Buf = length pre, sp_StrCount = of_nat (length (strs @ [str]))\<rparr>,
      \<lparr>w_bytes = pre @ of_nat (length (strs @ [str])) # concat (map string_bytes (strs @ [str])) @
          (case rest of [] \<Rightarrow> [] | r # rs \<Rightarrow> 0 # rs),
       w_beyond = (if rest = [] then n + 1 else n)\<rparr>)"
proof -
  let ?c = "(of_nat (length strs) :: u8)"
  let ?front = "pre @ [?c]" and ?mid = "concat (map string_bytes strs)"
  have c: "unat ?c = length strs" using assms(3) by (simp add: unat_of_nat take_bit_nat_eq_self)
  have sk: "skip_strings (pre @ ?c # ?mid @ gap @ rest) (length pre + 1) (unat ?c) =
      Some (length (?front @ ?mid))"
    using skip_packed [OF assms(1), of ?front "gap @ rest"] by (simp add: c)
  obtain g gs where g: "gap = g # gs" "length gs = length str" using assms(4) by (cases gap) auto
  have p1: "poke (length (?front @ ?mid)) (of_nat (length str))
        \<lparr>w_bytes = pre @ ?c # ?mid @ gap @ rest, w_beyond = n\<rparr> =
      \<lparr>w_bytes = (?front @ ?mid @ [of_nat (length str)]) @ gs @ rest, w_beyond = n\<rparr>"
    using poke_mid [of "?front @ ?mid" _ g "gs @ rest"] by (simp add: g)
  have p2: "pokes (length (?front @ ?mid) + 1) str
        \<lparr>w_bytes = (?front @ ?mid @ [of_nat (length str)]) @ gs @ rest, w_beyond = n\<rparr> =
      \<lparr>w_bytes = (?front @ ?mid @ [of_nat (length str)]) @ str @ rest, w_beyond = n\<rparr>"
    using pokes_mid [of str gs "?front @ ?mid @ [of_nat (length str)]" rest n] g by simp
  let ?all = "?front @ ?mid @ string_bytes str"
  have p3: "pokes (length (?front @ ?mid) + 1 + length str) [0]
        \<lparr>w_bytes = (?front @ ?mid @ [of_nat (length str)]) @ str @ rest, w_beyond = n\<rparr> =
      \<lparr>w_bytes = ?all @ (case rest of [] \<Rightarrow> [] | r # rs \<Rightarrow> 0 # rs),
       w_beyond = (if rest = [] then n + 1 else n)\<rparr>"
  proof (cases rest)
    case (Cons r rs)
    then show ?thesis using poke_mid [of ?all 0 r rs n] by (simp add: string_bytes_def add.assoc)
  qed (simp add: string_bytes_def)
  have p4: "poke (length pre) (?c + 1) \<lparr>w_bytes = ?all @ tl', w_beyond = m\<rparr> =
      \<lparr>w_bytes = pre @ (?c + 1) # ?mid @ string_bytes str @ tl', w_beyond = m\<rparr>" for tl' m
    using poke_mid [of pre "?c + 1" ?c "?mid @ string_bytes str @ tl'" m] by simp
  have "of_nat (length (strs @ [str])) = ?c + 1" by simp
  then show ?thesis
    by (simp only: addString_def case_prod_conv packer.simps packer.select_convs wbuf.select_convs sk option.case
        Let_def p1 pokes_append p2 p3 p4 packer.update_convs) simp
qed

lemma add_all_packed:
  assumes "list_all (\<lambda>s. length s < 256) (strs @ new)" and "length strs + length new \<le> 255"
    and "length gap = length (concat (map string_bytes new))"
  shows "add_all new (\<lparr>sp_Buf = length pre, sp_StrCount = of_nat (length strs)\<rparr>,
      \<lparr>w_bytes = pre @ of_nat (length strs) # concat (map string_bytes strs) @ gap, w_beyond = n\<rparr>) =
    Some (\<lparr>sp_Buf = length pre, sp_StrCount = of_nat (length (strs @ new))\<rparr>,
      \<lparr>w_bytes = pre @ of_nat (length (strs @ new)) # concat (map string_bytes (strs @ new)),
       w_beyond = (if new = [] then n else n + 1)\<rparr>)"
  using assms
proof (induction new arbitrary: strs gap n)
  case (Cons s new)
  let ?k = "1 + length s"
  let ?gap = "take ?k gap" and ?rest = "drop ?k gap"
  let ?rest' = "case ?rest of [] \<Rightarrow> [] | r # rs \<Rightarrow> 0 # rs"
  have len: "length gap = ?k + length (concat (map string_bytes new))"
    using Cons.prems(3) by simp
  have g: "gap = ?gap @ ?rest" "length ?gap = ?k" using len by simp_all
  have r: "length ?rest' = length (concat (map string_bytes new))"
  proof -
    have "length ?rest = length (concat (map string_bytes new))" using len by simp
    moreover have "length (case xs of [] \<Rightarrow> [] | r # rs \<Rightarrow> 0 # rs) = length xs" for xs :: "u8 list"
      by (cases xs) simp_all
    ultimately show ?thesis by metis
  qed
  have e: "?rest = [] \<longleftrightarrow> new = []"
    using len by (cases new) simp_all
  have one: "addString s (\<lparr>sp_Buf = length pre, sp_StrCount = of_nat (length strs)\<rparr>,
      \<lparr>w_bytes = pre @ of_nat (length strs) # concat (map string_bytes strs) @ gap, w_beyond = n\<rparr>) =
    Some (\<lparr>sp_Buf = length pre, sp_StrCount = of_nat (length (strs @ [s]))\<rparr>,
      \<lparr>w_bytes = pre @ of_nat (length (strs @ [s])) # concat (map string_bytes (strs @ [s])) @ ?rest',
       w_beyond = (if new = [] then n + 1 else n)\<rparr>)"
    using addString_packed [of strs s ?gap pre ?rest n] Cons.prems(1,2) g e by simp
  have "add_all (s # new) (\<lparr>sp_Buf = length pre, sp_StrCount = of_nat (length strs)\<rparr>,
      \<lparr>w_bytes = pre @ of_nat (length strs) # concat (map string_bytes strs) @ gap, w_beyond = n\<rparr>) =
    add_all new (\<lparr>sp_Buf = length pre, sp_StrCount = of_nat (length (strs @ [s]))\<rparr>,
      \<lparr>w_bytes = pre @ of_nat (length (strs @ [s])) # concat (map string_bytes (strs @ [s])) @ ?rest',
       w_beyond = (if new = [] then n + 1 else n)\<rparr>)"
    by (simp only: add_all.simps one Option.bind.simps)
  also have "\<dots> = Some (\<lparr>sp_Buf = length pre, sp_StrCount = of_nat (length ((strs @ [s]) @ new))\<rparr>,
      \<lparr>w_bytes = pre @ of_nat (length ((strs @ [s]) @ new)) # concat (map string_bytes ((strs @ [s]) @ new)),
       w_beyond = (if new = [] then (if new = [] then n + 1 else n) else (if new = [] then n + 1 else n) + 1)\<rparr>)"
    using Cons.prems(1,2) r by (intro Cons.IH) simp_all
  finally show ?case by (cases new) simp_all
qed simp

text \<open>What a \<^verbatim>\<open>create\<close> function with strings leaves: the zero of the last string is beyond the buffer.\<close>

lemma with_strings_packed:
  assumes "list_all (\<lambda>s. length s < 256) strs" and "length strs \<le> 255" and "strs \<noteq> []"
    and "length gap = length (concat (map string_bytes strs))" and "off = length pre"
  shows "with_strings off strs (pre @ 0 # gap) =
    Some \<lparr>w_bytes = pre @ of_nat (length strs) # concat (map string_bytes strs), w_beyond = 1\<rparr>"
  using add_all_packed [of "[]" strs gap pre 0] assms
  by (simp add: with_strings_def StringPacker_def at_written)

lemma getString_packed:
  assumes "list_all (\<lambda>s. length s < 256) strs" and "length strs \<le> 255" and "i < length strs"
    and "length (strs ! i) < aLen"
  shows "getString aLen (of_nat i) \<lparr>sp_Buf = length pre, sp_StrCount = of_nat (length strs)\<rparr>
      (pre @ of_nat (length strs) # concat (map string_bytes strs)) = Some (Some (strs ! i))"
proof -
  let ?c = "of_nat (length strs) :: u8"
  have u: "unat (of_nat k :: u8) = k" if "k \<le> 255" for k
    using that by (simp add: unat_of_nat take_bit_nat_eq_self)
  have li: "length (strs ! i) < 256" using assms(1,3) by (simp add: list_all_length)
  have s: "strs = take i strs @ (strs ! i) # drop (Suc i) strs" using assms(3) by (rule id_take_nth_drop)
  let ?front = "(pre @ [?c]) @ concat (map string_bytes (take i strs))"
  let ?tail = "concat (map string_bytes (drop (Suc i) strs))"
  have buf: "pre @ ?c # concat (map string_bytes strs) = ?front @ string_bytes (strs ! i) @ ?tail"
    by (subst (2) s) simp
  have "list_all (\<lambda>s. length s < 256) (take i strs)"
    using assms(1) s by (metis list_all_append)
  from skip_packed [OF this, of "pre @ [?c]" "string_bytes (strs ! i) @ ?tail"]
  have sk: "skip_strings (?front @ string_bytes (strs ! i) @ ?tail) (length pre + 1) i = Some (length ?front)"
    using assms(3) by simp
  have a: "at8 (?front @ string_bytes (strs ! i) @ ?tail) (length ?front) = Some (of_nat (length (strs ! i)))"
    unfolding string_bytes_def append_Cons by (rule at_written(1)) simp
  have b: "bytes_at (?front @ string_bytes (strs ! i) @ ?tail) (length ?front + 1) (length (strs ! i)) = Some (strs ! i)"
    using at_written(4) [of "?front @ [of_nat (length (strs ! i))]" "length ?front + 1" "strs ! i" "length (strs ! i)" ?tail]
    by (simp add: string_bytes_def)
  have lt: "(of_nat i :: u8) < ?c" using assms(2,3) by (simp add: word_less_nat_alt u)
  have ui: "unat (of_nat i :: u8) = i" "unat (of_nat (length (strs ! i)) :: u8) = length (strs ! i)"
    using u assms(2,3) li by simp_all
  show ?thesis
    unfolding getString_def packer.select_convs buf if_P [OF lt] ui(1) sk option.case a
    using assms(4) b by (simp add: ui)
qed

section \<open>Outgoing messages\<close>

definition MAX_NAMESIZE :: nat where "MAX_NAMESIZE = 16"
definition MAX_WORDSSIZE :: nat where "MAX_WORDSSIZE = 255"
definition MAX_PARAMSIZE :: nat where "MAX_PARAMSIZE = 255"

definition MSG_TALK :: u16 where "MSG_TALK = 1004"
definition MSG_USERINFO :: u16 where "MSG_USERINFO = 1006"
definition MSG_ITEMINFO :: u16 where "MSG_ITEMINFO = 1008"
definition MSG_TICK :: u16 where "MSG_TICK = 1012"
definition MSG_PLAYER :: u16 where "MSG_PLAYER = 1014"
definition MSG_WEATHER :: u16 where "MSG_WEATHER = 1016"
definition MSG_USERATTRIB :: u16 where "MSG_USERATTRIB = 1017"
definition MSG_WEAPONSKILL :: u16 where "MSG_WEAPONSKILL = 1025"
definition MSG_DATE :: u16 where "MSG_DATE = 1033"
definition MSG_CONNECTEX :: u16 where "MSG_CONNECTEX = 1055"
definition MSG_MAGICINFO :: u16 where "MSG_MAGICINFO = 1103"
definition MSG_FLUSHEXP :: u16 where "MSG_FLUSHEXP = 1104"
definition MSG_MAPINFO :: u16 where "MSG_MAPINFO = 1110"
definition MSG_NPCINFO :: u16 where "MSG_NPCINFO = 2030"
definition MSG_NPC :: u16 where "MSG_NPC = 2031"
definition MSG_DIALOG :: u16 where "MSG_DIALOG = 2032"
definition MSG_FRIENDINFO :: u16 where "MSG_FRIENDINFO = 2033"

lemmas msg_types =
  MSG_WALK_def MSG_ITEM_def MSG_ACTION_def MSG_TALK_def MSG_USERINFO_def MSG_ITEMINFO_def MSG_TICK_def MSG_PLAYER_def
  MSG_WEATHER_def MSG_USERATTRIB_def MSG_WEAPONSKILL_def MSG_DATE_def MSG_CONNECTEX_def MSG_MAGICINFO_def
  MSG_FLUSHEXP_def MSG_MAPINFO_def MSG_NPCINFO_def MSG_NPC_def MSG_DIALOG_def MSG_FRIENDINFO_def

text \<open>The numbers of the attributes on the wire.\<close>

fun attrib_code :: "attrib \<Rightarrow> u32" where
  "attrib_code USER_ATTRIB_LIFE = 0" | "attrib_code USER_ATTRIB_MAX_LIFE = 1"
| "attrib_code USER_ATTRIB_MANA = 2" | "attrib_code USER_ATTRIB_MAX_MANA = 3"
| "attrib_code USER_ATTRIB_MONEY = 4" | "attrib_code USER_ATTRIB_EXP = 5"
| "attrib_code USER_ATTRIB_PK = 6" | "attrib_code USER_ATTRIB_PROFESSION = 7"
| "attrib_code USER_ATTRIB_SIZE_ADD = 8" | "attrib_code USER_ATTRIB_ENERGY = 9"
| "attrib_code USER_ATTRIB_MONEY_SAVED = 10" | "attrib_code USER_ATTRIB_ADD_POINT = 11"
| "attrib_code USER_ATTRIB_LOOK_FACE = 12" | "attrib_code USER_ATTRIB_LEV = 13"
| "attrib_code USER_ATTRIB_SOUL = 14" | "attrib_code USER_ATTRIB_HEALTH = 15"
| "attrib_code USER_ATTRIB_FORCE = 16" | "attrib_code USER_ATTRIB_DEXTERITY = 17"
| "attrib_code USER_ATTRIB_BLESS_TIME = 18" | "attrib_code USER_ATTRIB_DBL_EXP_TIME = 19"
| "attrib_code USER_ATTRIB_CURSE_TIME = 21" | "attrib_code USER_ATTRIB_TIME_ADD = 22"
| "attrib_code USER_ATTRIB_METEMPSYCHOSIS = 23" | "attrib_code USER_ATTRIB_STATUS = 26"
| "attrib_code USER_ATTRIB_HAIR = 27" | "attrib_code USER_ATTRIB_XP = 28"
| "attrib_code USER_ATTRIB_LUCKY_TIME = 29" | "attrib_code USER_ATTRIB_CPS = 30"
| "attrib_code USER_ATTRIB_TRAINING_POINTS = 32"

text \<open>Messages of a fixed size; \<open>now\<close> is \<^verbatim>\<open>timeGetTime()\<close>.\<close>

definition MsgWalk_create :: "u32 \<Rightarrow> u8 \<Rightarrow> bool \<Rightarrow> u8 list" where
  "MsgWalk_create aUniqId aDirection aIsRunning =
     packed (of_nat MSG_WALK) [F32 aUniqId, F8 aDirection, F8 (if \<not> aIsRunning then 0 else 1), F16 0] 0"

definition MsgAction_create :: "u32 \<Rightarrow> (u32 \<times> u16 \<times> u16 \<times> u8) option \<Rightarrow> u32 \<Rightarrow> nat \<Rightarrow> u8 list" where
  "MsgAction_create now aEntity aData aAction =
     (let (uid, x, y, dir) = (case aEntity of None \<Rightarrow> (0, 0, 0, 0) | Some e \<Rightarrow> e)
      in packed (of_nat MSG_ACTION)
           [F32 now, F32 uid, F32 aData, F16 x, F16 y, F16 (ucast dir), F16 (of_nat aAction)] 0)"

definition MsgItem_create :: "u32 \<Rightarrow> u32 \<Rightarrow> u32 \<Rightarrow> u32 \<Rightarrow> nat \<Rightarrow> u8 list" where
  "MsgItem_create now aUID aData aTargetUID aAction =
     packed (of_nat MSG_ITEM)
       [F32 aUID, F32 aData, F32 (ucast (of_nat aAction :: u16)), F32 now, F32 aTargetUID] 0"

definition MsgItemInfo_create :: "item \<Rightarrow> nat \<Rightarrow> u8 list" where
  "MsgItemInfo_create it aAction =
     packed MSG_ITEMINFO
       [F32 (it_UID it), F32 (i_Id (it_Info it)), F16 (it_Amount it), F16 (it_AmountLimit it),
        F8 (of_nat aAction), F8 (it_Ident it), F8 (of_nat (it_Position it)), FZero 5,
        F8 (it_Gem1 it), F8 (it_Gem2 it), F8 (it_Magic1 it), F8 (it_Magic2 it), F8 (it_Magic3 it),
        F8 (it_Bless it), F8 (it_Enchant it), F8 0, F32 (it_Restrain it),
        F16 (of_bool (it_Suspicious it)), F16 (of_bool (it_Locked it)), F32 (ucast (it_Color it))] 0"

definition MsgTick_create :: "player \<Rightarrow> u8 list" where
  "MsgTick_create p = packed MSG_TICK [F32 (p_UID p), F32 0, FZero 16, F32 0] 0"

definition MsgUserAttrib_create :: "u32 \<Rightarrow> u64 \<Rightarrow> attrib \<Rightarrow> u8 list" where
  "MsgUserAttrib_create uid aData aType =
     packed MSG_USERATTRIB [F32 uid, F32 1, F32 (attrib_code aType), F64 aData] 0"

definition MsgWeaponSkill_create :: "u16 \<Rightarrow> u8 \<Rightarrow> u32 \<Rightarrow> u8 list" where
  "MsgWeaponSkill_create type level exp' =
     packed MSG_WEAPONSKILL [F32 (ucast type), F32 (ucast level), F32 exp'] 0"

definition MsgMagicInfo_create :: "u16 \<Rightarrow> u16 \<Rightarrow> u32 \<Rightarrow> u8 list" where
  "MsgMagicInfo_create type level exp' = packed MSG_MAGICINFO [F32 exp', F16 type, F16 level] 0"

definition MsgFlushExp_create :: "u16 \<Rightarrow> u32 \<Rightarrow> nat \<Rightarrow> u8 list" where
  "MsgFlushExp_create aType aExp aAction = packed MSG_FLUSHEXP [F32 aExp, F16 aType, F8 (of_nat aAction)] 0"

definition MsgMapInfo_create :: "game_map \<Rightarrow> u8 list" where
  "MsgMapInfo_create g =
     packed MSG_MAPINFO [F32 (g_UID g), F32 (ucast (DocID (g_Info g))), F32 (Type (g_Info g))] 0"

definition MsgWeather_create :: "u32 \<Rightarrow> u32 \<Rightarrow> u32 \<Rightarrow> u32 \<Rightarrow> u8 list" where
  "MsgWeather_create aType aIntensity aDirection aColor =
     packed MSG_WEATHER [F32 aType, F32 aIntensity, F32 aDirection, F32 aColor] 0"

text \<open>The broken-down local time, as \<^verbatim>\<open>localtime\<close> gives it.\<close>

record tm =
  tm_sec :: u32
  tm_min :: u32
  tm_hour :: u32
  tm_mday :: u32
  tm_mon :: u32
  tm_year :: u32
  tm_yday :: u32

definition MsgDate_create :: "tm \<Rightarrow> u8 list" where
  "MsgDate_create t =
     packed MSG_DATE [F32 0, F32 (tm_year t), F32 (tm_mon t), F32 (tm_yday t), F32 (tm_mday t),
                      F32 (tm_hour t), F32 (tm_min t), F32 (tm_sec t)] 0"

definition MsgNpc_create :: "u32 \<Rightarrow> u32 \<Rightarrow> u16 \<Rightarrow> u16 \<Rightarrow> u8 list" where
  "MsgNpc_create aId aData aType aEvent = packed MSG_NPC [F32 aId, F32 aData, F16 aEvent, F16 aType] 0"

text \<open>The \<^verbatim>\<open>char\<close> array of the next two is written with \<^verbatim>\<open>strcpy\<close> and \<^verbatim>\<open>strncpy\<close> into a zeroed buffer.\<close>

definition MsgConnectEx_create :: "u32 \<Rightarrow> u32 \<Rightarrow> u8 list \<Rightarrow> u16 \<Rightarrow> u8 list" where
  "MsgConnectEx_create aAccUID aData aInfo aPort =
     (if length aInfo < MAX_NAMESIZE
      then packed MSG_CONNECTEX [F32 aAccUID, F32 aData, FStr MAX_NAMESIZE aInfo, F32 (ucast aPort)] 0
      else unfilled 32)"

definition MsgFriendInfo_create :: "player \<Rightarrow> u8 list" where
  "MsgFriendInfo_create p =
     (if length (p_Mate p) < MAX_NAMESIZE
      then packed MSG_FRIENDINFO
             [F32 (p_UID p), F32 (p_Look p), F8 (p_Level p), F8 (p_Profession p),
              F16 (ucast (p_Profession p)), F32 0, FStr MAX_NAMESIZE (p_Mate p)] 0
      else unfilled 36)"

text \<open>Messages with strings: the structure ends with the count of the strings.\<close>

definition packed_with :: "u16 \<Rightarrow> field list \<Rightarrow> u8 list list \<Rightarrow> wbuf option" where
  "packed_with ty fs strs =
     with_strings (4 + length (lay fs)) strs
       (packed ty (fs @ [F8 0]) (sum_list (map (\<lambda>s. length s + 1) strs)))"

definition unfilled_with :: "field list \<Rightarrow> u8 list list \<Rightarrow> wbuf option" where
  "unfilled_with fs strs =
     Some \<lparr>w_bytes = unfilled (4 + length (lay fs) + 1 + sum_list (map (\<lambda>s. length s + 1) strs)), w_beyond = 0\<rparr>"

definition MsgNpcInfo_create :: "npc \<Rightarrow> wbuf option" where
  "MsgNpcInfo_create n =
     (let fs = [F32 (n_UID n), F16 (n_PosX n), F16 (n_PosY n), F16 (n_Look n), F16 (ucast (n_Type n)),
                F16 (ucast (n_Sort n)), F8 0, F8 0]
      in case n_Name n of
           None \<Rightarrow> Some \<lparr>w_bytes = packed MSG_NPCINFO (fs @ [F8 0]) 0, w_beyond = 0\<rparr>
         | Some name \<Rightarrow>
             if length name < MAX_NAMESIZE then packed_with MSG_NPCINFO fs [name]
             else Some \<lparr>w_bytes = packed MSG_NPCINFO (fs @ [F8 0]) (length name + 1), w_beyond = 0\<rparr>)"

definition equip_type :: "pstate \<Rightarrow> position \<Rightarrow> u32" where
  "equip_type s pos = (case equip_at s pos of None \<Rightarrow> 0 | Some it \<Rightarrow> i_Id (it_Info it))"

definition equip_color :: "pstate \<Rightarrow> position \<Rightarrow> u16" where
  "equip_color s pos = (case equip_at s pos of None \<Rightarrow> 0 | Some it \<Rightarrow> ucast (it_Color it))"

definition MsgPlayer_create :: "pstate \<Rightarrow> wbuf option" where
  "MsgPlayer_create s =
     (let p = me s;
          fs = [F32 (p_UID p), F32 (p_Look p), F64 0, F32 0,
                F32 (equip_type s POS_GARMENT), F32 (equip_type s POS_ARMET), F32 (equip_type s POS_ARMOR),
                F32 (equip_type s POS_RWEAPON), F32 (equip_type s POS_LWEAPON), FZero 4, F16 0, F16 0,
                F16 (p_PosX p), F16 (p_PosY p), F16 (p_Hair p), F8 (p_Direction p), F8 (ucast (p_Pose p)),
                F16 (ucast (p_Metempsychosis p)), F16 (ucast (p_Level p)), FZero 4, F32 0, F32 (p_UID p), F32 0,
                FZero 4, F16 (equip_color s POS_ARMET), F16 (equip_color s POS_ARMOR), FZero 2]
      in if length (p_Name p) < MAX_NAMESIZE then packed_with MSG_PLAYER fs [p_Name p]
         else unfilled_with fs [p_Name p])"

text \<open>A monster, with the look, level and name of its type.\<close>

definition MsgPlayer_monster :: "u32 \<Rightarrow> u8 \<Rightarrow> u8 list \<Rightarrow> ent \<Rightarrow> wbuf option" where
  "MsgPlayer_monster look level name e =
     (let fs = [F32 (e_UID e), F32 look, F64 0, F32 0, F32 0, F32 0, F32 0, F32 0, F32 0, FZero 4,
                F16 (e_CurHP e), F16 (ucast level), F16 (e_PosX e), F16 (e_PosY e), F16 0, F8 (e_Direction e),
                F8 (ucast (e_Pose e)), F16 0, F16 0, FZero 4, F32 0, F32 0, F32 0, FZero 4, F16 0, F16 0, FZero 2]
      in if length name < MAX_NAMESIZE then packed_with MSG_PLAYER fs [name] else unfilled_with fs [name])"

definition MsgUserInfo_create :: "player \<Rightarrow> wbuf option" where
  "MsgUserInfo_create p =
     (let fs = [F32 (p_UID p), F32 (p_Look p), F16 (p_Hair p), F32 (p_Money p), F32 (p_CPs p), F64 (p_Exp p),
                FZero 20, F16 (p_Force p), F16 (p_Dexterity p), F16 (p_Health p), F16 (p_Soul p),
                F16 (p_AddPoints p), F16 (p_CurHP p), F16 (p_CurMP p), F16 (p_PkPoints p), F8 (p_Level p),
                F8 (p_Profession p), F8 1, F8 (p_Metempsychosis p), F8 1]
      in if length (p_Name p) < MAX_NAMESIZE \<and> length (p_Mate p) < MAX_NAMESIZE
         then packed_with MSG_USERINFO fs [p_Name p, p_Mate p]
         else unfilled_with fs [p_Name p, p_Mate p])"

text \<open>The emotion is always empty.\<close>

definition MsgTalk_create ::
  "u32 \<Rightarrow> u8 list \<Rightarrow> u8 list \<Rightarrow> u8 list \<Rightarrow> u16 \<Rightarrow> u32 \<Rightarrow> u32 \<Rightarrow> u32 \<Rightarrow> wbuf option" where
  "MsgTalk_create now aSpeaker aHearer aWords aChannel aColor hearerLook speakerLook =
     (let fs = [F32 aColor, F16 aChannel, F16 0, F32 now, F32 hearerLook, F32 speakerLook];
          strs = [aSpeaker, aHearer, [], aWords]
      in if length aSpeaker < MAX_NAMESIZE \<and> length aHearer < MAX_NAMESIZE \<and> length aWords < MAX_WORDSSIZE
         then packed_with MSG_TALK fs strs else unfilled_with fs strs)"

definition dialog_fields :: "u16 \<Rightarrow> u16 \<Rightarrow> u16 \<Rightarrow> u8 \<Rightarrow> u8 \<Rightarrow> field list" where
  "dialog_fields x y d idx act = [F16 x, F16 y, F16 d, F8 idx, F8 act]"

definition MsgDialog_text :: "u8 list \<Rightarrow> u16 \<Rightarrow> u8 \<Rightarrow> u8 \<Rightarrow> wbuf option" where
  "MsgDialog_text aText aData aIdxTask aAction =
     (let fs = dialog_fields 0 0 aData aIdxTask aAction
      in if length aText < MAX_PARAMSIZE then packed_with MSG_DIALOG fs [aText] else unfilled_with fs [aText])"

definition MsgDialog_pic :: "u16 \<Rightarrow> u16 \<Rightarrow> u16 \<Rightarrow> u8 \<Rightarrow> u8 \<Rightarrow> u8 list" where
  "MsgDialog_pic aPosX aPosY aPic aIdxTask aAction =
     packed MSG_DIALOG (dialog_fields aPosX aPosY aPic aIdxTask aAction @ [F8 0]) 0"

definition MsgDialog_done :: "u8 \<Rightarrow> u8 \<Rightarrow> u8 list" where
  "MsgDialog_done aIdxTask aAction = packed MSG_DIALOG (dialog_fields 0 0 0 aIdxTask aAction @ [F8 0]) 0"

section \<open>The bytes of the messages\<close>

fun field_size :: "field \<Rightarrow> nat" where
  "field_size (F8 b) = 1" | "field_size (F16 w) = 2" | "field_size (F32 w) = 4" | "field_size (F64 w) = 8"
| "field_size (FZero n) = n" | "field_size (FStr n s) = n"

lemma length_field: "length (field_bytes f) = field_size f"
  by (cases f) (simp_all add: wr64_def)

lemma length_lay: "length (lay fs) = sum_list (map field_size fs)"
  by (simp add: lay_def length_concat length_field comp_def)

lemma lay_append: "lay (fs @ gs) = lay fs @ lay gs"
  by (simp add: lay_def)

lemma lay_count: "lay [F8 0] = [0]"
  by (simp add: lay_def)

lemma header_fields:
  "at16 (wr16 n @ rest) 0 = Some n" "at16 (wr16 n @ wr16 ty @ rest) 2 = Some ty"
  using at_written(2) [of "[]" 0 n rest] at_written(2) [of "wr16 n" 2 ty rest] by simp_all

lemma packed_framed:
  assumes "4 + sum_list (map field_size fs) + extra \<le> 1024"
  shows "well_formed (packed ty fs extra)" and "at16 (packed ty fs extra) 2 = Some ty"
  using assms
  by (simp_all add: packed_def Let_def well_formed_def header_fields length_lay HEADER_LEN_def)

lemma packed_with_bytes:
  assumes "list_all (\<lambda>s. length s < 256) strs" and "length strs \<le> 255" and "strs \<noteq> []"
  shows "packed_with ty fs strs =
    Some \<lparr>w_bytes = wr16 (of_nat (5 + length (lay fs) + length (concat (map string_bytes strs)))) @ wr16 ty @
            lay fs @ of_nat (length strs) # concat (map string_bytes strs),
          w_beyond = 1\<rparr>"
proof -
  let ?n = "length (concat (map string_bytes strs))"
  have n: "sum_list (map (\<lambda>s. length s + 1) strs) = ?n" by (simp add: length_concat comp_def)
  let ?pre = "wr16 (of_nat (5 + length (lay fs) + ?n)) @ wr16 ty @ lay fs"
  have "packed ty (fs @ [F8 0]) ?n = ?pre @ 0 # replicate ?n 0"
    by (simp add: packed_def Let_def lay_append lay_count)
  then show ?thesis
    using with_strings_packed [OF assms, of "replicate ?n 0" "4 + length (lay fs)" ?pre]
    unfolding packed_with_def n by simp
qed

lemma packed_with_framed:
  assumes "list_all (\<lambda>s. length s < 256) strs" and "length strs \<le> 255" and "strs \<noteq> []"
    and "5 + sum_list (map field_size fs) + sum_list (map (\<lambda>s. Suc (length s)) strs) \<le> 1024"
  shows "\<exists>b. packed_with ty fs strs = Some \<lparr>w_bytes = b, w_beyond = 1\<rparr> \<and> well_formed b \<and> at16 b 2 = Some ty"
proof -
  have "length (concat (map string_bytes strs)) = sum_list (map (\<lambda>s. Suc (length s)) strs)"
    by (simp add: length_concat comp_def)
  then show ?thesis
    using assms(4) unfolding packed_with_bytes [OF assms(1-3)]
    by (simp add: well_formed_def header_fields length_lay HEADER_LEN_def)
qed

text \<open>All messages of the server, by the constructors of their classes.\<close>

datatype outgoing =
    OutWalk u32 u8 bool
  | OutAction u32 "(u32 \<times> u16 \<times> u16 \<times> u8) option" u32 nat
  | OutItem u32 u32 u32 u32 nat
  | OutItemInfo item nat
  | OutTick player
  | OutUserAttrib u32 u64 attrib
  | OutWeaponSkill u16 u8 u32
  | OutMagicInfo u16 u16 u32
  | OutFlushExp u16 u32 nat
  | OutMapInfo game_map
  | OutWeather u32 u32 u32 u32
  | OutDate tm
  | OutNpc u32 u32 u16 u16
  | OutConnectEx u32 u32 "u8 list" u16
  | OutFriendInfo player
  | OutNpcInfo npc
  | OutPlayer pstate
  | OutMonster u32 u8 "u8 list" ent
  | OutUserInfo player
  | OutTalk u32 "u8 list" "u8 list" "u8 list" u16 u32 u32 u32
  | OutDialogText "u8 list" u16 u8 u8
  | OutDialogPic u16 u16 u16 u8 u8
  | OutDialogDone u8 u8

definition exact :: "u8 list \<Rightarrow> wbuf option" where "exact b = Some \<lparr>w_bytes = b, w_beyond = 0\<rparr>"

fun bytes_of :: "outgoing \<Rightarrow> wbuf option" where
  "bytes_of (OutWalk uid dir run) = exact (MsgWalk_create uid dir run)"
| "bytes_of (OutAction now e d act) = exact (MsgAction_create now e d act)"
| "bytes_of (OutItem now uid d target act) = exact (MsgItem_create now uid d target act)"
| "bytes_of (OutItemInfo it act) = exact (MsgItemInfo_create it act)"
| "bytes_of (OutTick p) = exact (MsgTick_create p)"
| "bytes_of (OutUserAttrib uid v ty) = exact (MsgUserAttrib_create uid v ty)"
| "bytes_of (OutWeaponSkill ty lev e) = exact (MsgWeaponSkill_create ty lev e)"
| "bytes_of (OutMagicInfo ty lev e) = exact (MsgMagicInfo_create ty lev e)"
| "bytes_of (OutFlushExp ty e act) = exact (MsgFlushExp_create ty e act)"
| "bytes_of (OutMapInfo g) = exact (MsgMapInfo_create g)"
| "bytes_of (OutWeather ty i d c) = exact (MsgWeather_create ty i d c)"
| "bytes_of (OutDate t) = exact (MsgDate_create t)"
| "bytes_of (OutNpc i d ty ev) = exact (MsgNpc_create i d ty ev)"
| "bytes_of (OutConnectEx acc d info port) = exact (MsgConnectEx_create acc d info port)"
| "bytes_of (OutFriendInfo p) = exact (MsgFriendInfo_create p)"
| "bytes_of (OutNpcInfo n) = MsgNpcInfo_create n"
| "bytes_of (OutPlayer s) = MsgPlayer_create s"
| "bytes_of (OutMonster lk lev name e) = MsgPlayer_monster lk lev name e"
| "bytes_of (OutUserInfo p) = MsgUserInfo_create p"
| "bytes_of (OutTalk now sp he ws ch c hl sl) = MsgTalk_create now sp he ws ch c hl sl"
| "bytes_of (OutDialogText t d i act) = MsgDialog_text t d i act"
| "bytes_of (OutDialogPic x y pic i act) = exact (MsgDialog_pic x y pic i act)"
| "bytes_of (OutDialogDone i act) = exact (MsgDialog_done i act)"

fun type_code :: "outgoing \<Rightarrow> u16" where
  "type_code (OutWalk _ _ _) = of_nat MSG_WALK" | "type_code (OutAction _ _ _ _) = of_nat MSG_ACTION"
| "type_code (OutItem _ _ _ _ _) = of_nat MSG_ITEM" | "type_code (OutItemInfo _ _) = MSG_ITEMINFO"
| "type_code (OutTick _) = MSG_TICK" | "type_code (OutUserAttrib _ _ _) = MSG_USERATTRIB"
| "type_code (OutWeaponSkill _ _ _) = MSG_WEAPONSKILL" | "type_code (OutMagicInfo _ _ _) = MSG_MAGICINFO"
| "type_code (OutFlushExp _ _ _) = MSG_FLUSHEXP" | "type_code (OutMapInfo _) = MSG_MAPINFO"
| "type_code (OutWeather _ _ _ _) = MSG_WEATHER" | "type_code (OutDate _) = MSG_DATE"
| "type_code (OutNpc _ _ _ _) = MSG_NPC" | "type_code (OutConnectEx _ _ _ _) = MSG_CONNECTEX"
| "type_code (OutFriendInfo _) = MSG_FRIENDINFO" | "type_code (OutNpcInfo _) = MSG_NPCINFO"
| "type_code (OutPlayer _) = MSG_PLAYER" | "type_code (OutMonster _ _ _ _) = MSG_PLAYER"
| "type_code (OutUserInfo _) = MSG_USERINFO" | "type_code (OutTalk _ _ _ _ _ _ _ _) = MSG_TALK"
| "type_code (OutDialogText _ _ _ _) = MSG_DIALOG" | "type_code (OutDialogPic _ _ _ _ _) = MSG_DIALOG"
| "type_code (OutDialogDone _ _) = MSG_DIALOG"

text \<open>The strings of a message that \<^verbatim>\<open>create\<close> packs, each with the size it must stay below.\<close>

fun packed_strings :: "outgoing \<Rightarrow> (u8 list \<times> nat) list" where
  "packed_strings (OutNpcInfo n) = (case n_Name n of None \<Rightarrow> [] | Some name \<Rightarrow> [(name, MAX_NAMESIZE)])"
| "packed_strings (OutPlayer s) = [(p_Name (me s), MAX_NAMESIZE)]"
| "packed_strings (OutMonster _ _ name _) = [(name, MAX_NAMESIZE)]"
| "packed_strings (OutUserInfo p) = [(p_Name p, MAX_NAMESIZE), (p_Mate p, MAX_NAMESIZE)]"
| "packed_strings (OutTalk _ sp he ws _ _ _ _) =
     [(sp, MAX_NAMESIZE), (he, MAX_NAMESIZE), ([], MAX_NAMESIZE), (ws, MAX_WORDSSIZE)]"
| "packed_strings (OutDialogText t _ _ _) = [(t, MAX_PARAMSIZE)]"
| "packed_strings _ = []"

fun array_strings :: "outgoing \<Rightarrow> (u8 list \<times> nat) list" where
  "array_strings (OutConnectEx _ _ info _) = [(info, MAX_NAMESIZE)]"
| "array_strings (OutFriendInfo p) = [(p_Mate p, MAX_NAMESIZE)]"
| "array_strings _ = []"

definition fits :: "outgoing \<Rightarrow> bool" where
  "fits m \<longleftrightarrow> list_all (\<lambda>(s, n). length s < n) (packed_strings m @ array_strings m)"

lemmas out_defs =
  MsgWalk_create_def MsgAction_create_def MsgItem_create_def MsgItemInfo_create_def MsgTick_create_def
  MsgUserAttrib_create_def MsgWeaponSkill_create_def MsgMagicInfo_create_def MsgFlushExp_create_def
  MsgMapInfo_create_def MsgWeather_create_def MsgDate_create_def MsgNpc_create_def MsgConnectEx_create_def
  MsgFriendInfo_create_def MsgNpcInfo_create_def MsgPlayer_create_def MsgPlayer_monster_def MsgUserInfo_create_def
  MsgTalk_create_def MsgDialog_text_def MsgDialog_pic_def MsgDialog_done_def dialog_fields_def

lemmas out_sizes = MAX_NAMESIZE_def MAX_WORDSSIZE_def MAX_PARAMSIZE_def

text \<open>Each class: a message that fits is framed, and the bytes written beyond its buffer.\<close>

definition framed :: "nat \<Rightarrow> u16 \<Rightarrow> wbuf option \<Rightarrow> bool" where
  "framed n ty w \<longleftrightarrow> (\<exists>b. w = Some \<lparr>w_bytes = b, w_beyond = n\<rparr> \<and> well_formed b \<and> at16 b 2 = Some ty)"

lemma framed_exact:
  "4 + sum_list (map field_size fs) + extra \<le> 1024 \<Longrightarrow> framed 0 ty (exact (packed ty fs extra))"
  "4 + sum_list (map field_size fs) + extra \<le> 1024 \<Longrightarrow>
     framed 0 ty (Some \<lparr>w_bytes = packed ty fs extra, w_beyond = 0\<rparr>)"
  using packed_framed by (simp_all add: framed_def exact_def)

lemma framed_strings:
  assumes "list_all (\<lambda>s. length s < 256) strs" and "length strs \<le> 255" and "strs \<noteq> []"
    and "5 + sum_list (map field_size fs) + sum_list (map (\<lambda>s. Suc (length s)) strs) \<le> 1024"
  shows "framed 1 ty (packed_with ty fs strs)"
  using packed_with_framed [OF assms] by (simp add: framed_def)

lemma fits_framed:
  assumes "fits m"
  shows "framed (of_bool (packed_strings m \<noteq> [])) (type_code m) (bytes_of m)"
  using assms
  by (cases m) (auto simp: fits_def out_defs out_sizes Let_def intro!: framed_exact framed_strings [unfolded One_nat_def]
      split: option.split prod.split)

text \<open>The bytes of the messages that \<^verbatim>\<open>create\<close> refuses.\<close>

lemma refused_unfilled:
  assumes "\<not> fits m" and "\<And>n. m \<noteq> OutNpcInfo n"
  shows "\<exists>n. bytes_of m = Some \<lparr>w_bytes = replicate n 0, w_beyond = 0\<rparr> \<and> 4 \<le> n"
  using assms
  by (cases m) (auto simp: fits_def out_defs out_sizes Let_def exact_def unfilled_def unfilled_with_def)

lemma zero_header: "4 \<le> n \<Longrightarrow> at16 (replicate n 0) 0 = Some 0"
  using header_fields(1) [of 0 "replicate (n - 2) 0"]
  by (simp add: wr16_def numeral_eq_Suc flip: replicate_Suc) (simp add: Suc_diff_Suc numeral_eq_Suc)

section \<open>Properties\<close>

text \<open>C20: Every message of the server whose strings are short enough is a well-formed frame: its buffer
  begins with its own length and the type of its class, and the connection layer of a peer can cut
  it out of a stream.  The classes with packed strings write exactly one byte beyond their buffer
  (the zero of the last string, which \<open>strcpy\<close> copies and the length does not count); the others
  stay inside of it.\<close>
theorem messages_are_framed:
  assumes "fits m"
  shows "\<exists>b. bytes_of m = Some \<lparr>w_bytes = b, w_beyond = (if packed_strings m = [] then 0 else 1)\<rparr> \<and>
    well_formed b \<and> at16 b 2 = Some (type_code m)"
  using fits_framed [OF assms] by (cases "packed_strings m = []") (simp_all add: framed_def)

lemma messages_are_framed_witness:
  "\<exists>b. bytes_of (OutUserInfo (Player 0 1)) = Some \<lparr>w_bytes = b, w_beyond = 1\<rparr> \<and>
     well_formed b \<and> at16 b 2 = Some MSG_USERINFO"
  using messages_are_framed [of "OutUserInfo (Player 0 1)"]
  by (simp add: fits_def Player_def bytes_def MAX_NAMESIZE_def)

text \<open>A message with a string that is too long is not filled but it is sent all the same: its buffer is
  zero from beginning to end, the length in its header included.  Only the message on an NPC keeps
  its fields and leaves out the name.\<close>
theorem long_strings_give_zero_header:
  assumes "\<not> fits m" and "\<not> (\<exists>n. m = OutNpcInfo n)"
  shows "\<exists>b. bytes_of m = Some \<lparr>w_bytes = b, w_beyond = 0\<rparr> \<and> list_all (\<lambda>x. x = 0) b \<and> at16 b 0 = Some 0"
proof -
  obtain n where "bytes_of m = Some \<lparr>w_bytes = replicate n 0, w_beyond = 0\<rparr>" "4 \<le> n"
    using refused_unfilled assms by blast
  then show ?thesis using zero_header by (auto simp: list_all_iff)
qed

lemma long_strings_give_zero_header_witness:
  "\<exists>b. bytes_of (OutMonster 0 1 (replicate 16 0x41) (Entity 1)) = Some \<lparr>w_bytes = b, w_beyond = 0\<rparr> \<and>
     at16 b 0 = Some 0"
  using long_strings_give_zero_header [of "OutMonster 0 1 (replicate 16 0x41) (Entity 1)"]
  by (auto simp: fits_def MAX_NAMESIZE_def)

text \<open>C21: Strings that were packed are read back: from a message with the strings \<open>strs\<close>, a packer on the
  received bytes returns each of them under its index, when the caller's buffer is larger than it.\<close>
theorem packed_strings_read_back:
  assumes "list_all (\<lambda>s. length s < 256) strs" and "length strs \<le> 255" and "i < length strs"
    and "length (strs ! i) < aLen"
  shows "\<exists>w p. packed_with ty fs strs = Some w \<and> StringPacker (4 + length (lay fs)) (w_bytes w) = Some p \<and>
    getString aLen (of_nat i) p (w_bytes w) = Some (Some (strs ! i))"
proof -
  let ?pre = "wr16 (of_nat (5 + length (lay fs) + length (concat (map string_bytes strs)))) @ wr16 ty @ lay fs"
  have "strs \<noteq> []" using assms(3) by auto
  note p = packed_with_bytes [OF assms(1,2) this, of ty fs]
  have sp: "StringPacker (4 + length (lay fs)) (?pre @ of_nat (length strs) # concat (map string_bytes strs)) =
      Some \<lparr>sp_Buf = length ?pre, sp_StrCount = of_nat (length strs)\<rparr>"
    unfolding StringPacker_def by (subst at_written(1)) simp_all
  let ?b = "?pre @ of_nat (length strs) # concat (map string_bytes strs)"
  have "packed_with ty fs strs = Some \<lparr>w_bytes = ?b, w_beyond = 1\<rparr>" unfolding p by simp
  then show ?thesis using getString_packed [OF assms, of ?pre] sp by (metis wbuf.select_convs(1))
qed

lemma packed_strings_read_back_witness:
  "\<exists>w p. packed_with MSG_TALK [F32 0, F16 0, F16 0, F32 0, F32 0, F32 0]
        [bytes ''A'', bytes ''B'', [], bytes ''hello''] = Some w \<and>
     StringPacker 24 (w_bytes w) = Some p \<and> getString 255 3 p (w_bytes w) = Some (Some (bytes ''hello''))"
  using packed_strings_read_back [of "[bytes ''A'', bytes ''B'', [], bytes ''hello'']" 3 255 MSG_TALK
      "[F32 0, F16 0, F16 0, F32 0, F32 0, F32 0]"]
  by (simp add: bytes_def length_lay)


end
