(* ===== verification/Incoming.thy ===== *)
theory Incoming
  imports Packets "HOL-Library.Monad_Syntax"
begin

text \<open>
  The casts of a received buffer to the \<^verbatim>\<open>MsgInfo\<close> of its class (\<^verbatim>\<open>Msg::create\<close>).  A cast reads the
  whole structure: a message that ends before its structure does has no value.
\<close>

section \<open>Incoming messages (Msg::create)\<close>

record msg_npc =
  mn_Id :: u32
  mn_Data :: u32
  mn_Event :: u16
  mn_Type :: u16

text \<open>The messages with strings keep their buffer, from which a packer takes them.\<close>

record msg_dialog =
  md_Data :: u16
  md_IdxTask :: u8
  md_Action :: u8
  md_buf :: "u8 list"

record msg_talk =
  mk_Color :: u32
  mk_Channel :: u16   \<comment> \<open>signed\<close>
  mk_Style :: u16
  mk_Timestamp :: u32
  mk_HearerLook :: u32
  mk_SpeakerLook :: u32
  mk_buf :: "u8 list"

record msg_connect =
  mc_AccountUID :: u32
  mc_Data :: u32
  mc_Info :: "u8 list"

record msg_account =
  mu_Account :: "u8 list"
  mu_Password :: "u8 list"
  mu_Server :: "u8 list"

record msg_register =
  mr_Account :: "u8 list"
  mr_Name :: "u8 list"
  mr_Password :: "u8 list"
  mr_Look :: u16
  mr_Profession :: u16
  mr_AccountUID :: u32

text \<open>The object of a received buffer, by the type of its header.\<close>

datatype received =
    RecvRegister msg_register
  | RecvTalk msg_talk
  | RecvWalk msg_walk
  | RecvItem msg_item
  | RecvAction nat msg_action
  | RecvTick msg_tick
  | RecvAllot msg_allot
  | RecvAccount msg_account
  | RecvConnect msg_connect
  | RecvNpc msg_npc
  | RecvDialog msg_dialog
  | RecvOther u16

definition MSG_REGISTER :: u16 where "MSG_REGISTER = 1001"
definition MSG_ALLOT :: u16 where "MSG_ALLOT = 1024"
definition MSG_ACCOUNT :: u16 where "MSG_ACCOUNT = 1051"
definition MSG_CONNECT :: u16 where "MSG_CONNECT = 1052"

lemmas recv_types = MSG_REGISTER_def MSG_ALLOT_def MSG_ACCOUNT_def MSG_CONNECT_def msg_types

definition cast_walk :: "u8 list \<Rightarrow> msg_walk option" where
  "cast_walk b = do {
     uid \<leftarrow> at32 b 4; dir \<leftarrow> at8 b 8; mode \<leftarrow> at8 b 9; pad \<leftarrow> at16 b 10;
     Some \<lparr>mw_UniqId = uid, mw_Direction = dir, mw_Mode = mode\<rparr> }"

definition cast_item :: "u8 list \<Rightarrow> msg_item option" where
  "cast_item b = do {
     uid \<leftarrow> at32 b 4; d \<leftarrow> at32 b 8; act \<leftarrow> at32 b 12; time \<leftarrow> at32 b 16; target \<leftarrow> at32 b 20;
     Some \<lparr>mi_UniqId = uid, mi_Data = d, mi_Action = act, mi_Timestamp = time, mi_TargetUID = target\<rparr> }"

definition cast_action :: "u8 list \<Rightarrow> (nat \<times> msg_action) option" where
  "cast_action b = do {
     time \<leftarrow> at32 b 4; uid \<leftarrow> at32 b 8; d \<leftarrow> at32 b 12; x \<leftarrow> at16 b 16; y \<leftarrow> at16 b 18; dir \<leftarrow> at16 b 20;
     act \<leftarrow> at16 b 22;
     Some (unat act, \<lparr>ma_UniqId = uid, ma_Data = d, ma_PosX = x, ma_PosY = y, ma_Direction = dir\<rparr>) }"

definition cast_tick :: "u8 list \<Rightarrow> msg_tick option" where
  "cast_tick b = do {
     uid \<leftarrow> at32 b 4; time \<leftarrow> at32 b 8; check \<leftarrow> at32 b 28;
     Some \<lparr>mt_UniqId = uid, mt_Timestamp = time, mt_CheckData = check\<rparr> }"

definition cast_allot :: "u8 list \<Rightarrow> msg_allot option" where
  "cast_allot b = do {
     f \<leftarrow> at8 b 4; d \<leftarrow> at8 b 5; h \<leftarrow> at8 b 6; s \<leftarrow> at8 b 7;
     Some \<lparr>ml_Force = f, ml_Dexterity = d, ml_Health = h, ml_Soul = s\<rparr> }"

definition cast_npc :: "u8 list \<Rightarrow> msg_npc option" where
  "cast_npc b = do {
     i \<leftarrow> at32 b 4; d \<leftarrow> at32 b 8; ev \<leftarrow> at16 b 12; ty \<leftarrow> at16 b 14;
     Some \<lparr>mn_Id = i, mn_Data = d, mn_Event = ev, mn_Type = ty\<rparr> }"

definition cast_dialog :: "u8 list \<Rightarrow> msg_dialog option" where
  "cast_dialog b = do {
     d \<leftarrow> at16 b 8; i \<leftarrow> at8 b 10; act \<leftarrow> at8 b 11; n \<leftarrow> at8 b 12;
     Some \<lparr>md_Data = d, md_IdxTask = i, md_Action = act, md_buf = b\<rparr> }"

definition cast_talk :: "u8 list \<Rightarrow> msg_talk option" where
  "cast_talk b = do {
     c \<leftarrow> at32 b 4; ch \<leftarrow> at16 b 8; st \<leftarrow> at16 b 10; time \<leftarrow> at32 b 12; hl \<leftarrow> at32 b 16; sl \<leftarrow> at32 b 20; n \<leftarrow> at8 b 24;
     Some \<lparr>mk_Color = c, mk_Channel = ch, mk_Style = st, mk_Timestamp = time, mk_HearerLook = hl,
           mk_SpeakerLook = sl, mk_buf = b\<rparr> }"

definition cast_connect :: "u8 list \<Rightarrow> msg_connect option" where
  "cast_connect b = do {
     uid \<leftarrow> at32 b 4; d \<leftarrow> at32 b 8; info \<leftarrow> bytes_at b 12 MAX_NAMESIZE;
     Some \<lparr>mc_AccountUID = uid, mc_Data = d, mc_Info = info\<rparr> }"

definition cast_account :: "u8 list \<Rightarrow> msg_account option" where
  "cast_account b = do {
     a \<leftarrow> bytes_at b 4 MAX_NAMESIZE; p \<leftarrow> bytes_at b 20 MAX_NAMESIZE; s \<leftarrow> bytes_at b 36 MAX_NAMESIZE;
     Some \<lparr>mu_Account = a, mu_Password = p, mu_Server = s\<rparr> }"

definition cast_register :: "u8 list \<Rightarrow> msg_register option" where
  "cast_register b = do {
     a \<leftarrow> bytes_at b 4 MAX_NAMESIZE; n \<leftarrow> bytes_at b 20 MAX_NAMESIZE; p \<leftarrow> bytes_at b 36 MAX_NAMESIZE;
     lk \<leftarrow> at16 b 52; prof \<leftarrow> at16 b 54; uid \<leftarrow> at32 b 56;
     Some \<lparr>mr_Account = a, mr_Name = n, mr_Password = p, mr_Look = lk, mr_Profession = prof, mr_AccountUID = uid\<rparr> }"

definition Msg_create :: "u8 list \<Rightarrow> received option" where
  "Msg_create b = do {
     ty \<leftarrow> at16 b 2;
     if ty = MSG_REGISTER then map_option RecvRegister (cast_register b)
     else if ty = MSG_TALK then map_option RecvTalk (cast_talk b)
     else if ty = of_nat MSG_WALK then map_option RecvWalk (cast_walk b)
     else if ty = of_nat MSG_ITEM then map_option RecvItem (cast_item b)
     else if ty = of_nat MSG_ACTION then map_option (\<lambda>(act, m). RecvAction act m) (cast_action b)
     else if ty = MSG_TICK then map_option RecvTick (cast_tick b)
     else if ty = MSG_ALLOT then map_option RecvAllot (cast_allot b)
     else if ty = MSG_ACCOUNT then map_option RecvAccount (cast_account b)
     else if ty = MSG_CONNECT then map_option RecvConnect (cast_connect b)
     else if ty = MSG_NPC then map_option RecvNpc (cast_npc b)
     else if ty = MSG_DIALOG then map_option RecvDialog (cast_dialog b)
     else Some (RecvOther ty) }"

section \<open>Reading back what was written\<close>

lemma rd_literals [simp]:
  "rd16 (ucast v # ucast (drop_bit 8 v) # rest) = Some (v, rest)"
  "rd32 (byte0 w # byte1 w # byte2 w # byte3 w # rest) = Some (w, rest)"
  using rd_wr(1) [of v rest] rd_wr(2) [of w rest] by (simp_all add: wr16_def wr32_def)

lemma type_packed: "at16 (packed ty fs extra) 2 = Some ty"
  by (simp add: packed_def Let_def header_fields)

lemmas cast_packed = Msg_create_def type_packed

lemmas casts_bytes =
  packed_def Let_def lay_def wr16_def wr32_def at8_def at16_def at32_def cast_walk_def cast_action_def cast_item_def
  cast_tick_def cast_npc_def

section \<open>Properties\<close>

text \<open>The messages that go both ways are read back field by field: the cast of a received buffer gives
  what \<open>create\<close> put into it.\<close>
theorem created_messages_cast_back:
  "Msg_create (MsgWalk_create uid dir run) =
     Some (RecvWalk \<lparr>mw_UniqId = uid, mw_Direction = dir, mw_Mode = of_bool run\<rparr>) \<and>
   Msg_create (MsgAction_create now (Some (uid, x, y, dir)) d act) =
     Some (RecvAction (unat (of_nat act :: u16))
       \<lparr>ma_UniqId = uid, ma_Data = d, ma_PosX = x, ma_PosY = y, ma_Direction = ucast dir\<rparr>) \<and>
   Msg_create (MsgItem_create now uid d target act) =
     Some (RecvItem \<lparr>mi_UniqId = uid, mi_Data = d, mi_Action = ucast (of_nat act :: u16), mi_Timestamp = now,
                     mi_TargetUID = target\<rparr>) \<and>
   Msg_create (MsgTick_create p) =
     Some (RecvTick \<lparr>mt_UniqId = p_UID p, mt_Timestamp = 0, mt_CheckData = 0\<rparr>) \<and>
   Msg_create (MsgNpc_create uid d x y) =
     Some (RecvNpc \<lparr>mn_Id = uid, mn_Data = d, mn_Event = y, mn_Type = x\<rparr>)"
  by (simp add: cast_packed out_defs recv_types) (simp add: casts_bytes, simp add: rd16_def)

end
