(* ===== verification/Rows.thy ===== *)
theory Rows
  imports PlayerItems World
begin

text \<open>
  The rows of the tables that hold a player (\<^verbatim>\<open>database.cpp\<close>): the account, the player, its items and
  its skills.  The database itself is not modelled: the answer to a query is an argument, \<open>None\<close>
  when the query fails, otherwise the rows in their order.  A row gives a value for every column;
  the columns are the \<^verbatim>\<open>SqlData\<close> enumerations of the classes.
\<close>

section \<open>Results of queries\<close>

datatype qvalue = QInt int | QStr "u8 list"

fun toInt :: "qvalue \<Rightarrow> int" where
  "toInt (QInt i) = i"
| "toInt (QStr s) = 0"

definition toUInt :: "qvalue \<Rightarrow> u32" where "toUInt v = word_of_int (toInt v)"
definition toBool :: "qvalue \<Rightarrow> bool" where "toBool v \<longleftrightarrow> toInt v \<noteq> 0"

fun toString :: "qvalue \<Rightarrow> u8 list" where
  "toString (QStr s) = s"
| "toString (QInt i) = []"

abbreviation qw :: "'a::len word \<Rightarrow> qvalue" where "qw w \<equiv> QInt (uint w)"

type_synonym 'c qrow = "'c \<Rightarrow> qvalue"
type_synonym 'r result_set = "'r list option"

lemma value_of_word [simp]: "toUInt (qw (w :: u32)) = w" "toInt (qw v) = uint v"
  by (simp_all add: toUInt_def)

lemma narrow_of_word [simp]:
  "(ucast (toUInt (qw (b :: u8))) :: u8) = b" "(ucast (toUInt (qw (h :: u16))) :: u16) = h"
  by (rule bit_word_eqI; simp add: toUInt_def bit_simps)+

lemma bool_value [simp]: "toBool (QInt (of_bool b)) = b"
  by (simp add: toBool_def)

section \<open>Accounts\<close>

text \<open>The rows have the id and the password of the accounts with the name.\<close>

definition authenticate :: "(u32 \<times> u8 list) result_set \<Rightarrow> u8 list \<Rightarrow> u8 list \<Rightarrow> err_t + u32" where
  "authenticate rows aAccount aPassword =
     (if aAccount = [] \<or> aPassword = [] then Inl ERROR_INVALID_PARAMETER
      else
        case rows of
          None \<Rightarrow> Inl ERROR_EXEC_FAILED
        | Some [(accountID, password)] \<Rightarrow>
            if password = aPassword then Inr accountID else Inl ERROR_NOT_FOUND
        | Some _ \<Rightarrow> Inl ERROR_NOT_FOUND)"

section \<open>Players\<close>

datatype user_col =
    USER_ACCOUNT_ID | USER_ID | USER_NAME | USER_MATE | USER_LOOKFACE | USER_HAIR | USER_MONEY
   | USER_MONEY_SAVED | USER_CONQUER_POINTS | USER_LEVEL | USER_EXP | USER_FORCE | USER_DEXTERITY
   | USER_HEALTH | USER_SOUL | USER_ADD_POINTS | USER_LIFE | USER_MANA | USER_PROFESSION
   | USER_PK_POINTS | USER_VIRTUE | USER_NOBILITY | USER_METEMPSYCHOSIS | USER_SYNDICATE_ID
   | USER_RECORD_MAP | USER_RECORD_X | USER_RECORD_Y | USER_LAST_LOGIN

text \<open>
  The previous map is set, the previous position is not (the code assigns the position to itself);
  \<open>secs\<close> is the clock at construction.
\<close>

definition load_player :: "int \<Rightarrow> user_col qrow \<Rightarrow> player" where
  "load_player secs row =
     (Player secs (toUInt (row USER_ID)))
       \<lparr>p_Name := toString (row USER_NAME),
        p_Mate := toString (row USER_MATE),
        p_Look := toUInt (row USER_LOOKFACE),
        p_Hair := ucast (toUInt (row USER_HAIR)),
        p_Money := toUInt (row USER_MONEY),
        p_CPs := toUInt (row USER_CONQUER_POINTS),
        p_Profession := ucast (toUInt (row USER_PROFESSION)),
        p_Level := ucast (toUInt (row USER_LEVEL)),
        p_Exp := word_of_int (toInt (row USER_EXP)),
        p_Metempsychosis := ucast (toUInt (row USER_METEMPSYCHOSIS)),
        p_Force := ucast (toUInt (row USER_FORCE)),
        p_Dexterity := ucast (toUInt (row USER_DEXTERITY)),
        p_Health := ucast (toUInt (row USER_HEALTH)),
        p_Soul := ucast (toUInt (row USER_SOUL)),
        p_AddPoints := ucast (toUInt (row USER_ADD_POINTS)),
        p_CurHP := ucast (toUInt (row USER_LIFE)),
        p_CurMP := ucast (toUInt (row USER_MANA)),
        p_PkPoints := word_of_int (toInt (row USER_PK_POINTS)),
        p_Virtue := word_of_int (toInt (row USER_VIRTUE)),
        p_MapId := toUInt (row USER_RECORD_MAP),
        p_PosX := ucast (toUInt (row USER_RECORD_X)),
        p_PosY := ucast (toUInt (row USER_RECORD_Y)),
        p_PrevMap := toUInt (row USER_RECORD_MAP)\<rparr>"

text \<open>The player of an account, if it has one; two players on one account are an error.\<close>

definition getPlayerInfo :: "int \<Rightarrow> user_col qrow result_set \<Rightarrow> err_t + player option" where
  "getPlayerInfo secs rows =
     (case rows of
        None \<Rightarrow> Inl ERROR_EXEC_FAILED
      | Some [row] \<Rightarrow> Inr (Some (load_player secs row))
      | Some [] \<Rightarrow> Inr None
      | Some _ \<Rightarrow> Inl ERROR_BAD_LENGTH)"

text \<open>The columns \<open>savePlayer\<close> writes; the name and the profession are not among them.\<close>

definition save_player :: "player \<Rightarrow> user_col qrow \<Rightarrow> user_col qrow" where
  "save_player p row = row
     (USER_MATE := QStr (p_Mate p),
      USER_LOOKFACE := qw (p_Look p),
      USER_HAIR := qw (p_Hair p),
      USER_MONEY := qw (p_Money p),
      USER_CONQUER_POINTS := qw (p_CPs p),
      USER_LEVEL := qw (p_Level p),
      USER_EXP := qw (p_Exp p),
      USER_METEMPSYCHOSIS := qw (p_Metempsychosis p),
      USER_FORCE := qw (p_Force p),
      USER_DEXTERITY := qw (p_Dexterity p),
      USER_HEALTH := qw (p_Health p),
      USER_SOUL := qw (p_Soul p),
      USER_ADD_POINTS := qw (p_AddPoints p),
      USER_LIFE := qw (p_CurHP p),
      USER_MANA := qw (p_CurMP p),
      USER_PK_POINTS := QInt (sint (p_PkPoints p)),
      USER_VIRTUE := QInt (sint (p_Virtue p)),
      USER_RECORD_MAP := qw (p_MapId p),
      USER_RECORD_X := qw (p_PosX p),
      USER_RECORD_Y := qw (p_PosY p))"

text \<open>\<open>UPDATE\<close> changes the rows of the account.\<close>

definition savePlayer :: "u32 \<Rightarrow> player \<Rightarrow> user_col qrow list \<Rightarrow> user_col qrow list" where
  "savePlayer account p users =
     map (\<lambda>row. if toUInt (row USER_ACCOUNT_ID) = account then save_player p row else row) users"

definition FACE_MALE :: u16 where "FACE_MALE = 67"
definition FACE_FEMALE :: u16 where "FACE_FEMALE = 201"
definition SEX_FEMALE :: u16 where "SEX_FEMALE = 2"

text \<open>
  The points of a profession and level.  The last of the four outputs is a parameter by value, so
  the caller keeps its own; a failure leaves all of them.
\<close>

definition getPointAllot ::
  "(u16 \<times> u16 \<times> u16 \<times> u16) result_set \<Rightarrow> u16 \<times> u16 \<times> u16 \<times> u16 \<Rightarrow> err_t \<times> (u16 \<times> u16 \<times> u16 \<times> u16)" where
  "getPointAllot rows out =
     (case out of (force, dexterity, health, soul) \<Rightarrow>
        case rows of
          None \<Rightarrow> (ERROR_EXEC_FAILED, out)
        | Some [(f, d, h, s)] \<Rightarrow> (ERROR_SUCCESS, (f, d, h, soul))
        | Some _ \<Rightarrow> (ERROR_BAD_LENGTH, out))"

text \<open>
  The inserted row: the columns it names, over the defaults of the table.  The look is computed in
  \<open>int\<close>, the life and the mana too.  \<open>allots\<close> answers the query of \<open>getPointAllot\<close> for the
  profession (truncated to 8 bits) divided by ten.
\<close>

definition createPlayer_row ::
  "(u8 \<Rightarrow> (u16 \<times> u16 \<times> u16 \<times> u16) result_set) \<Rightarrow> u32 \<Rightarrow> u8 list \<Rightarrow> u16 \<Rightarrow> u16 \<Rightarrow> user_col qrow \<Rightarrow> user_col qrow" where
  "createPlayer_row allots account aName aLook aProfession defaults =
     (let face = (if aLook div 1000 = SEX_FEMALE then FACE_FEMALE else FACE_MALE);
          (_, force, dexterity, health, soul) = getPointAllot (allots (ucast aProfession div 10)) (0, 0, 0, 0)
      in defaults
         (USER_ACCOUNT_ID := qw account, USER_NAME := QStr aName,
          USER_LOOKFACE := QInt (uint face * 10000 + uint aLook), USER_PROFESSION := qw aProfession,
          USER_FORCE := qw force, USER_DEXTERITY := qw dexterity, USER_HEALTH := qw health, USER_SOUL := qw soul,
          USER_LIFE := QInt (uint force * 3 + uint dexterity * 3 + uint health * 24 + uint soul * 3),
          USER_MANA := QInt (uint soul * 5)))"

definition createPlayer ::
  "(user_col qrow \<Rightarrow> bool) \<Rightarrow> (u8 \<Rightarrow> (u16 \<times> u16 \<times> u16 \<times> u16) result_set) \<Rightarrow> u32 \<Rightarrow> u8 list \<Rightarrow> u16 \<Rightarrow> u16 \<Rightarrow>
   user_col qrow \<Rightarrow> user_col qrow list \<Rightarrow> err_t \<times> user_col qrow list" where
  "createPlayer accepts allots account aName aLook aProfession defaults users =
     (if aName = [] then (ERROR_INVALID_PARAMETER, users)
      else
        let row = createPlayer_row allots account aName aLook aProfession defaults
        in if accepts row then (ERROR_SUCCESS, users @ [row]) else (ERROR_EXEC_FAILED, users))"

section \<open>Items\<close>

datatype item_col =
    ITEM_ID | ITEM_TYPE | ITEM_OWNER_ID | ITEM_PLAYER_ID | ITEM_AMOUNT | ITEM_AMOUNT_LIMIT
   | ITEM_IDENT | ITEM_POSITION | ITEM_GEM1 | ITEM_GEM2 | ITEM_MAGIC1 | ITEM_MAGIC2 | ITEM_MAGIC3
   | ITEM_RESTRAIN | ITEM_BLESS | ITEM_ENCHANT | ITEM_SUSPICIOUS | ITEM_LOCKED | ITEM_COLOR

text \<open>
  An item of a row: \<open>getItemInfo\<close> gives its type, \<open>entity\<close> and \<open>player\<close> tell who is in the world.  An
  owner that is not in the world is no owner.
\<close>

definition load_item ::
  "(u32 \<Rightarrow> item_info option) \<Rightarrow> (u32 \<Rightarrow> bool) \<Rightarrow> (u32 \<Rightarrow> bool) \<Rightarrow> item_col qrow \<Rightarrow> err_t + item" where
  "load_item getItemInfo entity player row =
     (case getItemInfo (toUInt (row ITEM_TYPE)) of
        None \<Rightarrow> Inl ERROR_NOT_FOUND
      | Some aInfo \<Rightarrow>
          Inr ((Item (toUInt (row ITEM_ID)) aInfo)
            \<lparr>it_Amount := ucast (toUInt (row ITEM_AMOUNT)), it_AmountLimit := ucast (toUInt (row ITEM_AMOUNT_LIMIT)),
             it_Ident := ucast (toUInt (row ITEM_IDENT)), it_Position := unat (toUInt (row ITEM_POSITION)),
             it_Owner := (if entity (toUInt (row ITEM_OWNER_ID)) then Some (toUInt (row ITEM_OWNER_ID)) else None),
             it_Player := (if player (toUInt (row ITEM_PLAYER_ID)) then Some (toUInt (row ITEM_PLAYER_ID)) else None),
             it_Gem1 := ucast (toUInt (row ITEM_GEM1)), it_Gem2 := ucast (toUInt (row ITEM_GEM2)),
             it_Magic1 := ucast (toUInt (row ITEM_MAGIC1)), it_Magic2 := ucast (toUInt (row ITEM_MAGIC2)),
             it_Magic3 := ucast (toUInt (row ITEM_MAGIC3)), it_Bless := ucast (toUInt (row ITEM_BLESS)),
             it_Enchant := ucast (toUInt (row ITEM_ENCHANT)), it_Restrain := toUInt (row ITEM_RESTRAIN),
             it_Suspicious := toBool (row ITEM_SUSPICIOUS), it_Locked := toBool (row ITEM_LOCKED),
             it_Color := ucast (toUInt (row ITEM_COLOR))\<rparr>))"

definition uid_or_zero :: "u32 option \<Rightarrow> qvalue" where
  "uid_or_zero u = (case u of None \<Rightarrow> QInt 0 | Some uid \<Rightarrow> qw uid)"

definition save_item :: "item \<Rightarrow> item_col qrow \<Rightarrow> item_col qrow" where
  "save_item it row = row
     (ITEM_TYPE := qw (i_Id (it_Info it)), ITEM_OWNER_ID := uid_or_zero (it_Owner it),
      ITEM_PLAYER_ID := uid_or_zero (it_Player it),
      ITEM_AMOUNT := qw (it_Amount it), ITEM_AMOUNT_LIMIT := qw (it_AmountLimit it), ITEM_IDENT := qw (it_Ident it),
      ITEM_POSITION := QInt (int (it_Position it)), ITEM_GEM1 := qw (it_Gem1 it), ITEM_GEM2 := qw (it_Gem2 it),
      ITEM_MAGIC1 := qw (it_Magic1 it), ITEM_MAGIC2 := qw (it_Magic2 it), ITEM_MAGIC3 := qw (it_Magic3 it),
      ITEM_RESTRAIN := qw (it_Restrain it), ITEM_BLESS := qw (it_Bless it), ITEM_ENCHANT := qw (it_Enchant it),
      ITEM_SUSPICIOUS := QInt (of_bool (it_Suspicious it)), ITEM_LOCKED := QInt (of_bool (it_Locked it)),
      ITEM_COLOR := qw (it_Color it))"

definition saveItem_rows :: "item \<Rightarrow> item_col qrow list \<Rightarrow> item_col qrow list" where
  "saveItem_rows it rows = map (\<lambda>row. if toUInt (row ITEM_ID) = it_UID it then save_item it row else row) rows"

definition eraseItem_rows :: "item \<Rightarrow> item_col qrow list \<Rightarrow> item_col qrow list" where
  "eraseItem_rows it rows = filter (\<lambda>row. toUInt (row ITEM_ID) \<noteq> it_UID it) rows"

text \<open>
  Where an item of the player goes: the bag does not take a second item of the same id, a slot
  takes the later one.
\<close>

definition place_item :: "item \<Rightarrow> pstate \<Rightarrow> pstate" where
  "place_item it s =
     (let a = brk s; s = hput a it (s\<lparr>brk := a + 1\<rparr>) in
      if it_Owner it = Some (p_UID (me s)) then
        if it_Position it = POS_INVENTORY then
          (if tget (it_UID it) (p_Inventory (me s)) = None
           then set_inventory (tput (it_UID it) a (p_Inventory (me s))) s else s)
        else if MAX_EQUIPMENT > it_Position it then set_slot (it_Position it) (Some a) s
        else s
      else s)"

definition load_one_item ::
  "(u32 \<Rightarrow> item_info option) \<Rightarrow> (u32 \<Rightarrow> bool) \<Rightarrow> (u32 \<Rightarrow> bool) \<Rightarrow> item_col qrow \<Rightarrow> pstate \<Rightarrow> pstate" where
  "load_one_item getItemInfo entity player row s =
     (case load_item getItemInfo entity player row of Inl err \<Rightarrow> s | Inr it \<Rightarrow> place_item it s)"

definition getPlayerItems ::
  "(u32 \<Rightarrow> item_info option) \<Rightarrow> (u32 \<Rightarrow> bool) \<Rightarrow> (u32 \<Rightarrow> bool) \<Rightarrow> item_col qrow result_set \<Rightarrow> pstate \<Rightarrow>
   err_t \<times> pstate" where
  "getPlayerItems getItemInfo entity player rows s =
     (case rows of
        None \<Rightarrow> (ERROR_EXEC_FAILED, s)
      | Some rows \<Rightarrow> (ERROR_SUCCESS, fold (load_one_item getItemInfo entity player) rows s))"

section \<open>Skills (weaponskill.cpp, magic.cpp)\<close>

text \<open>The columns of \<^verbatim>\<open>weaponskill\<close> and \<^verbatim>\<open>magic\<close>.\<close>

datatype skill_col =
    SKILL_ID | SKILL_OWNER_ID | SKILL_TYPE | SKILL_LEVEL | SKILL_EXP | SKILL_OLD_LEVEL
   | SKILL_UNLEARN

record weapon_skill =
  ws_UID :: u32
  ws_Type :: u16
  ws_Player :: u32
  ws_Level :: u8
  ws_Exp :: u32
  ws_OldLevel :: u8
  ws_IsUnlearn :: bool

definition createSkill :: "(u32 \<Rightarrow> bool) \<Rightarrow> skill_col qrow \<Rightarrow> err_t + weapon_skill" where
  "createSkill player row =
     (if player (toUInt (row SKILL_OWNER_ID))
      then Inr \<lparr>ws_UID = toUInt (row SKILL_ID), ws_Type = ucast (toUInt (row SKILL_TYPE)),
                ws_Player = toUInt (row SKILL_OWNER_ID), ws_Level = ucast (toUInt (row SKILL_LEVEL)),
                ws_Exp = toUInt (row SKILL_EXP), ws_OldLevel = ucast (toUInt (row SKILL_OLD_LEVEL)),
                ws_IsUnlearn = toBool (row SKILL_UNLEARN)\<rparr>
      else Inl ERROR_NOT_FOUND)"

record 'i magic =
  mg_UID :: u32
  mg_Info :: 'i
  mg_Player :: u32
  mg_Exp :: u32
  mg_OldLevel :: u8
  mg_IsUnlearn :: bool

definition createMagic :: "(u16 \<Rightarrow> u16 \<Rightarrow> err_t + 'i) \<Rightarrow> (u32 \<Rightarrow> bool) \<Rightarrow> skill_col qrow \<Rightarrow> err_t + 'i magic" where
  "createMagic getMagicInfo player row =
     (if player (toUInt (row SKILL_OWNER_ID)) then
        (case getMagicInfo (ucast (toUInt (row SKILL_TYPE))) (ucast (toUInt (row SKILL_LEVEL))) of
           Inl err \<Rightarrow> Inl err
         | Inr aInfo \<Rightarrow>
             Inr \<lparr>mg_UID = toUInt (row SKILL_ID), mg_Info = aInfo, mg_Player = toUInt (row SKILL_OWNER_ID),
                  mg_Exp = toUInt (row SKILL_EXP), mg_OldLevel = ucast (toUInt (row SKILL_OLD_LEVEL)),
                  mg_IsUnlearn = toBool (row SKILL_UNLEARN)\<rparr>)
      else Inl ERROR_NOT_FOUND)"

text \<open>The player keeps its skills by type; a second skill of a type is not inserted.\<close>

definition insert_new :: "u16 \<Rightarrow> (u16, unit) table \<Rightarrow> (u16, unit) table" where
  "insert_new k t = (if tget k t = None then tput k () t else t)"

definition load_one_skill :: "(u32 \<Rightarrow> bool) \<Rightarrow> skill_col qrow \<Rightarrow> pstate \<Rightarrow> pstate" where
  "load_one_skill player row s =
     (case createSkill player row of
        Inl err \<Rightarrow> s
      | Inr k \<Rightarrow>
          if ws_Player k = p_UID (me s)
          then on_me (\<lambda>p. p\<lparr>p_WeaponSkills := insert_new (ws_Type k) (p_WeaponSkills p)\<rparr>) s else s)"

definition getPlayerWeaponSkills :: "(u32 \<Rightarrow> bool) \<Rightarrow> skill_col qrow result_set \<Rightarrow> pstate \<Rightarrow> err_t \<times> pstate" where
  "getPlayerWeaponSkills player rows s =
     (case rows of
        None \<Rightarrow> (ERROR_EXEC_FAILED, s)
      | Some rows \<Rightarrow> (ERROR_SUCCESS, fold (load_one_skill player) rows s))"

text \<open>\<open>type_of\<close> is the type field of a magic's information.\<close>

definition load_one_magic ::
  "('i \<Rightarrow> u16) \<Rightarrow> (u16 \<Rightarrow> u16 \<Rightarrow> err_t + 'i) \<Rightarrow> (u32 \<Rightarrow> bool) \<Rightarrow> skill_col qrow \<Rightarrow> pstate \<Rightarrow> pstate" where
  "load_one_magic type_of getMagicInfo player row s =
     (case createMagic getMagicInfo player row of
        Inl err \<Rightarrow> s
      | Inr k \<Rightarrow>
          if mg_Player k = p_UID (me s)
          then on_me (\<lambda>p. p\<lparr>p_Magics := insert_new (type_of (mg_Info k)) (p_Magics p)\<rparr>) s else s)"

definition getPlayerMagicSkills ::
  "('i \<Rightarrow> u16) \<Rightarrow> (u16 \<Rightarrow> u16 \<Rightarrow> err_t + 'i) \<Rightarrow> (u32 \<Rightarrow> bool) \<Rightarrow> skill_col qrow result_set \<Rightarrow> pstate \<Rightarrow>
   err_t \<times> pstate" where
  "getPlayerMagicSkills type_of getMagicInfo player rows s =
     (case rows of
        None \<Rightarrow> (ERROR_EXEC_FAILED, s)
      | Some rows \<Rightarrow> (ERROR_SUCCESS, fold (load_one_magic type_of getMagicInfo player) rows s))"

section \<open>What a row keeps\<close>

lemma signed_of_word [simp]: "(word_of_int (sint w) :: 'a::len word) = w"
  by simp

text \<open>A player as it is after a login: what has no column starts anew.\<close>

definition at_login :: "int \<Rightarrow> player \<Rightarrow> player" where
  "at_login secs p = p
     \<lparr>p_Direction := 0, p_Pose := POSE_STANDBY, p_Energy := 0, p_XP := 0, p_PrevMap := p_MapId p, p_PrevX := 0,
      p_PrevY := 0, p_PkMode := PKMODE_FREE, p_Equipment := replicate MAX_EQUIPMENT None, p_Inventory := [],
      p_WeaponSkills := [], p_Magics := [], p_MsgCount := 0, p_FirstClientTick := 0, p_LastClientTick := 0,
      p_LastRcvClientTick := 0, p_FirstServerTick := 0, p_LastServerTick := 0, p_ServerTicks := [],
      p_LastCoolShow := 0, p_LastAddEnergy := start secs ADD_ENERGY_SECS (Timer 0)\<rparr>"

definition row_of :: "player \<Rightarrow> user_col qrow \<Rightarrow> bool" where
  "row_of p row \<longleftrightarrow>
     toUInt (row USER_ID) = p_UID p \<and> toString (row USER_NAME) = p_Name p \<and>
     (ucast (toUInt (row USER_PROFESSION)) :: u8) = p_Profession p"

lemma load_saved:
  assumes "row_of p row"
  shows "load_player secs (save_player p row) = at_login secs p"
  using assms
  by (simp add: row_of_def load_player_def save_player_def at_login_def Player_def)

lemma save_keeps_keys [simp]:
  "save_player p row USER_ACCOUNT_ID = row USER_ACCOUNT_ID" "save_player p row USER_ID = row USER_ID"
  "save_player p row USER_NAME = row USER_NAME" "save_player p row USER_PROFESSION = row USER_PROFESSION"
  by (simp_all add: save_player_def)

text \<open>The rows of an account after a save: as many as before, each with the new values.\<close>

definition rows_of :: "u32 \<Rightarrow> user_col qrow list \<Rightarrow> user_col qrow list" where
  "rows_of account users = filter (\<lambda>row. toUInt (row USER_ACCOUNT_ID) = account) users"

lemma rows_of_saved:
  "rows_of account (savePlayer account p users) = map (save_player p) (rows_of account users)"
  "other \<noteq> account \<Longrightarrow> rows_of other (savePlayer account p users) = rows_of other users"
  by (induction users) (auto simp: rows_of_def savePlayer_def)

section \<open>Loading the items\<close>

lemma items_place:
  assumes "items_ok s" and "tsize (p_Inventory (me s)) < MAX_INVENTORY_SIZE"
  shows "items_ok (place_item it s)"
proof -
  let ?s = "hput (brk s) it (s\<lparr>brk := brk s + 1\<rparr>)"
  have k: "items_ok ?s" using assms(1) by (rule items_alloc)
  have t: "table_ok (p_Inventory (me s))" using assms(1) by (simp add: items_ok_def inv_ok_def)
  have m: "me ?s = me s" "brk ?s = brk s + 1" by (simp_all add: hput_def)
  have "items_ok (set_inventory (tput (it_UID it) (brk s) (p_Inventory (me ?s))) ?s)"
    (is "items_ok ?i")
  proof -
    have "inv_ok ?i"
    proof (rule inv_okI)
      fix uid a assume "tget uid (p_Inventory (me ?i)) = Some a"
      then have "uid = it_UID it \<and> a = brk s \<or> tget uid (p_Inventory (me ?s)) = Some a"
        using t m by (auto simp: set_inventory_def table_simps split: if_splits)
      moreover have "heap ?i = heap ?s" "brk ?i = brk ?s" by (simp_all add: set_inventory_def)
      ultimately show "a < brk ?i \<and> (\<exists>x. heap ?i a = Some x \<and> it_UID x = uid)"
        using inv_entry [of ?s uid a] k by (auto simp: items_ok_def) (auto simp: hput_def)
    qed (use assms(2) k t m tab.guarded_put in
        \<open>auto simp: items_ok_def inv_ok_def set_inventory_def table_simps Suc_le_eq\<close>)
    then show ?thesis using k by (simp add: items_ok_def equip_ok_def set_inventory_def)
  qed
  moreover have "items_ok (set_slot pos (Some (brk s)) ?s)" for pos
    using items_set_slot [OF k, of "Some (brk s)"] m by simp
  ultimately show ?thesis
    using k by (auto simp: place_item_def Let_def)
qed

lemma place_size: "tsize (p_Inventory (me (place_item it s))) \<le> Suc (tsize (p_Inventory (me s)))"
  if "table_ok (p_Inventory (me s))"
proof -
  have m: "me (hput a it (s\<lparr>brk := b\<rparr>)) = me s" for a b by (simp add: hput_def)
  show ?thesis
    using that by (simp add: place_item_def Let_def m set_inventory_def set_slot_def table_simps)
qed

lemma items_load_rows:
  assumes "items_ok s" and "tsize (p_Inventory (me s)) + length rows \<le> MAX_INVENTORY_SIZE"
  shows "items_ok (fold (load_one_item infos entity player) rows s)"
  using assms
proof (induction rows arbitrary: s)
  case (Cons row rows)
  have "items_ok (load_one_item infos entity player row s) \<and>
      tsize (p_Inventory (me (load_one_item infos entity player row s))) \<le> Suc (tsize (p_Inventory (me s)))"
    using Cons.prems items_place [of s] place_size [of s]
    by (auto simp: load_one_item_def items_ok_def inv_ok_def split: sum.split)
  then show ?case using Cons.prems(2) by (simp add: Cons.IH)
qed simp

lemma items_at_start: "items_ok \<lparr>me = load_player secs row, heap = h, brk = b, effs = es\<rparr>"
  by (simp add: items_ok_def inv_ok_def equip_ok_def load_player_def Player_def table_ok_def tsize_def
      MAX_EQUIPMENT_def list_all_iff)

text \<open>When an item comes back from its row as it was.\<close>

definition item_loadable ::
  "(u32 \<Rightarrow> item_info option) \<Rightarrow> (u32 \<Rightarrow> bool) \<Rightarrow> (u32 \<Rightarrow> bool) \<Rightarrow> item \<Rightarrow> bool" where
  "item_loadable infos entity player it \<longleftrightarrow>
     infos (i_Id (it_Info it)) = Some (it_Info it) \<and> it_Position it < 2 ^ 32 \<and>
     (case it_Owner it of None \<Rightarrow> \<not> entity 0 | Some u \<Rightarrow> entity u) \<and>
     (case it_Player it of None \<Rightarrow> \<not> player 0 | Some u \<Rightarrow> player u)"

lemma toUInt_position [simp]: "n < 2 ^ 32 \<Longrightarrow> unat (toUInt (QInt (int n))) = n"
  by (simp add: toUInt_def unat_of_nat take_bit_nat_eq_self)

lemma owner_back:
  "(case u of None \<Rightarrow> \<not> present 0 | Some x \<Rightarrow> present x) \<Longrightarrow>
   (if present (toUInt (uid_or_zero u)) then Some (toUInt (uid_or_zero u)) else None) = u"
  by (cases u) (simp_all add: uid_or_zero_def toUInt_def)

lemma load_saved_item:
  assumes "item_loadable infos entity player it" and "toUInt (row ITEM_ID) = it_UID it"
  shows "load_item infos entity player (save_item it row) = Inr it"
  using assms owner_back [of entity "it_Owner it"] owner_back [of player "it_Player it"]
  by (cases it) (simp add: item_loadable_def load_item_def save_item_def Item_def split: if_splits)

section \<open>Properties\<close>

text \<open>C19: A saved player comes back: after \<open>savePlayer\<close>, \<open>getPlayerInfo\<close> on the rows of the account gives the
  player with every attribute that has a column unchanged (the name and the profession are not
  written, the row must have them already).  The rest starts anew; in particular the previous
  position is (0, 0) on the map of the player.\<close>
theorem saved_player_loads_back:
  assumes "rows_of account users = [row]" and "row_of p row"
  shows "getPlayerInfo secs (Some (rows_of account (savePlayer account p users))) = Inr (Some (at_login secs p))"
  using assms by (simp add: rows_of_saved getPlayerInfo_def load_saved)

definition sample_row :: "user_col qrow" where
  "sample_row = (\<lambda>_. QInt 0)(USER_ACCOUNT_ID := QInt 7, USER_ID := QInt 1000001, USER_NAME := QStr (bytes ''Bob''))"

lemma saved_player_loads_back_witness:
  "getPlayerInfo 0 (Some (rows_of 7 (savePlayer 7 ((Player 0 1000001)\<lparr>p_Name := bytes ''Bob'', p_Money := 50\<rparr>)
     [sample_row]))) = Inr (Some (at_login 0 ((Player 0 1000001)\<lparr>p_Name := bytes ''Bob'', p_Money := 50\<rparr>)))"
  by (rule saved_player_loads_back [of _ _ sample_row])
    (simp_all add: rows_of_def sample_row_def toUInt_def row_of_def Player_def)

text \<open>A saved item comes back unchanged, wherever it is worn or kept, as long as its type is known and its
  owner and its player are in the world (or none of them has the id zero).\<close>
theorem saved_item_loads_back:
  assumes "item_loadable infos entity player it" and "toUInt (row ITEM_ID) = it_UID it"
  shows "load_item infos entity player (save_item it row) = Inr it"
  using assms by (rule load_saved_item)

lemma saved_item_loads_back_witness:
  "load_item (\<lambda>i. Some Item_Info) (\<lambda>u. u = 9) (\<lambda>u. u = 9)
     (save_item ((Item 5 Item_Info)\<lparr>it_Owner := Some 9, it_Player := Some 9, it_Position := 4\<rparr>)
       ((\<lambda>_. QInt 0)(ITEM_ID := QInt 5))) =
   Inr ((Item 5 Item_Info)\<lparr>it_Owner := Some 9, it_Player := Some 9, it_Position := 4\<rparr>)"
  by (rule saved_item_loads_back) (simp_all add: item_loadable_def Item_def toUInt_def)

text \<open>Loading the items of a new player object makes its bag and its equipment well formed, whatever the
  rows hold (unknown types, foreign owners, repeated ids, slots that do not exist), if there are no
  more rows than the bag has places.\<close>
theorem loaded_items_ok:
  assumes "length rows \<le> MAX_INVENTORY_SIZE"
  shows "items_ok (snd (getPlayerItems infos entity player (Some rows)
    \<lparr>me = load_player secs row, heap = h, brk = b, effs = es\<rparr>))"
proof -
  have "tsize (p_Inventory (load_player secs row)) = 0" by (simp add: load_player_def Player_def tsize_def)
  then show ?thesis
    using items_load_rows [OF items_at_start] assms by (simp add: getPlayerItems_def)
qed

lemma loaded_items_ok_witness:
  "items_ok (snd (getPlayerItems (\<lambda>i. Some Item_Info) (\<lambda>u. True) (\<lambda>u. True) (Some [\<lambda>_. QInt 0])
     \<lparr>me = load_player 0 (\<lambda>_. QInt 0), heap = (\<lambda>_. None), brk = 0, effs = []\<rparr>))"
  by (rule loaded_items_ok) (simp add: MAX_INVENTORY_SIZE_def)

text \<open>Every new player is created without soul and without mana, whatever the table of points says: the
  points of the soul are written to a copy.\<close>
theorem new_player_without_soul:
  "createPlayer_row allots account aName aLook aProfession defaults USER_SOUL = QInt 0 \<and>
   createPlayer_row allots account aName aLook aProfession defaults USER_MANA = QInt 0"
  by (simp add: createPlayer_row_def getPointAllot_def Let_def split_beta split: option.split list.split)

end
