(* ===== verification/Login.thy ===== *)
theory Login
  imports Rows Incoming RC5
begin

text \<open>
  Logging in and out: the accounts (\<^verbatim>\<open>msgaccount.cpp\<close>, \<^verbatim>\<open>msgregister.cpp\<close>), the connection of a client
  with the player of its account (\<^verbatim>\<open>msgconnect.cpp\<close>), and the end of a connection (\<^verbatim>\<open>Client::save\<close>,
  \<^verbatim>\<open>Client::~Client\<close>, \<^verbatim>\<open>Server::disconnectionHandler\<close>).  Clients and players are objects at
  addresses that are freed; using a freed object has no value (\<open>None\<close>).
\<close>

section \<open>State\<close>

text \<open>A client, as far as the login looks at it.\<close>

record login_client =
  lc_Status :: status
  lc_Account :: "u8 list"
  lc_AccountID :: u32
  lc_Character :: "u8 list"
  lc_Player :: "addr option"

datatype login_msg =
    LTalk string u16
  | LDate
  | LUserInfo player
  | LConnectEx u32 u32 "u8 list" u16
  | LLeaveMap u32

record logins =
  lg_clients :: "addr \<Rightarrow> login_client option"
  lg_players :: "addr \<Rightarrow> (pstate \<times> addr) option"   \<comment> \<open>with the client of the player\<close>
  lg_next :: addr
  lg_world :: world
  lg_users :: "user_col qrow list"
  lg_sent :: "(addr \<times> login_msg) list"

text \<open>What the database answers besides the table of the players, and when it fails.\<close>

datatype query = QAccount | QPlayer | QItems | QWeaponSkills | QMagics | QSave

record db_env =
  db_fails :: "query \<Rightarrow> bool"
  db_accounts :: "u8 list \<Rightarrow> (u32 \<times> u8 list) list"
  db_accepts :: "user_col qrow \<Rightarrow> bool"   \<comment> \<open>the constraints of the table\<close>
  db_allots :: "u8 \<Rightarrow> (u16 \<times> u16 \<times> u16 \<times> u16) result_set"
  db_defaults :: "user_col qrow"
  db_item_info :: "u32 \<Rightarrow> item_info option"
  db_magic_info :: "u16 \<Rightarrow> u16 \<Rightarrow> err_t + u16"
  db_items :: "u32 \<Rightarrow> item_col qrow list"
  db_skills :: "u32 \<Rightarrow> skill_col qrow list"
  db_magics :: "u32 \<Rightarrow> skill_col qrow list"

definition answer :: "db_env \<Rightarrow> query \<Rightarrow> 'r list \<Rightarrow> 'r result_set" where
  "answer env q rows = (if db_fails env q then None else Some rows)"

definition CHANNEL_ENTRANCE :: u16 where "CHANNEL_ENTRANCE = 2101"
definition CHANNEL_REGISTER :: u16 where "CHANNEL_REGISTER = 2100"
definition CHANNEL_TALK :: u16 where "CHANNEL_TALK = 2007"

text \<open>\<open>client.send(msg)\<close>.\<close>

definition say :: "addr \<Rightarrow> login_msg \<Rightarrow> logins \<Rightarrow> logins option" where
  "say c m s = (if lg_clients s c = None then None else Some (s\<lparr>lg_sent := lg_sent s @ [(c, m)]\<rparr>))"

definition on_client :: "addr \<Rightarrow> (login_client \<Rightarrow> login_client) \<Rightarrow> logins \<Rightarrow> logins" where
  "on_client c f s = s\<lparr>lg_clients := (lg_clients s)(c := map_option f (lg_clients s c))\<rparr>"

definition on_world :: "(world \<Rightarrow> bool \<times> world) \<Rightarrow> logins \<Rightarrow> logins" where
  "on_world f s = s\<lparr>lg_world := snd (f (lg_world s))\<rparr>"

definition ref_of :: "addr \<Rightarrow> pstate \<Rightarrow> player_ref" where
  "ref_of a ps = \<lparr>pr_at = a, pr_UID = p_UID (me ps), pr_Name = p_Name (me ps)\<rparr>"

section \<open>Accounts: MsgAccount and MsgRegister\<close>

text \<open>
  A \<^verbatim>\<open>char\<close> array of a message is a C string that may run into the fields behind it (\<open>rest\<close>); one that
  does not end within the structure has no value.
\<close>

definition string_at :: "u8 list \<Rightarrow> u8 list \<Rightarrow> u8 list option" where
  "string_at field rest =
     (if 0 \<in> set (field @ rest) then Some (takeWhile (\<lambda>c. c \<noteq> 0) (field @ rest)) else None)"

text \<open>\<open>Database::authenticate\<close> with its effect on the client.\<close>

definition client_authenticate :: "db_env \<Rightarrow> addr \<Rightarrow> u8 list \<Rightarrow> u8 list \<Rightarrow> logins \<Rightarrow> err_t \<times> logins" where
  "client_authenticate env c account password s =
     (case authenticate (answer env QAccount (db_accounts env account)) account password of
        Inl err \<Rightarrow> (err, s)
      | Inr uid \<Rightarrow> (ERROR_SUCCESS, on_client c (\<lambda>cl. cl\<lparr>lc_AccountID := uid\<rparr>) s))"

section \<open>The end of a connection\<close>

text \<open>
  \<open>Client::save\<close>.  The loop asks for up to three tries, but \<open>DOIF\<close> does nothing once the first
  one has failed.
\<close>

definition Client_save :: "db_env \<Rightarrow> addr \<Rightarrow> logins \<Rightarrow> logins option" where
  "Client_save env c s =
     (case lg_clients s c of
        None \<Rightarrow> None
      | Some cl \<Rightarrow>
          case lc_Player cl of
            None \<Rightarrow> Some s
          | Some a \<Rightarrow>
              case lg_players s a of
                None \<Rightarrow> None
              | Some (ps, _) \<Rightarrow>
                  Some (if db_fails env QSave then s
                        else s\<lparr>lg_users := savePlayer (lc_AccountID cl) (me ps) (lg_users s)\<rparr>))"

text \<open>\<open>Client::~Client\<close>: the player leaves the registry and is deleted with the client.\<close>

definition delete_client :: "addr \<Rightarrow> logins \<Rightarrow> logins option" where
  "delete_client c s =
     (case lg_clients s c of
        None \<Rightarrow> None
      | Some cl \<Rightarrow>
          case lc_Player cl of
            None \<Rightarrow> Some (s\<lparr>lg_clients := (lg_clients s)(c := None)\<rparr>)
          | Some a \<Rightarrow>
              case lg_players s a of
                None \<Rightarrow> None
              | Some (ps, _) \<Rightarrow>
                  let s = on_world (removePlayer (ref_of a ps)) s
                  in Some (s\<lparr>lg_players := (lg_players s)(a := None), lg_clients := (lg_clients s)(c := None)\<rparr>))"

definition disconnectionHandler :: "db_env \<Rightarrow> addr \<Rightarrow> logins \<Rightarrow> logins option" where
  "disconnectionHandler env c s = do {
     s \<leftarrow> Client_save env c s;
     cl \<leftarrow> lg_clients s c;
     case lc_Player cl of
       None \<Rightarrow> delete_client c s
     | Some a \<Rightarrow> do {
         (ps, _) \<leftarrow> lg_players s a;
         let s = on_world (removePlayer (ref_of a ps)) s;
         delete_client c (s\<lparr>lg_sent := lg_sent s @ [(c, LLeaveMap (p_UID (me ps)))]\<rparr>) } }"

text \<open>\<open>Client::disconnect\<close> ends in the handler at once; a client that is gone must not be asked.\<close>

definition client_disconnect :: "db_env \<Rightarrow> addr \<Rightarrow> logins \<Rightarrow> logins option" where
  "client_disconnect env c s = (if lg_clients s c = None then None else disconnectionHandler env c s)"

section \<open>The handlers of the account server\<close>

definition ACCOUNT_SEED :: "u8 list" where
  "ACCOUNT_SEED = [0x3C, 0xDC, 0xFE, 0xE8, 0xC4, 0x54, 0xD6, 0x7E, 0x16, 0xA6, 0xF8, 0x1A, 0xE8, 0xD0, 0x38, 0xBE]"

definition INVALID_UID :: u32 where "INVALID_UID = 0"
definition ERROR_ID_INVALID_PWD :: u32 where "ERROR_ID_INVALID_PWD = 1"

text \<open>
  The password is decrypted in place, after the account was taken and before both are checked.  \<open>token\<close>
  is the random number of the answer, \<open>ip\<close> the address of the server.
\<close>

definition MsgAccount_process :: "db_env \<Rightarrow> u32 \<Rightarrow> u8 list \<Rightarrow> msg_account \<Rightarrow> addr \<Rightarrow> logins \<Rightarrow> logins option" where
  "MsgAccount_process env token ip m c s = do {
     account \<leftarrow> string_at (mu_Account m) (mu_Password m @ mu_Server m);
     let s = on_client c (\<lambda>cl. cl\<lparr>lc_Account := account\<rparr>) s;
     let pwd = rc5_decrypt (RC5.generateKey ACCOUNT_SEED) (mu_Password m);
     account \<leftarrow> string_at (mu_Account m) (pwd @ mu_Server m);
     password \<leftarrow> string_at pwd (mu_Server m);
     if isValidString (Some account) \<and> isValidString (Some password) then do {
       let (err, s) = client_authenticate env c account password s;
       if err = ERROR_SUCCESS then do {
         server \<leftarrow> string_at (mu_Server m) [];
         cl \<leftarrow> lg_clients s c;
         say c (LConnectEx (lc_AccountID cl) token ip MSGSERVER_PORT) s }
       else say c (LConnectEx INVALID_UID ERROR_ID_INVALID_PWD [] 0) s }
     else client_disconnect env c s }"

text \<open>\<open>Database::createPlayer\<close> for the account of the client.\<close>

definition client_createPlayer ::
  "db_env \<Rightarrow> addr \<Rightarrow> u8 list \<Rightarrow> u16 \<Rightarrow> u16 \<Rightarrow> logins \<Rightarrow> (err_t \<times> logins) option" where
  "client_createPlayer env c name look prof s = do {
     cl \<leftarrow> lg_clients s c;
     let (err, users) = createPlayer (db_accepts env) (db_allots env) (lc_AccountID cl) name look prof (db_defaults env) (lg_users s);
     Some (err, s\<lparr>lg_users := users\<rparr>) }"

definition MsgRegister_process :: "db_env \<Rightarrow> msg_register \<Rightarrow> addr \<Rightarrow> logins \<Rightarrow> logins option" where
  "MsgRegister_process env m c s = do {
     let numbers = wr16 (mr_Look m) @ wr16 (mr_Profession m) @ wr32 (mr_AccountUID m);
     account \<leftarrow> string_at (mr_Account m) (mr_Name m @ mr_Password m @ numbers);
     if isValidString (Some account) then do {
       password \<leftarrow> string_at (mr_Password m) numbers;
       if isValidString (Some password) then do {
         let (err, s) = client_authenticate env c account password s;
         cl \<leftarrow> lg_clients s c;
         if err = ERROR_SUCCESS \<and> lc_AccountID cl = mr_AccountUID m then do {
           name \<leftarrow> string_at (mr_Name m) (mr_Password m @ numbers);
           if isValidNameString (Some name) then do {
             (err, s) \<leftarrow> client_createPlayer env c name (mr_Look m) (mr_Profession m) s;
             if err = ERROR_SUCCESS then say c (LTalk ''STR_REPLY_OK'' CHANNEL_REGISTER) s
             else say c (LTalk ''STR_ERROR_DUPLICATE_NAME'' CHANNEL_REGISTER) s }
           else say c (LTalk ''STR_ERROR_ILLEGAL_NAME'' CHANNEL_REGISTER) s }
         else client_disconnect env c s }
       else say c (LTalk ''STR_ERROR_ILLEGAL_PASSWORD'' CHANNEL_REGISTER) s }
     else say c (LTalk ''STR_ERROR_ILLEGAL_ACCOUNT'' CHANNEL_REGISTER) s }"

section \<open>MsgConnect\<close>

text \<open>\<open>Database::getPlayerInfo\<close> with its effect on the client: a new object replaces the pointer.\<close>

definition client_getPlayerInfo :: "db_env \<Rightarrow> int \<Rightarrow> addr \<Rightarrow> login_client \<Rightarrow> logins \<Rightarrow> err_t \<times> logins" where
  "client_getPlayerInfo env secs c cl s =
     (case getPlayerInfo secs (answer env QPlayer (rows_of (lc_AccountID cl) (lg_users s))) of
        Inl err \<Rightarrow> (err, s)
      | Inr None \<Rightarrow> (ERROR_SUCCESS, s)
      | Inr (Some p) \<Rightarrow>
          let a = lg_next s;
              ps = \<lparr>me = p, heap = (\<lambda>_. None), brk = 0, effs = []\<rparr>;
              s = s\<lparr>lg_players := (lg_players s)(a \<mapsto> (ps, c)), lg_next := a + 1\<rparr>
          in (ERROR_SUCCESS, on_client c (\<lambda>cl. cl\<lparr>lc_Character := p_Name p, lc_Player := Some a\<rparr>) s))"

text \<open>Another object with the same id is thrown out of the world, and its client disconnected.\<close>

definition throw_out :: "db_env \<Rightarrow> u32 \<Rightarrow> logins \<Rightarrow> logins option" where
  "throw_out env uid s =
     (case queryPlayer uid (lg_world s) of
        None \<Rightarrow> Some s
      | Some b \<Rightarrow> do {
          (pb, cb) \<leftarrow> lg_players s b;
          client_disconnect env cb (on_world (removePlayer (ref_of b pb)) s) })"

text \<open>What is sent on entrance.\<close>

definition entrance :: "addr \<Rightarrow> player \<Rightarrow> logins \<Rightarrow> logins option" where
  "entrance c p s = do {
     s \<leftarrow> say c (LTalk ''STR_REPLY_OK'' CHANNEL_ENTRANCE) s;
     s \<leftarrow> say c LDate s;
     s \<leftarrow> say c (LUserInfo p) s;
     s \<leftarrow> say c (LTalk ''STR_CREATOR_INFO'' CHANNEL_TALK) s;
     s \<leftarrow> say c (LTalk ''STR_BUILD_INFO'' CHANNEL_TALK) s;
     say c (LTalk ''getServerInfo'' CHANNEL_TALK) s }"

text \<open>The three loads that follow, one after the other while they succeed.\<close>

definition load_rest :: "db_env \<Rightarrow> (u32 \<Rightarrow> bool) \<Rightarrow> (u32 \<Rightarrow> bool) \<Rightarrow> pstate \<Rightarrow> err_t \<times> pstate" where
  "load_rest env entity player ps =
     (let uid = p_UID (me ps);
          (err, ps) = getPlayerItems (db_item_info env) entity player (answer env QItems (db_items env uid)) ps
      in if err \<noteq> ERROR_SUCCESS then (err, ps)
         else
           let (err, ps) = getPlayerWeaponSkills player (answer env QWeaponSkills (db_skills env uid)) ps
           in if err \<noteq> ERROR_SUCCESS then (err, ps)
              else getPlayerMagicSkills id (db_magic_info env) player (answer env QMagics (db_magics env uid)) ps)"

definition connect_player :: "db_env \<Rightarrow> addr \<Rightarrow> addr \<Rightarrow> logins \<Rightarrow> logins option" where
  "connect_player env c a s = do {
     (ps, _) \<leftarrow> lg_players s a;
     s \<leftarrow> throw_out env (p_UID (me ps)) s;
     (ps, owner) \<leftarrow> lg_players s a;
     let s = on_world (addPlayer (ref_of a ps)) s;
     s \<leftarrow> entrance c (me ps) s;
     let w = lg_world s;
     let (err, ps) = load_rest env (\<lambda>u. queryEntity u w \<noteq> None) (\<lambda>u. queryPlayer u w \<noteq> None) ps;
     let s = s\<lparr>lg_players := (lg_players s)(a \<mapsto> (ps, owner))\<rparr>;
     if err \<noteq> ERROR_SUCCESS then client_disconnect env c s else Some s }"

definition MsgConnect_process :: "db_env \<Rightarrow> int \<Rightarrow> msg_connect \<Rightarrow> addr \<Rightarrow> logins \<Rightarrow> logins option" where
  "MsgConnect_process env secs m c s = do {
     cl \<leftarrow> lg_clients s c;
     let status = lc_Status cl;
     let s = on_client c (\<lambda>cl. cl\<lparr>lc_AccountID := mc_AccountUID m\<rparr>) s;
     if status = NOT_AUTHENTICATED then client_disconnect env c s
     else if status = NORMAL then do {
       cl \<leftarrow> lg_clients s c;
       let (err, s) = client_getPlayerInfo env secs c cl s;
       if err \<noteq> ERROR_SUCCESS then client_disconnect env c s
       else do {
         cl \<leftarrow> lg_clients s c;
         case lc_Player cl of
           None \<Rightarrow> say c (LTalk ''STR_REPLY_NEW_ROLE'' CHANNEL_ENTRANCE) s
         | Some a \<Rightarrow> connect_player env c a s } }
     else Some s }"

end
