(* ===== verification/LoginRun.thy ===== *)
theory LoginRun
  imports Login
begin

text \<open>
  The server as clients connect, log in once, play and disconnect: no step uses an object that was
  freed, and the registries of the world only hold live players.  Then what happens outside of
  this discipline: a second login on one connection, and a login while the player is online.
\<close>

section \<open>The invariant\<close>

text \<open>Clients and players own each other.\<close>

definition owners_ok :: "logins \<Rightarrow> bool" where
  "owners_ok s \<longleftrightarrow>
     (\<forall>c cl a. lg_clients s c = Some cl \<longrightarrow> lc_Player cl = Some a \<longrightarrow> (\<exists>ps. lg_players s a = Some (ps, c))) \<and>
     (\<forall>a ps c. lg_players s a = Some (ps, c) \<longrightarrow>
        a < lg_next s \<and> (\<exists>cl. lg_clients s c = Some cl \<and> lc_Player cl = Some a))"

definition obj :: "logins \<Rightarrow> addr \<Rightarrow> player_ref" where
  "obj s a = (case lg_players s a of None \<Rightarrow> \<lparr>pr_at = a, pr_UID = 0, pr_Name = []\<rparr> | Some (ps, _) \<Rightarrow> ref_of a ps)"

definition registry_ok :: "logins \<Rightarrow> bool" where
  "registry_ok s \<longleftrightarrow> players_ok (obj s) (lg_world s) \<and>
     (\<forall>uid a. tget uid (mAllPlayers (lg_world s)) = Some a \<longrightarrow> lg_players s a \<noteq> None)"

text \<open>Every id has its own name \<open>nm\<close>, in the table and in the objects.\<close>

definition named :: "(u32 \<Rightarrow> u8 list) \<Rightarrow> logins \<Rightarrow> bool" where
  "named nm s \<longleftrightarrow> inj nm \<and>
     (\<forall>row \<in> set (lg_users s). toString (row USER_NAME) = nm (toUInt (row USER_ID))) \<and>
     (\<forall>a ps c. lg_players s a = Some (ps, c) \<longrightarrow> p_Name (me ps) = nm (p_UID (me ps)))"

definition login_ok :: "(u32 \<Rightarrow> u8 list) \<Rightarrow> logins \<Rightarrow> bool" where
  "login_ok nm s \<longleftrightarrow> owners_ok s \<and> registry_ok s \<and> named nm s"

text \<open>Ownership as one relation.\<close>

definition owner :: "logins \<Rightarrow> addr \<Rightarrow> addr option" where "owner s a = map_option snd (lg_players s a)"
definition holds :: "logins \<Rightarrow> addr \<Rightarrow> addr option" where "holds s c = Option.bind (lg_clients s c) lc_Player"

lemma owners_alt:
  "owners_ok s \<longleftrightarrow> (\<forall>a c. owner s a = Some c \<longleftrightarrow> holds s c = Some a) \<and> (\<forall>a. owner s a \<noteq> None \<longrightarrow> a < lg_next s)"
proof -
  have o: "owner s a = Some c \<longleftrightarrow> (\<exists>ps. lg_players s a = Some (ps, c))" for a c
    by (cases "lg_players s a") (auto simp: owner_def)
  have h: "holds s c = Some a \<longleftrightarrow> (\<exists>cl. lg_clients s c = Some cl \<and> lc_Player cl = Some a)" for a c
    by (cases "lg_clients s c") (auto simp: holds_def)
  have n: "owner s a \<noteq> None \<longleftrightarrow> (\<exists>ps c. lg_players s a = Some (ps, c))" for a
    by (cases "lg_players s a") (auto simp: owner_def)
  show ?thesis unfolding owners_ok_def o h n by blast
qed

lemma owners_cong:
  "owner s' = owner s \<Longrightarrow> holds s' = holds s \<Longrightarrow> lg_next s' = lg_next s \<Longrightarrow> owners_ok s' = owners_ok s"
  by (simp add: owners_alt)

section \<open>Frames\<close>

lemma say_live: "lg_clients s c \<noteq> None \<Longrightarrow> say c m s = Some (s\<lparr>lg_sent := lg_sent s @ [(c, m)]\<rparr>)"
  by (simp add: say_def)

lemma on_world_frame [simp]:
  "lg_clients (on_world f s) = lg_clients s" "lg_players (on_world f s) = lg_players s"
  "lg_next (on_world f s) = lg_next s" "lg_users (on_world f s) = lg_users s" "lg_sent (on_world f s) = lg_sent s"
  "lg_world (on_world f s) = snd (f (lg_world s))" "obj (on_world f s) = obj s"
  by (simp_all add: on_world_def obj_def fun_eq_iff)

lemma ref_of_simps [simp]:
  "pr_at (ref_of a ps) = a" "pr_UID (ref_of a ps) = p_UID (me ps)" "pr_Name (ref_of a ps) = p_Name (me ps)"
  by (simp_all add: ref_of_def)

lemma obj_live: "lg_players s a = Some (ps, c) \<Longrightarrow> obj s a = ref_of a ps"
  by (simp add: obj_def)

lemma obj_frame [simp]: "obj (s\<lparr>lg_sent := x\<rparr>) = obj s" "obj (s\<lparr>lg_clients := y\<rparr>) = obj s" "obj (s\<lparr>lg_users := z\<rparr>) = obj s"
  by (simp_all add: obj_def fun_eq_iff)

lemma login_ok_sent [simp]: "login_ok nm (s\<lparr>lg_sent := x\<rparr>) = login_ok nm s"
  by (simp add: login_ok_def owners_ok_def registry_ok_def named_def)

lemma players_ok_cong:
  assumes "\<And>uid a. tget uid (mAllPlayers w) = Some a \<Longrightarrow> f a = g a" and "players_ok f w"
  shows "players_ok g w"
proof -
  have n: "g a = f a" if "tget n (mAllPlayerNames w) = Some a" for n a
    using assms(1) [of "pr_UID (f a)" a] assms(2) that by (simp add: players_ok_def)
  note u = assms(1) [symmetric]
  show ?thesis
    using assms(2) unfolding players_ok_def by (simp add: n u)
qed

section \<open>Leaving the registry\<close>

lemma name_of: "login_ok nm s \<Longrightarrow> lg_players s a = Some (ps, c) \<Longrightarrow> p_Name (me ps) = nm (p_UID (me ps))"
  unfolding login_ok_def named_def by blast

lemma registered_obj:
  "login_ok nm s \<Longrightarrow> tget uid (mAllPlayers (lg_world s)) = Some a \<Longrightarrow> lg_players s a \<noteq> None \<and> pr_UID (obj s a) = uid"
  unfolding login_ok_def registry_ok_def players_ok_def by blast

lemma registered_live:
  assumes "login_ok nm s" and "tget uid (mAllPlayers (lg_world s)) = Some a"
  obtains ps c where "lg_players s a = Some (ps, c)" and "p_UID (me ps) = uid"
proof -
  obtain ps c where l: "lg_players s a = Some (ps, c)"
    using registered_obj [OF assms] by fastforce
  then have "p_UID (me ps) = uid" using registered_obj [OF assms] by (simp add: obj_live)
  with l show ?thesis using that by blast
qed

lemma remove_ok:
  assumes ok: "login_ok nm s" and l: "lg_players s a = Some (ps, c)"
  shows "login_ok nm (on_world (removePlayer (ref_of a ps)) s)"
    and "tget (p_UID (me ps)) (mAllPlayers (lg_world (on_world (removePlayer (ref_of a ps)) s))) = None"
    and "tget uid (mAllPlayers (lg_world (on_world (removePlayer (ref_of a ps)) s))) = Some b \<Longrightarrow>
      tget uid (mAllPlayers (lg_world s)) = Some b"
proof -
  let ?w = "lg_world s" and ?p = "ref_of a ps"
  have reg: "players_ok (obj s) ?w" using ok by (simp add: login_ok_def registry_ok_def)
  note nm = name_of [OF ok l]
  have same: "pr_Name (obj s b) = pr_Name ?p" if h: "tget (pr_UID ?p) (mAllPlayers ?w) = Some b" for b
  proof -
    obtain pb cb where "lg_players s b = Some (pb, cb)" "p_UID (me pb) = p_UID (me ps)"
      by (rule registered_live [OF ok h]) simp
    then show ?thesis using nm name_of [OF ok] by (simp add: obj_live)
  qed
  have t: "table_ok (mAllPlayers ?w)" using reg by (simp add: players_ok_def)
  have sub: "tget uid (mAllPlayers (snd (removePlayer ?p ?w))) = Some b \<Longrightarrow> tget uid (mAllPlayers ?w) = Some b" for uid b
    using t by (auto simp: removePlayer_def table_simps split: if_splits)
  then show "tget uid (mAllPlayers (lg_world (on_world (removePlayer ?p) s))) = Some b \<Longrightarrow>
      tget uid (mAllPlayers ?w) = Some b" by simp
  have "players_ok (obj s) (snd (removePlayer ?p ?w))"
    using remove_keeps_players [OF reg same] .
  with sub ok show "login_ok nm (on_world (removePlayer ?p) s)"
    unfolding login_ok_def registry_ok_def owners_ok_def named_def on_world_frame by blast
  show "tget (p_UID (me ps)) (mAllPlayers (lg_world (on_world (removePlayer ?p) s))) = None"
  proof (cases "tget (p_UID (me ps)) (mAllPlayers ?w)")
    case (Some b)
    have "tget (pr_Name (obj s b)) (mAllPlayerNames ?w) = Some b"
      using reg Some unfolding players_ok_def by blast
    then have "tget (p_Name (me ps)) (mAllPlayerNames ?w) \<noteq> None" using same [of b] Some by simp
    then show ?thesis using Some t by (simp add: removePlayer_def table_simps)
  qed (simp add: removePlayer_def)
qed

section \<open>The end of a connection\<close>

definition gone :: "addr \<Rightarrow> logins \<Rightarrow> logins \<Rightarrow> bool" where
  "gone c s s' \<longleftrightarrow>
     lg_clients s' = (lg_clients s)(c := None) \<and> lg_next s' = lg_next s \<and>
     (\<forall>a. lg_players s' a =
        (if (\<exists>cl. lg_clients s c = Some cl \<and> lc_Player cl = Some a) then None else lg_players s a)) \<and>
     (\<forall>uid a. tget uid (mAllPlayers (lg_world s')) = Some a \<longrightarrow> tget uid (mAllPlayers (lg_world s)) = Some a)"

lemma client_player:
  assumes "login_ok nm s" and "lg_clients s c = Some cl" and "lc_Player cl = Some a"
  obtains ps where "lg_players s a = Some (ps, c)"
  using assms unfolding login_ok_def owners_ok_def by blast

lemma player_client:
  assumes "login_ok nm s" and "lg_players s a = Some (ps, c)"
  shows "a < lg_next s" and "\<exists>cl. lg_clients s c = Some cl \<and> lc_Player cl = Some a"
  using assms unfolding login_ok_def owners_ok_def by blast+

text \<open>A client that goes with its player, once the player is out of the registry.\<close>

lemma drop_ok:
  assumes ok: "login_ok nm s" and cl: "lg_clients s c = Some cl"
    and out: "\<And>uid a. lc_Player cl = Some a \<Longrightarrow> tget uid (mAllPlayers (lg_world s)) \<noteq> Some a"
    and s': "lg_clients s' = (lg_clients s)(c := None)" "lg_next s' = lg_next s" "lg_world s' = lg_world s"
      "lg_users s' = lg_users s" "\<And>a. lg_players s' a = (if lc_Player cl = Some a then None else lg_players s a)"
  shows "login_ok nm s'"
proof -
  have own: "lg_players s a = Some (ps, c) \<Longrightarrow> lc_Player cl = Some a" for a ps
    using player_client(2) [OF ok] cl by fastforce
  have o: "owners_ok s'"
    unfolding owners_ok_def
  proof (intro conjI allI impI)
    fix d dl a assume d: "lg_clients s' d = Some dl" "lc_Player dl = Some a"
    then have dc: "d \<noteq> c" "lg_clients s d = Some dl" by (auto simp: s' split: if_splits)
    then obtain ps where l: "lg_players s a = Some (ps, d)" using client_player [OF ok] d(2) by blast
    moreover have "lc_Player cl \<noteq> Some a"
      using client_player [OF ok cl] l dc(1) by fastforce
    ultimately show "\<exists>ps. lg_players s' a = Some (ps, d)" by (simp add: s')
  next
    fix a ps d assume "lg_players s' a = Some (ps, d)"
    then have l: "lg_players s a = Some (ps, d)" "lc_Player cl \<noteq> Some a" by (auto simp: s' split: if_splits)
    then have "d \<noteq> c" using own by blast
    then show "a < lg_next s'" "\<exists>dl. lg_clients s' d = Some dl \<and> lc_Player dl = Some a"
      using player_client [OF ok l(1)] by (simp_all add: s')
  qed
  have same: "obj s' a = obj s a \<and> lg_players s' a \<noteq> None"
    if "tget uid (mAllPlayers (lg_world s)) = Some a" for uid a
    using registered_obj [OF ok that] out [of a uid] that by (auto simp: obj_def s')
  have "players_ok (obj s) (lg_world s)" using ok by (simp add: login_ok_def registry_ok_def)
  then have "players_ok (obj s') (lg_world s')"
    unfolding s' by (rule players_ok_cong [rotated]) (use same in metis)
  then have "registry_ok s'" using same unfolding registry_ok_def s' by blast
  moreover have "named nm s'"
    using ok unfolding login_ok_def named_def s'(4,5) by (metis option.distinct(1))
  ultimately show ?thesis using o by (simp add: login_ok_def)
qed

lemma saved_ok:
  assumes "login_ok nm s"
  shows "login_ok nm (s\<lparr>lg_users := savePlayer account p (lg_users s)\<rparr>)"
  using assms unfolding login_ok_def owners_ok_def registry_ok_def named_def savePlayer_def obj_frame
  by (auto split: if_splits)

definition users_after :: "db_env \<Rightarrow> addr \<Rightarrow> logins \<Rightarrow> user_col qrow list" where
  "users_after env c s =
     (case lg_clients s c of
        None \<Rightarrow> lg_users s
      | Some cl \<Rightarrow>
          case Option.bind (lc_Player cl) (lg_players s) of
            None \<Rightarrow> lg_users s
          | Some (ps, _) \<Rightarrow>
              if db_fails env QSave then lg_users s else savePlayer (lc_AccountID cl) (me ps) (lg_users s))"

lemma unregistered:
  assumes "login_ok nm s" and "lg_players s a = Some (ps, c)"
    and "tget (p_UID (me ps)) (mAllPlayers (lg_world s)) = None"
  shows "tget uid (mAllPlayers (lg_world s)) \<noteq> Some a"
  using registered_obj [OF assms(1), of uid a] assms(2,3) by (auto simp: obj_live)

lemma delete_client_ok:
  assumes ok: "login_ok nm s" and cl: "lg_clients s c = Some cl"
  shows "\<exists>s'. delete_client c s = Some s' \<and> login_ok nm s' \<and> gone c s s' \<and> lg_users s' = lg_users s"
proof (cases "lc_Player cl")
  case None
  let ?s = "s\<lparr>lg_clients := (lg_clients s)(c := None)\<rparr>"
  have "login_ok nm ?s"
    by (rule drop_ok [OF ok cl]) (simp_all add: None)
  then show ?thesis using cl None by (simp add: delete_client_def gone_def)
next
  case (Some a)
  obtain ps where l: "lg_players s a = Some (ps, c)" by (rule client_player [OF ok cl Some])
  let ?r = "on_world (removePlayer (ref_of a ps)) s"
  note r = remove_ok [OF ok l]
  let ?s = "?r\<lparr>lg_players := (lg_players ?r)(a := None), lg_clients := (lg_clients ?r)(c := None)\<rparr>"
  have l': "lg_players ?r a = Some (ps, c)" using l by simp
  have "login_ok nm ?s"
  proof (rule drop_ok [OF r(1), of c cl])
    show "tget uid (mAllPlayers (lg_world ?r)) \<noteq> Some b" if "lc_Player cl = Some b" for uid b
      using unregistered [OF r(1) l' r(2)] that Some by simp
  qed (use cl Some in auto)
  moreover have "delete_client c s = Some ?s"
    using cl Some l by (simp add: delete_client_def Let_def)
  moreover have "gone c s ?s"
    using cl Some r(3) by (simp add: gone_def)
  ultimately show ?thesis by auto
qed

lemma disconnect_ok:
  assumes ok: "login_ok nm s" and cl: "lg_clients s c = Some cl"
  shows "\<exists>s'. client_disconnect env c s = Some s' \<and> login_ok nm s' \<and> gone c s s' \<and> lg_users s' = users_after env c s"
proof (cases "lc_Player cl")
  case None
  then have "client_disconnect env c s = delete_client c s"
    using cl by (simp add: client_disconnect_def disconnectionHandler_def Client_save_def)
  then show ?thesis using delete_client_ok [OF ok cl] cl None by (simp add: users_after_def)
next
  case (Some a)
  obtain ps where l: "lg_players s a = Some (ps, c)" by (rule client_player [OF ok cl Some])
  define s1 where "s1 = s\<lparr>lg_users := users_after env c s\<rparr>"
  have u: "users_after env c s = (if db_fails env QSave then lg_users s
      else savePlayer (lc_AccountID cl) (me ps) (lg_users s))"
    using cl Some l by (simp add: users_after_def)
  have sv: "Client_save env c s = Some s1"
    using cl Some l by (simp add: Client_save_def s1_def u)
  have ok1: "login_ok nm s1" using saved_ok [OF ok] ok by (simp add: s1_def u)
  have l1: "lg_players s1 a = Some (ps, c)" and cl1: "lg_clients s1 c = Some cl" using l cl by (simp_all add: s1_def)
  let ?r = "on_world (removePlayer (ref_of a ps)) s1"
  note r = remove_ok [OF ok1 l1]
  let ?m = "?r\<lparr>lg_sent := lg_sent ?r @ [(c, LLeaveMap (p_UID (me ps)))]\<rparr>"
  have okm: "login_ok nm ?m" using r(1) by simp
  have clm: "lg_clients ?m c = Some cl" using cl1 by simp
  obtain s' where s': "delete_client c ?m = Some s'" "login_ok nm s'" "gone c ?m s'" "lg_users s' = lg_users ?m"
    using delete_client_ok [OF okm clm] by blast
  have "client_disconnect env c s = Some s'"
    using cl cl1 l1 Some s'(1) by (simp add: client_disconnect_def disconnectionHandler_def sv Let_def)
  moreover have "gone c s s'"
    using s'(3) r(3) unfolding gone_def by (auto simp: s1_def)
  moreover have "lg_users s' = users_after env c s" using s'(4) by (simp add: s1_def)
  ultimately show ?thesis using s'(2) by blast
qed

section \<open>Loading changes only what it loads\<close>

definition base :: "player \<Rightarrow> player" where
  "base p = p\<lparr>p_Inventory := [], p_Equipment := [], p_WeaponSkills := [], p_Magics := []\<rparr>"

lemma base_keeps:
  assumes "base p = base q"
  shows "p_UID p = p_UID q" and "p_Name p = p_Name q" and "p_Profession p = p_Profession q"
    and "at_login secs p = at_login secs q"
proof -
  show "p_UID p = p_UID q" using arg_cong [OF assms, of p_UID] by (simp add: base_def)
  show "p_Name p = p_Name q" using arg_cong [OF assms, of p_Name] by (simp add: base_def)
  show "p_Profession p = p_Profession q" using arg_cong [OF assms, of p_Profession] by (simp add: base_def)
  have "at_login secs x = at_login secs (base x)" for x by (simp add: at_login_def base_def)
  then show "at_login secs p = at_login secs q" using assms by metis
qed

lemma base_place [simp]: "base (me (place_item it s)) = base (me s)"
  by (simp add: place_item_def Let_def hput_def set_inventory_def set_slot_def base_def)

lemma base_fold:
  assumes "\<And>x s. base (me (f x s)) = base (me s)"
  shows "base (me (fold f xs s)) = base (me s)"
  by (induction xs arbitrary: s) (simp_all add: assms)

lemma base_load_rest: "base (me (snd (load_rest env entity player ps))) = base (me ps)"
proof -
  have i: "base (me (load_one_item infos entity player row s)) = base (me s)" for infos row s
    by (simp add: load_one_item_def split: sum.split)
  have w: "base (me (load_one_skill player row s)) = base (me s)" for row s
    by (simp add: load_one_skill_def base_def split: sum.split)
  have g: "base (me (load_one_magic t f player row s)) = base (me s)" for t f row s
    by (simp add: load_one_magic_def base_def split: sum.split)
  note b = base_fold [of "load_one_item infos entity player" for infos, OF i]
    base_fold [of "load_one_skill player", OF w] base_fold [of "load_one_magic t f player" for t f, OF g]
  show ?thesis
    by (simp add: load_rest_def Let_def split_beta getPlayerItems_def getPlayerWeaponSkills_def
        getPlayerMagicSkills_def answer_def b)
qed

section \<open>A login\<close>

lemma replace_player_ok:
  assumes ok: "login_ok nm s" and l: "lg_players s a = Some (ps, c)"
    and same: "p_UID (me ps') = p_UID (me ps)" "p_Name (me ps') = p_Name (me ps)"
  shows "login_ok nm (s\<lparr>lg_players := (lg_players s)(a \<mapsto> (ps', c))\<rparr>)"
proof -
  have "obj (s\<lparr>lg_players := (lg_players s)(a \<mapsto> (ps', c))\<rparr>) = obj s"
    using l same by (auto simp: obj_def fun_eq_iff ref_of_def)
  moreover have "owners_ok (s\<lparr>lg_players := (lg_players s)(a \<mapsto> (ps', c))\<rparr>) = owners_ok s"
    using l by (intro owners_cong) (auto simp: owner_def holds_def fun_eq_iff)
  moreover have "named nm (s\<lparr>lg_players := (lg_players s)(a \<mapsto> (ps', c))\<rparr>)"
    using ok name_of [OF ok] name_of [OF ok l] same by (auto simp: login_ok_def named_def)
  ultimately show ?thesis
    using ok unfolding login_ok_def registry_ok_def by simp
qed

lemma client_field_ok:
  assumes "login_ok nm s" and "\<And>cl. lc_Player (f cl) = lc_Player cl"
  shows "login_ok nm (on_client c f s)"
proof -
  have "holds (on_client c f s) d = holds s d" for d
    by (cases "lg_clients s d"; cases "d = c") (auto simp: holds_def on_client_def assms(2))
  then have "owners_ok (on_client c f s) = owners_ok s"
    by (intro owners_cong) (simp_all add: owner_def on_client_def fun_eq_iff)
  then show ?thesis
    using assms(1) unfolding login_ok_def registry_ok_def named_def by (simp add: on_client_def)
qed

text \<open>The new object of a client without one.\<close>

definition with_player :: "int \<Rightarrow> user_col qrow \<Rightarrow> addr \<Rightarrow> logins \<Rightarrow> logins" where
  "with_player secs row c s =
     (let p = load_player secs row; ps = \<lparr>me = p, heap = (\<lambda>_. None), brk = 0, effs = []\<rparr>
      in on_client c (\<lambda>cl. cl\<lparr>lc_Character := p_Name p, lc_Player := Some (lg_next s)\<rparr>)
           (s\<lparr>lg_players := (lg_players s)(lg_next s \<mapsto> (ps, c)), lg_next := lg_next s + 1\<rparr>))"

lemma with_player_ok:
  assumes ok: "login_ok nm s" and cl: "lg_clients s c = Some cl" "lc_Player cl = None"
    and row: "row \<in> set (lg_users s)"
  shows "login_ok nm (with_player secs row c s)"
proof -
  let ?s = "with_player secs row c s"
  have fresh: "lg_players s (lg_next s) = None"
    using player_client(1) [OF ok, of "lg_next s"] by (cases "lg_players s (lg_next s)") fastforce+
  have other: "d \<noteq> c" if "lg_players s a = Some (ps, d)" for a ps d
    using player_client(2) [OF ok that] cl by auto
  have o: "owners_ok ?s"
    unfolding owners_ok_def
  proof (intro conjI allI impI)
    fix d dl a assume d: "lg_clients ?s d = Some dl" "lc_Player dl = Some a"
    show "\<exists>ps. lg_players ?s a = Some (ps, d)"
    proof (cases "d = c")
      case False
      then have "lg_clients s d = Some dl" using d(1) by (simp add: with_player_def Let_def on_client_def)
      then obtain ps where "lg_players s a = Some (ps, d)" using client_player [OF ok _ d(2)] by blast
      then show ?thesis using fresh by (auto simp: with_player_def Let_def on_client_def)
    qed (use d cl in \<open>auto simp: with_player_def Let_def on_client_def\<close>)
  next
    fix a ps d assume l: "lg_players ?s a = Some (ps, d)"
    show "a < lg_next ?s"
      using l player_client(1) [OF ok, of a] by (fastforce simp: with_player_def Let_def on_client_def split: if_splits)
    show "\<exists>dl. lg_clients ?s d = Some dl \<and> lc_Player dl = Some a"
    proof (cases "a = lg_next s")
      case False
      then have l': "lg_players s a = Some (ps, d)" using l by (simp add: with_player_def Let_def on_client_def)
      from player_client(2) [OF ok l'] other [OF l'] show ?thesis by (simp add: with_player_def Let_def on_client_def)
    qed (use l cl in \<open>auto simp: with_player_def Let_def on_client_def\<close>)
  qed
  have same: "obj ?s a = obj s a \<and> lg_players ?s a \<noteq> None"
    if "tget uid (mAllPlayers (lg_world s)) = Some a" for uid a
    using registered_obj [OF ok that] fresh
    by (auto simp: obj_def with_player_def Let_def on_client_def)
  have w: "lg_world ?s = lg_world s" by (simp add: with_player_def Let_def on_client_def)
  have "players_ok (obj s) (lg_world s)" using ok by (simp add: login_ok_def registry_ok_def)
  then have "players_ok (obj ?s) (lg_world ?s)"
    unfolding w by (rule players_ok_cong [rotated]) (use same in metis)
  then have r: "registry_ok ?s" using same unfolding registry_ok_def w by blast
  have "named nm ?s"
    using ok row name_of [OF ok] unfolding login_ok_def named_def with_player_def Let_def on_client_def
    by (auto simp: load_player_def Player_def)
  then show ?thesis using o r by (simp add: login_ok_def)
qed

lemma add_ok:
  assumes ok: "login_ok nm s" and l: "lg_players s a = Some (ps, c)"
  shows "login_ok nm (on_world (addPlayer (ref_of a ps)) s)"
proof -
  have "players_ok (obj s) (snd (addPlayer (ref_of a ps) (lg_world s)))"
    using ok l by (intro add_keeps_players) (simp_all add: login_ok_def registry_ok_def obj_live)
  moreover have "lg_players s b \<noteq> None"
    if "tget uid (mAllPlayers (snd (addPlayer (ref_of a ps) (lg_world s)))) = Some b" for uid b
  proof (cases "b = a")
    case False
    have "table_ok (mAllPlayers (lg_world s))" using ok by (simp add: login_ok_def registry_ok_def players_ok_def)
    then have "tget uid (mAllPlayers (lg_world s)) = Some b"
      using that False by (auto simp: addPlayer_def table_simps split: if_splits)
    then show ?thesis using registered_obj [OF ok] by blast
  qed (use l in simp)
  ultimately show ?thesis
    using ok unfolding login_ok_def registry_ok_def owners_ok_def named_def on_world_frame by blast
qed

lemma throw_out_ok:
  assumes ok: "login_ok nm s" and l: "lg_players s a = Some (ps, c)"
    and fresh: "\<And>u. tget u (mAllPlayers (lg_world s)) \<noteq> Some a"
  shows "\<exists>s'. throw_out env uid s = Some s' \<and> login_ok nm s' \<and>
    lg_players s' a = Some (ps, c) \<and> lg_clients s' c = lg_clients s c \<and>
    (\<forall>b pb cb. queryPlayer uid (lg_world s) = Some b \<longrightarrow> lg_players s b = Some (pb, cb) \<longrightarrow>
       lg_users s' = users_after env cb s)"
proof (cases "queryPlayer uid (lg_world s)")
  case (Some b)
  then have b: "tget uid (mAllPlayers (lg_world s)) = Some b" by (simp add: queryPlayer_def split: if_splits)
  obtain pb cb where lb: "lg_players s b = Some (pb, cb)" by (rule registered_live [OF ok b])
  obtain cl where cl: "lg_clients s cb = Some cl" "lc_Player cl = Some b"
    using player_client(2) [OF ok lb] by blast
  have ab: "b \<noteq> a" using b fresh by blast
  have cc: "cb \<noteq> c"
    using player_client(2) [OF ok l] cl ab by auto
  let ?r = "on_world (removePlayer (ref_of b pb)) s"
  have "lg_clients ?r cb = Some cl" using cl by simp
  from disconnect_ok [OF remove_ok(1) [OF ok lb] this, of env]
  obtain s' where s': "client_disconnect env cb ?r = Some s'" "login_ok nm s'" "gone cb ?r s'"
      "lg_users s' = users_after env cb ?r" by blast
  moreover have "users_after env cb ?r = users_after env cb s" by (simp only: users_after_def on_world_frame)
  ultimately show ?thesis
    using Some lb cl ab cc l by (simp add: throw_out_def gone_def)
qed (use ok l in \<open>simp add: throw_out_def\<close>)

lemma entrance_ok:
  assumes "lg_clients s c = Some cl"
  shows "\<exists>x. entrance c p s = Some (s\<lparr>lg_sent := x\<rparr>)"
  using assms by (simp add: entrance_def say_live) (rule exI, rule refl)

text \<open>After the other object is out: the registration, the messages and the loads.\<close>

lemma connect_player_runs:
  assumes l: "lg_players s a = Some (ps, c)" and out: "throw_out env (p_UID (me ps)) s = Some s1"
    and ok1: "login_ok nm s1" and l1: "lg_players s1 a = Some (ps, c)"
  shows "\<exists>err s' ps'. connect_player env c a s = (if err \<noteq> ERROR_SUCCESS then client_disconnect env c s' else Some s') \<and>
    login_ok nm s' \<and> lg_clients s' = lg_clients s1 \<and> lg_users s' = lg_users s1 \<and>
    lg_players s' a = Some (ps', c) \<and> base (me ps') = base (me ps) \<and>
    err = fst (load_rest env (\<lambda>u. queryEntity u (lg_world s') \<noteq> None) (\<lambda>u. queryPlayer u (lg_world s') \<noteq> None) ps)"
proof -
  define s2 where "s2 = on_world (addPlayer (ref_of a ps)) s1"
  have ok2: "login_ok nm s2" unfolding s2_def by (rule add_ok [OF ok1 l1])
  have l2: "lg_players s2 a = Some (ps, c)" by (simp add: s2_def l1)
  obtain cl where cl: "lg_clients s2 c = Some cl" using player_client(2) [OF ok2 l2] by blast
  obtain x where e: "entrance c (me ps) s2 = Some (s2\<lparr>lg_sent := x\<rparr>)" using entrance_ok [OF cl] by blast
  obtain err ps' where r: "load_rest env (\<lambda>u. queryEntity u (lg_world s2) \<noteq> None)
      (\<lambda>u. queryPlayer u (lg_world s2) \<noteq> None) ps = (err, ps')" by fastforce
  have b: "base (me ps') = base (me ps)"
    using base_load_rest [of env "\<lambda>u. queryEntity u (lg_world s2) \<noteq> None" "\<lambda>u. queryPlayer u (lg_world s2) \<noteq> None" ps]
    by (simp only: r snd_conv)
  define s3 where "s3 = s2\<lparr>lg_sent := x, lg_players := (lg_players s2)(a \<mapsto> (ps', c))\<rparr>"
  have "login_ok nm s3"
    using replace_player_ok [of nm "s2\<lparr>lg_sent := x\<rparr>" a ps c ps'] ok2 l2 base_keeps [OF b]
    by (simp add: s3_def)
  moreover have "connect_player env c a s = (if err \<noteq> ERROR_SUCCESS then client_disconnect env c s3 else Some s3)"
    unfolding connect_player_def by (simp add: l out l1 s2_def [symmetric] e r s3_def Let_def del: not_None_eq)
  moreover have "lg_clients s3 = lg_clients s1 \<and> lg_users s3 = lg_users s1 \<and> lg_players s3 a = Some (ps', c) \<and>
    lg_world s3 = lg_world s2"
    by (simp add: s3_def s2_def)
  ultimately show ?thesis using b r by (metis fst_conv)
qed

lemma connect_player_ok:
  assumes ok: "login_ok nm s" and l: "lg_players s a = Some (ps, c)"
    and fresh: "\<And>u. tget u (mAllPlayers (lg_world s)) \<noteq> Some a"
  shows "\<exists>s'. connect_player env c a s = Some s' \<and> login_ok nm s'"
proof -
  obtain s1 where s1: "throw_out env (p_UID (me ps)) s = Some s1" "login_ok nm s1" "lg_players s1 a = Some (ps, c)"
    using throw_out_ok [OF ok l fresh] by blast
  obtain err s' ps' where r:
      "connect_player env c a s = (if err \<noteq> ERROR_SUCCESS then client_disconnect env c s' else Some s')"
      "login_ok nm s'" "lg_players s' a = Some (ps', c)"
    using connect_player_runs [OF l s1] by blast
  obtain cl where "lg_clients s' c = Some cl" using player_client(2) [OF r(2,3)] by blast
  then show ?thesis using disconnect_ok [OF r(2), of c cl env] r by auto
qed

lemma got_player:
  assumes "getPlayerInfo secs (answer env QPlayer (rows_of account users)) = r"
  shows "r = Inl err \<Longrightarrow> err \<noteq> ERROR_SUCCESS"
    and "r = Inr (Some p) \<Longrightarrow> \<exists>row \<in> set users. p = load_player secs row"
proof -
  show "r = Inl err \<Longrightarrow> err \<noteq> ERROR_SUCCESS"
    using assms by (auto simp: getPlayerInfo_def answer_def split: option.splits list.splits if_splits)
  assume "r = Inr (Some p)"
  then obtain row where row: "rows_of account users = [row]" "p = load_player secs row"
    using assms by (auto simp: getPlayerInfo_def answer_def split: option.splits list.splits if_splits)
  from row(1) have "row \<in> set (rows_of account users)" by simp
  then have "row \<in> set users" by (simp add: rows_of_def)
  with row(2) show "\<exists>row \<in> set users. p = load_player secs row" by blast
qed

lemma connect_ok:
  assumes ok: "login_ok nm s" and cl: "lg_clients s c = Some cl" "lc_Player cl = None"
  shows "\<exists>s'. MsgConnect_process env secs m c s = Some s' \<and> login_ok nm s'"
proof -
  define s1 where "s1 = on_client c (\<lambda>cl. cl\<lparr>lc_AccountID := mc_AccountUID m\<rparr>) s"
  let ?cl = "cl\<lparr>lc_AccountID := mc_AccountUID m\<rparr>"
  have ok1: "login_ok nm s1" unfolding s1_def by (rule client_field_ok [OF ok]) simp
  have cl1: "lg_clients s1 c = Some ?cl" "lc_Player ?cl = None" by (simp_all add: s1_def on_client_def cl)
  note d = disconnect_ok [OF ok1 cl1(1), of env]
  have say: "\<exists>s'. say c x s1 = Some s' \<and> login_ok nm s'" for x
    using cl1 ok1 by (simp add: say_live)
  let ?q = "getPlayerInfo secs (answer env QPlayer (rows_of (lc_AccountID ?cl) (lg_users s1)))"
  note steps = MsgConnect_process_def cl s1_def [symmetric] cl1 client_getPlayerInfo_def Let_def
  show ?thesis
  proof (cases "lc_Status cl = NORMAL")
    case False
    then show ?thesis using d ok1 by (auto simp: steps)
  next
    case True
    show ?thesis
    proof (cases ?q)
      case (Inl err)
      then show ?thesis using d True got_player(1) [OF refl Inl] by (auto simp: steps)
    next
      case (Inr q)
      show ?thesis
      proof (cases q)
        case None
        then show ?thesis using Inr True say by (simp add: steps)
      next
        case (Some p)
        then obtain row where row: "row \<in> set (lg_users s1)" "p = load_player secs row"
          using got_player(2) [OF refl, of _ _ _ _ p] Inr by blast
        let ?s = "with_player secs row c s1" and ?a = "lg_next s1"
        have okp: "login_ok nm ?s" by (rule with_player_ok [OF ok1 cl1 row(1)])
        have "\<not> tget u (mAllPlayers (lg_world s1)) = Some ?a" for u
          using registered_live [OF ok1] player_client(1) [OF ok1] by (metis less_irrefl)
        then have fr: "tget u (mAllPlayers (lg_world ?s)) \<noteq> Some ?a" for u
          by (simp add: with_player_def Let_def on_client_def)
        have lp: "lg_players ?s ?a = Some (\<lparr>me = p, heap = (\<lambda>_. None), brk = 0, effs = []\<rparr>, c)"
          by (simp add: with_player_def Let_def on_client_def row)
        have got: "client_getPlayerInfo env secs c ?cl s1 = (ERROR_SUCCESS, ?s)"
          using Inr by (simp add: client_getPlayerInfo_def Some row(2) with_player_def Let_def)
        obtain dl where after: "lg_clients ?s c = Some dl" "lc_Player dl = Some ?a"
          using player_client(2) [OF okp lp] by blast
        have "MsgConnect_process env secs m c s = connect_player env c ?a ?s"
          using True cl1 got after
          by (simp add: MsgConnect_process_def cl s1_def [symmetric] Let_def)
        then show ?thesis using connect_player_ok [OF okp lp fr, of env] by simp
      qed
    qed
  qed
qed

end
