(* ===== verification/LoginSteps.thy ===== *)
theory LoginSteps
  imports LoginRun
begin

text \<open>
  The runs of the login server: connections are accepted, exchange keys, register, log in once, play
  and end, in any order, with any answers of the database.  Then what the handlers do to the accounts,
  and what happens outside of the discipline of one login per connection and player.
\<close>

section \<open>The handlers of the account server keep the invariant\<close>

lemma authenticate_ok:
  assumes "login_ok nm s" and "client_authenticate env c account password s = (err, s')"
  shows "login_ok nm s'" and "lg_clients s c \<noteq> None \<Longrightarrow> lg_clients s' c \<noteq> None" and "lg_users s' = lg_users s"
proof -
  show "login_ok nm s'"
    using assms client_field_ok [of nm s] by (auto simp: client_authenticate_def split: sum.splits)
  show "lg_clients s c \<noteq> None \<Longrightarrow> lg_clients s' c \<noteq> None" "lg_users s' = lg_users s"
    using assms(2) by (auto simp: client_authenticate_def on_client_def split: sum.splits)
qed

lemma authenticated:
  assumes "client_authenticate env c account password s = (ERROR_SUCCESS, s')"
  obtains uid where "db_accounts env account = [(uid, password)]"
    and "s' = on_client c (\<lambda>cl. cl\<lparr>lc_AccountID := uid\<rparr>) s"
proof -
  have "\<exists>uid. authenticate (answer env QAccount (db_accounts env account)) account password = Inr uid"
    using assms
    by (cases "authenticate (answer env QAccount (db_accounts env account)) account password")
      (auto simp: client_authenticate_def authenticate_def answer_def split: if_splits option.splits list.splits)
  then obtain uid where a: "authenticate (answer env QAccount (db_accounts env account)) account password = Inr uid" ..
  then have "db_accounts env account = [(uid, password)]"
    by (auto simp: authenticate_def answer_def split: if_splits option.splits list.splits)
  then show thesis using that assms a by (simp add: client_authenticate_def)
qed

definition env_ok :: "(u32 \<Rightarrow> u8 list) \<Rightarrow> db_env \<Rightarrow> bool" where
  "env_ok nm env \<longleftrightarrow> (\<forall>row. db_accepts env row \<longrightarrow> toString (row USER_NAME) = nm (toUInt (row USER_ID)))"

lemma rows_ok:
  assumes "login_ok nm s" and "\<forall>row \<in> set users. toString (row USER_NAME) = nm (toUInt (row USER_ID))"
  shows "login_ok nm (s\<lparr>lg_users := users\<rparr>)"
  using assms by (simp add: login_ok_def owners_ok_def registry_ok_def named_def)

lemma createPlayer_ok:
  assumes ok: "login_ok nm s" and env: "env_ok nm env" and cl: "lg_clients s c \<noteq> None"
  shows "\<exists>err users. client_createPlayer env c name look prof s = Some (err, s\<lparr>lg_users := users\<rparr>) \<and>
    login_ok nm (s\<lparr>lg_users := users\<rparr>)"
proof -
  obtain x where x: "lg_clients s c = Some x" using cl by blast
  obtain err users where u: "createPlayer (db_accepts env) (db_allots env) (lc_AccountID x) name look prof
      (db_defaults env) (lg_users s) = (err, users)" by fastforce
  have "\<forall>row \<in> set users. toString (row USER_NAME) = nm (toUInt (row USER_ID))"
    using u ok env
    by (auto simp: createPlayer_def login_ok_def named_def env_ok_def Let_def split: if_splits)
  from rows_ok [OF ok this] show ?thesis
    by (intro exI [of _ err] exI [of _ users]) (simp add: client_createPlayer_def x u)
qed

lemma say_ok: "login_ok nm s \<Longrightarrow> lg_clients s c \<noteq> None \<Longrightarrow> \<exists>s'. say c m s = Some s' \<and> login_ok nm s'"
  by (simp add: say_live)

lemma close_ok: "login_ok nm s \<Longrightarrow> lg_clients s c \<noteq> None \<Longrightarrow> \<exists>s'. client_disconnect env c s = Some s' \<and> login_ok nm s'"
  using disconnect_ok [of nm s c _ env] by blast

text \<open>Their strings end within the message.\<close>

definition account_ends :: "msg_account \<Rightarrow> bool" where
  "account_ends m \<longleftrightarrow> 0 \<in> set (mu_Account m) \<and> 0 \<in> set (mu_Server m)"

definition register_ends :: "msg_register \<Rightarrow> bool" where
  "register_ends m \<longleftrightarrow> 0 \<in> set (mr_Account m) \<and> 0 \<in> set (mr_Password m) \<and> 0 \<in> set (mr_Name m)"

lemma string_ends: "0 \<in> set field \<or> 0 \<in> set rest \<Longrightarrow> \<exists>cs. string_at field rest = Some cs"
  by (auto simp: string_at_def)

lemma account_ok:
  assumes ok: "login_ok nm s" and cl: "lg_clients s c \<noteq> None" and ends: "account_ends m"
  shows "\<exists>s'. MsgAccount_process env token ip m c s = Some s' \<and> login_ok nm s'"
proof -
  let ?pwd = "rc5_decrypt (RC5.generateKey ACCOUNT_SEED) (mu_Password m)"
  obtain a1 where a1: "string_at (mu_Account m) (mu_Password m @ mu_Server m) = Some a1"
    using string_ends ends unfolding account_ends_def by blast
  obtain a2 where a2: "string_at (mu_Account m) (?pwd @ mu_Server m) = Some a2"
    using string_ends ends unfolding account_ends_def by blast
  obtain pw where pw: "string_at ?pwd (mu_Server m) = Some pw"
    using string_ends ends unfolding account_ends_def by blast
  obtain sv where sv: "string_at (mu_Server m) [] = Some sv"
    using string_ends ends unfolding account_ends_def by blast
  define s1 where "s1 = on_client c (\<lambda>cl. cl\<lparr>lc_Account := a1\<rparr>) s"
  have ok1: "login_ok nm s1" unfolding s1_def by (rule client_field_ok [OF ok]) simp
  have cl1: "lg_clients s1 c \<noteq> None" using cl by (auto simp: s1_def on_client_def)
  obtain err s2 where au: "client_authenticate env c a2 pw s1 = (err, s2)" by fastforce
  note au_ok = authenticate_ok [OF ok1 au]
  have cl2: "lg_clients s2 c \<noteq> None" by (rule au_ok(2) [OF cl1])
  then obtain x where x: "lg_clients s2 c = Some x" by blast
  show ?thesis
    using say_ok [OF au_ok(1) cl2] close_ok [OF ok1 cl1, of env]
    unfolding MsgAccount_process_def a1 by (simp add: a2 pw sv s1_def [symmetric] au x Let_def)
qed

lemma register_ok:
  assumes ok: "login_ok nm s" and cl: "lg_clients s c \<noteq> None" and ends: "register_ends m" and env: "env_ok nm env"
  shows "\<exists>s'. MsgRegister_process env m c s = Some s' \<and> login_ok nm s'"
proof -
  let ?n = "wr16 (mr_Look m) @ wr16 (mr_Profession m) @ wr32 (mr_AccountUID m)"
  obtain a where a: "string_at (mr_Account m) (mr_Name m @ mr_Password m @ ?n) = Some a"
    using string_ends ends unfolding register_ends_def by blast
  obtain pw where pw: "string_at (mr_Password m) ?n = Some pw"
    using string_ends ends unfolding register_ends_def by blast
  obtain name where name: "string_at (mr_Name m) (mr_Password m @ ?n) = Some name"
    using string_ends ends unfolding register_ends_def by blast
  obtain err s1 where au: "client_authenticate env c a pw s = (err, s1)" by fastforce
  note au_ok = authenticate_ok [OF ok au]
  have cl1: "lg_clients s1 c \<noteq> None" by (rule au_ok(2) [OF cl])
  then obtain x where x: "lg_clients s1 c = Some x" by blast
  obtain err' users where cr: "client_createPlayer env c name (mr_Look m) (mr_Profession m) s1 =
      Some (err', s1\<lparr>lg_users := users\<rparr>)" and ok2: "login_ok nm (s1\<lparr>lg_users := users\<rparr>)"
    using createPlayer_ok [OF au_ok(1) env cl1] by blast
  have cl2: "lg_clients (s1\<lparr>lg_users := users\<rparr>) c \<noteq> None" using cl1 by simp
  show ?thesis
    using say_ok [OF ok cl] say_ok [OF au_ok(1) cl1] say_ok [OF ok2 cl2] close_ok [OF au_ok(1) cl1, of env]
    unfolding MsgRegister_process_def by (simp add: a pw name au x cr Let_def)
qed


section \<open>What they leave alone\<close>

lemma say_users: "say c m s = Some s' \<Longrightarrow> lg_users s' = lg_users s"
  by (auto simp: say_def split: if_splits)

lemma close_users:
  "client_disconnect env c s = Some s' \<Longrightarrow> lg_clients s c = Some cl \<Longrightarrow> lc_Player cl = None \<Longrightarrow> lg_users s' = lg_users s"
  by (auto simp: client_disconnect_def disconnectionHandler_def Client_save_def delete_client_def split: if_splits)

lemma close_sent:
  "client_disconnect env c s = Some s' \<Longrightarrow> lg_sent s' = lg_sent s \<or> (\<exists>u. lg_sent s' = lg_sent s @ [(c, LLeaveMap u)])"
  by (auto simp: client_disconnect_def disconnectionHandler_def Client_save_def delete_client_def Let_def bind_eq_Some_conv
      split: if_splits option.splits prod.splits)

lemma say_sent: "say c m s = Some s' \<Longrightarrow> lg_sent s' = lg_sent s @ [(c, m)]"
  by (auto simp: say_def split: if_splits)

lemma createPlayer_row_keys:
  "toUInt (createPlayer_row allots account name look prof defaults USER_ACCOUNT_ID) = account"
  "toString (createPlayer_row allots account name look prof defaults USER_NAME) = name"
  by (simp_all add: createPlayer_row_def Let_def split_beta)

lemma created:
  assumes "client_createPlayer env c name look prof s = Some (err, s')" and "lg_clients s c = Some cl"
  shows "lg_users s' = lg_users s \<or>
    (\<exists>row. lg_users s' = lg_users s @ [row] \<and> toUInt (row USER_ACCOUNT_ID) = lc_AccountID cl \<and> toString (row USER_NAME) = name)"
  using assms
  by (auto simp: client_createPlayer_def createPlayer_def Let_def createPlayer_row_keys split: if_splits)

section \<open>Runs\<close>

text \<open>
  A new connection, the end of the key exchange, the messages of the login, anything a handler of
  the game does to the player of a connection, and the end of a connection.
\<close>

datatype login_event =
    Accept addr
  | Exchanged addr
  | AccountMsg db_env u32 "u8 list" msg_account addr
  | RegisterMsg db_env msg_register addr
  | ConnectMsg db_env int msg_connect addr
  | Play addr pstate
  | Close db_env addr

definition new_client :: login_client where
  "new_client = \<lparr>lc_Status = NOT_AUTHENTICATED, lc_Account = [], lc_AccountID = - 1, lc_Character = [], lc_Player = None\<rparr>"

fun login_step :: "login_event \<Rightarrow> logins \<Rightarrow> logins option" where
  "login_step (Accept c) s = Some (s\<lparr>lg_clients := (lg_clients s)(c \<mapsto> new_client)\<rparr>)"
| "login_step (Exchanged c) s =
     (if lg_clients s c = None then None else Some (on_client c (\<lambda>cl. cl\<lparr>lc_Status := NORMAL\<rparr>) s))"
| "login_step (AccountMsg env token ip m c) s = MsgAccount_process env token ip m c s"
| "login_step (RegisterMsg env m c) s = MsgRegister_process env m c s"
| "login_step (ConnectMsg env secs m c) s = MsgConnect_process env secs m c s"
| "login_step (Play a ps') s = map_option (\<lambda>(ps, c). s\<lparr>lg_players := (lg_players s)(a \<mapsto> (ps', c))\<rparr>) (lg_players s a)"
| "login_step (Close env c) s = client_disconnect env c s"

text \<open>
  Connections are accepted at free addresses and speak while they are open; \<^bold>\<open>MsgConnect comes at most
  once\<close>; playing keeps the id and the name of the player; the database keeps one name per id.
\<close>

fun allowed :: "(u32 \<Rightarrow> u8 list) \<Rightarrow> login_event \<Rightarrow> logins \<Rightarrow> bool" where
  "allowed nm (Accept c) s \<longleftrightarrow> lg_clients s c = None"
| "allowed nm (Exchanged c) s \<longleftrightarrow> lg_clients s c \<noteq> None"
| "allowed nm (AccountMsg env token ip m c) s \<longleftrightarrow> lg_clients s c \<noteq> None \<and> account_ends m"
| "allowed nm (RegisterMsg env m c) s \<longleftrightarrow> lg_clients s c \<noteq> None \<and> register_ends m \<and> env_ok nm env"
| "allowed nm (ConnectMsg env secs m c) s \<longleftrightarrow> (case lg_clients s c of None \<Rightarrow> False | Some cl \<Rightarrow> lc_Player cl = None)"
| "allowed nm (Play a ps') s \<longleftrightarrow>
     (case lg_players s a of None \<Rightarrow> False
      | Some (ps, c) \<Rightarrow> p_UID (me ps') = p_UID (me ps) \<and> p_Name (me ps') = p_Name (me ps))"
| "allowed nm (Close env c) s \<longleftrightarrow> lg_clients s c \<noteq> None"

definition login_start :: "(u32 \<Rightarrow> u8 list) \<Rightarrow> logins \<Rightarrow> bool" where
  "login_start nm s \<longleftrightarrow>
     lg_clients s = (\<lambda>_. None) \<and> lg_players s = (\<lambda>_. None) \<and>
     mAllPlayers (lg_world s) = [] \<and> mAllPlayerNames (lg_world s) = [] \<and> named nm s"

inductive login_reach :: "(u32 \<Rightarrow> u8 list) \<Rightarrow> logins \<Rightarrow> bool" for nm where
  started: "login_start nm s \<Longrightarrow> login_reach nm s"
| stepped: "login_reach nm s \<Longrightarrow> allowed nm e s \<Longrightarrow> login_step e s = Some s' \<Longrightarrow> login_reach nm s'"

lemma accept_ok:
  assumes ok: "login_ok nm s" and c: "lg_clients s c = None"
  shows "login_ok nm (s\<lparr>lg_clients := (lg_clients s)(c \<mapsto> new_client)\<rparr>)"
proof -
  let ?s = "s\<lparr>lg_clients := (lg_clients s)(c \<mapsto> new_client)\<rparr>"
  have "holds ?s = holds s" using c by (auto simp: holds_def new_client_def fun_eq_iff)
  then have "owners_ok ?s = owners_ok s" by (intro owners_cong) (simp_all add: owner_def fun_eq_iff)
  then show ?thesis using ok unfolding login_ok_def registry_ok_def named_def by simp
qed

lemma start_ok: "login_start nm s \<Longrightarrow> login_ok nm s"
  by (simp add: login_start_def login_ok_def owners_ok_def registry_ok_def players_ok_def table_ok_def tget_def)

lemma login_step_ok:
  assumes ok: "login_ok nm s" and a: "allowed nm e s"
  shows "\<exists>s'. login_step e s = Some s' \<and> login_ok nm s'"
proof (cases e)
  case (Accept c) then show ?thesis using accept_ok [OF ok] a by simp
next
  case (Exchanged c) then show ?thesis using client_field_ok [OF ok] a by simp
next
  case (AccountMsg env token ip m c) then show ?thesis using account_ok [OF ok] a by simp
next
  case (RegisterMsg env m c) then show ?thesis using register_ok [OF ok] a by simp
next
  case (ConnectMsg env secs m c)
  then show ?thesis using connect_ok [OF ok] a by (auto split: option.splits)
next
  case (Play b ps')
  then obtain ps c where "lg_players s b = Some (ps, c)" "p_UID (me ps') = p_UID (me ps)" "p_Name (me ps') = p_Name (me ps)"
    using a by (auto split: option.splits)
  then show ?thesis using replace_player_ok [OF ok] Play by simp
next
  case (Close env c) then show ?thesis using close_ok [OF ok] a by simp
qed

lemma logins_reach_ok: "login_reach nm s \<Longrightarrow> login_ok nm s"
proof (induction rule: login_reach.induct)
  case (stepped s e s')
  then show ?case using login_step_ok [of nm s e] by simp
qed (rule start_ok)

section \<open>A second MsgConnect, and a second connection\<close>

lemma registered_found: "isPlayer uid \<Longrightarrow> tget uid (mAllPlayers w) = Some a \<Longrightarrow> queryPlayer uid w = Some a"
  by (simp add: queryPlayer_def)

lemma disconnect_frees:
  assumes "lg_clients s c = Some cl" and "lc_Player cl = Some a" and "lg_players s a = Some (ps, d)"
  shows "\<exists>s'. client_disconnect env c s = Some s' \<and> lg_players s' a = None"
  using assms by (simp add: client_disconnect_def disconnectionHandler_def Client_save_def delete_client_def Let_def)

lemma load_keys [simp]: "p_UID (load_player secs row) = toUInt (row USER_ID)"
  "p_Name (load_player secs row) = toString (row USER_NAME)"
  by (simp_all add: load_player_def Player_def)

definition no_failures :: "db_env \<Rightarrow> bool" where "no_failures env \<longleftrightarrow> (\<forall>q. \<not> db_fails env q)"

lemma load_rest_succeeds: "no_failures env \<Longrightarrow> fst (load_rest env entity player ps) = ERROR_SUCCESS"
  by (simp add: no_failures_def load_rest_def getPlayerItems_def getPlayerWeaponSkills_def getPlayerMagicSkills_def
      answer_def Let_def split_beta)

lemma connect_loads:
  assumes "lg_clients s c = Some cl" and "lc_Status cl = NORMAL" and "no_failures env"
    and "rows_of (mc_AccountUID m) (lg_users s) = [row]"
  shows "MsgConnect_process env secs m c s =
    connect_player env c (lg_next s) (with_player secs row c (on_client c (\<lambda>cl. cl\<lparr>lc_AccountID := mc_AccountUID m\<rparr>) s))"
proof -
  let ?s = "on_client c (\<lambda>cl. cl\<lparr>lc_AccountID := mc_AccountUID m\<rparr>) s"
  have n: "lg_next ?s = lg_next s" "lg_users ?s = lg_users s" by (simp_all add: on_client_def)
  have c: "lg_clients ?s c = Some (cl\<lparr>lc_AccountID := mc_AccountUID m\<rparr>)" using assms(1) by (simp add: on_client_def)
  have got: "client_getPlayerInfo env secs c (cl\<lparr>lc_AccountID := mc_AccountUID m\<rparr>) ?s = (ERROR_SUCCESS, with_player secs row c ?s)"
    using assms(3,4)
    by (simp add: client_getPlayerInfo_def answer_def no_failures_def n getPlayerInfo_def with_player_def Let_def)
  obtain dl where "lg_clients (with_player secs row c ?s) c = Some dl" "lc_Player dl = Some (lg_next s)"
    using c by (auto simp: with_player_def Let_def on_client_def)
  then show ?thesis using got c assms(1,2) by (simp add: MsgConnect_process_def Let_def)
qed


section \<open>Properties\<close>

definition sample_start :: logins where
  "sample_start = \<lparr>lg_clients = (\<lambda>_. None), lg_players = (\<lambda>_. None), lg_next = 0,
     lg_world = \<lparr>mAllPlayers = [], mAllPlayerNames = [], mAllNPCs = [], mAllTasks = []\<rparr>,
     lg_users = [], lg_sent = []\<rparr>"

definition sample_env :: db_env where
  "sample_env = \<lparr>db_fails = (\<lambda>_. False), db_accounts = (\<lambda>_. []), db_accepts = (\<lambda>_. False), db_allots = (\<lambda>_. None),
     db_defaults = (\<lambda>_. QInt 0), db_item_info = (\<lambda>_. None), db_magic_info = (\<lambda>_ _. Inl ERROR_NOT_FOUND),
     db_items = (\<lambda>_. []), db_skills = (\<lambda>_. []), db_magics = (\<lambda>_. [])\<rparr>"

definition sample_names :: "u32 \<Rightarrow> u8 list" where "sample_names uid = wr32 uid"

lemma sample_names_inj: "inj sample_names"
proof (rule injI)
  fix x y assume "sample_names x = sample_names y"
  then show "x = y" using rd_wr(2) [of x "[]"] rd_wr(2) [of y "[]"] by (simp add: sample_names_def)
qed



text \<open>A second MsgConnect on the connection of a player who is online takes the connection's own player
  for the other one: the connection is closed and freed while the handler goes on with it, so the
  run has no defined continuation.\<close>
theorem second_connect_uses_freed_object:
  assumes "lg_clients s c = Some cl" and "lc_Status cl = NORMAL" and "lc_Player cl = Some a"
    and "lg_players s a = Some (ps, c)" and "p_UID (me ps) = uid" and "isPlayer uid"
    and "tget uid (mAllPlayers (lg_world s)) = Some a" and "a < lg_next s" and "no_failures env"
    and "rows_of (mc_AccountUID m) (lg_users s) = [row]" and "toUInt (row USER_ID) = uid"
  shows "MsgConnect_process env secs m c s = None"
proof -
  let ?s = "with_player secs row c (on_client c (\<lambda>cl. cl\<lparr>lc_AccountID := mc_AccountUID m\<rparr>) s)" and ?a = "lg_next s"
  have w: "lg_world ?s = lg_world s" by (simp add: with_player_def Let_def on_client_def)
  have l: "lg_players ?s a = Some (ps, c)" "\<exists>ps'. lg_players ?s ?a = Some (ps', c) \<and> p_UID (me ps') = uid"
    using assms(4,8,11) by (auto simp: with_player_def Let_def on_client_def)
  obtain ps' where l': "lg_players ?s ?a = Some (ps', c)" "p_UID (me ps') = uid" using l(2) by blast
  let ?r = "on_world (removePlayer (ref_of a ps)) ?s"
  have "\<exists>dl. lg_clients ?r c = Some dl \<and> lc_Player dl = Some ?a"
    using assms(1) by (auto simp: with_player_def Let_def on_client_def)
  then obtain dl where "lg_clients ?r c = Some dl" "lc_Player dl = Some ?a" by blast
  from disconnect_frees [OF this, of ps' c env] l'(1)
  obtain s' where s': "client_disconnect env c ?r = Some s'" "lg_players s' ?a = None" by auto
  have "queryPlayer uid (lg_world ?s) = Some a" using registered_found assms(6,7) w by metis
  then have "throw_out env uid ?s = Some s'" using l(1) s'(1) by (simp add: throw_out_def)
  then have "connect_player env c ?a ?s = None" using l' s'(2) by (simp add: connect_player_def)
  then show ?thesis using connect_loads [OF assms(1,2,9,10)] by simp
qed

text \<open>C16: A login while the player is online on another connection: the row is read before the other
  connection is closed and saves its progress, so the new connection plays the old row and its own
  end writes it back; the saved progress is lost.\<close>
theorem takeover_rolls_back:
  assumes "login_ok nm s" and "lg_clients s c1 = Some cl1" and "lc_Player cl1 = Some a" and "lc_AccountID cl1 = acc"
    and "lg_players s a = Some (ps, c1)" and "isPlayer (p_UID (me ps))"
    and "tget (p_UID (me ps)) (mAllPlayers (lg_world s)) = Some a"
    and "lg_clients s c2 = Some cl2" and "lc_Status cl2 = NORMAL" and "lc_Player cl2 = None"
    and "mc_AccountUID m = acc" and "rows_of acc (lg_users s) = [row]" and "row_of (me ps) row" and "no_failures env"
  shows "\<exists>s1 s2. MsgConnect_process env secs m c2 s = Some s1 \<and>
    rows_of acc (lg_users s1) = [save_player (me ps) row] \<and>
    client_disconnect env c2 s1 = Some s2 \<and>
    getPlayerInfo later (Some (rows_of acc (lg_users s2))) = Inr (Some (at_login later (load_player secs row)))"
proof -
  let ?t = "on_client c2 (\<lambda>cl. cl\<lparr>lc_AccountID := mc_AccountUID m\<rparr>) s" and ?b = "lg_next s"
  let ?s = "with_player secs row c2 ?t"
  have ok0: "login_ok nm ?t" by (rule client_field_ok [OF assms(1)]) simp
  have cl0: "lg_clients ?t c2 = Some (cl2\<lparr>lc_AccountID := acc\<rparr>)" using assms(8,11) by (simp add: on_client_def)
  have "row \<in> set (rows_of acc (lg_users s))" using assms(12) by simp
  then have row: "row \<in> set (lg_users ?t)" by (simp add: rows_of_def on_client_def)
  have ok: "login_ok nm ?s" using with_player_ok [OF ok0 cl0 _ row, of secs] assms(10) by simp
  have ne: "a < ?b" "c1 \<noteq> c2" using player_client(1) [OF assms(1,5)] assms(2,3,8,10) by auto
  have la: "lg_players ?s a = Some (ps, c1)" "lg_clients ?s c1 = Some cl1" "lg_world ?s = lg_world s" "lg_users ?s = lg_users s"
    using ne assms(2,5) by (auto simp: with_player_def Let_def on_client_def)
  obtain pn where lb: "lg_players ?s ?b = Some (pn, c2)" "me pn = load_player secs row"
    by (simp add: with_player_def Let_def on_client_def)
  have uid: "p_UID (me pn) = p_UID (me ps)" using assms(13) by (simp add: lb(2) row_of_def)
  have fresh: "tget u (mAllPlayers (lg_world ?s)) \<noteq> Some ?b" for u
    using registered_live [OF assms(1)] player_client(1) [OF assms(1)] la(3) by (metis less_irrefl)
  have q: "queryPlayer (p_UID (me pn)) (lg_world ?s) = Some a" using registered_found assms(6,7) la(3) uid by metis
  obtain s1 where s1: "throw_out env (p_UID (me pn)) ?s = Some s1" "login_ok nm s1" "lg_players s1 ?b = Some (pn, c2)"
      "lg_clients s1 c2 = lg_clients ?s c2" "lg_users s1 = users_after env c1 ?s"
    using throw_out_ok [OF ok lb(1) fresh, of env "p_UID (me pn)"] q la(1) by blast
  have nf: "\<not> db_fails env QSave" using assms(14) by (simp add: no_failures_def)
  have u1: "lg_users s1 = savePlayer acc (me ps) (lg_users s)"
    using assms(3,4) la nf by (simp add: s1(5) users_after_def)
  obtain err s' p' where r:
      "connect_player env c2 ?b ?s = (if err \<noteq> ERROR_SUCCESS then client_disconnect env c2 s' else Some s')"
      "login_ok nm s'" "lg_clients s' = lg_clients s1" "lg_users s' = lg_users s1"
      "lg_players s' ?b = Some (p', c2)" "base (me p') = base (me pn)"
      "err = fst (load_rest env (\<lambda>u. queryEntity u (lg_world s') \<noteq> None) (\<lambda>u. queryPlayer u (lg_world s') \<noteq> None) pn)"
    using connect_player_runs [OF lb(1) s1(1-3)] by blast
  have run: "MsgConnect_process env secs m c2 s = Some s'"
    using connect_loads [OF assms(8,9,14), of m row secs] assms(11,12) r(1,7) load_rest_succeeds [OF assms(14)] by simp
  have cl': "lg_clients s' c2 = Some (cl2\<lparr>lc_AccountID := acc, lc_Character := toString (row USER_NAME), lc_Player := Some ?b\<rparr>)"
    using assms(8,11) by (simp add: r(3) s1(4) with_player_def Let_def on_client_def)
  obtain s2 where s2: "client_disconnect env c2 s' = Some s2" "lg_users s2 = users_after env c2 s'"
    using disconnect_ok [OF r(2) cl'] by blast
  have u2: "lg_users s2 = savePlayer acc (me p') (lg_users s1)"
    using nf r(5) by (simp add: s2(2) users_after_def cl' r(4))
  have rows: "rows_of acc (lg_users s1) = [save_player (me ps) row]" by (simp add: u1 rows_of_saved assms(12))
  have keys: "row_of (me p') (save_player (me ps) row)"
    using base_keeps(1-3) [OF r(6)] by (simp add: row_of_def lb(2) load_player_def Player_def)
  have "getPlayerInfo later (Some (rows_of acc (lg_users s2))) = Inr (Some (at_login later (me p')))"
    by (simp add: u2 rows_of_saved rows getPlayerInfo_def load_saved [OF keys])
  then show ?thesis
    using run s2(1) rows base_keeps(4) [OF r(6), of later] by (simp add: r(4) lb(2))
qed


definition sample_bob :: pstate where
  "sample_bob = \<lparr>me = (Player 0 1000001)\<lparr>p_Name := bytes ''Bob'', p_Money := 50\<rparr>, heap = (\<lambda>_. None), brk = 0, effs = []\<rparr>"

definition sample_client :: "addr option \<Rightarrow> login_client" where
  "sample_client a = \<lparr>lc_Status = NORMAL, lc_Account = [], lc_AccountID = 7, lc_Character = [], lc_Player = a\<rparr>"

text \<open>Bob is online on connection 1; connection 2 has no player.\<close>

definition sample_online :: logins where
  "sample_online = \<lparr>lg_clients = [1 \<mapsto> sample_client (Some 0), 2 \<mapsto> sample_client None],
     lg_players = [0 \<mapsto> (sample_bob, 1)], lg_next = 1,
     lg_world = \<lparr>mAllPlayers = [(1000001, 0)], mAllPlayerNames = [(bytes ''Bob'', 0)], mAllNPCs = [], mAllTasks = []\<rparr>,
     lg_users = [sample_row], lg_sent = []\<rparr>"

definition sample_bob_names :: "u32 \<Rightarrow> u8 list" where
  "sample_bob_names = sample_names(1000001 := bytes ''Bob'')"

lemma sample_bob_names_inj: "inj sample_bob_names"
proof (rule injI)
  have d: "sample_names u \<noteq> bytes ''Bob''" for u
    using arg_cong [of "sample_names u" "bytes ''Bob''" length] by (auto simp: sample_names_def wr32_def bytes_def)
  fix x y assume "sample_bob_names x = sample_bob_names y"
  then show "x = y"
    using injD [OF sample_names_inj, of x y] d [of x] d [of y] not_sym [OF d [of y]]
    by (auto simp: sample_bob_names_def fun_upd_def split: if_splits)
qed

lemma sample_bob_named: "sample_bob_names 1000001 = bytes ''Bob''"
  by (simp add: sample_bob_names_def)

lemma sample_online_ok: "login_ok sample_bob_names sample_online"
proof -
  have "owners_ok sample_online"
    by (auto simp: owners_ok_def sample_online_def sample_client_def split: if_splits)
  moreover have "registry_ok sample_online"
    by (auto simp: registry_ok_def players_ok_def sample_online_def obj_def sample_bob_def Player_def
        table_ok_def tget_def split: if_splits)
  moreover have "named sample_bob_names sample_online"
    unfolding named_def using sample_bob_names_inj
    by (auto simp: sample_online_def sample_bob_def sample_row_def Player_def toUInt_def sample_bob_named)
  ultimately show ?thesis by (simp add: login_ok_def)
qed

lemma sample_facts:
  "isPlayer (p_UID (me sample_bob))" "p_UID (me sample_bob) = 1000001" "toUInt (sample_row USER_ID) = 1000001"
  "tget 1000001 (mAllPlayers (lg_world sample_online)) = Some 0"
  "rows_of 7 (lg_users sample_online) = [sample_row]" "row_of (me sample_bob) sample_row" "no_failures sample_env"
  by (simp_all add: sample_bob_def Player_def isPlayer_def PLAYERID_FIRST_def PLAYERID_LAST_def sample_row_def toUInt_def
      sample_online_def tget_def rows_of_def row_of_def no_failures_def sample_env_def)

lemma bob_is_player: "isPlayer 1000001"
  by (simp add: isPlayer_def PLAYERID_FIRST_def PLAYERID_LAST_def)

lemma second_connect_uses_freed_object_witness:
  "MsgConnect_process sample_env 0 \<lparr>mc_AccountUID = 7, mc_Data = 0, mc_Info = []\<rparr> 1 sample_online = None"
  by (rule second_connect_uses_freed_object [of _ _ "sample_client (Some 0)" 0 sample_bob 1000001 _ _ sample_row])
    (simp_all add: sample_facts bob_is_player,
     simp_all add: sample_online_def sample_client_def)

lemma takeover_rolls_back_witness:
  "\<exists>s1 s2. MsgConnect_process sample_env 0 \<lparr>mc_AccountUID = 7, mc_Data = 0, mc_Info = []\<rparr> 2 sample_online = Some s1 \<and>
    rows_of 7 (lg_users s1) = [save_player (me sample_bob) sample_row] \<and>
    client_disconnect sample_env 2 s1 = Some s2 \<and>
    getPlayerInfo 0 (Some (rows_of 7 (lg_users s2))) = Inr (Some (at_login 0 (load_player 0 sample_row)))"
  by (rule takeover_rolls_back [OF sample_online_ok, of 1 "sample_client (Some 0)" 0 _ _ _ "sample_client None"])
    (simp_all add: sample_facts bob_is_player, simp_all add: sample_online_def sample_client_def)

text \<open>The connection to the game server proves nothing: neither the token that MsgAccount gave out, nor
  the account this connection authenticated for has any influence, the message names the account
  whose player is entered.\<close>
theorem connect_asks_for_no_proof:
  "MsgConnect_process env secs (m\<lparr>mc_Data := token, mc_Info := info\<rparr>) c
     (on_client c (\<lambda>cl. cl\<lparr>lc_AccountID := account\<rparr>) s) = MsgConnect_process env secs m c s"
proof -
  have i: "on_client c (\<lambda>cl. cl\<lparr>lc_AccountID := x\<rparr>) (on_client c (\<lambda>cl. cl\<lparr>lc_AccountID := account\<rparr>) s) =
      on_client c (\<lambda>cl. cl\<lparr>lc_AccountID := x\<rparr>) s" for x
    by (cases "lg_clients s c") (simp_all add: on_client_def)
  show ?thesis
    by (cases "lg_clients s c") (simp_all add: MsgConnect_process_def i, simp_all add: on_client_def)
qed


text \<open>C17: A player is only created for the account whose name and password the message carries: the table
  grows by one row with the id of that account, and by a name the check of names lets pass.\<close>
theorem register_needs_password:
  assumes "MsgRegister_process env m c s = Some s'" and "lg_clients s c = Some cl" and "lc_Player cl = None"
    and "numbers = wr16 (mr_Look m) @ wr16 (mr_Profession m) @ wr32 (mr_AccountUID m)"
  shows "lg_users s' = lg_users s \<or>
    (\<exists>account password name row. db_accounts env account = [(mr_AccountUID m, password)] \<and>
       string_at (mr_Account m) (mr_Name m @ mr_Password m @ numbers) = Some account \<and>
       string_at (mr_Password m) numbers = Some password \<and> isValidNameString (Some name) \<and>
       lg_users s' = lg_users s @ [row] \<and>
       toUInt (row USER_ACCOUNT_ID) = mr_AccountUID m \<and> toString (row USER_NAME) = name)"
proof -
  note run = assms(1) [unfolded MsgRegister_process_def Let_def, folded assms(4)]
  obtain account where a: "string_at (mr_Account m) (mr_Name m @ mr_Password m @ numbers) = Some account"
    using run by (auto simp: bind_eq_Some_conv)
  show ?thesis
  proof (cases "isValidString (Some account)")
    case False then show ?thesis using run a say_users by auto
  next
    case True
    then obtain password where p: "string_at (mr_Password m) numbers = Some password"
      using run a by (auto simp: bind_eq_Some_conv)
    obtain err s1 where au: "client_authenticate env c account password s = (err, s1)" by fastforce
    have u1: "lg_users s1 = lg_users s" using au by (auto simp: client_authenticate_def on_client_def split: sum.splits)
    obtain x where x: "lg_clients s1 c = Some x" "lc_Player x = None"
      using au assms(2,3) by (auto simp: client_authenticate_def on_client_def split: sum.splits)
    show ?thesis
    proof (cases "isValidString (Some password) \<and> err = ERROR_SUCCESS \<and> lc_AccountID x = mr_AccountUID m")
      case False
      then show ?thesis using run a p True au x u1 say_users close_users [OF _ x] by (fastforce split: if_splits)
    next
      case ok: True
      then obtain uid where "db_accounts env account = [(uid, password)]" "s1 = on_client c (\<lambda>cl. cl\<lparr>lc_AccountID := uid\<rparr>) s"
        using authenticated au by metis
      then have db: "db_accounts env account = [(mr_AccountUID m, password)]"
        using ok x assms(2) by (auto simp: on_client_def)
      obtain name where n: "string_at (mr_Name m) (mr_Password m @ numbers) = Some name"
        using run a p True ok au x by (auto simp: bind_eq_Some_conv)
      show ?thesis
      proof (cases "isValidNameString (Some name)")
        case False
        then show ?thesis using run a p True ok au x n u1 say_users by auto
      next
        case valid: True
        then obtain err' s2 where cr: "client_createPlayer env c name (mr_Look m) (mr_Profession m) s1 = Some (err', s2)"
          using run a p True ok au x n by (auto simp: bind_eq_Some_conv)
        have "lg_users s' = lg_users s2" using run a p True ok au x n valid cr say_users by (auto split: if_splits)
        then show ?thesis using created [OF cr x(1)] db a p valid u1 ok by metis
      qed
    qed
  qed
qed

definition field16 :: "string \<Rightarrow> u8 list" where
  "field16 s = bytes s @ replicate (16 - length s) 0"

lemma field16_string: "length s < 16 \<Longrightarrow> 0 \<notin> set (bytes s) \<Longrightarrow> string_at (field16 s) rest = Some (bytes s)"
proof -
  assume s: "length s < 16" "0 \<notin> set (bytes s)"
  then obtain k where "16 - length s = Suc k" by (metis Suc_diff_Suc)
  moreover have "takeWhile (\<lambda>c. c \<noteq> 0) (bytes s @ 0 # ys) = bytes s" for ys :: "u8 list"
    using s(2) by (subst takeWhile_append2) auto
  ultimately show ?thesis by (simp add: string_at_def field16_def)
qed

lemma sample_strings: "0 \<notin> set (bytes ''Bob'')" "0 \<notin> set (bytes ''secret'')" "0 \<notin> set (bytes ''Alice'')"
  "isValidString (Some (bytes ''Bob''))" "isValidString (Some (bytes ''secret''))" "isValidNameString (Some (bytes ''Alice''))"
  by (simp_all add: bytes_def isValidString_def isValidNameString_def name_char_ok_def)

definition sample_accounts :: db_env where
  "sample_accounts = sample_env\<lparr>db_accounts := (\<lambda>_. [(7, bytes ''secret'')]), db_accepts := (\<lambda>_. True)\<rparr>"

lemma sample_authenticates:
  "client_authenticate sample_accounts 2 (bytes ''Bob'') (bytes ''secret'') s =
     (ERROR_SUCCESS, on_client 2 (\<lambda>cl. cl\<lparr>lc_AccountID := 7\<rparr>) s)"
  by (simp add: client_authenticate_def authenticate_def answer_def sample_accounts_def sample_env_def bytes_def)

definition sample_register :: msg_register where
  "sample_register = \<lparr>mr_Account = field16 ''Bob'', mr_Name = field16 ''Alice'', mr_Password = field16 ''secret'',
     mr_Look = 2001, mr_Profession = 10, mr_AccountUID = 7\<rparr>"

lemma register_needs_password_witness:
  "\<exists>s'. MsgRegister_process sample_accounts sample_register 2 sample_online = Some s' \<and>
    (lg_users s' = lg_users sample_online \<or>
     (\<exists>account password name row. db_accounts sample_accounts account = [(mr_AccountUID sample_register, password)] \<and>
       string_at (mr_Account sample_register) (mr_Name sample_register @ mr_Password sample_register @
         wr16 (mr_Look sample_register) @ wr16 (mr_Profession sample_register) @ wr32 (mr_AccountUID sample_register)) = Some account \<and>
       string_at (mr_Password sample_register)
         (wr16 (mr_Look sample_register) @ wr16 (mr_Profession sample_register) @ wr32 (mr_AccountUID sample_register)) = Some password \<and>
       isValidNameString (Some name) \<and> lg_users s' = lg_users sample_online @ [row] \<and>
       toUInt (row USER_ACCOUNT_ID) = mr_AccountUID sample_register \<and> toString (row USER_NAME) = name))"
proof -
  have c: "lg_clients sample_online 2 = Some (sample_client None)" by (simp add: sample_online_def)
  have "\<exists>s'. MsgRegister_process sample_accounts sample_register 2 sample_online = Some s'"
    using c sample_strings
    by (simp add: MsgRegister_process_def sample_register_def field16_string sample_authenticates Let_def
        client_createPlayer_def on_client_def say_def split: prod.splits)
  then obtain s' where "MsgRegister_process sample_accounts sample_register 2 sample_online = Some s'" ..
  from register_needs_password [OF this c _ refl] this show ?thesis by (auto simp: sample_client_def)
qed

text \<open>C18: The account server answers with an account and a token only when the password of the message,
  decrypted with the built-in key, is the one of that account.\<close>
theorem token_needs_password:
  assumes "MsgAccount_process env token ip m c s = Some s'"
    and "lg_sent s' = lg_sent s @ [(c, LConnectEx uid tok info port)]" and "uid \<noteq> INVALID_UID"
    and "pwd = rc5_decrypt (RC5.generateKey ACCOUNT_SEED) (mu_Password m)"
  shows "tok = token \<and> (\<exists>account password. string_at (mu_Account m) (pwd @ mu_Server m) = Some account \<and>
    string_at pwd (mu_Server m) = Some password \<and> db_accounts env account = [(uid, password)])"
proof -
  note run = assms(1) [unfolded MsgAccount_process_def Let_def, folded assms(4)]
  obtain acc1 where a1: "string_at (mu_Account m) (mu_Password m @ mu_Server m) = Some acc1"
    using run by (auto simp: bind_eq_Some_conv)
  define s1 where "s1 = on_client c (\<lambda>cl. cl\<lparr>lc_Account := acc1\<rparr>) s"
  obtain account password where a: "string_at (mu_Account m) (pwd @ mu_Server m) = Some account"
      "string_at pwd (mu_Server m) = Some password"
    using run a1 by (auto simp: bind_eq_Some_conv)
  have s1: "lg_sent s1 = lg_sent s" by (simp add: s1_def on_client_def)
  obtain err s2 where au: "client_authenticate env c account password s1 = (err, s2)" by fastforce
  have s2: "lg_sent s2 = lg_sent s" using au s1 by (auto simp: client_authenticate_def on_client_def split: sum.splits)
  note run = run [unfolded a1 a, simplified, folded s1_def, unfolded au, simplified]
  have v: "isValidString (Some account)" "isValidString (Some password)"
    using run close_sent [of env c s1 s'] assms(2) s1 by (auto split: if_splits)
  have e: "err = ERROR_SUCCESS"
    using run v say_sent [of c "LConnectEx INVALID_UID ERROR_ID_INVALID_PWD [] 0" s2 s'] assms(2,3) s2 by (auto split: if_splits)
  obtain x where x: "lg_clients s2 c = Some x" "say c (LConnectEx (lc_AccountID x) token ip MSGSERVER_PORT) s2 = Some s'"
    using run v e by (auto simp: bind_eq_Some_conv)
  have "uid = lc_AccountID x \<and> tok = token" using say_sent [OF x(2)] assms(2) s2 by simp
  moreover obtain u where "db_accounts env account = [(u, password)]" "s2 = on_client c (\<lambda>cl. cl\<lparr>lc_AccountID := u\<rparr>) s1"
    using authenticated au e by metis
  moreover from this(2) x(1) have "lc_AccountID x = u" by (auto simp: on_client_def)
  ultimately show ?thesis using a by blast
qed

definition sample_account :: msg_account where
  "sample_account = \<lparr>mu_Account = field16 ''Bob'',
     mu_Password = fold (on_block (full_encrypt_block (mSub (RC5.generateKey ACCOUNT_SEED)))) [0..<2] (field16 ''secret''),
     mu_Server = field16 ''''\<rparr>"

lemma sample_account_opens: "rc5_decrypt (RC5.generateKey ACCOUNT_SEED) (mu_Password sample_account) = field16 ''secret''"
  unfolding sample_account_def rc5_decrypt_def
  using fold_on_block_inverse [of "field16 ''secret''" "decrypt_block (mSub (RC5.generateKey ACCOUNT_SEED))", OF _ decrypt_full]
  by (simp add: rc5_loop_cong field16_def bytes_def len_ok_def RC5_BLOCK_SIZE_def)

lemma token_needs_password_witness:
  "(42 :: u32) = 42 \<and> (\<exists>account password.
    string_at (mu_Account sample_account)
      (rc5_decrypt (RC5.generateKey ACCOUNT_SEED) (mu_Password sample_account) @ mu_Server sample_account) = Some account \<and>
    string_at (rc5_decrypt (RC5.generateKey ACCOUNT_SEED) (mu_Password sample_account)) (mu_Server sample_account) = Some password \<and>
    db_accounts sample_accounts account = [(7, password)])"
proof -
  have c: "lg_clients sample_online 2 = Some (sample_client None)" by (simp add: sample_online_def)
  have sv: "string_at (mu_Server sample_account) [] = Some []"
    by (simp add: sample_account_def field16_def string_at_def bytes_def)
  have a: "string_at (mu_Account sample_account) rest = Some (bytes ''Bob'')" for rest
    using sample_strings by (simp add: sample_account_def field16_string)
  have "\<exists>s'. MsgAccount_process sample_accounts 42 (bytes ''10.0.0.1'') sample_account 2 sample_online = Some s' \<and>
      lg_sent s' = lg_sent sample_online @ [(2, LConnectEx 7 42 (bytes ''10.0.0.1'') MSGSERVER_PORT)]"
    using c sample_strings
    by (simp add: MsgAccount_process_def a sv sample_account_opens field16_string sample_authenticates Let_def
        on_client_def say_def)
  then obtain s' where s': "MsgAccount_process sample_accounts 42 (bytes ''10.0.0.1'') sample_account 2 sample_online = Some s'"
      "lg_sent s' = lg_sent sample_online @ [(2, LConnectEx 7 42 (bytes ''10.0.0.1'') MSGSERVER_PORT)]" by blast
  show ?thesis by (rule token_needs_password [OF s' _ refl]) (simp add: INVALID_UID_def)
qed

end
