(* ===== verification/PlayerWorker.thy ===== *)
theory PlayerWorker
  imports PlayerTick World
begin

text \<open>
  The worker of \<^verbatim>\<open>World::processPlayers\<close>: one pass lets the time elapse for every player in the registry,
  in the order of the identifiers, until the world is stopping.  The registry is locked during a pass, so that
  nobody joins or leaves; a pointer to a player who is not there any more makes the pass undefined.
  What the worker reads before a player is an argument: the flag, and the clocks in milliseconds and seconds.
\<close>

type_synonym pass_reading = "bool \<times> int \<times> int"

fun process_pass ::
  "(nat \<Rightarrow> pass_reading) \<Rightarrow> nat \<Rightarrow> (u32 \<times> addr) list \<Rightarrow> (addr \<rightharpoonup> pstate) \<Rightarrow> (addr \<rightharpoonup> pstate) option" where
  "process_pass r i [] h = Some h"
| "process_pass r i ((uid, player) # ps) h =
     (case r i of (stopping, now, secs) \<Rightarrow>
        if stopping then Some h
        else (case h player of None \<Rightarrow> None
              | Some s \<Rightarrow> process_pass r (Suc i) ps (h(player \<mapsto> timerElapsed now secs s))))"

definition processPlayers_pass :: "(nat \<Rightarrow> pass_reading) \<Rightarrow> world \<Rightarrow> (addr \<rightharpoonup> pstate) \<Rightarrow> (addr \<rightharpoonup> pstate) option" where
  "processPlayers_pass r w h = process_pass r 0 (mAllPlayers w) h"

text \<open>The state of a player after a pass that reached him.\<close>

definition after_reading :: "pass_reading \<Rightarrow> pstate \<Rightarrow> pstate" where
  "after_reading rd s = (case rd of (stopping, now, secs) \<Rightarrow> timerElapsed now secs s)"

lemma process_pass_frame:
  "process_pass r i ps h = Some h' \<Longrightarrow> a \<notin> snd ` set ps \<Longrightarrow> h' a = h a"
  by (induction r i ps h rule: process_pass.induct) (auto split: prod.splits if_splits option.splits)

text \<open>Live players are each reached once, with the readings of their own turn.\<close>

lemma process_pass_reaches_all:
  assumes "distinct (map snd ps)" and "\<And>p. p \<in> set ps \<Longrightarrow> h (snd p) \<noteq> None"
    and "\<And>k. k < length ps \<Longrightarrow> \<not> fst (r (i + k))"
  shows "\<exists>h'. process_pass r i ps h = Some h' \<and>
    (\<forall>k<length ps. h' (snd (ps ! k)) = map_option (after_reading (r (i + k))) (h (snd (ps ! k))))"
  using assms
proof (induction ps arbitrary: i h)
  case (Cons p ps)
  obtain uid a where p: "p = (uid, a)" by (cases p)
  obtain now secs where r: "r i = (False, now, secs)" using Cons.prems(3) [of 0] by (cases "r i") auto
  obtain s where s: "h a = Some s" using Cons.prems(2) [of p] p by auto
  let ?h = "h(a \<mapsto> timerElapsed now secs s)"
  have fresh: "a \<notin> snd ` set ps" using Cons.prems(1) p by simp
  obtain h' where h': "process_pass r (Suc i) ps ?h = Some h'"
    and rest: "\<forall>k<length ps. h' (snd (ps ! k)) = map_option (after_reading (r (Suc i + k))) (?h (snd (ps ! k)))"
    using Cons.IH [of ?h "Suc i"] Cons.prems(1,2) Cons.prems(3) [of "Suc _"] by fastforce
  have "h' a = Some (after_reading (r i) s)"
    using process_pass_frame [OF h' fresh] by (simp add: after_reading_def r)
  moreover have "snd (ps ! k) \<noteq> a" if "k < length ps" for k using fresh that by (metis image_eqI nth_mem)
  ultimately have "\<forall>k<length (p # ps). h' (snd ((p # ps) ! k)) = map_option (after_reading (r (i + k))) (h (snd ((p # ps) ! k)))"
    using rest s p by (auto simp: less_Suc_eq_0_disj)
  then show ?case using h' r s p by auto
qed simp

text \<open>A stopping world ends the pass: whoever comes later is left as he was.\<close>

lemma process_pass_stops:
  assumes "fst (r i)"
  shows "process_pass r i ps h = Some h"
  using assms by (cases ps) (auto split: prod.splits)

text \<open>A pass is undefined exactly when it meets a player who is gone.\<close>

lemma process_pass_undefined:
  assumes "process_pass r i ps h = None"
  shows "\<exists>p \<in> set ps. h (snd p) = None"
  using assms
  by (induction r i ps h rule: process_pass.induct) (fastforce split: prod.splits if_splits option.splits)+

lemma processPlayers_reaches_every_player:
  assumes "distinct (map snd (mAllPlayers w))" and "\<forall>p \<in> set (mAllPlayers w). h (snd p) \<noteq> None"
    and "\<forall>k. \<not> fst (r k)"
  shows "\<exists>h'. processPlayers_pass r w h = Some h' \<and>
    (\<forall>k<length (mAllPlayers w). h' (snd (mAllPlayers w ! k)) =
       map_option (after_reading (r k)) (h (snd (mAllPlayers w ! k)))) \<and>
    (\<forall>a. a \<notin> snd ` set (mAllPlayers w) \<longrightarrow> h' a = h a)"
  using process_pass_reaches_all [of "mAllPlayers w" h r 0] process_pass_frame assms
  unfolding processPlayers_pass_def by fastforce

end
