(* ===== verification/Tasks.thy ===== *)
theory Tasks
  imports PlayerMsgs Incoming WorldRun
begin

text \<open>
  Scripts (\<^verbatim>\<open>Script/script.cpp\<close>, \<^verbatim>\<open>npctask.cpp\<close>, \<^verbatim>\<open>itemtask.cpp\<close>), the NPC that runs one (\<^verbatim>\<open>npc.cpp\<close>)
  and the two messages that start or continue one (\<^verbatim>\<open>msgnpc.cpp\<close>, \<^verbatim>\<open>msgdialog.cpp\<close>).  The Lua machine
  is not part of the program: what a Lua function does is a parameter, a tree of calls of the
  registered functions in which each result selects how it goes on.
\<close>

section \<open>The functions scripts can call\<close>

text \<open>
  The arguments, after the client, are what \<^verbatim>\<open>lua_tointeger\<close> and \<^verbatim>\<open>lua_tolstring\<close> make of them: 64 bits,
  and a string or a null pointer.
\<close>

datatype call =
    GetName | GetMate | GetLook | GetHair | GetMoney | GetCPs | GetExp | GetForce | GetHealth
  | GetDexterity | GetSoul | GetAddPoints | GetCurHP | GetMaxHP | GetCurMP | GetMaxMP | GetPkPoints
  | GetLevel | GetProfession
  | GainMoney u64 | GainCPs u64 | SpendMoney u64 | SpendCPs u64
  | Move u64 u64 u64
  | Text "u8 list option" | Link "u8 list option" u64 | Pic u64 | Create

datatype pushed = LString "u8 list" | LInteger u64 | LBoolean bool | LNothing

datatype script = Return | Fail | Call call "pushed \<Rightarrow> script"

text \<open>
  A player in the world: its attributes and what it was sent, its place among the others (the
  position is the one of the world), the dialogs it was sent, and the task it last talked to
  (\<open>None\<close>: the pointer was never set).  \<open>y_Top\<close> counts the values left on the stack of the one Lua
  state.
\<close>

record play =
  y_Player :: pstate
  y_World :: wstate
  y_Dialog :: "outgoing list"
  y_CurTask :: "u32 option"
  y_Top :: nat

definition on_player :: "(pstate \<Rightarrow> bool \<times> pstate) \<Rightarrow> play \<Rightarrow> pushed \<times> play" where
  "on_player f y = (let (success, s) = f (y_Player y) in (LBoolean success, y\<lparr>y_Player := s\<rparr>))"

definition dialog_out :: "outgoing \<Rightarrow> play \<Rightarrow> pushed \<times> play" where
  "dialog_out m y = (LNothing, y\<lparr>y_Dialog := y_Dialog y @ [m]\<rparr>)"

definition lua_int :: "u64 \<Rightarrow> u32" where "lua_int n = ucast n"

definition script_move :: "lz4 \<Rightarrow> u64 \<Rightarrow> u64 \<Rightarrow> u64 \<Rightarrow> play \<Rightarrow> pushed \<times> play" where
  "script_move z mapId x y p =
     (let (success, w) = move_map z (p_UID (me (y_Player p))) (ucast mapId) (ucast x) (ucast y) (y_World p)
      in (LBoolean success, p\<lparr>y_World := w\<rparr>))"

definition ACTION_TEXT :: u8 where "ACTION_TEXT = 1"
definition ACTION_LINK :: u8 where "ACTION_LINK = 2"
definition ACTION_PIC :: u8 where "ACTION_PIC = 4"
definition ACTION_CREATE :: u8 where "ACTION_CREATE = 100"
definition ACTION_ANSWER :: u8 where "ACTION_ANSWER = 101"
definition ACTION_TASKID :: u8 where "ACTION_TASKID = 102"

text \<open>A function reads the value it pushes from the player; a null text has no length.\<close>

definition getter_person :: "call \<Rightarrow> player \<Rightarrow> pushed option" where
  "getter_person c p =
     (case c of
        GetName \<Rightarrow> Some (LString (p_Name p))
      | GetMate \<Rightarrow> Some (LString (p_Mate p))
      | GetLook \<Rightarrow> Some (LInteger (ucast (p_Look p)))
      | GetHair \<Rightarrow> Some (LInteger (ucast (p_Hair p)))
      | GetMoney \<Rightarrow> Some (LInteger (ucast (p_Money p)))
      | GetCPs \<Rightarrow> Some (LInteger (ucast (p_CPs p)))
      | GetExp \<Rightarrow> Some (LInteger (p_Exp p))
      | GetForce \<Rightarrow> Some (LInteger (ucast (p_Force p)))
      | GetHealth \<Rightarrow> Some (LInteger (ucast (p_Health p)))
      | GetDexterity \<Rightarrow> Some (LInteger (ucast (p_Dexterity p)))
      | _ \<Rightarrow> None)"

definition getter_state :: "call \<Rightarrow> pstate \<Rightarrow> pushed option" where
  "getter_state c s =
     (let p = me s in
      case c of
        GetSoul \<Rightarrow> Some (LInteger (ucast (p_Soul p)))
      | GetAddPoints \<Rightarrow> Some (LInteger (ucast (p_AddPoints p)))
      | GetCurHP \<Rightarrow> Some (LInteger (ucast (p_CurHP p)))
      | GetMaxHP \<Rightarrow> Some (LInteger (ucast (getMaxHP s)))
      | GetCurMP \<Rightarrow> Some (LInteger (ucast (p_CurMP p)))
      | GetMaxMP \<Rightarrow> Some (LInteger (ucast (getMaxMP s)))
      | GetPkPoints \<Rightarrow> Some (LInteger (scast (p_PkPoints p)))
      | GetLevel \<Rightarrow> Some (LInteger (ucast (p_Level p)))
      | GetProfession \<Rightarrow> Some (LInteger (ucast (p_Profession p)))
      | _ \<Rightarrow> None)"

definition getter :: "call \<Rightarrow> pstate \<Rightarrow> pushed option" where
  "getter c s = (case getter_person c (me s) of Some v \<Rightarrow> Some v | None \<Rightarrow> getter_state c s)"

definition perform :: "lz4 \<Rightarrow> call \<Rightarrow> play \<Rightarrow> (pushed \<times> play) option" where
  "perform z c y =
     (case c of
        GainMoney n \<Rightarrow> Some (on_player (gainMoney (lua_int n) True) y)
      | GainCPs n \<Rightarrow> Some (on_player (gainCPs (lua_int n) True) y)
      | SpendMoney n \<Rightarrow> Some (on_player (spendMoney (lua_int n) True) y)
      | SpendCPs n \<Rightarrow> Some (on_player (spendCPs (lua_int n) True) y)
      | Move mapId px py \<Rightarrow> Some (script_move z mapId px py y)
      | Text t \<Rightarrow> map_option (\<lambda>t. dialog_out (OutDialogText t 0 0 ACTION_TEXT) y) t
      | Link t idx \<Rightarrow> map_option (\<lambda>t. dialog_out (OutDialogText t 0 (ucast (lua_int idx)) ACTION_LINK) y) t
      | Pic pic \<Rightarrow> Some (dialog_out (OutDialogPic 0 0 (ucast (lua_int pic)) 0 ACTION_PIC) y)
      | Create \<Rightarrow> Some (dialog_out (OutDialogDone 0xFF ACTION_CREATE) y)
      | _ \<Rightarrow> map_option (\<lambda>v. (v, y)) (getter c (y_Player y)))"

text \<open>The calls a script made are kept beside its result, for the properties below.\<close>

primrec run_script :: "lz4 \<Rightarrow> script \<Rightarrow> play \<Rightarrow> (bool \<times> call list \<times> play) option" where
  "run_script z Return y = Some (True, [], y)"
| "run_script z Fail y = Some (False, [], y)"
| "run_script z (Call c k) y =
     (case perform z c y of
        None \<Rightarrow> None
      | Some (v, y') \<Rightarrow> map_option (\<lambda>(ok, cs, y''). (ok, c # cs, y'')) (run_script z (k v) y'))"

section \<open>Tasks\<close>

fun decimal :: "nat \<Rightarrow> u8 list" where
  "decimal n = (if n < 10 then [0x30 + of_nat n] else decimal (n div 10) @ [0x30 + of_nat (n mod 10)])"

declare decimal.simps [simp del]

definition NpcTask_fct :: "u32 \<Rightarrow> u8 list" where
  "NpcTask_fct aUID = bytes ''processTask'' @ decimal (unat aUID)"

definition ItemTask_fct :: "u32 \<Rightarrow> u8 list" where
  "ItemTask_fct aUID = bytes ''processAction'' @ decimal (unat aUID)"

text \<open>
  The global functions that the scripts defined, by name, each with its numeric parameter.  Calling a
  name without a function is a Lua error as well, and the message of an error stays on the stack.
\<close>

type_synonym globals = "u8 list \<Rightarrow> (u32 \<Rightarrow> script) option"

definition task_execute :: "lz4 \<Rightarrow> globals \<Rightarrow> u8 list \<Rightarrow> u32 \<Rightarrow> play \<Rightarrow> (err_t \<times> play) option" where
  "task_execute z g mFct aParam y =
     (case (case g mFct of None \<Rightarrow> Some (False, [], y) | Some f \<Rightarrow> run_script z (f aParam) y) of
        None \<Rightarrow> None
      | Some (ok, cs, y) \<Rightarrow>
          Some (if ok then (ERROR_SUCCESS, y) else (ERROR_EXEC_FAILED, y\<lparr>y_Top := y_Top y + 1\<rparr>)))"

definition NpcTask_execute :: "lz4 \<Rightarrow> globals \<Rightarrow> u32 \<Rightarrow> u32 \<Rightarrow> play \<Rightarrow> (err_t \<times> play) option" where
  "NpcTask_execute z g mUID aParam y = task_execute z g (NpcTask_fct mUID) aParam y"

definition ItemTask_execute :: "lz4 \<Rightarrow> globals \<Rightarrow> u32 \<Rightarrow> u32 \<Rightarrow> play \<Rightarrow> (err_t \<times> play) option" where
  "ItemTask_execute z g mUID aParam y = task_execute z g (ItemTask_fct mUID) aParam y"

text \<open>\<open>Npc::activateNpc\<close>; the action is ignored.\<close>

definition activateNpc :: "lz4 \<Rightarrow> globals \<Rightarrow> npc \<Rightarrow> play \<Rightarrow> (bool \<times> play) option" where
  "activateNpc z g n y =
     (case n_Task n of
        Some task \<Rightarrow>
          if isTaskNpc n then
            map_option (\<lambda>(err, y). if err = ERROR_SUCCESS then (True, y\<lparr>y_CurTask := Some task\<rparr>) else (False, y))
              (NpcTask_execute z g task 0 y)
          else Some (False, y)
      | None \<Rightarrow> Some (False, y))"

section \<open>MsgNpc and MsgDialog\<close>

definition EVENT_BEACTIVED :: u16 where "EVENT_BEACTIVED = 0"

definition play_sysMsg :: "string \<Rightarrow> play \<Rightarrow> play" where
  "play_sysMsg str y = y\<lparr>y_Player := sendSysMsg str (y_Player y)\<rparr>"

definition play_map :: "play \<Rightarrow> u32 option" where
  "play_map y = map_option e_MapId (ents (y_World y) (p_UID (me (y_Player y))))"

definition MsgNpc_process :: "lz4 \<Rightarrow> globals \<Rightarrow> world \<Rightarrow> msg_npc \<Rightarrow> play \<Rightarrow> play option" where
  "MsgNpc_process z g wd m y =
     (if \<not> isAlive (me (y_Player y)) then Some (play_sysMsg ''STR_DIE'' y)
      else if mn_Event m = EVENT_BEACTIVED then
        (case queryNpc (mn_Id m) wd of
           None \<Rightarrow> Some y
         | Some n \<Rightarrow> if play_map y = Some (n_MapId n) then map_option snd (activateNpc z g n y) else Some y)
      else Some y)"

text \<open>The string of the message is read, to be printed; without a current task the answer is undefined.\<close>

definition MsgDialog_process :: "lz4 \<Rightarrow> globals \<Rightarrow> msg_dialog \<Rightarrow> play \<Rightarrow> play option" where
  "MsgDialog_process z g m y =
     (if \<not> isAlive (me (y_Player y)) then Some (play_sysMsg ''STR_DIE'' y)
      else
        case Option.bind (StringPacker 12 (md_buf m)) (\<lambda>p. getString MAX_PARAMSIZE 0 p (md_buf m)) of
          None \<Rightarrow> None
        | Some None \<Rightarrow> None
        | Some (Some txt) \<Rightarrow>
            if md_Action m = ACTION_ANSWER then
              (case y_CurTask y of
                 None \<Rightarrow> None
               | Some task \<Rightarrow> map_option snd (NpcTask_execute z g task (ucast (md_IdxTask m)) y))
            else Some y)"

section \<open>The ledger of a script\<close>

text \<open>What each call does to the money, the conquer points, the world and the dialog.\<close>

fun money_change :: "call \<Rightarrow> u32" where
  "money_change (GainMoney n) = ucast n"
| "money_change (SpendMoney n) = - ucast n"
| "money_change _ = 0"

fun cps_change :: "call \<Rightarrow> u32" where
  "cps_change (GainCPs n) = ucast n"
| "cps_change (SpendCPs n) = - ucast n"
| "cps_change _ = 0"

fun call_moves :: "lz4 \<Rightarrow> u32 \<Rightarrow> call \<Rightarrow> wstate \<Rightarrow> wstate" where
  "call_moves z uid (Move m x y) w = snd (move_map z uid (ucast m) (ucast x) (ucast y) w)"
| "call_moves z uid _ w = w"

fun call_says :: "call \<Rightarrow> outgoing list" where
  "call_says (Text (Some t)) = [OutDialogText t 0 0 ACTION_TEXT]"
| "call_says (Link (Some t) idx) = [OutDialogText t 0 (ucast idx) ACTION_LINK]"
| "call_says (Pic pic) = [OutDialogPic 0 0 (ucast pic) 0 ACTION_PIC]"
| "call_says Create = [OutDialogDone 0xFF ACTION_CREATE]"
| "call_says _ = []"

definition ledger :: "lz4 \<Rightarrow> call list \<Rightarrow> play \<Rightarrow> play \<Rightarrow> bool" where
  "ledger z cs y y' \<longleftrightarrow>
     me (y_Player y') = (me (y_Player y))
       \<lparr>p_Money := p_Money (me (y_Player y)) + sum_list (map money_change cs),
        p_CPs := p_CPs (me (y_Player y)) + sum_list (map cps_change cs)\<rparr> \<and>
     heap (y_Player y') = heap (y_Player y) \<and> brk (y_Player y') = brk (y_Player y) \<and>
     y_World y' = fold (call_moves z (p_UID (me (y_Player y)))) cs (y_World y) \<and>
     y_Dialog y' = y_Dialog y @ concat (map call_says cs) \<and>
     y_CurTask y' = y_CurTask y \<and> y_Top y' = y_Top y"

lemma balance_state:
  "heap (snd (gainMoney m b s)) = heap s" "brk (snd (gainMoney m b s)) = brk s"
  "heap (snd (gainCPs m b s)) = heap s" "brk (snd (gainCPs m b s)) = brk s"
  "heap (snd (spendMoney m b s)) = heap s" "brk (snd (spendMoney m b s)) = brk s"
  "heap (snd (spendCPs m b s)) = heap s" "brk (snd (spendCPs m b s)) = brk s"
  by (simp_all add: gainMoney_def gainCPs_def spendMoney_def spendCPs_def Let_def send_attr_def effect_defs)

lemma balance_me:
  "me (snd (gainMoney m b s)) = (me s)\<lparr>p_Money := p_Money (me s) + m\<rparr>"
  "me (snd (gainCPs m b s)) = (me s)\<lparr>p_CPs := p_CPs (me s) + m\<rparr>"
  "me (snd (spendMoney m b s)) = (me s)\<lparr>p_Money := p_Money (me s) - m\<rparr>"
  "me (snd (spendCPs m b s)) = (me s)\<lparr>p_CPs := p_CPs (me s) - m\<rparr>"
  using ucast_u32_bound [of "m + p_Money (me s)"] ucast_u32_bound [of "m + p_CPs (me s)"]
  by (simp_all add: gainMoney_def gainCPs_def spendMoney_def spendCPs_def Let_def send_attr_def effect_defs
      uint_max_0 add.commute)

lemma narrow_twice:
  "(ucast (ucast (x :: u64) :: u32) :: u8) = ucast x" "(ucast (ucast (x :: u64) :: u32) :: u16) = ucast x"
  by (rule bit_word_eqI, simp add: bit_ucast_iff)+

lemma perform_ledger:
  assumes "perform z c y = Some (v, y')" shows "ledger z [c] y y'"
proof -
  note calls = perform_def on_player_def dialog_out_def script_move_def lua_int_def ledger_def getter_def getter_person_def getter_state_def Let_def
  show ?thesis using assms by (cases c) (auto simp: calls split_def balance_me balance_state narrow_twice)
qed

lemma ledger_append:
  assumes "ledger z xs y y'" and "ledger z ys y' y''" shows "ledger z (xs @ ys) y y''"
  using assms by (simp add: ledger_def add.assoc)

lemma run_script_ledger:
  "run_script z sc y = Some (ok, cs, y') \<Longrightarrow> ledger z cs y y'"
proof (induction sc arbitrary: y cs)
  case (Call c k)
  then obtain v y1 cs1 where p: "perform z c y = Some (v, y1)" "run_script z (k v) y1 = Some (ok, cs1, y')" "cs = c # cs1"
    by (auto split: option.splits)
  then show ?case using ledger_append [OF perform_ledger [OF p(1)] Call.IH [OF _ p(2)]] by simp
qed (simp_all add: ledger_def)

lemma run_script_world_ok:
  "run_script z sc y = Some (ok, cs, y') \<Longrightarrow> world_ok (y_World y) \<Longrightarrow> world_ok (y_World y')"
proof -
  have step: "world_ok w \<Longrightarrow> world_ok (call_moves z u c w)" for c u w by (cases c) (simp_all add: world_move_map)
  have "world_ok w \<Longrightarrow> world_ok (fold (call_moves z u) cs w)" for w u
    by (induction cs arbitrary: w) (simp_all add: step)
  then show "run_script z sc y = Some (ok, cs, y') \<Longrightarrow> world_ok (y_World y) \<Longrightarrow> world_ok (y_World y')"
    using run_script_ledger [of z sc y ok cs y'] by (simp add: ledger_def)
qed

lemma task_execute_result:
  assumes "task_execute z g name par y = Some (err, y')"
  shows "\<exists>cs y1. ledger z cs y y1 \<and> (world_ok (y_World y) \<longrightarrow> world_ok (y_World y1)) \<and>
    y' = y1\<lparr>y_Top := y_Top y + (if err = ERROR_SUCCESS then 0 else 1)\<rparr> \<and> err \<in> {ERROR_SUCCESS, ERROR_EXEC_FAILED}"
proof -
  obtain ok cs y1 where r: "(case g name of None \<Rightarrow> Some (False, [], y) | Some f \<Rightarrow> run_script z (f par) y) = Some (ok, cs, y1)"
    and y': "(err, y') = (if ok then (ERROR_SUCCESS, y1) else (ERROR_EXEC_FAILED, y1\<lparr>y_Top := y_Top y1 + 1\<rparr>))"
    using assms unfolding task_execute_def
    by (cases "case g name of None \<Rightarrow> Some (False, [], y) | Some f \<Rightarrow> run_script z (f par) y") auto
  have l: "ledger z cs y y1" "world_ok (y_World y) \<longrightarrow> world_ok (y_World y1)"
    using r run_script_ledger run_script_world_ok by (auto simp: ledger_def split: option.splits)
  moreover have "y' = y1\<lparr>y_Top := y_Top y + (if err = ERROR_SUCCESS then 0 else 1)\<rparr>"
    using y' l(1) by (auto simp: ledger_def split: if_splits)
  moreover have "err \<in> {ERROR_SUCCESS, ERROR_EXEC_FAILED}" using y' by (simp split: if_splits)
  ultimately show ?thesis by (intro exI [of _ cs] exI [of _ y1] conjI)
qed

lemma activate_world_ok:
  assumes "activateNpc z g n y = Some (b, y')" and "world_ok (y_World y)" shows "world_ok (y_World y')"
proof (cases "n_Task n")
  case (Some task)
  show ?thesis
  proof (cases "isTaskNpc n")
    case True
    then obtain err y1 where r: "NpcTask_execute z g task 0 y = Some (err, y1)"
      and y': "y' = y1 \<or> y' = y1\<lparr>y_CurTask := Some task\<rparr>"
      using assms(1) Some by (auto simp: activateNpc_def split: if_splits)
    have "world_ok (y_World y1)"
      using task_execute_result [OF r [unfolded NpcTask_execute_def]] assms(2) by auto
    then show ?thesis using y' by auto
  qed (use assms Some in \<open>simp add: activateNpc_def\<close>)
qed (use assms in \<open>simp add: activateNpc_def\<close>)

section \<open>Names\<close>

lemma decimal_snoc: "decimal n = (if n < 10 then [] else decimal (n div 10)) @ [0x30 + of_nat (n mod 10)]"
  by (subst decimal.simps) simp

lemma digit_inj:
  assumes "a < 10" and "b < 10" and "(0x30 + of_nat a :: u8) = 0x30 + of_nat b" shows "a = b"
proof -
  have u: "unat (of_nat k :: u8) = k" if "k < 10" for k
    using that by (simp add: unat_of_nat take_bit_nat_eq_self)
  have "(of_nat a :: u8) = of_nat b" using assms(3) by simp
  then show ?thesis using u [OF assms(1)] u [OF assms(2)] by metis
qed

lemma decimal_not_Nil: "decimal n \<noteq> []"
  by (subst decimal_snoc) simp

lemma decimal_inj: "decimal m = decimal n \<Longrightarrow> m = n"
proof (induction m arbitrary: n rule: less_induct)
  case (less m)
  have s: "(if m < 10 then [] else decimal (m div 10)) = (if n < 10 then [] else decimal (n div 10))"
    and d: "m mod 10 = n mod 10"
    using less.prems digit_inj [of "m mod 10" "n mod 10"] decimal_snoc [of m] decimal_snoc [of n] by simp_all
  have "m div 10 = n div 10"
  proof (cases "m < 10")
    case True
    then show ?thesis using s decimal_not_Nil [of "n div 10"] by (simp split: if_splits)
  next
    case False
    then have "decimal (m div 10) = decimal (n div 10)" using s decimal_not_Nil [of "m div 10"] by (simp split: if_splits)
    then show ?thesis using less.IH [of "m div 10" "n div 10"] False by simp
  qed
  then show "m = n" using d by (metis div_mult_mod_eq)
qed

lemma decimal_length: "n < 10 ^ Suc k \<Longrightarrow> length (decimal n) \<le> Suc k"
proof (induction k arbitrary: n)
  case (Suc k)
  have "n div 10 < 10 ^ Suc k" using Suc.prems by (simp add: div_less_iff_less_mult mult.commute)
  then show ?case using Suc.IH [of "n div 10"] decimal_snoc [of n] by simp
qed (simp add: decimal_snoc)

section \<open>Properties\<close>


definition sample_play :: "wstate \<Rightarrow> u32 \<Rightarrow> u16 \<Rightarrow> play" where
  "sample_play w uid hp =
     \<lparr>y_Player = \<lparr>me = (Player 0 uid)\<lparr>p_CurHP := hp, p_Money := 100\<rparr>, heap = (\<lambda>_. None), brk = 0, effs = []\<rparr>,
      y_World = w, y_Dialog = [], y_CurTask = Some 7, y_Top = 0\<rparr>"

text \<open>A script that charges 30 and opens a dialog, then fails.\<close>

definition charge :: script where
  "charge = Call (SpendMoney 30) (\<lambda>_. Call Create (\<lambda>_. Fail))"

lemma charge_fails:
  "\<exists>y'. NpcTask_execute z (\<lambda>_. Some (\<lambda>_. charge)) 7 0 y = Some (ERROR_EXEC_FAILED, y')"
  by (simp add: NpcTask_execute_def task_execute_def charge_def perform_def on_player_def dialog_out_def split_def Let_def)


text \<open>C33: 
  Talking to an NPC: the script of an NPC only runs for a living player that is on the map of
  the NPC, when the NPC is one with a task; in every other case no dialog, money, place or current
  task changes.  The distance to the NPC does not matter.  Whatever a script does, the world stays
  consistent, and so it does when a dialog is answered.
\<close>
theorem npcs_serve_the_living_on_their_map:
  assumes "MsgNpc_process z g wd m y = Some y'"
  shows "(world_ok (y_World y) \<longrightarrow> world_ok (y_World y')) \<and>
    (\<not> (isAlive (me (y_Player y)) \<and> mn_Event m = EVENT_BEACTIVED \<and>
        (\<exists>n task. queryNpc (mn_Id m) wd = Some n \<and> n_Task n = Some task \<and> isTaskNpc n \<and> play_map y = Some (n_MapId n)))
      \<longrightarrow> y' = (if isAlive (me (y_Player y)) then y else play_sysMsg ''STR_DIE'' y))"
proof -
  let ?talks = "isAlive (me (y_Player y)) \<and> mn_Event m = EVENT_BEACTIVED"
  show ?thesis
  proof (cases "queryNpc (mn_Id m) wd")
    case (Some n)
    show ?thesis
    proof (cases "?talks \<and> play_map y = Some (n_MapId n)")
      case True
      then obtain b where b: "activateNpc z g n y = Some (b, y')" using assms Some by (auto simp: MsgNpc_process_def)
      have "y' = y" if "\<not> (\<exists>task. n_Task n = Some task \<and> isTaskNpc n)"
        using that b by (auto simp: activateNpc_def split: option.splits if_splits)
      then show ?thesis using True Some activate_world_ok [OF b] by auto
    qed (use assms Some in \<open>auto simp: MsgNpc_process_def play_sysMsg_def split: if_splits\<close>)
  qed (use assms in \<open>auto simp: MsgNpc_process_def play_sysMsg_def split: if_splits\<close>)
qed

definition smith :: npc where
  "smith = linkTask 7 (Npc 5 None TYPE_TASK 10 1 20 20 0 0)"

definition smithy :: world where
  "smithy = \<lparr>mAllPlayers = [], mAllPlayerNames = [], mAllNPCs = [(5, smith)], mAllTasks = []\<rparr>"

lemma npcs_serve_the_living_on_their_map_witness:
  "\<exists>y'. MsgNpc_process no_lz4 (\<lambda>_. Some (\<lambda>_. Return)) smithy \<lparr>mn_Id = 5, mn_Data = 0, mn_Event = 0, mn_Type = 0\<rparr>
      (sample_play village 1000001 0) = Some y' \<and> y' = play_sysMsg ''STR_DIE'' (sample_play village 1000001 0)"
proof -
  have dead: "\<not> isAlive (me (y_Player (sample_play village 1000001 0)))" by (simp add: sample_play_def isAlive_def)
  then obtain y' where r: "MsgNpc_process no_lz4 (\<lambda>_. Some (\<lambda>_. Return)) smithy
      \<lparr>mn_Id = 5, mn_Data = 0, mn_Event = 0, mn_Type = 0\<rparr> (sample_play village 1000001 0) = Some y'"
    by (simp add: MsgNpc_process_def)
  show ?thesis using npcs_serve_the_living_on_their_map [OF r] r dead by simp
qed

fun answers :: "lz4 \<Rightarrow> globals \<Rightarrow> msg_dialog list \<Rightarrow> play \<Rightarrow> play option" where
  "answers z g [] y = Some y"
| "answers z g (m # ms) y = Option.bind (MsgDialog_process z g m y) (answers z g ms)"

definition is_answer :: "msg_dialog \<Rightarrow> bool" where
  "is_answer m \<longleftrightarrow> md_Action m = ACTION_ANSWER \<and>
     (\<exists>p str. StringPacker 12 (md_buf m) = Some p \<and> getString MAX_PARAMSIZE 0 p (md_buf m) = Some (Some str))"


definition empty_answer :: msg_dialog where
  "empty_answer = \<lparr>md_Data = 0, md_IdxTask = 3, md_Action = 101, md_buf = replicate 12 0 @ [1, 0]\<rparr>"

lemma empty_answer_read: "is_answer empty_answer"
  by (simp add: is_answer_def empty_answer_def ACTION_ANSWER_def StringPacker_def getString_def at8_def bytes_at_def MAX_PARAMSIZE_def
      numeral_eq_Suc)


text \<open>
  The function names of tasks: different tasks have different names, NPC tasks and item tasks never
  share one, and every name fits in the buffer of 128 characters that it is printed to.
\<close>
theorem task_functions_are_apart:
  "(NpcTask_fct u = NpcTask_fct v \<longleftrightarrow> u = v) \<and> (ItemTask_fct u = ItemTask_fct v \<longleftrightarrow> u = v) \<and>
   NpcTask_fct u \<noteq> ItemTask_fct v \<and> length (NpcTask_fct u) < 128 \<and> length (ItemTask_fct u) < 128"
proof -
  have "unat u < 2 ^ LENGTH(32)" by (rule unsigned_less)
  then have "unat u < 10 ^ Suc 9" by simp
  then have "length (decimal (unat u)) \<le> 10" using decimal_length [of "unat u" 9] by simp
  then show ?thesis
    using decimal_inj [of "unat u" "unat v"] word_unat_eq_iff [of u v] by (auto simp: NpcTask_fct_def ItemTask_fct_def bytes_def)
qed

end
