(* ===== verification/MapLoading.thy ===== *)
theory MapLoading
  imports World Generator
begin

text \<open>
  Reading the settings (\<^verbatim>\<open>inifile.cpp\<close>) and loading the map data with several workers
  (\<^verbatim>\<open>mapmanager.cpp\<close>).  \<^verbatim>\<open>QSettings\<close> is a function from keys to strings, its conversions to numbers are
  parameters.  The workers take paths from a shared list and store the loaded data under a lock;
  between the two they run alone, so a run is a sequence of such steps in any order.
\<close>

section \<open>Settings\<close>

text \<open>No file, or the value of every key that it has.\<close>

type_synonym ini = "(u8 list \<Rightarrow> u8 list option) option"

record conversions =
  to_int :: "u8 list \<Rightarrow> u32"   \<comment> \<open>signed\<close>
  to_uint :: "u8 list \<Rightarrow> u32"
  to_bool :: "u8 list \<Rightarrow> bool"

definition read_key :: "ini \<Rightarrow> u8 list \<Rightarrow> 'a \<Rightarrow> (u8 list \<Rightarrow> 'a) \<Rightarrow> err_t + 'a" where
  "read_key mFile aKey missing conv =
     (if aKey = [] then Inl ERROR_INVALID_PARAMETER
      else
        case mFile of
          None \<Rightarrow> Inl ERROR_READ_FAULT
        | Some value \<Rightarrow> Inr (case value aKey of None \<Rightarrow> missing | Some str \<Rightarrow> conv str))"

definition readInteger :: "conversions \<Rightarrow> ini \<Rightarrow> u8 list \<Rightarrow> err_t + u32" where
  "readInteger cv mFile aKey = read_key mFile aKey 0 (to_int cv)"
definition readUInteger :: "conversions \<Rightarrow> ini \<Rightarrow> u8 list \<Rightarrow> err_t + u32" where
  "readUInteger cv mFile aKey = read_key mFile aKey 0 (to_uint cv)"
definition try_readBoolean :: "conversions \<Rightarrow> ini \<Rightarrow> u8 list \<Rightarrow> err_t + bool" where
  "try_readBoolean cv mFile aKey = read_key mFile aKey False (to_bool cv)"
definition try_readString :: "ini \<Rightarrow> u8 list \<Rightarrow> err_t + u8 list" where
  "try_readString mFile aKey = read_key mFile aKey [] id"

definition or_default :: "err_t + 'a \<Rightarrow> 'a \<Rightarrow> 'a" where
  "or_default r aDefault = (case r of Inl err \<Rightarrow> aDefault | Inr v \<Rightarrow> v)"

text \<open>The public readers; the narrow signed ones widen the default and narrow the result.\<close>

definition readInt8 :: "conversions \<Rightarrow> ini \<Rightarrow> u8 list \<Rightarrow> u8 \<Rightarrow> u8" where
  "readInt8 cv f aKey aDefault = ucast (or_default (readInteger cv f aKey) (scast aDefault))"
definition readUInt8 :: "conversions \<Rightarrow> ini \<Rightarrow> u8 list \<Rightarrow> u8 \<Rightarrow> u8" where
  "readUInt8 cv f aKey aDefault = ucast (or_default (readUInteger cv f aKey) (ucast aDefault))"
definition readInt16 :: "conversions \<Rightarrow> ini \<Rightarrow> u8 list \<Rightarrow> u16 \<Rightarrow> u16" where
  "readInt16 cv f aKey aDefault = ucast (or_default (readInteger cv f aKey) (scast aDefault))"
definition readUInt16 :: "conversions \<Rightarrow> ini \<Rightarrow> u8 list \<Rightarrow> u16 \<Rightarrow> u16" where
  "readUInt16 cv f aKey aDefault = ucast (or_default (readUInteger cv f aKey) (ucast aDefault))"
definition readInt32 :: "conversions \<Rightarrow> ini \<Rightarrow> u8 list \<Rightarrow> u32 \<Rightarrow> u32" where
  "readInt32 cv f aKey aDefault = or_default (readInteger cv f aKey) aDefault"
definition readUInt32 :: "conversions \<Rightarrow> ini \<Rightarrow> u8 list \<Rightarrow> u32 \<Rightarrow> u32" where
  "readUInt32 cv f aKey aDefault = or_default (readUInteger cv f aKey) aDefault"
definition readBoolean :: "conversions \<Rightarrow> ini \<Rightarrow> u8 list \<Rightarrow> bool \<Rightarrow> bool" where
  "readBoolean cv f aKey aDefault = or_default (try_readBoolean cv f aKey) aDefault"
definition readString :: "ini \<Rightarrow> u8 list \<Rightarrow> u8 list \<Rightarrow> u8 list" where
  "readString f aKey aDefault = or_default (try_readString f aKey) aDefault"

lemmas reader_defs =
  readInt8_def readUInt8_def readInt16_def readUInt16_def readInt32_def readUInt32_def readBoolean_def readString_def
  readInteger_def readUInteger_def try_readBoolean_def try_readString_def or_default_def read_key_def

lemma missing_string: "aKey \<noteq> [] \<Longrightarrow> entry aKey = None \<Longrightarrow> readString (Some entry) aKey aDefault = []"
  by (simp add: reader_defs)

section \<open>The sections of GameMap.ini\<close>

definition isspace :: "u8 \<Rightarrow> bool" where "isspace c \<longleftrightarrow> c = 0x20 \<or> 0x09 \<le> c \<and> c \<le> 0x0D"
definition isdigit :: "u8 \<Rightarrow> bool" where "isdigit c \<longleftrightarrow> 0x30 \<le> c \<and> c \<le> 0x39"

fun digits_value :: "nat \<Rightarrow> u8 list \<Rightarrow> nat" where
  "digits_value acc [] = acc"
| "digits_value acc (c # cs) = digits_value (acc * 10 + (unat c - 0x30)) cs"

text \<open>
  \<^verbatim>\<open>strtoul\<close> to base ten: white space, a sign, digits (a number that does not fit gives the largest
  one, a minus negates in 64 bits), and what follows them; \<open>None\<close> without a digit.
\<close>

definition scan_number :: "u8 list \<Rightarrow> (u64 \<times> u8 list) option" where
  "scan_number str =
     (let str = dropWhile isspace str;
          minus = (str \<noteq> [] \<and> hd str = 0x2D);
          str = (if str \<noteq> [] \<and> hd str \<in> {0x2B, 0x2D} then tl str else str);
          ds = takeWhile isdigit str;
          n = digits_value 0 ds;
          v = (if n \<ge> 2 ^ 64 then - 1 else if minus then - of_nat n else of_nat n)
      in if ds = [] then None else Some (v, dropWhile isdigit str))"

definition scan_unsigned :: "u8 list \<Rightarrow> u64 option" where
  "scan_unsigned str = map_option fst (scan_number str)"

text \<open>\<^verbatim>\<open>sscanf(section, "Map%u", &mapId) == 1\<close>.\<close>

definition scan_map :: "u8 list \<Rightarrow> u32 option" where
  "scan_map section =
     (if take 3 section = bytes ''Map'' then map_option ucast (scan_unsigned (drop 3 section)) else None)"

text \<open>
  The ids by path.  The maps are loaded later, so the check for duplicates never finds one.
\<close>

definition collect_section :: "ini \<Rightarrow> u8 list \<Rightarrow> (u8 list, u16 list) table \<Rightarrow> (u8 list, u16 list) table" where
  "collect_section gamemap section maps =
     (case scan_map section of
        None \<Rightarrow> maps
      | Some mapId \<Rightarrow>
          let dataPath = readString gamemap (section @ bytes ''/File'') (bytes ''N/A'')
          in if dataPath \<noteq> bytes ''N/A'' then
               (case tget dataPath maps of
                  None \<Rightarrow> tput dataPath [ucast mapId] maps
                | Some mapIds \<Rightarrow> tput dataPath (mapIds @ [ucast mapId]) maps)
             else maps)"

definition collect_maps :: "ini \<Rightarrow> u8 list list \<Rightarrow> (u8 list, u16 list) table" where
  "collect_maps gamemap sections = fold (collect_section gamemap) sections []"

section \<open>The workers\<close>

datatype worker =
    Idle
  | Holding "u8 list" "u16 list"
  | Finished err_t

record loading =
  ld_work :: "(u8 list, u16 list) table"
  ld_workers :: "worker list"
  ld_mMaps :: "(u16, addr) table"
  ld_mData :: "(u8 list, addr) table"
  ld_datas :: "addr \<Rightarrow> mapdata option"
  ld_next :: addr

text \<open>The critical section at the beginning of a turn.\<close>

definition take_work :: "loading \<Rightarrow> worker \<times> loading" where
  "take_work s =
     (case ld_work s of
        [] \<Rightarrow> (Finished ERROR_SUCCESS, s)
      | (dataPath, mapIds) # rest \<Rightarrow> (Holding dataPath mapIds, s\<lparr>ld_work := rest\<rparr>))"

text \<open>Loading, packing, and the critical section at its end.\<close>

definition store_data :: "lz4 \<Rightarrow> u8 list \<Rightarrow> u16 list \<Rightarrow> mapdata \<Rightarrow> loading \<Rightarrow> loading" where
  "store_data z dataPath mapIds d s =
     (let a = ld_next s in
      s\<lparr>ld_next := a + 1, ld_datas := (ld_datas s)(a \<mapsto> pack (compress z) None d),
        ld_mData := tput dataPath a (ld_mData s),
        ld_mMaps := fold (\<lambda>mapId. tput mapId a) mapIds (ld_mMaps s)\<rparr>)"

definition load_path ::
  "lz4 \<Rightarrow> (u8 list \<Rightarrow> err_t + mapdata) \<Rightarrow> u8 list \<Rightarrow> u16 list \<Rightarrow> loading \<Rightarrow> worker \<times> loading" where
  "load_path z loads dataPath mapIds s =
     (case loads dataPath of
        Inr d \<Rightarrow> (Idle, store_data z dataPath mapIds d s)
      | Inl err \<Rightarrow> (if err = ERROR_FILE_NOT_FOUND then Idle else Finished err, s))"

definition worker_turn ::
  "lz4 \<Rightarrow> (u8 list \<Rightarrow> err_t + mapdata) \<Rightarrow> nat \<Rightarrow> loading \<Rightarrow> loading" where
  "worker_turn z loads i s =
     (if i < length (ld_workers s) then
        let (w, s) = (case ld_workers s ! i of
                        Idle \<Rightarrow> take_work s
                      | Holding dataPath mapIds \<Rightarrow> load_path z loads dataPath mapIds s
                      | Finished err \<Rightarrow> (Finished err, s))
        in s\<lparr>ld_workers := (ld_workers s)[i := w]\<rparr>
      else s)"

definition start_loading :: "(u8 list, u16 list) table \<Rightarrow> nat \<Rightarrow> loading" where
  "start_loading maps numCPU =
     \<lparr>ld_work = maps, ld_workers = replicate numCPU Idle, ld_mMaps = [], ld_mData = [],
      ld_datas = (\<lambda>_. None), ld_next = 0\<rparr>"

definition run_workers :: "lz4 \<Rightarrow> (u8 list \<Rightarrow> err_t + mapdata) \<Rightarrow> nat list \<Rightarrow> loading \<Rightarrow> loading" where
  "run_workers z loads schedule s = fold (worker_turn z loads) schedule s"

definition all_finished :: "loading \<Rightarrow> bool" where
  "all_finished s \<longleftrightarrow> list_all (\<lambda>w. case w of Finished _ \<Rightarrow> True | _ \<Rightarrow> False) (ld_workers s)"

text \<open>The result is the first error of a worker, in the order they were started.\<close>

fun first_error :: "worker list \<Rightarrow> err_t" where
  "first_error [] = ERROR_SUCCESS"
| "first_error (Finished err # ws) = (if err = ERROR_SUCCESS then first_error ws else err)"
| "first_error (w # ws) = first_error ws"

text \<open>
  \<open>MapManager::loadData\<close>: \<open>ini\<close> is the content of GameMap.ini with its sections, if there is one; the
  manager must be empty, and \<open>schedule\<close> is the order in which the workers take their turns.
\<close>

definition loadData ::
  "lz4 \<Rightarrow> (u8 list \<Rightarrow> err_t + mapdata) \<Rightarrow> (ini \<times> u8 list list) option \<Rightarrow> nat \<Rightarrow> nat list \<Rightarrow> err_t \<times> loading" where
  "loadData z loads file numCPU schedule =
     (case file of
        None \<Rightarrow> (ERROR_FILE_NOT_FOUND, start_loading [] 0)
      | Some (gamemap, sections) \<Rightarrow>
          let s = run_workers z loads schedule (start_loading (collect_maps gamemap sections) numCPU)
          in (first_error (ld_workers s), s))"


section \<open>Every schedule gives the same maps\<close>

text \<open>What the maps should be: the data of the path that lists the id, if it loads.\<close>

definition expected :: "(u8 list \<Rightarrow> err_t + mapdata) \<Rightarrow> (u8 list, u16 list) table \<Rightarrow> u16 \<Rightarrow> mapdata option" where
  "expected loads maps mapId =
     (case filter (\<lambda>(dataPath, mapIds). mapId \<in> set mapIds) maps of
        [] \<Rightarrow> None
      | (dataPath, mapIds) # rest \<Rightarrow> (case loads dataPath of Inl err \<Rightarrow> None | Inr d \<Rightarrow> Some d))"

definition map_of_id :: "loading \<Rightarrow> u16 \<Rightarrow> mapdata option" where
  "map_of_id s mapId = Option.bind (tget mapId (ld_mMaps s)) (ld_datas s)"

text \<open>No id under two paths.\<close>

definition ids_apart :: "(u8 list, u16 list) table \<Rightarrow> bool" where
  "ids_apart maps \<longleftrightarrow> (\<forall>x \<in> set maps. \<forall>y \<in> set maps. \<forall>i. i \<in> set (snd x) \<longrightarrow> i \<in> set (snd y) \<longrightarrow> x = y)"

definition ignorable :: "err_t + mapdata \<Rightarrow> bool" where
  "ignorable r \<longleftrightarrow> (case r of Inl err \<Rightarrow> err = ERROR_FILE_NOT_FOUND | Inr d \<Rightarrow> True)"

text \<open>A path that is done with: its ids have its data, or its error was reported or ignored.\<close>

definition settled :: "lz4 \<Rightarrow> (u8 list \<Rightarrow> err_t + mapdata) \<Rightarrow> loading \<Rightarrow> u8 list \<times> u16 list \<Rightarrow> bool" where
  "settled z loads s job \<longleftrightarrow>
     (case loads (fst job) of
        Inr d \<Rightarrow> \<forall>i \<in> set (snd job). map_of_id s i = Some (pack (compress z) None d)
      | Inl err \<Rightarrow> err = ERROR_FILE_NOT_FOUND \<or> Finished err \<in> set (ld_workers s))"

definition loading_ok :: "lz4 \<Rightarrow> (u8 list \<Rightarrow> err_t + mapdata) \<Rightarrow> (u8 list, u16 list) table \<Rightarrow> loading \<Rightarrow> bool" where
  "loading_ok z loads maps s \<longleftrightarrow>
     table_ok (ld_mMaps s) \<and> set (ld_work s) \<subseteq> set maps \<and>
     (\<forall>p ids. Holding p ids \<in> set (ld_workers s) \<longrightarrow> (p, ids) \<in> set maps) \<and>
     (\<forall>job \<in> set maps. job \<in> set (ld_work s) \<or> Holding (fst job) (snd job) \<in> set (ld_workers s) \<or> settled z loads s job) \<and>
     (\<forall>i a. tget i (ld_mMaps s) = Some a \<longrightarrow> a < ld_next s \<and>
        (\<exists>job \<in> set maps. i \<in> set (snd job) \<and> (\<exists>d. loads (fst job) = Inr d))) \<and>
     (\<forall>err. Finished err \<in> set (ld_workers s) \<longrightarrow>
        (if err = ERROR_SUCCESS then ld_work s = []
         else \<exists>job \<in> set maps. loads (fst job) = Inl err \<and> err \<noteq> ERROR_FILE_NOT_FOUND))"

lemma fold_tput_get:
  "table_ok t \<Longrightarrow> tget i (fold (\<lambda>k. tput k a) ks t) = (if i \<in> set ks then Some a else tget i t)"
  by (induction ks arbitrary: t) (auto simp: table_simps)

lemma fold_tput_ok: "table_ok t \<Longrightarrow> table_ok (fold (\<lambda>k. tput k a) ks t)"
  by (induction ks arbitrary: t) (auto simp: table_simps)

lemma store_map_of_id:
  assumes "table_ok (ld_mMaps s)" and "\<And>i a. tget i (ld_mMaps s) = Some a \<Longrightarrow> a < ld_next s"
  shows "map_of_id (store_data z p ids d s) i =
    (if i \<in> set ids then Some (pack (compress z) None d) else map_of_id s i)"
  using assms
  by (cases "tget i (ld_mMaps s)") (fastforce simp: map_of_id_def store_data_def Let_def fold_tput_get)+

lemma in_updated: "i < length ws \<Longrightarrow> x \<in> set ws \<Longrightarrow> x \<in> set (ws[i := w]) \<or> x = ws ! i"
  by (metis in_set_conv_nth length_list_update nth_list_update_neq)

lemma updated_in: "x \<in> set (ws[i := w]) \<Longrightarrow> x = w \<or> x \<in> set ws"
  using set_update_subset_insert by fastforce

lemma settled_kept:
  assumes "settled z loads s job" and "\<And>err. Finished err \<in> set (ld_workers s) \<Longrightarrow> Finished err \<in> set (ld_workers s')"
    and "\<And>i. i \<in> set (snd job) \<Longrightarrow> map_of_id s' i = map_of_id s i"
  shows "settled z loads s' job"
  using assms by (auto simp: settled_def split: sum.splits)

text \<open>The parts of the invariant, one by one.\<close>

lemma loading_okI:
  assumes "table_ok (ld_mMaps s)" and "set (ld_work s) \<subseteq> set maps"
    and "\<And>p ids. Holding p ids \<in> set (ld_workers s) \<Longrightarrow> (p, ids) \<in> set maps"
    and "\<And>job. job \<in> set maps \<Longrightarrow>
      job \<in> set (ld_work s) \<or> Holding (fst job) (snd job) \<in> set (ld_workers s) \<or> settled z loads s job"
    and "\<And>i a. tget i (ld_mMaps s) = Some a \<Longrightarrow> a < ld_next s \<and>
      (\<exists>job \<in> set maps. i \<in> set (snd job) \<and> (\<exists>d. loads (fst job) = Inr d))"
    and "\<And>err. Finished err \<in> set (ld_workers s) \<Longrightarrow>
      (if err = ERROR_SUCCESS then ld_work s = []
       else \<exists>job \<in> set maps. loads (fst job) = Inl err \<and> err \<noteq> ERROR_FILE_NOT_FOUND)"
  shows "loading_ok z loads maps s"
  unfolding loading_ok_def using assms by blast

lemma loading_okD:
  assumes "loading_ok z loads maps s"
  shows loading_ok_table: "table_ok (ld_mMaps s)" and loading_ok_work: "set (ld_work s) \<subseteq> set maps"
    and loading_ok_held: "Holding p ids \<in> set (ld_workers s) \<Longrightarrow> (p, ids) \<in> set maps"
    and loading_ok_jobs: "job \<in> set maps \<Longrightarrow>
      job \<in> set (ld_work s) \<or> Holding (fst job) (snd job) \<in> set (ld_workers s) \<or> settled z loads s job"
    and loading_ok_ids: "tget i (ld_mMaps s) = Some a \<Longrightarrow> a < ld_next s \<and>
      (\<exists>job \<in> set maps. i \<in> set (snd job) \<and> (\<exists>d. loads (fst job) = Inr d))"
    and loading_ok_done: "Finished err \<in> set (ld_workers s) \<Longrightarrow>
      (if err = ERROR_SUCCESS then ld_work s = []
       else \<exists>job \<in> set maps. loads (fst job) = Inl err \<and> err \<noteq> ERROR_FILE_NOT_FOUND)"
  using assms unfolding loading_ok_def by blast+

text \<open>A step of an idle worker: the maps do not change, only who has the job does.\<close>

lemma hand_over:
  assumes ok: "loading_ok z loads maps s" and i: "i < length (ld_workers s)" "ld_workers s ! i = Idle"
    and work: "set rest \<subseteq> set (ld_work s)"
    and gone: "\<And>job. job \<in> set (ld_work s) \<Longrightarrow> job \<in> set rest \<or> w = Holding (fst job) (snd job)"
    and held: "\<And>p ids. w = Holding p ids \<Longrightarrow> (p, ids) \<in> set (ld_work s)"
    and stop: "\<And>err. w = Finished err \<Longrightarrow> err = ERROR_SUCCESS \<and> rest = []"
  shows "loading_ok z loads maps (s\<lparr>ld_work := rest, ld_workers := (ld_workers s)[i := w]\<rparr>)"
    (is "loading_ok z loads maps ?t")
proof (rule loading_okI)
  have new: "w \<in> set (ld_workers ?t)" using i(1) by (simp add: set_update_memI)
  have keep: "x \<in> set (ld_workers s) \<Longrightarrow> x \<noteq> Idle \<Longrightarrow> x \<in> set (ld_workers ?t)" for x
    using in_updated [OF i(1), of x w] i(2) by auto
  have old: "x \<in> set (ld_workers ?t) \<Longrightarrow> x = w \<or> x \<in> set (ld_workers s)" for x
    using updated_in by force
  show "table_ok (ld_mMaps ?t)" using loading_ok_table [OF ok] by simp
  show "set (ld_work ?t) \<subseteq> set maps" using work loading_ok_work [OF ok] by auto
  show "(p, ids) \<in> set maps" if "Holding p ids \<in> set (ld_workers ?t)" for p ids
    using old [OF that] held [of p ids] loading_ok_work [OF ok] loading_ok_held [OF ok] by blast
  show "job \<in> set (ld_work ?t) \<or> Holding (fst job) (snd job) \<in> set (ld_workers ?t) \<or> settled z loads ?t job"
    if "job \<in> set maps" for job
    using loading_ok_jobs [OF ok that]
  proof (elim disjE)
    assume "job \<in> set (ld_work s)"
    then show ?thesis using gone [of job] new by auto
  next
    assume "Holding (fst job) (snd job) \<in> set (ld_workers s)"
    then show ?thesis using keep by blast
  next
    assume "settled z loads s job"
    then have "settled z loads ?t job"
      by (rule settled_kept) (use keep in \<open>auto simp: map_of_id_def\<close>)
    then show ?thesis by blast
  qed
  show "a < ld_next ?t \<and> (\<exists>job \<in> set maps. j \<in> set (snd job) \<and> (\<exists>d. loads (fst job) = Inr d))"
    if "tget j (ld_mMaps ?t) = Some a" for j a
    using loading_ok_ids [OF ok, of j a] that by simp
  show "if err = ERROR_SUCCESS then ld_work ?t = []
       else \<exists>job \<in> set maps. loads (fst job) = Inl err \<and> err \<noteq> ERROR_FILE_NOT_FOUND"
    if "Finished err \<in> set (ld_workers ?t)" for err
    using old [OF that]
  proof (elim disjE)
    assume "Finished err = w"
    then show ?thesis using stop by auto
  next
    assume f: "Finished err \<in> set (ld_workers s)"
    show ?thesis
    proof (cases "err = ERROR_SUCCESS")
      case True
      then show ?thesis using loading_ok_done [OF ok f] work by simp
    qed (use loading_ok_done [OF ok f] in simp)
  qed
qed

lemma turn_take:
  assumes ok: "loading_ok z loads maps s" and i: "i < length (ld_workers s)" "ld_workers s ! i = Idle"
  shows "loading_ok z loads maps (worker_turn z loads i s)"
proof (cases "ld_work s")
  case Nil
  have "worker_turn z loads i s = s\<lparr>ld_work := [], ld_workers := (ld_workers s)[i := Finished ERROR_SUCCESS]\<rparr>"
    using i Nil by (cases s) (simp add: worker_turn_def take_work_def)
  then show ?thesis using hand_over [OF ok i, of "[]" "Finished ERROR_SUCCESS"] Nil by simp
next
  case (Cons job rest)
  obtain p ids where job: "job = (p, ids)" by fastforce
  have "worker_turn z loads i s = s\<lparr>ld_work := rest, ld_workers := (ld_workers s)[i := Holding p ids]\<rparr>"
    using i Cons job by (simp add: worker_turn_def take_work_def)
  then show ?thesis using Cons job by (simp only:) (rule hand_over [OF ok i], auto)
qed

text \<open>A step of a worker that has a job: it settles its own job and no other.\<close>

lemma settle_job:
  assumes ok: "loading_ok z loads maps s"
    and i: "i < length (ld_workers s)" "ld_workers s ! i = Holding p ids"
    and t: "ld_work t = ld_work s" "ld_workers t = (ld_workers s)[i := w]" "ld_next s \<le> ld_next t" "table_ok (ld_mMaps t)"
    and free: "\<And>q js. w \<noteq> Holding q js" and own: "settled z loads t (p, ids)"
    and others: "\<And>job j. job \<in> set maps \<Longrightarrow> job \<noteq> (p, ids) \<Longrightarrow> j \<in> set (snd job) \<Longrightarrow> map_of_id t j = map_of_id s j"
    and ids: "\<And>j a. tget j (ld_mMaps t) = Some a \<Longrightarrow>
      tget j (ld_mMaps s) = Some a \<or> a < ld_next t \<and> j \<in> set ids \<and> (\<exists>d. loads p = Inr d)"
    and stop: "\<And>err. w = Finished err \<Longrightarrow> err \<noteq> ERROR_SUCCESS \<and> err \<noteq> ERROR_FILE_NOT_FOUND \<and> loads p = Inl err"
  shows "loading_ok z loads maps t"
proof (rule loading_okI)
  have job: "(p, ids) \<in> set maps" using loading_ok_held [OF ok] nth_mem [OF i(1)] i(2) by simp
  have keep: "x \<in> set (ld_workers s) \<Longrightarrow> x \<noteq> Holding p ids \<Longrightarrow> x \<in> set (ld_workers t)" for x
    using in_updated [OF i(1), of x w] i(2) t(2) by auto
  have old: "x \<in> set (ld_workers t) \<Longrightarrow> x = w \<or> x \<in> set (ld_workers s)" for x
    using updated_in t(2) by force
  show "table_ok (ld_mMaps t)" by (rule t(4))
  show "set (ld_work t) \<subseteq> set maps" using loading_ok_work [OF ok] t(1) by simp
  show "(q, js) \<in> set maps" if "Holding q js \<in> set (ld_workers t)" for q js
    using old [OF that] free [of q js] loading_ok_held [OF ok] by metis
  show "jb \<in> set (ld_work t) \<or> Holding (fst jb) (snd jb) \<in> set (ld_workers t) \<or> settled z loads t jb"
    if jb: "jb \<in> set maps" for jb
  proof (cases "jb = (p, ids)")
    case True
    then show ?thesis using own by simp
  next
    case False
    have "settled z loads t jb" if "settled z loads s jb"
      using that by (rule settled_kept) (use keep others [OF jb False] in auto)
    moreover have "Holding (fst jb) (snd jb) \<noteq> Holding p ids" using False by (cases jb) auto
    ultimately show ?thesis using loading_ok_jobs [OF ok jb] keep t(1) by metis
  qed
  show "a < ld_next t \<and> (\<exists>job \<in> set maps. j \<in> set (snd job) \<and> (\<exists>d. loads (fst job) = Inr d))"
    if "tget j (ld_mMaps t) = Some a" for j a
    using ids [OF that]
  proof (elim disjE)
    assume "tget j (ld_mMaps s) = Some a"
    then show ?thesis using loading_ok_ids [OF ok, of j a] t(3) by (meson less_le_trans)
  qed (use job in force)
  show "if err = ERROR_SUCCESS then ld_work t = []
       else \<exists>job \<in> set maps. loads (fst job) = Inl err \<and> err \<noteq> ERROR_FILE_NOT_FOUND"
    if "Finished err \<in> set (ld_workers t)" for err
    using old [OF that]
  proof (elim disjE)
    assume "Finished err = w"
    then show ?thesis using stop job by force
  next
    assume f: "Finished err \<in> set (ld_workers s)"
    show ?thesis using loading_ok_done [OF ok f] t(1) by (cases "err = ERROR_SUCCESS") auto
  qed
qed

lemma turn_load:
  assumes ok: "loading_ok z loads maps s" and i: "i < length (ld_workers s)" "ld_workers s ! i = Holding p ids"
    and apart: "ids_apart maps" and err: "loads p \<noteq> Inl ERROR_SUCCESS"
  shows "loading_ok z loads maps (worker_turn z loads i s)"
proof (cases "loads p")
  case (Inl e)
  let ?w = "if e = ERROR_FILE_NOT_FOUND then Idle else Finished e"
  have t: "worker_turn z loads i s = s\<lparr>ld_workers := (ld_workers s)[i := ?w]\<rparr>" (is "_ = ?t")
    using i Inl by (simp add: worker_turn_def load_path_def)
  have "settled z loads ?t (p, ids)" using i(1) by (simp add: settled_def Inl set_update_memI)
  then show ?thesis
    unfolding t using loading_ok_table [OF ok] Inl err
    by (intro settle_job [OF ok i, where w = ?w]) (auto simp: map_of_id_def split: if_splits)
next
  case (Inr d)
  have t: "worker_turn z loads i s = (store_data z p ids d s)\<lparr>ld_workers := (ld_workers s)[i := Idle]\<rparr>" (is "_ = ?t")
    using i by (simp add: worker_turn_def load_path_def Inr store_data_def Let_def)
  have job: "(p, ids) \<in> set maps" using loading_ok_held [OF ok] nth_mem [OF i(1)] i(2) by simp
  note tab = loading_ok_table [OF ok]
  have lt: "a < ld_next s" if "tget j (ld_mMaps s) = Some a" for j a using loading_ok_ids [OF ok that] by blast
  have m: "map_of_id ?t j = (if j \<in> set ids then Some (pack (compress z) None d) else map_of_id s j)" for j
    using store_map_of_id [OF tab lt, where z = z and p = p and ids = ids and d = d and i = j] by (simp add: map_of_id_def)
  show ?thesis
    unfolding t
  proof (rule settle_job [OF ok i, where w = Idle])
    show "settled z loads ?t (p, ids)" by (simp add: settled_def Inr m)
    show "map_of_id ?t j = map_of_id s j" if "jb \<in> set maps" "jb \<noteq> (p, ids)" "j \<in> set (snd jb)" for jb j
      using m apart job that unfolding ids_apart_def by fastforce
    show "tget j (ld_mMaps s) = Some a \<or> a < ld_next ?t \<and> j \<in> set ids \<and> (\<exists>d. loads p = Inr d)"
      if "tget j (ld_mMaps ?t) = Some a" for j a
      using that Inr tab by (auto simp: store_data_def Let_def fold_tput_get split: if_splits)
  qed (use tab in \<open>simp_all add: store_data_def Let_def fold_tput_ok\<close>)
qed

lemma turn_ok:
  assumes "loading_ok z loads maps s" and "ids_apart maps" and "\<And>p. loads p \<noteq> Inl ERROR_SUCCESS"
  shows "loading_ok z loads maps (worker_turn z loads i s)"
proof (cases "i < length (ld_workers s)")
  case True
  show ?thesis
  proof (cases "ld_workers s ! i")
    case (Finished err)
    then have "worker_turn z loads i s = s" using True by (simp add: worker_turn_def list_update_same_conv [THEN iffD2])
    then show ?thesis using assms by simp
  qed (use assms True turn_take turn_load in blast)+
qed (use assms in \<open>simp add: worker_turn_def\<close>)

lemma run_workers_ok:
  assumes "loading_ok z loads maps s" and "ids_apart maps" and "\<And>p. loads p \<noteq> Inl ERROR_SUCCESS"
  shows "loading_ok z loads maps (run_workers z loads schedule s)"
  using assms(1) unfolding run_workers_def
  by (induction schedule arbitrary: s) (simp_all add: turn_ok [OF _ assms(2,3)])

lemma start_loading_ok: "loading_ok z loads maps (start_loading maps n)"
  by (auto simp: loading_ok_def start_loading_def table_simps)


lemma first_error_success:
  "first_error ws = ERROR_SUCCESS \<longleftrightarrow> (\<forall>err. Finished err \<in> set ws \<longrightarrow> err = ERROR_SUCCESS)"
  by (induction ws rule: first_error.induct) auto

lemma all_finished_mem: "all_finished s \<Longrightarrow> w \<in> set (ld_workers s) \<Longrightarrow> \<exists>err. w = Finished err"
  by (cases w) (auto simp: all_finished_def list_all_iff)

lemma run_workers_length: "length (ld_workers (run_workers z loads schedule s)) = length (ld_workers s)"
proof -
  have "length (ld_workers (worker_turn z loads i s)) = length (ld_workers s)" for i s
    by (auto simp: worker_turn_def take_work_def load_path_def store_data_def Let_def split: worker.splits list.splits sum.splits)
  then show ?thesis unfolding run_workers_def by (induction schedule arbitrary: s) simp_all
qed

lemma expected_unique:
  assumes "ids_apart maps" and "job \<in> set maps" and "i \<in> set (snd job)"
  shows "expected loads maps i = (case loads (fst job) of Inl err \<Rightarrow> None | Inr d \<Rightarrow> Some d)"
proof (cases "filter (\<lambda>(dataPath, mapIds). i \<in> set mapIds) maps")
  case Nil
  then show ?thesis using assms(2,3) by (auto simp: filter_empty_conv)
next
  case (Cons x xs)
  then have "x \<in> set maps" "i \<in> set (snd x)" using filter_eq_ConsD [OF Cons] by auto
  then have "x = job" using assms unfolding ids_apart_def by blast
  then show ?thesis using Cons by (cases job) (simp add: expected_def)
qed

lemma finished_settled:
  assumes ok: "loading_ok z loads maps s" and some: "ld_workers s \<noteq> []" and all: "all_finished s"
    and res: "first_error (ld_workers s) = ERROR_SUCCESS" and job: "job \<in> set maps"
  shows "settled z loads s job"
proof -
  obtain err where "Finished err \<in> set (ld_workers s)"
    using some all_finished_mem [OF all] by (metis list.set_sel(1))
  then have "ld_work s = []" using loading_ok_done [OF ok] res first_error_success by metis
  moreover have "Holding (fst job) (snd job) \<notin> set (ld_workers s)" using all_finished_mem [OF all] by blast
  ultimately show ?thesis using loading_ok_jobs [OF ok job] by simp
qed

lemma loading_result:
  assumes ok: "loading_ok z loads maps s" and some: "ld_workers s \<noteq> []" and all: "all_finished s"
    and err: "\<And>p. loads p \<noteq> Inl ERROR_SUCCESS"
  shows "first_error (ld_workers s) = ERROR_SUCCESS \<longleftrightarrow> (\<forall>job \<in> set maps. ignorable (loads (fst job)))"
proof
  assume res: "first_error (ld_workers s) = ERROR_SUCCESS"
  show "\<forall>job \<in> set maps. ignorable (loads (fst job))"
  proof
    fix job assume job: "job \<in> set maps"
    show "ignorable (loads (fst job))"
      using finished_settled [OF ok some all res job] res err [of "fst job"]
      unfolding settled_def ignorable_def first_error_success
      by (cases "loads (fst job)") auto
  qed
next
  assume "\<forall>job \<in> set maps. ignorable (loads (fst job))"
  then have "loads (fst job) = Inl e \<Longrightarrow> e = ERROR_FILE_NOT_FOUND" if "job \<in> set maps" for job e
    using that by (force simp: ignorable_def)
  then show "first_error (ld_workers s) = ERROR_SUCCESS"
    unfolding first_error_success using loading_ok_done [OF ok] by metis
qed

lemma loading_maps:
  assumes ok: "loading_ok z loads maps s" and some: "ld_workers s \<noteq> []" and all: "all_finished s"
    and apart: "ids_apart maps" and res: "first_error (ld_workers s) = ERROR_SUCCESS"
  shows "map_of_id s i = map_option (pack (compress z) None) (expected loads maps i)"
proof (cases "\<exists>job \<in> set maps. i \<in> set (snd job)")
  case False
  then have "tget i (ld_mMaps s) = None" using loading_ok_ids [OF ok, of i] by (cases "tget i (ld_mMaps s)") auto
  moreover have "filter (\<lambda>(dataPath, mapIds). i \<in> set mapIds) maps = []" using False by (auto simp: filter_empty_conv)
  then have "expected loads maps i = None" by (simp add: expected_def)
  ultimately show ?thesis by (simp add: map_of_id_def)
next
  case True
  then obtain job where job: "job \<in> set maps" "i \<in> set (snd job)" by blast
  note e = expected_unique [OF apart job, of loads]
  show ?thesis
  proof (cases "loads (fst job)")
    case (Inr d)
    then show ?thesis using finished_settled [OF ok some all res job(1)] job(2) e by (simp add: settled_def)
  next
    case (Inl err)
    have "tget i (ld_mMaps s) = None"
    proof (rule ccontr)
      assume "tget i (ld_mMaps s) \<noteq> None"
      then obtain jb d where "jb \<in> set maps" "i \<in> set (snd jb)" "loads (fst jb) = Inr d"
        using loading_ok_ids [OF ok, of i] by auto
      then show False using apart job Inl unfolding ids_apart_def by (metis sum.distinct(1))
    qed
    then show ?thesis using e Inl by (simp add: map_of_id_def)
  qed
qed

section \<open>The workers stop\<close>

fun worker_steps :: "worker \<Rightarrow> nat" where
  "worker_steps Idle = 1"
| "worker_steps (Holding p ids) = 2"
| "worker_steps (Finished err) = 0"

definition steps_left :: "loading \<Rightarrow> nat" where
  "steps_left s = 3 * length (ld_work s) + sum_list (map worker_steps (ld_workers s))"

lemma sum_list_replaced:
  fixes f :: "'a \<Rightarrow> nat"
  assumes "i < length xs" shows "sum_list (map f (xs[i := x])) + f (xs ! i) = sum_list (map f xs) + f x"
  using assms by (induction xs arbitrary: i) (auto split: nat.splits)

lemma steps_left_replaced:
  "i < length (ld_workers s) \<Longrightarrow>
     sum_list (map worker_steps ((ld_workers s)[i := w])) + worker_steps (ld_workers s ! i) =
     sum_list (map worker_steps (ld_workers s)) + worker_steps w"
  by (rule sum_list_replaced)

lemma turn_steps_left:
  assumes "i < length (ld_workers s)" and "\<not> (\<exists>err. ld_workers s ! i = Finished err)"
  shows "steps_left (worker_turn z loads i s) < steps_left s"
proof (cases "ld_workers s ! i")
  case Idle
  then show ?thesis
    using assms steps_left_replaced [OF assms(1), of "Finished ERROR_SUCCESS"]
      steps_left_replaced [OF assms(1), of "Holding (fst (hd (ld_work s))) (snd (hd (ld_work s)))"]
    by (cases "ld_work s") (auto simp: steps_left_def worker_turn_def take_work_def split: prod.splits)
next
  case (Holding p ids)
  then show ?thesis
    using assms steps_left_replaced [OF assms(1), of Idle] steps_left_replaced [OF assms(1), of "Finished (projl (loads p))"]
    by (cases "loads p") (auto simp: steps_left_def worker_turn_def load_path_def store_data_def Let_def)
qed (use assms in simp)

lemma finished_turn:
  "i < length (ld_workers s) \<Longrightarrow> ld_workers s ! i = Finished err \<Longrightarrow> worker_turn z loads i s = s"
  by (simp add: worker_turn_def list_update_same_conv [THEN iffD2])

lemma turn_outside: "\<not> i < length (ld_workers s) \<Longrightarrow> worker_turn z loads i s = s"
  by (simp add: worker_turn_def)

lemma turn_steps_left_le: "steps_left (worker_turn z loads i s) \<le> steps_left s"
proof (cases "i < length (ld_workers s) \<and> \<not> (\<exists>err. ld_workers s ! i = Finished err)")
  case False
  then have "worker_turn z loads i s = s" using finished_turn [of i s _ z loads] turn_outside by blast
  then show ?thesis by simp
qed (use turn_steps_left in \<open>simp add: less_imp_le\<close>)

lemma run_steps_left: "steps_left (run_workers z loads schedule s) \<le> steps_left s"
  unfolding run_workers_def
  by (induction schedule arbitrary: s) (auto intro: order_trans turn_steps_left_le)

lemma run_append: "run_workers z loads (xs @ ys) s = run_workers z loads ys (run_workers z loads xs s)"
  by (simp add: run_workers_def)

text \<open>A round in which every worker has a turn makes progress while one is not finished.\<close>

lemma round_progress:
  assumes "\<not> all_finished s" and "\<And>i. i < length (ld_workers s) \<Longrightarrow> i \<in> set turns"
  shows "steps_left (run_workers z loads turns s) < steps_left s"
proof -
  have fin: "(case w of Finished _ \<Rightarrow> True | _ \<Rightarrow> False) \<longleftrightarrow> (\<exists>err. w = Finished err)" for w by (cases w) auto
  obtain i where i: "i < length (ld_workers s)" "\<not> (\<exists>err. ld_workers s ! i = Finished err)"
    using assms(1) unfolding all_finished_def list_all_length fin by blast
  have "i \<in> set turns \<Longrightarrow> steps_left (run_workers z loads turns s) < steps_left s" for turns using i
  proof (induction turns arbitrary: s)
    case (Cons k turns)
    show ?case
    proof (cases "worker_turn z loads k s = s")
      case True
      then have "k \<noteq> i" using turn_steps_left [OF Cons.prems(2,3), of z loads] by auto
      then show ?thesis using Cons True by (simp add: run_workers_def)
    next
      case False
      then have "k < length (ld_workers s)" "\<not> (\<exists>err. ld_workers s ! k = Finished err)"
        using finished_turn [of k s _ z loads] turn_outside [of k s z loads] by blast+
      then show ?thesis
        using turn_steps_left [of k s z loads] run_steps_left [of z loads turns "worker_turn z loads k s"]
        by (simp add: run_workers_def)
    qed
  qed simp
  then show ?thesis using assms(2) i(1) by blast
qed

lemma all_finished_steps: "steps_left s = 0 \<Longrightarrow> all_finished s"
  by (auto simp: steps_left_def all_finished_def list_all_iff split: worker.splits)

lemma all_finished_run: "all_finished s \<Longrightarrow> run_workers z loads turns s = s"
proof (induction turns)
  case (Cons k turns)
  have "worker_turn z loads k s = s"
    using Cons.prems finished_turn [of k s _ z loads] all_finished_mem [OF Cons.prems nth_mem, of k]
    by (cases "k < length (ld_workers s)") (auto simp: worker_turn_def)
  then show ?case using Cons by (simp add: run_workers_def)
qed (simp add: run_workers_def)

lemma rounds_finish:
  assumes "\<And>turns i. turns \<in> set rounds \<Longrightarrow> i < length (ld_workers s) \<Longrightarrow> i \<in> set turns"
    and "steps_left s \<le> length rounds"
  shows "all_finished (run_workers z loads (concat rounds) s)"
  using assms
proof (induction rounds arbitrary: s)
  case (Cons turns rounds)
  show ?case
  proof (cases "all_finished s")
    case False
    have "steps_left (run_workers z loads turns s) < steps_left s"
      using round_progress [OF False, of turns z loads] Cons.prems(1) by simp
    then show ?thesis
      using Cons.IH [of "run_workers z loads turns s"] Cons.prems by (simp add: run_append run_workers_length)
  qed (simp add: all_finished_run)
qed (simp add: run_workers_def all_finished_steps)

section \<open>Properties\<close>

text \<open>C13: 
  The table of maps does not depend on the order in which the workers take their turns:
  when no id is listed under two paths and all workers have returned, the result is success exactly
  when every path loads or is missing, and then each id has the packed data of its path.
\<close>
theorem maps_independent_of_schedule:
  assumes "ids_apart maps" and "\<And>p. loads p \<noteq> Inl ERROR_SUCCESS" and "0 < numCPU"
    and "all_finished (run_workers z loads schedule (start_loading maps numCPU))"
  shows "let s = run_workers z loads schedule (start_loading maps numCPU) in
    (first_error (ld_workers s) = ERROR_SUCCESS \<longleftrightarrow> (\<forall>job \<in> set maps. ignorable (loads (fst job)))) \<and>
    (first_error (ld_workers s) = ERROR_SUCCESS \<longrightarrow>
       (\<forall>i. map_of_id s i = map_option (pack (compress z) None) (expected loads maps i)))"
proof -
  have ok: "loading_ok z loads maps (run_workers z loads schedule (start_loading maps numCPU))"
    by (rule run_workers_ok [OF start_loading_ok assms(1,2)])
  have "length (ld_workers (run_workers z loads schedule (start_loading maps numCPU))) = numCPU"
    by (simp add: run_workers_length start_loading_def)
  then have some: "ld_workers (run_workers z loads schedule (start_loading maps numCPU)) \<noteq> []" using assms(3) by auto
  show ?thesis
    unfolding Let_def
    using loading_result [OF ok some assms(4,2)] loading_maps [OF ok some assms(4,1)] by blast
qed

text \<open>C14: 
  Loading ends: after as many rounds as three for each path and one for each worker,
  in each of which every worker had a turn, all workers have returned, whatever the files do.
\<close>
theorem loading_ends:
  assumes "\<And>turns i. turns \<in> set rounds \<Longrightarrow> i < numCPU \<Longrightarrow> i \<in> set turns"
    and "3 * length maps + numCPU \<le> length rounds"
  shows "all_finished (run_workers z loads (concat rounds) (start_loading maps numCPU))"
proof (rule rounds_finish)
  have "sum_list (replicate numCPU (1::nat)) = numCPU" by (induction numCPU) auto
  then show "steps_left (start_loading maps numCPU) \<le> length rounds"
    using assms(2) by (simp add: steps_left_def start_loading_def)
qed (use assms(1) in \<open>simp add: start_loading_def\<close>)

text \<open>
  A key that is missing from a settings file that exists has the value zero, false or
  empty for the readers, never the default they were given: the default is only for a file that was
  not opened, or an empty key.
\<close>
theorem missing_key_ignores_default:
  assumes "aKey \<noteq> []" and "entry aKey = None"
  shows "readInt8 cv (Some entry) aKey d8 = 0 \<and> readUInt16 cv (Some entry) aKey d16 = 0 \<and>
    readUInt32 cv (Some entry) aKey d32 = 0 \<and> \<not> readBoolean cv (Some entry) aKey db \<and>
    readString (Some entry) aKey ds = [] \<and> readString None aKey ds = ds \<and> readString (Some entry) [] ds = ds"
  using assms by (simp add: reader_defs)

lemma missing_key_ignores_default_witness:
  "readUInt16 \<lparr>to_int = (\<lambda>_. 1), to_uint = (\<lambda>_. 2), to_bool = (\<lambda>_. True)\<rparr> (Some (\<lambda>_. None)) [0x41] 7 = 0"
  using missing_key_ignores_default
    [of "[0x41]" "\<lambda>_. None" "\<lparr>to_int = (\<lambda>_. 1), to_uint = (\<lambda>_. 2), to_bool = (\<lambda>_. True)\<rparr>" 7 7 7 True "[]"]
  by simp

lemma collect_section_keeps: "table_ok maps \<Longrightarrow> tget p maps \<noteq> None \<Longrightarrow> tget p (collect_section gamemap sec maps) \<noteq> None"
  by (auto simp: collect_section_def Let_def table_simps split: option.splits)

lemma collect_section_ok: "table_ok maps \<Longrightarrow> table_ok (collect_section gamemap sec maps)"
  by (auto simp: collect_section_def Let_def table_simps split: option.splits)

lemma collect_keeps: "table_ok maps \<Longrightarrow> tget p maps \<noteq> None \<Longrightarrow> tget p (fold (collect_section gamemap) sections maps) \<noteq> None"
proof (induction sections arbitrary: maps)
  case (Cons a sections)
  then show ?case using collect_section_keeps [OF Cons.prems, of gamemap a] by (simp add: collect_section_ok del: not_None_eq)
qed simp

lemma collect_ok: "table_ok maps \<Longrightarrow> table_ok (fold (collect_section gamemap) sections maps)"
  by (induction sections arbitrary: maps) (simp_all add: collect_section_ok)

lemma collect_without_file:
  assumes "sec \<in> set sections" and "scan_map sec \<noteq> None" and "entry (sec @ bytes ''/File'') = None"
  shows "\<exists>ids. ([], ids) \<in> set (collect_maps (Some entry) sections)"
proof -
  obtain xs ys where sections: "sections = xs @ sec # ys" using split_list [OF assms(1)] by blast
  let ?m = "fold (collect_section (Some entry)) xs []"
  have ok: "table_ok ?m" by (rule collect_ok) (simp add: table_simps)
  have "readString (Some entry) (sec @ bytes ''/File'') (bytes ''N/A'') = []"
    by (rule missing_string [where entry = entry, OF _ assms(3)]) (simp add: bytes_def)
  then have "tget [] (collect_section (Some entry) sec ?m) \<noteq> None"
    using assms(2) ok by (auto simp: collect_section_def Let_def table_simps bytes_def split: option.splits)
  then have "tget [] (collect_maps (Some entry) sections) \<noteq> None"
    using collect_keeps collect_section_ok [OF ok] by (simp add: sections collect_maps_def)
  then show ?thesis by (auto simp: tget_def dest: map_of_SomeD)
qed

text \<open>
  A section of GameMap.ini whose number is read but that has no file makes the whole
  start-up fail: the key's default is not used, the section is kept with the empty path, and loading
  that path is an error that is not ignored.
\<close>
theorem map_without_file_stops_loading:
  assumes "sec \<in> set sections" and "scan_map sec \<noteq> None" and "entry (sec @ bytes ''/File'') = None"
    and "\<And>p. loads p \<noteq> Inl ERROR_SUCCESS" and "loads [] = Inl ERROR_INVALID_PARAMETER"
    and "ids_apart (collect_maps (Some entry) sections)" and "0 < numCPU"
    and "all_finished (run_workers z loads schedule (start_loading (collect_maps (Some entry) sections) numCPU))"
  shows "fst (loadData z loads (Some (Some entry, sections)) numCPU schedule) \<noteq> ERROR_SUCCESS"
proof -
  let ?s = "run_workers z loads schedule (start_loading (collect_maps (Some entry) sections) numCPU)"
  have ok: "loading_ok z loads (collect_maps (Some entry) sections) ?s"
    by (rule run_workers_ok [OF start_loading_ok assms(6,4)])
  have "length (ld_workers ?s) = numCPU" by (simp add: run_workers_length start_loading_def)
  then have some: "ld_workers ?s \<noteq> []" using assms(7) by auto
  obtain ids where "([], ids) \<in> set (collect_maps (Some entry) sections)" using collect_without_file [where entry = entry and sec = sec, OF assms(1-3)] by blast
  then have "first_error (ld_workers ?s) \<noteq> ERROR_SUCCESS"
    using loading_result [OF ok some assms(8,4)] assms(5) by (force simp: ignorable_def)
  then show ?thesis by (simp add: loadData_def Let_def)
qed


text \<open>The hypotheses at work, with two workers and two paths.\<close>

definition two_maps :: "(u8 list, u16 list) table" where
  "two_maps = [([1], [10, 11]), ([2], [12])]"

lemma two_maps_apart: "ids_apart two_maps"
  by (simp add: ids_apart_def two_maps_def)

definition sample_loads :: "u8 list \<Rightarrow> err_t + mapdata" where
  "sample_loads p = (if p = [1] then Inr MapData else Inl ERROR_FILE_NOT_FOUND)"

lemma maps_independent_of_schedule_witness:
  "let s = run_workers no_lz4 sample_loads (concat (replicate 8 [1, 0])) (start_loading two_maps 2) in
     first_error (ld_workers s) = ERROR_SUCCESS \<and>
     map_of_id s 11 = Some (pack (compress no_lz4) None MapData) \<and> map_of_id s 12 = None"
proof -
  let ?s = "run_workers no_lz4 sample_loads (concat (replicate 8 [1, 0])) (start_loading two_maps 2)"
  have fin: "all_finished ?s"
    by (rule rounds_finish) (auto simp: start_loading_def two_maps_def steps_left_def numeral_2_eq_2 less_Suc_eq)
  have err: "sample_loads p \<noteq> Inl ERROR_SUCCESS" for p by (simp add: sample_loads_def)
  note r = maps_independent_of_schedule [OF two_maps_apart err _ fin, unfolded Let_def]
  have e: "first_error (ld_workers ?s) = ERROR_SUCCESS"
    using r by (simp add: two_maps_def ignorable_def sample_loads_def)
  then have "map_of_id ?s i = map_option (pack (compress no_lz4) None) (expected sample_loads two_maps i)" for i using r by simp
  then show ?thesis using e by (simp add: expected_def two_maps_def sample_loads_def)
qed

lemma loading_ends_witness:
  "all_finished (run_workers no_lz4 (load (\<lambda>_. None)) (concat (replicate 8 [1, 0])) (start_loading two_maps 2))"
  by (rule loading_ends) (auto simp: two_maps_def less_2_cases_iff)

lemma map7: "bytes ''Map7'' = [0x4D, 0x61, 0x70, 0x37]" "bytes ''Map'' = [0x4D, 0x61, 0x70]"
  by (simp_all add: bytes_def)

lemma map7_scanned: "scan_map (bytes ''Map7'') = Some 7"
  by (simp add: map7 scan_map_def scan_unsigned_def scan_number_def isspace_def isdigit_def Let_def numeral_3_eq_3)

lemma map7_collected: "collect_maps (Some (\<lambda>_. None)) [bytes ''Map7''] = [([], [7])]"
  using map7_scanned missing_string [where entry = "\<lambda>_. None" and aKey = "bytes ''Map7'' @ bytes ''/File''"]
  by (simp add: collect_maps_def collect_section_def Let_def tget_def map7 bytes_def)

lemma map_without_file_stops_loading_witness:
  "fst (loadData no_lz4 (load (\<lambda>_. None)) (Some (Some (\<lambda>_. None), [bytes ''Map7''])) 1 (concat (replicate 4 [0]))) \<noteq> ERROR_SUCCESS"
proof (rule map_without_file_stops_loading [where sec = "bytes ''Map7''" and entry = "\<lambda>_. None"])
  let ?maps = "collect_maps (Some (\<lambda>_. None)) [bytes ''Map7'']"
  show "ids_apart ?maps" unfolding map7_collected by (simp add: ids_apart_def)
  show "all_finished (run_workers no_lz4 (load (\<lambda>_. None)) (concat (replicate 4 [0])) (start_loading ?maps 1))"
    by (rule rounds_finish) (simp_all add: map7_collected start_loading_def steps_left_def)
  show "scan_map (bytes ''Map7'') \<noteq> None" by (simp add: map7_scanned)
qed (simp_all add: load_def)

end
