(* ===== verification/Talk.thy ===== *)
theory Talk
  imports Tasks MapLoading
begin

text \<open>
  What a player says (\<^verbatim>\<open>msgtalk.cpp\<close>): the commands that begin with a slash, and private words to
  another player.  Formatted system messages are printed to a buffer of fixed size.
\<close>

section \<open>Scanning\<close>

definition cstr :: "u8 list \<Rightarrow> u8 list" where "cstr b = takeWhile (\<lambda>c. c \<noteq> 0) b"

text \<open>
  \<^verbatim>\<open>%d\<close>: white space, a sign and digits as a 64-bit number that stops at its ends, of which the low
  32 bits are stored.
\<close>

definition scan_int :: "u8 list \<Rightarrow> (u32 \<times> u8 list) option" where
  "scan_int str =
     (let str = dropWhile isspace str;
          minus = (str \<noteq> [] \<and> hd str = 0x2D);
          str = (if str \<noteq> [] \<and> hd str \<in> {0x2B, 0x2D} then tl str else str);
          ds = takeWhile isdigit str;
          n = digits_value 0 ds;
          v = (if minus then - of_nat (min n (2 ^ 63)) else of_nat (min n (2 ^ 63 - 1)) :: u64)
      in if ds = [] then None else Some (ucast v, dropWhile isdigit str))"

text \<open>\<^verbatim>\<open>sscanf(words, "/%s %[^\n]s", cmd, param)\<close>: what is not read keeps its initial value.\<close>

definition scan_command :: "u8 list \<Rightarrow> u8 list \<times> u8 list" where
  "scan_command wordings =
     (let s = dropWhile isspace (tl wordings);
          cmd = takeWhile (\<lambda>c. \<not> isspace c) s;
          rest = dropWhile isspace (dropWhile (\<lambda>c. \<not> isspace c) s)
      in if cmd = [] then (bytes ''NO_CMD'', []) else (cmd, takeWhile (\<lambda>c. c \<noteq> 0x0A) rest))"

text \<open>\<^verbatim>\<open>sscanf(param, "%d %d %d", &mapId, &x, &y) == 3\<close>\<close>

definition scan_place :: "u8 list \<Rightarrow> (u32 \<times> u32 \<times> u32) option" where
  "scan_place param =
     (case scan_int param of
        None \<Rightarrow> None
      | Some (mapId, s) \<Rightarrow>
          case scan_int s of
            None \<Rightarrow> None
          | Some (x, s) \<Rightarrow> case scan_int s of None \<Rightarrow> None | Some (y, s) \<Rightarrow> Some (mapId, x, y))"

section \<open>System messages with a string\<close>

text \<open>The formatted text and its zero must fit in \<^verbatim>\<open>char buf[MAX_WORDSSIZE]\<close>; \<open>None\<close>: they do not.\<close>

definition chars :: "u8 list \<Rightarrow> string" where "chars b = map (\<lambda>c. char_of (unat c)) b"

definition sendSysMsg_fmt :: "string \<Rightarrow> u8 list \<Rightarrow> string \<Rightarrow> play \<Rightarrow> play option" where
  "sendSysMsg_fmt before str after y =
     (let buf = before @ chars str @ after
      in if length buf < MAX_WORDSSIZE then Some (play_sysMsg buf y) else None)"

section \<open>MsgTalk\<close>

definition CHANNEL_PRIVATE :: u16 where "CHANNEL_PRIVATE = 2001"

text \<open>
  A string of the message: \<open>None\<close> is a read after the message, \<open>Some None\<close> a string that is not
  there or does not fit, which leaves the array without a value.
\<close>

definition talk_string :: "nat \<Rightarrow> u8 \<Rightarrow> msg_talk \<Rightarrow> u8 list option option" where
  "talk_string aLen aIndex m =
     Option.bind (StringPacker 24 (mk_buf m)) (\<lambda>p. map_option (map_option cstr) (getString aLen aIndex p (mk_buf m)))"

definition talk_command :: "lz4 \<Rightarrow> u8 list \<Rightarrow> play \<Rightarrow> play option" where
  "talk_command z wordings y =
     (let (cmd, param) = scan_command wordings in
      if cmd = bytes ''break'' then Some (y\<lparr>y_Player := disconnect (y_Player y)\<rparr>)
      else if cmd = bytes ''mm'' then
        (case scan_place param of
           Some (mapId, px, py) \<Rightarrow>
             Some (y\<lparr>y_World := snd (move_map z (p_UID (me (y_Player y))) mapId (ucast px) (ucast py) (y_World y))\<rparr>)
         | None \<Rightarrow> Some (play_sysMsg ''USAGE: /mm id x y'' y))
      else if cmd = bytes ''money'' then
        (if scan_unsigned param \<noteq> None then Some y else Some (play_sysMsg ''USAGE: /money amount'' y))
      else sendSysMsg_fmt (''Unknown command '' @ [CHR 0x27]) cmd (CHR 0x27 # ''.'') y)"

text \<open>
  The result has the player and what is delivered to others: the received bytes, as they are.  The
  player is never a ghost (\<open>isGhost\<close> is false), and words on all other channels are only printed.
\<close>

definition MsgTalk_process :: "lz4 \<Rightarrow> world \<Rightarrow> msg_talk \<Rightarrow> play \<Rightarrow> (play \<times> (addr \<times> u8 list) list) option" where
  "MsgTalk_process z wd m y = do {
     speaker \<leftarrow> talk_string MAX_NAMESIZE 0 m;
     hearer \<leftarrow> talk_string MAX_NAMESIZE 1 m;
     wordings \<leftarrow> talk_string MAX_WORDSSIZE 3 m;
     speaker \<leftarrow> speaker;
     if take MAX_NAMESIZE (p_Name (me (y_Player y))) \<noteq> speaker then Some (y, [])
     else do {
       wordings \<leftarrow> wordings;
       if wordings \<noteq> [] \<and> hd wordings = 0x2F then map_option (\<lambda>y. (y, [])) (talk_command z wordings y)
       else do {
         hearer \<leftarrow> hearer;
         Some (y, if mk_Channel m = CHANNEL_PRIVATE
                  then (case queryPlayerByName hearer wd of None \<Rightarrow> [] | Some target \<Rightarrow> [(target, mk_buf m)])
                  else [])
       }
     }
   }"

section \<open>Printed numbers are read back\<close>

lemma digit_char: "n < 10 \<Longrightarrow> unat (0x30 + of_nat n :: u8) = 0x30 + n"
  by (simp add: unat_word_ariths unat_of_nat take_bit_nat_eq_self)

lemma digit_isdigit: "n < 10 \<Longrightarrow> isdigit (0x30 + of_nat n)"
  using digit_char [of n] by (simp add: isdigit_def word_le_nat_alt)

lemma decimal_digits: "list_all isdigit (decimal n)"
proof (induction n rule: less_induct)
  case (less n)
  have "list_all isdigit (if n < 10 then [] else decimal (n div 10))" using less.IH [of "n div 10"] by simp
  then show ?case by (subst decimal_snoc) (simp add: digit_isdigit)
qed

lemma digits_value_append: "digits_value acc (xs @ ys) = digits_value (digits_value acc xs) ys"
  by (induction xs arbitrary: acc) simp_all

lemma decimal_value: "digits_value 0 (decimal n) = n"
proof (induction n rule: less_induct)
  case (less n)
  have "digits_value 0 (if n < 10 then [] else decimal (n div 10)) = n div 10" using less.IH [of "n div 10"] by simp
  then show ?case by (subst decimal_snoc) (simp add: digits_value_append digit_char)
qed

lemma isdigit_plain: "isdigit c \<Longrightarrow> \<not> isspace c \<and> c \<noteq> 0x2D \<and> c \<noteq> 0x2B \<and> c \<noteq> 0x0A \<and> c \<noteq> 0"
  by (auto simp: isdigit_def isspace_def word_le_nat_alt)

lemma decimal_hd: "isdigit (hd (decimal n))"
  using decimal_digits [of n] decimal_not_Nil [of n] by (cases "decimal n") auto

lemma decimal_split:
  assumes "rest = [] \<or> \<not> isdigit (hd rest)"
  shows "takeWhile isdigit (decimal n @ rest) = decimal n" "dropWhile isdigit (decimal n @ rest) = rest"
  using assms decimal_digits [of n] by (cases rest; simp add: takeWhile_append list_all_iff takeWhile_eq_all_conv [THEN iffD2]
    dropWhile_append dropWhile_eq_Nil_conv [THEN iffD2])+

lemma scan_int_decimal:
  assumes "n < 2 ^ 31" and "rest = [] \<or> \<not> isdigit (hd rest)"
  shows "scan_int (0x20 # decimal n @ rest) = Some (of_nat n, rest)" "scan_int (decimal n @ rest) = Some (of_nat n, rest)"
proof -
  have "\<not> isspace (hd (decimal n))" "hd (decimal n) \<noteq> 0x2D" "hd (decimal n) \<noteq> 0x2B"
    using isdigit_plain [OF decimal_hd] by auto
  then have h: "dropWhile isspace (decimal n @ rest) = decimal n @ rest" "hd (decimal n @ rest) \<notin> {0x2B, 0x2D}"
    "hd (decimal n @ rest) \<noteq> 0x2D"
    using decimal_not_Nil [of n] by (cases "decimal n"; simp)+
  have m: "min n (2 ^ 63 - 1) = n" using assms(1) by simp
  have c: "ucast (of_nat n :: u64) = (of_nat n :: u32)"
    using assms(1) by (simp add: unsigned_of_nat take_bit_nat_eq_self)
  show s: "scan_int (decimal n @ rest) = Some (of_nat n, rest)"
    unfolding scan_int_def Let_def h(1) using h m c decimal_not_Nil [of n]
    by (simp add: decimal_split [OF assms(2)] decimal_value)
  have "isspace 0x20" by (simp add: isspace_def)
  then show "scan_int (0x20 # decimal n @ rest) = Some (of_nat n, rest)"
    using s by (simp add: scan_int_def)
qed

section \<open>Flying to a map\<close>

lemma bare_logged: "bare (log_to p e w) = bare w"
  by (simp add: bare_def log_to_def fun_eq_iff)

lemma change_map_fields:
  "e_MapId (change_map m x y e) = m" "e_PosX (change_map m x y e) = x" "e_PosY (change_map m x y e) = y"
  by (simp_all add: change_map_def)

lemma move_map_lands:
  assumes e: "ents w this = Some e" and g: "getMap mapId w = Some g"
  shows "\<exists>e'. ents (snd (move_map z this mapId x y w)) this = Some e' \<and>
    e_MapId e' = mapId \<and> e_PosX e' = x \<and> e_PosY e' = y"
proof -
  let ?l = "leaveMap z this w"
  have "bare ?l = bare w" using e by (simp add: leaveMap_def Let_def bare_room bare_send same_bare [OF clear_same])
  then have "bare ?l this = bare w this" by simp
  then obtain e1 where e1: "ents ?l this = Some e1" using e by (rule bare_fields)
  let ?s = "send_to this (MsgAction this mapId ACTION_FLY_MAP) (on_ent this (change_map mapId x y) ?l)"
  have s: "ents ?s this = Some (change_map mapId x y e1)"
    using e1 by (simp add: send_to_def log_to_def on_ent_def)
  have "snd (move_map z this mapId x y w) = enterMap z this ?s" using g by (simp add: move_map_def Let_def)
  moreover have "bare (enterMap z this ?s) this = bare ?s this" by (simp add: bare_enterMap)
  ultimately show ?thesis using bare_fields [OF _ s, of "enterMap z this ?s"] by (metis change_map_fields)
qed

lemma talk_command_ok: "talk_command z ws y = Some y' \<Longrightarrow> world_ok (y_World y) \<Longrightarrow> world_ok (y_World y')"
  by (auto simp: talk_command_def sendSysMsg_fmt_def play_sysMsg_def world_move_map Let_def split: prod.splits if_splits option.splits)

section \<open>Properties\<close>

text \<open>C31: 
  Nobody speaks for another: a message is only acted on when its speaker is the name of the
  player that sent it.  Words reach at most one other player, the one that is registered under the
  name of the hearer, on the private channel and as the bytes that were received; the speaker does
  not change then.  The world stays consistent in every case.
\<close>
theorem words_go_to_their_hearer:
  assumes "MsgTalk_process z wd m y = Some (y', ds)"
  shows "(world_ok (y_World y) \<longrightarrow> world_ok (y_World y')) \<and>
    (y' \<noteq> y \<or> ds \<noteq> [] \<longrightarrow> talk_string MAX_NAMESIZE 0 m = Some (Some (take MAX_NAMESIZE (p_Name (me (y_Player y)))))) \<and>
    (ds \<noteq> [] \<longrightarrow> y' = y \<and> mk_Channel m = CHANNEL_PRIVATE \<and>
       (\<exists>hearer target. talk_string MAX_NAMESIZE 1 m = Some (Some hearer) \<and>
          queryPlayerByName hearer wd = Some target \<and> ds = [(target, mk_buf m)]))"
  using assms talk_command_ok
  by (auto simp: MsgTalk_process_def bind_eq_Some_conv split: if_splits option.splits)

text \<open>C29: 
  A command that is none of the known ones overflows the stack of the server when it is longer
  than 235 characters, and only then: the reply is printed to an array of 255.  Nothing but the name
  of the speaker is checked before.
\<close>
theorem long_command_overflows:
  assumes "talk_string MAX_NAMESIZE 0 m = Some (Some (take MAX_NAMESIZE (p_Name (me (y_Player y)))))"
    and "talk_string MAX_NAMESIZE 1 m \<noteq> None" and "talk_string MAX_WORDSSIZE 3 m = Some (Some (0x2F # cmd))"
    and "cmd \<noteq> []" and "list_all (\<lambda>c. \<not> isspace c) cmd"
    and "cmd \<notin> {bytes ''break'', bytes ''mm'', bytes ''money''}"
  shows "MsgTalk_process z wd m y = None \<longleftrightarrow> 235 < length cmd"
proof -
  have dw: "dropWhile isspace cmd = cmd" using assms(4,5) by (cases cmd) simp_all
  have tw: "takeWhile (\<lambda>c. \<not> isspace c) cmd = cmd" using assms(5) by (simp add: list_all_iff)
  have "scan_command (0x2F # cmd) = (cmd, takeWhile (\<lambda>c. c \<noteq> 0x0A) (dropWhile isspace (dropWhile (\<lambda>c. \<not> isspace c) cmd)))"
    by (simp add: scan_command_def Let_def dw tw assms(4))
  then have "talk_command z (0x2F # cmd) y = None \<longleftrightarrow> 235 < length cmd"
    using assms(6) by (simp add: talk_command_def sendSysMsg_fmt_def Let_def chars_def MAX_WORDSSIZE_def)
  then show ?thesis using assms(1-3) by (auto simp: MsgTalk_process_def)
qed

lemma scan_mm:
  assumes "a < 2 ^ 31" and "b < 2 ^ 31" and "c < 2 ^ 31"
  shows "scan_command (0x2F # bytes ''mm '' @ decimal a @ 0x20 # decimal b @ 0x20 # decimal c) =
      (bytes ''mm'', decimal a @ 0x20 # decimal b @ 0x20 # decimal c)"
    and "scan_place (decimal a @ 0x20 # decimal b @ 0x20 # decimal c) = Some (of_nat a, of_nat b, of_nat c)"
proof -
  let ?p = "decimal a @ 0x20 # decimal b @ 0x20 # decimal c"
  have line: "list_all (\<lambda>c. c \<noteq> 0x0A) (decimal n)" for n
    using decimal_digits [of n] isdigit_plain by (auto simp: list_all_iff)
  have "takeWhile (\<lambda>c. c \<noteq> 0x0A) ?p = ?p" using line by (simp add: list_all_iff takeWhile_eq_all_conv)
  moreover have "dropWhile isspace ?p = ?p"
    using decimal_not_Nil [of a] isdigit_plain [OF decimal_hd [of a]] by (cases "decimal a") simp_all
  moreover have "isspace 0x20" by (simp add: isspace_def)
  moreover have "bytes ''mm '' = [0x6D, 0x6D, 0x20]" "\<not> isspace 0x6D" "bytes ''mm'' = [0x6D, 0x6D]"
    by (simp_all add: bytes_def isspace_def)
  ultimately show "scan_command (0x2F # bytes ''mm '' @ ?p) = (bytes ''mm'', ?p)"
    by (simp add: scan_command_def Let_def)
  have "\<not> isdigit 0x20" by (simp add: isdigit_def)
  then show "scan_place ?p = Some (of_nat a, of_nat b, of_nat c)"
    using scan_int_decimal [OF assms(1)] scan_int_decimal [OF assms(2)] scan_int_decimal(1) [OF assms(3), of "[]"]
    by (simp add: scan_place_def)
qed

text \<open>C30: 
  The map command is open to every player: \<open>/mm\<close> with the printed numbers of a map that exists and
  of any position takes the player there, whether or not the cell can be stood on or is on the map
  at all.
\<close>
theorem anyone_flies_anywhere:
  assumes "talk_string MAX_NAMESIZE 0 m = Some (Some (take MAX_NAMESIZE (p_Name (me (y_Player y)))))"
    and "talk_string MAX_NAMESIZE 1 m \<noteq> None"
    and "talk_string MAX_WORDSSIZE 3 m = Some (Some (0x2F # bytes ''mm '' @ decimal a @ 0x20 # decimal b @ 0x20 # decimal c))"
    and "a < 2 ^ 31" and "b < 2 ^ 16" and "c < 2 ^ 16"
    and "ents (y_World y) (p_UID (me (y_Player y))) = Some e" and "getMap (of_nat a) (y_World y) = Some g"
  shows "\<exists>y' e'. MsgTalk_process z wd m y = Some (y', []) \<and> ents (y_World y') (p_UID (me (y_Player y))) = Some e' \<and>
    e_MapId e' = of_nat a \<and> e_PosX e' = of_nat b \<and> e_PosY e' = of_nat c"
proof -
  let ?w = "snd (move_map z (p_UID (me (y_Player y))) (of_nat a) (of_nat b) (of_nat c) (y_World y))"
  have c: "ucast (of_nat n :: u32) = (of_nat n :: u16)" if "n < 2 ^ 16" for n
    using that by (simp add: unsigned_of_nat take_bit_nat_eq_self)
  have b: "b < 2 ^ 31" "c < 2 ^ 31" using assms(5,6) by simp_all
  have "talk_command z (0x2F # bytes ''mm '' @ decimal a @ 0x20 # decimal b @ 0x20 # decimal c) y = Some (y\<lparr>y_World := ?w\<rparr>)"
    using scan_mm [OF assms(4) b] c [OF assms(5)] c [OF assms(6)]
    by (simp add: talk_command_def bytes_def)
  then have "MsgTalk_process z wd m y = Some (y\<lparr>y_World := ?w\<rparr>, [])"
    using assms(1-3) by (auto simp: MsgTalk_process_def)
  then show ?thesis using move_map_lands [OF assms(7,8), of z "of_nat b" "of_nat c"] by simp
qed

section \<open>The properties at work\<close>

definition talk_of :: "u16 \<Rightarrow> u8 list list \<Rightarrow> msg_talk" where
  "talk_of channel strs =
     \<lparr>mk_Color = 0, mk_Channel = channel, mk_Style = 0, mk_Timestamp = 0, mk_HearerLook = 0, mk_SpeakerLook = 0,
      mk_buf = replicate 24 0 @ of_nat (length strs) # concat (map string_bytes strs)\<rparr>"

lemma talk_of_string:
  assumes "list_all (\<lambda>s. length s < 256) strs" and "length strs \<le> 255" and "i < length strs" and "length (strs ! i) < aLen"
  shows "talk_string aLen (of_nat i) (talk_of channel strs) = Some (Some (cstr (strs ! i)))"
  using getString_packed [OF assms, of "replicate 24 0"]
  by (simp add: talk_string_def talk_of_def StringPacker_def at8_def)

lemma cstr_plain: "list_all (\<lambda>c. c \<noteq> 0) s \<Longrightarrow> cstr s = s"
  by (simp add: cstr_def list_all_iff takeWhile_eq_all_conv)

lemma sample_name: "take MAX_NAMESIZE (p_Name (me (y_Player (sample_play w uid hp)))) = bytes ''Unknown''"
  "length (bytes ''Unknown'') = 7" "list_all (\<lambda>c. c \<noteq> 0) (bytes ''Unknown'')" "p_UID (me (y_Player (sample_play w uid hp))) = uid"
  by (simp_all add: sample_play_def Player_def MAX_NAMESIZE_def bytes_def)

lemma talk_strings:
  assumes "length wordings < 255" and "list_all (\<lambda>c. c \<noteq> 0) wordings"
  shows "talk_string MAX_NAMESIZE 0 (talk_of ch [bytes ''Unknown'', [0x41], [], wordings]) = Some (Some (bytes ''Unknown''))"
    and "talk_string MAX_NAMESIZE 1 (talk_of ch [bytes ''Unknown'', [0x41], [], wordings]) = Some (Some [0x41])"
    and "talk_string MAX_WORDSSIZE 3 (talk_of ch [bytes ''Unknown'', [0x41], [], wordings]) = Some (Some wordings)"
  using talk_of_string [of "[bytes ''Unknown'', [0x41], [], wordings]" 0 MAX_NAMESIZE ch]
    talk_of_string [of "[bytes ''Unknown'', [0x41], [], wordings]" 1 MAX_NAMESIZE ch]
    talk_of_string [of "[bytes ''Unknown'', [0x41], [], wordings]" 3 MAX_WORDSSIZE ch] assms
  by (simp_all add: cstr_plain sample_name MAX_NAMESIZE_def MAX_WORDSSIZE_def)

text \<open>A command of 236 letters.\<close>

definition shout :: "u8 list" where "shout = replicate 236 0x61"

lemma shout_length: "length shout = 236"
  unfolding shout_def by (rule length_replicate)

lemma shout_letters: "set shout = {0x61}"
  unfolding shout_def by (simp only: set_replicate_conv_if) simp

lemma shout_facts: "shout \<noteq> []" "list_all (\<lambda>c. \<not> isspace c) shout" "list_all (\<lambda>c. c \<noteq> 0) shout"
  "shout \<notin> {bytes ''break'', bytes ''mm'', bytes ''money''}"
proof -
  have "length x \<noteq> 236" if "x \<in> {bytes ''break'', bytes ''mm'', bytes ''money''}" for x using that by (auto simp: bytes_def)
  then show "shout \<notin> {bytes ''break'', bytes ''mm'', bytes ''money''}" using shout_length by blast
qed (use shout_length in \<open>auto simp: list_all_iff shout_letters isspace_def\<close>)

lemma long_command_overflows_witness:
  "MsgTalk_process no_lz4 smithy (talk_of 2000 [bytes ''Unknown'', [0x41], [], 0x2F # shout]) (sample_play village 1000001 1) = None"
proof -
  let ?m = "talk_of 2000 [bytes ''Unknown'', [0x41], [], 0x2F # shout]"
  have l: "length (0x2F # shout) < 255" "list_all (\<lambda>c. c \<noteq> 0) (0x2F # shout)" using shout_facts shout_length by simp_all
  have "MsgTalk_process no_lz4 smithy ?m (sample_play village 1000001 1) = None \<longleftrightarrow> 235 < length shout"
    using long_command_overflows [of ?m "sample_play village 1000001 1" shout no_lz4 smithy] talk_strings [OF l] shout_facts
    by (simp only: sample_name) simp
  then show ?thesis by (simp add: shout_length)
qed

definition mm_words :: "u8 list" where
  "mm_words = 0x2F # bytes ''mm '' @ decimal 1002 @ 0x20 # decimal 5000 @ 0x20 # decimal 6000"

lemma mm_words_plain: "length mm_words < 255" "list_all (\<lambda>c. c \<noteq> 0) mm_words"
proof -
  have z: "list_all (\<lambda>c. c \<noteq> 0) (decimal n)" for n
    using decimal_digits [of n] isdigit_plain by (auto simp: list_all_iff)
  show "list_all (\<lambda>c. c \<noteq> 0) mm_words" using z by (simp add: mm_words_def bytes_def)
  show "length mm_words < 255"
    using decimal_length [of 1002 3] decimal_length [of 5000 3] decimal_length [of 6000 3] by (simp add: mm_words_def bytes_def)
qed

text \<open>The village has three by three cells.\<close>

lemma anyone_flies_anywhere_witness:
  "\<exists>y' e'. MsgTalk_process no_lz4 smithy (talk_of 2000 [bytes ''Unknown'', [0x41], [], mm_words]) (sample_play lone_player 1000001 1) =
      Some (y', []) \<and> ents (y_World y') 1000001 = Some e' \<and> e_MapId e' = 1002 \<and> e_PosX e' = 5000 \<and> e_PosY e' = 6000"
proof -
  let ?m = "talk_of 2000 [bytes ''Unknown'', [0x41], [], mm_words]"
  obtain e where e: "ents lone_player 1000001 = Some e" using lone_player_ent by blast
  obtain g where g: "getMap 1002 lone_player = Some g" by (rule lone_player_map)
  show ?thesis
    using anyone_flies_anywhere [of ?m "sample_play lone_player 1000001 1" 1002 5000 6000 e g no_lz4 smithy]
      talk_strings [OF mm_words_plain, folded mm_words_def] e g
    by (simp only: sample_name mm_words_def) (simp add: sample_play_def Player_def)
qed

lemma talk_of_channel: "mk_Channel (talk_of ch strs) = ch"
  by (simp add: talk_of_def)

text \<open>A whisper to the player A, whose object is at address 9.\<close>

definition whisper_world :: world where
  "whisper_world = smithy\<lparr>mAllPlayerNames := [([0x41], 9)]\<rparr>"

lemma words_go_to_their_hearer_witness:
  "MsgTalk_process no_lz4 whisper_world (talk_of CHANNEL_PRIVATE [bytes ''Unknown'', [0x41], [], [0x42]])
       (sample_play village 1000001 1) =
     Some (sample_play village 1000001 1, [(9, mk_buf (talk_of CHANNEL_PRIVATE [bytes ''Unknown'', [0x41], [], [0x42]]))]) \<and>
   talk_string MAX_NAMESIZE 0 (talk_of CHANNEL_PRIVATE [bytes ''Unknown'', [0x41], [], [0x42]]) = Some (Some (bytes ''Unknown'')) \<and>
   queryPlayerByName [0x41] whisper_world = Some 9"
proof -
  let ?m = "talk_of CHANNEL_PRIVATE [bytes ''Unknown'', [0x41], [], [0x42]]"
  have r: "MsgTalk_process no_lz4 whisper_world ?m (sample_play village 1000001 1) =
     Some (sample_play village 1000001 1, [(9, mk_buf ?m)])"
    by (simp add: MsgTalk_process_def talk_strings sample_name queryPlayerByName_def whisper_world_def tget_def talk_of_channel)
  then show ?thesis using words_go_to_their_hearer [OF r] by (simp add: sample_name talk_strings)
qed

end
