(* ===== verification/Catalog.thy ===== *)
theory Catalog
  imports Rows
begin

text \<open>
  The tables that are loaded once, when the server starts, and looked up while it runs: the types of
  items, magics and monsters, and the portals of the maps (\<^verbatim>\<open>database.cpp\<close>).  As in \<open>Rows\<close>, the answer
  of a query is an argument.
\<close>

section \<open>Loading a table\<close>

text \<open>The loop over the rows of a query; a later row replaces an earlier one of the same key.\<close>

definition load_table :: "('r \<Rightarrow> 'k::linorder) \<Rightarrow> ('r \<Rightarrow> 'v) \<Rightarrow> 'r list \<Rightarrow> ('k, 'v) table \<Rightarrow> ('k, 'v) table" where
  "load_table kf vf rows t = fold (\<lambda>row. tput (kf row) (vf row)) rows t"

definition load_rows ::
  "('r \<Rightarrow> 'k::linorder) \<Rightarrow> ('r \<Rightarrow> 'v) \<Rightarrow> 'r result_set \<Rightarrow> ('k, 'v) table \<Rightarrow> err_t \<times> ('k, 'v) table" where
  "load_rows kf vf rows t =
     (case rows of None \<Rightarrow> (ERROR_EXEC_FAILED, t) | Some rows \<Rightarrow> (ERROR_SUCCESS, load_table kf vf rows t))"

definition lookup :: "'k::linorder \<Rightarrow> ('k, 'v) table \<Rightarrow> err_t + 'v" where
  "lookup k t = (case tget k t of None \<Rightarrow> Inl ERROR_NOT_FOUND | Some v \<Rightarrow> Inr v)"

section \<open>Types of items\<close>

datatype (plugins only: code) item_info_col =
    II_ID | II_NAME | II_REQ_PROF | II_REQ_WEAPONSKILL | II_REQ_LEVEL | II_REQ_SEX | II_REQ_FORCE
    | II_REQ_SPEED | II_REQ_HEALTH | II_REQ_SOUL | II_MONOPOLY | II_WEIGHT | II_PRICE | II_TASK
    | II_MAX_ATK | II_MIN_ATK | II_DEFENSE | II_DEXTERITY | II_DODGE | II_LIFE | II_MANA
    | II_AMOUNT | II_AMOUNT_LIMIT | II_IDENT | II_GEM1 | II_GEM2 | II_MAGIC1 | II_MAGIC2
    | II_MAGIC3 | II_MAGIC_ATK | II_MAGIC_DEF | II_ATK_RANGE | II_ATK_SPEED | II_FRAY_MODE
    | II_REPAIR_MODE | II_TYPE_MASK | II_CPS

text \<open>\<open>task\<close> tells which tasks are loaded as tasks of items.\<close>

definition item_info_of :: "(u32 \<Rightarrow> bool) \<Rightarrow> item_info_col qrow \<Rightarrow> item_info" where
  "item_info_of task row = Item_Info
     \<lparr>i_Id := toUInt (row II_ID), i_Name := toString (row II_NAME),
      i_ReqProf := ucast (toUInt (row II_REQ_PROF)),
      i_ReqWeaponSkill := ucast (toUInt (row II_REQ_WEAPONSKILL)),
      i_ReqLevel := ucast (toUInt (row II_REQ_LEVEL)), i_ReqSex := ucast (toUInt (row II_REQ_SEX)),
      i_ReqForce := ucast (toUInt (row II_REQ_FORCE)),
      i_ReqSpeed := ucast (toUInt (row II_REQ_SPEED)),
      i_ReqHealth := ucast (toUInt (row II_REQ_HEALTH)),
      i_ReqSoul := ucast (toUInt (row II_REQ_SOUL)),
      i_Monopoly := ucast (toUInt (row II_MONOPOLY)), i_Weight := ucast (toUInt (row II_WEIGHT)),
      i_Price := toUInt (row II_PRICE), i_MaxAtk := ucast (toUInt (row II_MAX_ATK)),
      i_MinAtk := ucast (toUInt (row II_MIN_ATK)),
      i_Defense := word_of_int (toInt (row II_DEFENSE)),
      i_Dexterity := word_of_int (toInt (row II_DEXTERITY)),
      i_Dodge := word_of_int (toInt (row II_DODGE)), i_Life := word_of_int (toInt (row II_LIFE)),
      i_Mana := word_of_int (toInt (row II_MANA)), i_Amount := ucast (toUInt (row II_AMOUNT)),
      i_AmountLimit := ucast (toUInt (row II_AMOUNT_LIMIT)),
      i_Ident := ucast (toUInt (row II_IDENT)), i_Gem1 := ucast (toUInt (row II_GEM1)),
      i_Gem2 := ucast (toUInt (row II_GEM2)), i_Magic1 := ucast (toUInt (row II_MAGIC1)),
      i_Magic2 := ucast (toUInt (row II_MAGIC2)), i_Magic3 := ucast (toUInt (row II_MAGIC3)),
      i_MagicAtk := ucast (toUInt (row II_MAGIC_ATK)),
      i_MagicDef := ucast (toUInt (row II_MAGIC_DEF)),
      i_AtkRange := ucast (toUInt (row II_ATK_RANGE)),
      i_AtkSpeed := ucast (toUInt (row II_ATK_SPEED)),
      i_FrayMode := ucast (toUInt (row II_FRAY_MODE)),
      i_RepairMode := ucast (toUInt (row II_REPAIR_MODE)),
      i_TypeMask := ucast (toUInt (row II_TYPE_MASK)), i_CPs := toUInt (row II_CPS),
      i_Task := (if toUInt (row II_TASK) \<noteq> 0 \<and> task (toUInt (row II_TASK)) then Some (unat (toUInt (row II_TASK))) else None)\<rparr>"

definition loadAllItems ::
  "(u32 \<Rightarrow> bool) \<Rightarrow> item_info_col qrow result_set \<Rightarrow> (u32, item_info) table \<Rightarrow> err_t \<times> (u32, item_info) table" where
  "loadAllItems task = load_rows (\<lambda>row. toUInt (row II_ID)) (item_info_of task)"

definition getItemInfo :: "u32 \<Rightarrow> (u32, item_info) table \<Rightarrow> err_t + item_info" where
  "getItemInfo = lookup"

text \<open>The rows of the goods of a shop: the id of the row and the currency.\<close>

definition getItemFromShop ::
  "(u32 \<times> u32) result_set \<Rightarrow> u32 \<Rightarrow> (u32, item_info) table \<Rightarrow> err_t + item_info \<times> u8" where
  "getItemFromShop rows aItemId t =
     (case rows of
        None \<Rightarrow> Inl ERROR_EXEC_FAILED
      | Some [(_, moneytype)] \<Rightarrow>
          (case getItemInfo aItemId t of Inl err \<Rightarrow> Inl err | Inr info \<Rightarrow> Inr (info, ucast moneytype))
      | Some _ \<Rightarrow> Inl ERROR_BAD_LENGTH)"

section \<open>Types of magics\<close>

datatype (plugins only: code) magic_info_col =
    MI_ID | MI_TYPE | MI_SORT | MI_NAME | MI_CRIME | MI_GROUND | MI_MULTI | MI_TARGET | MI_LEVEL
    | MI_USE_MP | MI_POWER | MI_INTONE_DURATION | MI_SUCCESS | MI_STEP_SECS | MI_RANGE
    | MI_DISTANCE | MI_STATUS | MI_REQ_PROF | MI_REQ_EXP | MI_REQ_LEVEL | MI_USE_XP
    | MI_WEAPON_SUBTYPE | MI_ACTIVE_TIMES | MI_AUTO_ACTIVE | MI_FLOOR_ATTR | MI_AUTO_LEARN
    | MI_LEARN_LEVEL | MI_DROP_WEAPON | MI_USE_EP | MI_WEAPON_HIT | MI_USE_ITEM | MI_NEXT_MAGIC
    | MI_NEXT_MAGIC_DELAY | MI_USE_ITEM_NUM | MI_SENDER_ACTION | MI_UPGRADE_DESC | MI_DESC
    | MI_INTONE_EFFECT | MI_INTONE_SOUND | MI_SENDER_EFFECT | MI_SENDER_SOUND | MI_TARGET_DELAY
    | MI_TARGET_EFFECT | MI_TARGET_SOUND | MI_GROUND_EFFECT | MI_TRACE_EFFECT | MI_SCREEN_REPRESENT
    | MI_USABLE_IN_MARKET | MI_TARGET_WOUND_DELAY

record magic_info =
  mg_Id :: u32
  mg_Type :: u16
  mg_Sort :: u8
  mg_Crime :: bool
  mg_Ground :: bool
  mg_Multi :: bool
  mg_Target :: u32
  mg_Level :: u16
  mg_UseMP :: u16
  mg_Power :: u32   \<comment> \<open>signed\<close>
  mg_IntoneDuration :: u16
  mg_Success :: u8
  mg_StepSecs :: u32
  mg_Range :: u8
  mg_Distance :: u8
  mg_Status :: u32
  mg_ReqProf :: u16
  mg_ReqExp :: u32
  mg_ReqLevel :: u8
  mg_UseXP :: u8
  mg_WeaponSubtype :: u16
  mg_ActiveTimes :: u32
  mg_AutoActive :: bool
  mg_FloorAttr :: u32
  mg_AutoLearn :: bool
  mg_LearnLevel :: u8
  mg_DropWeapon :: bool
  mg_UseEP :: u8
  mg_WeaponHit :: bool
  mg_UseItem :: u32
  mg_NextMagicDelay :: u16
  mg_UseItemNum :: u8
  mg_UsableInMarket :: bool

definition Magic_Info :: magic_info where
  "Magic_Info =
     \<lparr>mg_Id = 0, mg_Type = 0, mg_Sort = 0, mg_Crime = False, mg_Ground = False, mg_Multi = False,
      mg_Target = 0, mg_Level = 0, mg_UseMP = 0, mg_Power = 0, mg_IntoneDuration = 0,
      mg_Success = 0, mg_StepSecs = 0, mg_Range = 0, mg_Distance = 0, mg_Status = 0,
      mg_ReqProf = 0, mg_ReqExp = 0, mg_ReqLevel = 0, mg_UseXP = 0, mg_WeaponSubtype = 0,
      mg_ActiveTimes = 0, mg_AutoActive = False, mg_FloorAttr = 0, mg_AutoLearn = False,
      mg_LearnLevel = 0, mg_DropWeapon = False, mg_UseEP = 0, mg_WeaponHit = False, mg_UseItem = 0,
      mg_NextMagicDelay = 0, mg_UseItemNum = 1, mg_UsableInMarket = False\<rparr>"

text \<open>The duration is read with 32 bits and kept with 16.\<close>

definition magic_info_of :: "magic_info_col qrow \<Rightarrow> magic_info" where
  "magic_info_of row = Magic_Info
     \<lparr>mg_Id := toUInt (row MI_ID), mg_Type := ucast (toUInt (row MI_TYPE)),
      mg_Sort := ucast (toUInt (row MI_SORT)), mg_Crime := toBool (row MI_CRIME),
      mg_Ground := toBool (row MI_GROUND), mg_Multi := toBool (row MI_MULTI),
      mg_Target := toUInt (row MI_TARGET), mg_Level := ucast (toUInt (row MI_LEVEL)),
      mg_UseMP := ucast (toUInt (row MI_USE_MP)), mg_Power := word_of_int (toInt (row MI_POWER)),
      mg_IntoneDuration := ucast (toUInt (row MI_INTONE_DURATION)),
      mg_Success := ucast (toUInt (row MI_SUCCESS)), mg_StepSecs := toUInt (row MI_STEP_SECS),
      mg_Range := ucast (toUInt (row MI_RANGE)), mg_Distance := ucast (toUInt (row MI_DISTANCE)),
      mg_Status := toUInt (row MI_STATUS), mg_ReqProf := ucast (toUInt (row MI_REQ_PROF)),
      mg_ReqExp := toUInt (row MI_REQ_EXP), mg_ReqLevel := ucast (toUInt (row MI_REQ_LEVEL)),
      mg_UseXP := ucast (toUInt (row MI_USE_XP)),
      mg_WeaponSubtype := ucast (toUInt (row MI_WEAPON_SUBTYPE)),
      mg_ActiveTimes := toUInt (row MI_ACTIVE_TIMES), mg_AutoActive := toBool (row MI_AUTO_ACTIVE),
      mg_FloorAttr := toUInt (row MI_FLOOR_ATTR), mg_AutoLearn := toBool (row MI_AUTO_LEARN),
      mg_LearnLevel := ucast (toUInt (row MI_LEARN_LEVEL)),
      mg_DropWeapon := toBool (row MI_DROP_WEAPON), mg_UseEP := ucast (toUInt (row MI_USE_EP)),
      mg_WeaponHit := toBool (row MI_WEAPON_HIT), mg_UseItem := toUInt (row MI_USE_ITEM),
      mg_NextMagicDelay := ucast (toUInt (row MI_NEXT_MAGIC_DELAY)),
      mg_UseItemNum := ucast (toUInt (row MI_USE_ITEM_NUM)),
      mg_UsableInMarket := toBool (row MI_USABLE_IN_MARKET)\<rparr>"

definition loadAllMagics ::
  "magic_info_col qrow result_set \<Rightarrow> (u32, magic_info) table \<Rightarrow> err_t \<times> (u32, magic_info) table" where
  "loadAllMagics = load_rows (\<lambda>row. toUInt (row MI_ID)) magic_info_of"

text \<open>The key is computed from the type and the level in \<^verbatim>\<open>int\<close>.\<close>

definition magic_key :: "u16 \<Rightarrow> u16 \<Rightarrow> u32" where
  "magic_key aType aLevel = word_of_int (uint aType * 10 + uint aLevel)"

definition getMagicInfo :: "u16 \<Rightarrow> u16 \<Rightarrow> (u32, magic_info) table \<Rightarrow> err_t + magic_info" where
  "getMagicInfo aType aLevel = lookup (magic_key aType aLevel)"

section \<open>Types of monsters\<close>

datatype (plugins only: code) monster_col =
    MO_ID | MO_NAME | MO_TYPE | MO_AI_TYPE | MO_LOOK | MO_LEVEL | MO_LIFE | MO_ESCAPE_LIFE
    | MO_ATK_USER | MO_MIN_ATK | MO_MAX_ATK | MO_DEFENSE | MO_DEXTERITY | MO_DODGE | MO_MAGIC_TYPE
    | MO_MAGIC_DEFENSE | MO_MAGIC_HIT_RATE | MO_VIEW_RANGE | MO_ATK_RANGE | MO_ATK_SPEED
    | MO_MOVE_SPEED | MO_RUN_SPEED | MO_DROP_ARMET | MO_DROP_NECKLACE | MO_DROP_ARMOR
    | MO_DROP_RING | MO_DROP_WEAPON | MO_DROP_SHIELD | MO_DROP_SHOES | MO_DROP_MONEY | MO_DROP_HP
    | MO_DROP_MP | MO_EXTRA_BATTLE_LVL | MO_EXTRA_EXP | MO_EXTRA_DMG

record monster_info =
  mo_Id :: u32
  mo_Name :: "u8 list"
  mo_Type :: u8
  mo_AIType :: u8
  mo_Look :: u32
  mo_Level :: u8
  mo_Life :: u16
  mo_EscapeLife :: u16
  mo_AtkUser :: u8
  mo_MinAtk :: u32
  mo_MaxAtk :: u32
  mo_Defense :: u32
  mo_Dexterity :: u8
  mo_Dodge :: u8
  mo_MagicType :: u32
  mo_MDef :: u32
  mo_HitRate :: u32
  mo_ViewRange :: u8
  mo_AtkRange :: u8
  mo_AtkSpeed :: u16
  mo_MoveSpeed :: u16
  mo_RunSpeed :: u16
  mo_DropArmet :: u8
  mo_DropNecklace :: u8
  mo_DropArmor :: u8
  mo_DropRing :: u8
  mo_DropWeapon :: u8
  mo_DropShield :: u8
  mo_DropShoes :: u8
  mo_DropMoney :: u32
  mo_DropHP :: u32
  mo_DropMP :: u32
  mo_ExtraBattleLvl :: u16
  mo_ExtraExp :: u16
  mo_ExtraDmg :: u16

definition monster_info_of :: "monster_col qrow \<Rightarrow> monster_info" where
  "monster_info_of row =
     \<lparr>mo_Id = toUInt (row MO_ID), mo_Name = toString (row MO_NAME),
      mo_Type = ucast (toUInt (row MO_TYPE)), mo_AIType = ucast (toUInt (row MO_AI_TYPE)),
      mo_Look = toUInt (row MO_LOOK), mo_Level = ucast (toUInt (row MO_LEVEL)),
      mo_Life = ucast (toUInt (row MO_LIFE)), mo_EscapeLife = ucast (toUInt (row MO_ESCAPE_LIFE)),
      mo_AtkUser = ucast (toUInt (row MO_ATK_USER)), mo_MinAtk = toUInt (row MO_MIN_ATK),
      mo_MaxAtk = toUInt (row MO_MAX_ATK), mo_Defense = toUInt (row MO_DEFENSE),
      mo_Dexterity = ucast (toUInt (row MO_DEXTERITY)), mo_Dodge = ucast (toUInt (row MO_DODGE)),
      mo_MagicType = toUInt (row MO_MAGIC_TYPE), mo_MDef = toUInt (row MO_MAGIC_DEFENSE),
      mo_HitRate = toUInt (row MO_MAGIC_HIT_RATE),
      mo_ViewRange = ucast (toUInt (row MO_VIEW_RANGE)),
      mo_AtkRange = ucast (toUInt (row MO_ATK_RANGE)),
      mo_AtkSpeed = ucast (toUInt (row MO_ATK_SPEED)),
      mo_MoveSpeed = ucast (toUInt (row MO_MOVE_SPEED)),
      mo_RunSpeed = ucast (toUInt (row MO_RUN_SPEED)),
      mo_DropArmet = ucast (toUInt (row MO_DROP_ARMET)),
      mo_DropNecklace = ucast (toUInt (row MO_DROP_NECKLACE)),
      mo_DropArmor = ucast (toUInt (row MO_DROP_ARMOR)),
      mo_DropRing = ucast (toUInt (row MO_DROP_RING)),
      mo_DropWeapon = ucast (toUInt (row MO_DROP_WEAPON)),
      mo_DropShield = ucast (toUInt (row MO_DROP_SHIELD)),
      mo_DropShoes = ucast (toUInt (row MO_DROP_SHOES)), mo_DropMoney = toUInt (row MO_DROP_MONEY),
      mo_DropHP = toUInt (row MO_DROP_HP), mo_DropMP = toUInt (row MO_DROP_MP),
      mo_ExtraBattleLvl = ucast (toUInt (row MO_EXTRA_BATTLE_LVL)),
      mo_ExtraExp = ucast (toUInt (row MO_EXTRA_EXP)),
      mo_ExtraDmg = ucast (toUInt (row MO_EXTRA_DMG))\<rparr>"

definition loadAllMonsters ::
  "monster_col qrow result_set \<Rightarrow> (u32, monster_info) table \<Rightarrow> err_t \<times> (u32, monster_info) table" where
  "loadAllMonsters = load_rows (\<lambda>row. toUInt (row MO_ID)) monster_info_of"

definition getMonsterInfo :: "u32 \<Rightarrow> (u32, monster_info) table \<Rightarrow> err_t + monster_info" where
  "getMonsterInfo = lookup"

section \<open>Levels\<close>

text \<open>The output of both is a parameter by value: only the error reaches the caller.\<close>

definition getRequiredExp :: "u64 result_set \<Rightarrow> u64 \<Rightarrow> err_t \<times> u64" where
  "getRequiredExp rows aOutExp =
     (case rows of
        None \<Rightarrow> (ERROR_EXEC_FAILED, aOutExp)
      | Some [e] \<Rightarrow> (ERROR_SUCCESS, aOutExp)
      | Some _ \<Rightarrow> (ERROR_BAD_LENGTH, aOutExp))"

definition getUpLvlTime :: "u32 result_set \<Rightarrow> u32 \<Rightarrow> err_t \<times> u32" where
  "getUpLvlTime rows aOutTime =
     (case rows of
        None \<Rightarrow> (ERROR_EXEC_FAILED, aOutTime)
      | Some [t] \<Rightarrow> (ERROR_SUCCESS, aOutTime)
      | Some _ \<Rightarrow> (ERROR_BAD_LENGTH, aOutTime))"

section \<open>Portals\<close>

text \<open>
  Where a passage of a map leads to: the passway names a portal by its map and index, the portal has
  a position.  The outputs are only written when both queries give exactly one row.
\<close>

definition getPasswayInfo ::
  "(u32 \<Rightarrow> u8 \<Rightarrow> (u32 \<times> u32) result_set) \<Rightarrow> (u32 \<Rightarrow> u8 \<Rightarrow> (u32 \<times> u32) result_set) \<Rightarrow>
   u32 \<Rightarrow> u8 \<Rightarrow> err_t + u32 \<times> u16 \<times> u16" where
  "getPasswayInfo passways portals aMapId aIndex =
     (case passways aMapId aIndex of
        None \<Rightarrow> Inl ERROR_EXEC_FAILED
      | Some [(mapId, index)] \<Rightarrow>
          (case portals mapId (ucast index) of
             None \<Rightarrow> Inl ERROR_EXEC_FAILED
           | Some [(x, y)] \<Rightarrow> Inr (mapId, ucast x, ucast y)
           | Some _ \<Rightarrow> Inl ERROR_BAD_LENGTH)
      | Some _ \<Rightarrow> Inl ERROR_BAD_LENGTH)"

section \<open>What a loaded table answers\<close>

lemma load_table_ok: "table_ok t \<Longrightarrow> table_ok (load_table kf vf rows t)"
  unfolding load_table_def by (induction rows arbitrary: t) (simp_all add: table_simps)

lemma load_table_get:
  "table_ok t \<Longrightarrow> tget k (load_table kf vf rows t) =
     (case filter (\<lambda>row. kf row = k) rows of [] \<Rightarrow> tget k t | rs \<Rightarrow> Some (vf (last rs)))"
  unfolding load_table_def
proof (induction rows arbitrary: t)
  case (Cons row rows)
  then show ?case
    by (cases "filter (\<lambda>row. kf row = k) rows") (auto simp: table_simps)
qed simp

lemma loaded_row:
  assumes "table_ok t" and "row \<in> set rows" and "inj_on kf (set rows)"
  shows "lookup (kf row) (load_table kf vf rows t) = Inr (vf row)"
proof -
  let ?f = "filter (\<lambda>r. kf r = kf row) rows"
  have "row \<in> set ?f" using assms(2) by simp
  then have ne: "?f \<noteq> []" by (metis empty_iff empty_set)
  then have "last ?f \<in> set ?f" by (rule last_in_set)
  then have "last ?f = row" using assms(2,3) by (auto dest: inj_onD)
  with ne show ?thesis
    by (cases ?f) (simp_all add: lookup_def load_table_get [OF assms(1)])
qed


lemma loaded_tables:
  "loadAllItems task (Some rows) [] = (err, t) \<Longrightarrow> t = load_table (\<lambda>row. toUInt (row II_ID)) (item_info_of task) rows []"
  "loadAllMagics (Some rs) [] = (err', u) \<Longrightarrow> u = load_table (\<lambda>row. toUInt (row MI_ID)) magic_info_of rs []"
  by (simp_all add: loadAllItems_def loadAllMagics_def load_rows_def)

lemma lookup_loaded:
  "lookup k (load_table kf vf rows []) = Inr v \<Longrightarrow> \<exists>row \<in> set rows. kf row = k \<and> v = vf row"
proof -
  assume l: "lookup k (load_table kf vf rows []) = Inr v"
  let ?f = "filter (\<lambda>row. kf row = k) rows"
  have ne: "?f \<noteq> []" and v: "v = vf (last ?f)"
    using l by (auto simp: lookup_def load_table_get split: list.splits option.splits)
  have "last ?f \<in> set ?f" using ne by (rule last_in_set)
  then show ?thesis using v by auto
qed

lemma info_ids [simp]: "i_Id (item_info_of task row) = toUInt (row II_ID)" "mg_Id (magic_info_of mrow) = toUInt (mrow MI_ID)"
  by (simp_all add: item_info_of_def magic_info_of_def)

section \<open>The numbers of the magics\<close>

lemma magic_key_eq: 
  assumes "l < 10" "l' < 10" "magic_key t l = magic_key t' l'"
  shows "t = t' \<and> l = l'"
proof -
  have b: "uint (magic_key t l) = uint t * 10 + uint l" for t l
    using uint_lt2p [of t] uint_lt2p [of l] unfolding magic_key_def
    by (subst uint_word_of_int_eq, subst take_bit_int_eq_self) simp_all
  have "uint l < 10" "uint l' < 10" using assms(1,2) by (simp_all add: word_less_def)
  moreover have "uint t * 10 + uint l = uint t' * 10 + uint l'" using b assms(3) by metis
  moreover have "0 \<le> uint l" "0 \<le> uint l'" by simp_all
  ultimately have "uint t = uint t' \<and> uint l = uint l'" by presburger
  then show ?thesis by (simp add: word_uint_eq_iff)
qed

lemma magic_key_overlap:
  "t < 0xFFFF \<Longrightarrow> l < 0xFFF6 \<Longrightarrow> magic_key t (l + 10) = magic_key (t + 1) l"
proof -
  assume a: "t < 0xFFFF" "l < 0xFFF6"
  have "uint (l + 10) = uint l + 10" using a(2) by (subst uint_add_lem [THEN iffD1]) (simp_all add: word_less_def)
  moreover have "uint (t + 1) = uint t + 1" using a(1) by (subst uint_add_lem [THEN iffD1]) (simp_all add: word_less_def)
  ultimately show ?thesis by (simp add: magic_key_def)
qed
section \<open>Properties\<close>

text \<open>Magics are looked up under the number built from their type and level.  In a table that numbers its
  rows that way, with levels below ten and no pair of type and level twice, every magic is found
  under its own type and level.\<close>
theorem magics_found_by_type_and_level:
  assumes "loadAllMagics (Some rows) [] = (err, t)" and "row \<in> set rows"
    and "list_all (\<lambda>r. mg_Id (magic_info_of r) = magic_key (mg_Type (magic_info_of r)) (mg_Level (magic_info_of r)) \<and>
                       mg_Level (magic_info_of r) < 10) rows"
    and "inj_on (\<lambda>r. (mg_Type (magic_info_of r), mg_Level (magic_info_of r))) (set rows)"
  shows "getMagicInfo (mg_Type (magic_info_of row)) (mg_Level (magic_info_of row)) t = Inr (magic_info_of row)"
proof -
  note ids = assms(3) [unfolded list_all_iff info_ids]
  have "inj_on (\<lambda>r. toUInt (r MI_ID)) (set rows)"
  proof (rule inj_onI)
    fix x y assume xy: "x \<in> set rows" "y \<in> set rows" "toUInt (x MI_ID) = toUInt (y MI_ID)"
    then have "mg_Type (magic_info_of x) = mg_Type (magic_info_of y) \<and> mg_Level (magic_info_of x) = mg_Level (magic_info_of y)"
      using ids magic_key_eq by metis
    then show "x = y" using assms(4) xy by (auto dest: inj_onD)
  qed
  from loaded_row [OF table_ok_Nil assms(2) this, of magic_info_of] show ?thesis
    using ids assms(2) by (simp add: getMagicInfo_def loaded_tables(2) [OF assms(1)])
qed

definition sample_magics :: "magic_info_col qrow list" where
  "sample_magics = [(\<lambda>_. QInt 0)(MI_ID := QInt 10002, MI_TYPE := QInt 1000, MI_LEVEL := QInt 2)]"

lemma magics_found_by_type_and_level_witness:
  "getMagicInfo (mg_Type (magic_info_of (hd sample_magics))) (mg_Level (magic_info_of (hd sample_magics)))
     (snd (loadAllMagics (Some sample_magics) [])) = Inr (magic_info_of (hd sample_magics))"
  by (rule magics_found_by_type_and_level [of sample_magics ERROR_SUCCESS])
    (simp_all add: loadAllMagics_def load_rows_def sample_magics_def magic_info_of_def Magic_Info_def toUInt_def magic_key_def)

text \<open>With ten levels or more the numbers of neighbouring types overlap: the same entry answers for level
  ten of a type and for level zero of the next one.\<close>
theorem magic_numbers_overlap:
  assumes "ty < 0xFFFF" and "lev < 0xFFF6"
  shows "getMagicInfo ty (lev + 10) t = getMagicInfo (ty + 1) lev t"
  using assms by (simp add: getMagicInfo_def magic_key_overlap)

lemma magic_numbers_overlap_witness: "getMagicInfo 1000 10 [] = getMagicInfo 1001 0 []"
  using magic_numbers_overlap [of 1000 0 "[]"] by simp

text \<open>What a shop sells is the type the client asked for, as its row of the table of types has it, and in
  one of the currencies of the row of the shop; a shop that lists an item twice does not sell it.\<close>
theorem shop_sells_what_was_asked:
  assumes "loadAllItems task (Some rows) [] = (err, t)" and "getItemFromShop goods aItemId t = Inr (info, moneytype)"
  shows "i_Id info = aItemId \<and> (\<exists>i c. goods = Some [(i, c)] \<and> moneytype = ucast c) \<and>
    (\<exists>row. row \<in> set rows \<and> info = item_info_of task row)"
proof -
  obtain i c where g: "goods = Some [(i, c)]" "moneytype = ucast c" "lookup aItemId t = Inr info"
    using assms(2) by (auto simp: getItemFromShop_def getItemInfo_def split: option.splits list.splits sum.splits)
  then show ?thesis
    using lookup_loaded [of aItemId "\<lambda>row. toUInt (row II_ID)" "item_info_of task" rows info]
    by (auto simp: loaded_tables(1) [OF assms(1)])
qed

definition sample_items :: "item_info_col qrow list" where
  "sample_items = [(\<lambda>_. QInt 0)(II_ID := QInt 410003, II_PRICE := QInt 500)]"

lemma shop_sells_what_was_asked_witness:
  "i_Id (item_info_of (\<lambda>_. False) (hd sample_items)) = 410003 \<and> (\<exists>i c. Some [(1, 0)] = Some [(i :: u32, c :: u32)] \<and> (0 :: u8) = ucast c) \<and>
   (\<exists>row. row \<in> set sample_items \<and> item_info_of (\<lambda>_. False) (hd sample_items) = item_info_of (\<lambda>_. False) row)"
  by (rule shop_sells_what_was_asked [of "\<lambda>_. False" sample_items ERROR_SUCCESS "snd (loadAllItems (\<lambda>_. False) (Some sample_items) [])"])
    (simp_all add: loadAllItems_def load_rows_def getItemFromShop_def getItemInfo_def lookup_def load_table_get
      sample_items_def toUInt_def)

end
