(* ===== verification/Startup.thy ===== *)
theory Startup
  imports Catalog Tasks MapLoading
begin

text \<open>
  What the server does before the first connection: the maps, tasks, NPCs and generators of the
  database (\<^verbatim>\<open>database.cpp\<close>, \<^verbatim>\<open>mapmanager.cpp\<close>), the order of the stages (\<^verbatim>\<open>Server::exec\<close>), and the worker
  that spawns monsters (\<^verbatim>\<open>world.cpp\<close>).
\<close>

section \<open>Maps\<close>

datatype map_col =
    MC_ID | MC_DOC_ID | MC_TYPE | MC_WEATHER | MC_PORTAL_X | MC_PORTAL_Y | MC_REBORN_MAP | MC_REBORN_PORTAL | MC_LIGHT

definition map_row :: "map_col qrow \<Rightarrow> u32 \<times> map_info" where
  "map_row row =
     (toUInt (row MC_ID),
      \<lparr>DocID = ucast (toUInt (row MC_DOC_ID)), Type = toUInt (row MC_TYPE), OwnerUID = 0,
       Weather = toUInt (row MC_WEATHER), PortalX = ucast (toUInt (row MC_PORTAL_X)),
       PortalY = ucast (toUInt (row MC_PORTAL_Y)), RebornMap = toUInt (row MC_REBORN_MAP),
       RebornPortal = word_of_int (toInt (row MC_REBORN_PORTAL)), Light = toUInt (row MC_LIGHT)\<rparr>)"

text \<open>\<open>MapManager::createMap\<close>\<close>

definition createMap :: "(u16, addr) table \<Rightarrow> u32 \<Rightarrow> map_info \<Rightarrow> wstate \<Rightarrow> err_t \<times> wstate" where
  "createMap mMaps aUID aInfo w =
     (if tget aUID (gmaps w) = None then
        (case tget (DocID aInfo) mMaps of
           Some data \<Rightarrow> (ERROR_SUCCESS, put_map (GameMap aUID aInfo data) w)
         | None \<Rightarrow> (ERROR_NOT_FOUND, w))
      else (ERROR_CANNOT_CREATE, w))"

fun create_maps :: "(u16, addr) table \<Rightarrow> map_col qrow list \<Rightarrow> wstate \<Rightarrow> err_t \<times> wstate" where
  "create_maps mMaps [] w = (ERROR_SUCCESS, w)"
| "create_maps mMaps (row # rows) w =
     (case createMap mMaps (fst (map_row row)) (snd (map_row row)) w of
        (err, w) \<Rightarrow> if err = ERROR_SUCCESS then create_maps mMaps rows w else (err, w))"

definition loadAllMaps :: "(u16, addr) table \<Rightarrow> map_col qrow result_set \<Rightarrow> wstate \<Rightarrow> err_t \<times> wstate" where
  "loadAllMaps mMaps rows w =
     (case rows of None \<Rightarrow> (ERROR_EXEC_FAILED, w) | Some rows \<Rightarrow> create_maps mMaps rows w)"

section \<open>Tasks\<close>

text \<open>A script file, by the base of its name, and whether Lua could read it.\<close>

definition file_task :: "u8 list \<Rightarrow> u32 option" where
  "file_task name =
     (let uid = (case scan_unsigned name of None \<Rightarrow> 0 | Some v \<Rightarrow> v)
      in if uid > 0 \<and> uid < 0xFFFFFFFF then Some (ucast uid) else None)"

definition add_task :: "u8 list \<times> bool \<Rightarrow> world \<times> nat \<Rightarrow> world \<times> nat" where
  "add_task file s =
     (case (file, s) of
        ((name, parses), (reg, n)) \<Rightarrow>
          case file_task name of
            None \<Rightarrow> (reg, n)
          | Some uid \<Rightarrow>
              (reg\<lparr>mAllTasks := tput uid (if isNpc uid then NpcTask_fct uid else ItemTask_fct uid) (mAllTasks reg)\<rparr>,
               if parses then n else n + 1))"

definition loadAllTasks :: "(u8 list \<times> bool) list \<Rightarrow> world \<times> nat \<Rightarrow> err_t \<times> world \<times> nat" where
  "loadAllTasks files s = (ERROR_SUCCESS, fold add_task files s)"

text \<open>Whether an id is that of a task of items.\<close>

definition is_item_task :: "world \<Rightarrow> u32 \<Rightarrow> bool" where
  "is_item_task reg uid \<longleftrightarrow> queryTask uid reg \<noteq> None \<and> \<not> isNpc uid"

section \<open>NPCs\<close>

datatype npc_col =
    NC_ID | NC_NAME | NC_TYPE | NC_LOOKFACE | NC_MAPID | NC_CELLX | NC_CELLY | NC_LIFE | NC_MAX_LIFE | NC_BASE | NC_SORT

definition npc_of_row :: "npc_col qrow \<Rightarrow> npc" where
  "npc_of_row row =
     Npc (word_of_int (toInt (row NC_ID))) None (ucast (toUInt (row NC_TYPE))) (ucast (toUInt (row NC_LOOKFACE)))
       (toUInt (row NC_MAPID)) (ucast (toUInt (row NC_CELLX))) (ucast (toUInt (row NC_CELLY)))
       (ucast (toUInt (row NC_BASE))) (ucast (toUInt (row NC_SORT)))"

definition npc_ent :: "npc \<Rightarrow> ent" where
  "npc_ent n = (Entity (n_UID n))
     \<lparr>e_MapId := n_MapId n, e_PosX := n_PosX n, e_PosY := n_PosY n, e_Direction := n_Direction n\<rparr>"

text \<open>
  A task is a task of an NPC when its id is (the cast of an item's task gives no task).  The ids are
  the primary key of the table.
\<close>

definition link_npc :: "world \<Rightarrow> npc \<Rightarrow> npc" where
  "link_npc reg n =
     (if queryTask (n_UID n) reg \<noteq> None
      then (if isNpc (n_UID n) then linkTask (n_UID n) n else n\<lparr>n_Task := None\<rparr>) else n)"

definition add_npc :: "lz4 \<Rightarrow> npc_col qrow \<Rightarrow> world \<times> wstate \<Rightarrow> world \<times> wstate" where
  "add_npc z row s =
     (case s of
        (reg, w) \<Rightarrow>
          let n = link_npc reg (npc_of_row row)
          in case getMap (n_MapId n) w of
               None \<Rightarrow> (reg, w)
             | Some g \<Rightarrow>
                 (reg\<lparr>mAllNPCs := tput (n_UID n) n (mAllNPCs reg)\<rparr>,
                  enterRoom z (n_MapId n) (n_UID n) (w\<lparr>ents := (ents w)(n_UID n \<mapsto> npc_ent n)\<rparr>)))"

lemma link_npc_fields [simp]: "n_UID (link_npc reg n) = n_UID n" "n_MapId (link_npc reg n) = n_MapId n"
  by (simp_all add: link_npc_def linkTask_def)

definition loadAllNPCs :: "lz4 \<Rightarrow> npc_col qrow result_set \<Rightarrow> world \<times> wstate \<Rightarrow> err_t \<times> world \<times> wstate" where
  "loadAllNPCs z rows s =
     (case rows of None \<Rightarrow> (ERROR_EXEC_FAILED, s) | Some rows \<Rightarrow> (ERROR_SUCCESS, fold (add_npc z) rows s))"

section \<open>Generators\<close>

type_synonym gen_row = "u32 \<times> u32 \<times> u16 \<times> u16 \<times> u16 \<times> u16 \<times> u16 \<times> u16 \<times> u16 \<times> u32"

text \<open>An error of a generator is ignored.\<close>

definition add_generator :: "(u32 \<Rightarrow> bool) \<Rightarrow> gen_row \<Rightarrow> generator list \<times> u64 \<Rightarrow> generator list \<times> u64" where
  "add_generator map_exists row s =
     (case s of
        (gens, seed) \<Rightarrow>
          case makeGenerator map_exists row seed of
            Inl err \<Rightarrow> (gens, seed)
          | Inr (g, seed) \<Rightarrow> (gens @ [g], seed))"

text \<open>The worker is started when the query was answered.\<close>

definition loadAllGenerators ::
  "(u32 \<Rightarrow> bool) \<Rightarrow> gen_row result_set \<Rightarrow> generator list \<times> u64 \<Rightarrow> err_t \<times> bool \<times> generator list \<times> u64" where
  "loadAllGenerators map_exists rows s =
     (case rows of
        None \<Rightarrow> (ERROR_EXEC_FAILED, False, s)
      | Some rows \<Rightarrow> (ERROR_SUCCESS, True, fold (add_generator map_exists) rows s))"

section \<open>The stages of the start (Server::exec)\<close>

text \<open>The answers of the environment, in the order the stages ask for them.\<close>

record environment =
  en_Connects :: bool
  en_GameMap :: "(ini \<times> u8 list list) option"
  en_Loads :: "u8 list \<Rightarrow> err_t + mapdata"
  en_Cores :: nat
  en_Schedule :: "nat list"
  en_Maps :: "map_col qrow result_set"
  en_Tasks :: "(u8 list \<times> bool) list"
  en_Items :: "item_info_col qrow result_set"
  en_Npcs :: "npc_col qrow result_set"
  en_Monsters :: "monster_col qrow result_set"
  en_Gens :: "gen_row result_set"
  en_Magics :: "magic_info_col qrow result_set"

record server =
  sv_mMaps :: "(u16, addr) table"
  sv_World :: wstate
  sv_Registry :: world
  sv_Top :: nat
  sv_Items :: "(u32, item_info) table"
  sv_Monsters :: "(u32, monster_info) table"
  sv_Magics :: "(u32, magic_info) table"
  sv_Gens :: "generator list"
  sv_Seed :: u64
  sv_Spawning :: bool
  sv_Listens :: "u16 list"

definition fresh_server :: "u64 \<Rightarrow> server" where
  "fresh_server seed =
     \<lparr>sv_mMaps = [], sv_World = fresh_world [] (\<lambda>_. None),
      sv_Registry = \<lparr>mAllPlayers = [], mAllPlayerNames = [], mAllNPCs = [], mAllTasks = []\<rparr>, sv_Top = 0,
      sv_Items = [], sv_Monsters = [], sv_Magics = [], sv_Gens = [], sv_Seed = seed, sv_Spawning = False,
      sv_Listens = []\<rparr>"

text \<open>\<^verbatim>\<open>DOIF(err, call)\<close>: a stage runs if the ones before it succeeded.\<close>

type_synonym stage = "server \<Rightarrow> err_t \<times> server"

definition DOIF :: "stage \<Rightarrow> err_t \<times> server \<Rightarrow> err_t \<times> server" where
  "DOIF f r = (case r of (err, s) \<Rightarrow> if err = ERROR_SUCCESS then f s else (err, s))"

definition st_data :: "lz4 \<Rightarrow> environment \<Rightarrow> stage" where
  "st_data z en s =
     (let (err, ld) = loadData z (en_Loads en) (en_GameMap en) (en_Cores en) (en_Schedule en)
      in (err, s\<lparr>sv_mMaps := ld_mMaps ld, sv_World := (sv_World s)\<lparr>datas := ld_datas ld\<rparr>\<rparr>))"

definition st_maps :: "environment \<Rightarrow> stage" where
  "st_maps en s = (let (err, w) = loadAllMaps (sv_mMaps s) (en_Maps en) (sv_World s) in (err, s\<lparr>sv_World := w\<rparr>))"

definition st_tasks :: "environment \<Rightarrow> stage" where
  "st_tasks en s =
     (let (err, reg, n) = loadAllTasks (en_Tasks en) (sv_Registry s, sv_Top s)
      in (err, s\<lparr>sv_Registry := reg, sv_Top := n\<rparr>))"

definition st_items :: "environment \<Rightarrow> stage" where
  "st_items en s =
     (let (err, t) = loadAllItems (is_item_task (sv_Registry s)) (en_Items en) (sv_Items s) in (err, s\<lparr>sv_Items := t\<rparr>))"

definition st_npcs :: "lz4 \<Rightarrow> environment \<Rightarrow> stage" where
  "st_npcs z en s =
     (let (err, reg, w) = loadAllNPCs z (en_Npcs en) (sv_Registry s, sv_World s)
      in (err, s\<lparr>sv_Registry := reg, sv_World := w\<rparr>))"

definition st_monsters :: "environment \<Rightarrow> stage" where
  "st_monsters en s = (let (err, t) = loadAllMonsters (en_Monsters en) (sv_Monsters s) in (err, s\<lparr>sv_Monsters := t\<rparr>))"

definition st_gens :: "environment \<Rightarrow> stage" where
  "st_gens en s =
     (let (err, started, gens, seed) =
            loadAllGenerators (\<lambda>m. getMap m (sv_World s) \<noteq> None) (en_Gens en) (sv_Gens s, sv_Seed s)
      in (err, s\<lparr>sv_Gens := gens, sv_Seed := seed, sv_Spawning := started\<rparr>))"

definition st_magics :: "environment \<Rightarrow> stage" where
  "st_magics en s = (let (err, t) = loadAllMagics (en_Magics en) (sv_Magics s) in (err, s\<lparr>sv_Magics := t\<rparr>))"

text \<open>
  The server listens on both ports before it looks at the error, which is the result; with success
  the event loop runs instead.  Registering the functions of the scripts cannot fail.
\<close>

definition Server_exec :: "lz4 \<Rightarrow> environment \<Rightarrow> server \<Rightarrow> err_t \<times> server" where
  "Server_exec z en s =
     (let r = (if en_Connects en then ERROR_SUCCESS else ERROR_INVALID_PASSWORD, s);
          r = DOIF (st_data z en) r;
          r = DOIF (st_maps en) r;
          r = DOIF (st_tasks en) r;
          r = DOIF (st_items en) r;
          r = DOIF (st_npcs z en) r;
          r = DOIF (st_monsters en) r;
          r = DOIF (st_gens en) r;
          r = DOIF (st_magics en) r
      in case r of (err, s) \<Rightarrow> (err, s\<lparr>sv_Listens := sv_Listens s @ [ACCSERVER_PORT, MSGSERVER_PORT]\<rparr>))"

section \<open>The spawning worker (World::regenerateMonsters)\<close>

record spawner =
  sp_Gens :: "generator list"
  sp_Uids :: uids
  sp_Seed :: u64
  sp_World :: wstate
  sp_index :: nat
  sp_initializing :: bool

definition MAXNPC_PER_ONTIMER :: u32 where "MAXNPC_PER_ONTIMER = 20"

definition all_data :: "(mapdata \<Rightarrow> mapdata) \<Rightarrow> wstate \<Rightarrow> wstate" where
  "all_data f w = w\<lparr>datas := \<lambda>a. map_option f (datas w a)\<rparr>"

definition packAll :: "lz4 \<Rightarrow> wstate \<Rightarrow> wstate" where
  "packAll z = all_data (\<lambda>d. pack (compress z) None (resumePacking d))"

definition unpackAll :: "lz4 \<Rightarrow> wstate \<Rightarrow> wstate" where
  "unpackAll z = all_data (\<lambda>d. suspendPacking (unpack (decompress z) None d))"

definition generate_at ::
  "lz4 \<Rightarrow> (u32 \<Rightarrow> u16 option) \<Rightarrow> int \<Rightarrow> u32 \<Rightarrow> spawner \<Rightarrow> (spawner \<times> u32) option" where
  "generate_at z infos now maxNpc s =
     map_option
       (\<lambda>(gs, k). (s\<lparr>sp_Gens := (sp_Gens s)[sp_index s := gs_gen gs], sp_Uids := gs_uids gs, sp_Seed := gs_seed gs,
                    sp_World := gs_world gs\<rparr>, k))
       (generate z infos now maxNpc (sp_initializing s)
         \<lparr>gs_gen = sp_Gens s ! sp_index s, gs_uids = sp_Uids s, gs_seed = sp_Seed s, gs_world = sp_World s\<rparr>)"

text \<open>
  The loop over the generators that are left; \<open>now\<close> is the clock when one is visited.  The one at
  which the pass is used up is visited first in the next pass.
\<close>

fun spawn_from ::
  "lz4 \<Rightarrow> (u32 \<Rightarrow> u16 option) \<Rightarrow> (nat \<Rightarrow> int) \<Rightarrow> nat \<Rightarrow> u32 \<Rightarrow> spawner \<Rightarrow> (spawner \<times> u32) option" where
  "spawn_from z infos now 0 maxNpc s = Some (s, maxNpc)"
| "spawn_from z infos now (Suc n) maxNpc s =
     (case generate_at z infos (now (sp_index s)) maxNpc s of
        None \<Rightarrow> None
      | Some (s, k) \<Rightarrow>
          let maxNpc = maxNpc - k in
          if sint maxNpc \<le> 0 then Some (s, maxNpc)
          else spawn_from z infos now n maxNpc (s\<lparr>sp_index := sp_index s + 1\<rparr>))"

definition wrap_index :: "spawner \<Rightarrow> spawner" where
  "wrap_index s = (if length (sp_Gens s) \<le> sp_index s then s\<lparr>sp_index := 0\<rparr> else s)"

definition regenerate_pass ::
  "lz4 \<Rightarrow> (u32 \<Rightarrow> u16 option) \<Rightarrow> (nat \<Rightarrow> int) \<Rightarrow> spawner \<Rightarrow> spawner option" where
  "regenerate_pass z infos now s =
     (let s = wrap_index s in
      case spawn_from z infos now (length (sp_Gens s) - sp_index s) MAXNPC_PER_ONTIMER s of
        None \<Rightarrow> None
      | Some (s, maxNpc) \<Rightarrow>
          let s = wrap_index s in
          Some (if sp_initializing s \<and> sp_index s = 0 \<and> maxNpc = MAXNPC_PER_ONTIMER
                then s\<lparr>sp_initializing := False, sp_World := packAll z (sp_World s)\<rparr> else s))"

text \<open>The worker, for as many passes as it makes before the server stops, each with its clock.\<close>

fun regenerate_passes ::
  "lz4 \<Rightarrow> (u32 \<Rightarrow> u16 option) \<Rightarrow> (nat \<Rightarrow> int) list \<Rightarrow> spawner \<Rightarrow> spawner option" where
  "regenerate_passes z infos [] s = Some s"
| "regenerate_passes z infos (now # nows) s =
     Option.bind (regenerate_pass z infos now s) (regenerate_passes z infos nows)"

definition regenerateMonsters ::
  "lz4 \<Rightarrow> (u32 \<Rightarrow> u16 option) \<Rightarrow> (nat \<Rightarrow> int) list \<Rightarrow> generator list \<Rightarrow> uids \<Rightarrow> u64 \<Rightarrow> wstate \<Rightarrow> spawner option" where
  "regenerateMonsters z infos nows gens uids seed w =
     regenerate_passes z infos nows
       \<lparr>sp_Gens = gens, sp_Uids = uids, sp_Seed = seed, sp_World = unpackAll z w, sp_index = 0, sp_initializing = True\<rparr>"

section \<open>The loaded world is consistent\<close>

text \<open>A world of NPCs alone, who do not look at each other.\<close>

definition unpeopled :: "wstate \<Rightarrow> bool" where
  "unpeopled w \<longleftrightarrow> rooms_ok w \<and> (\<forall>a e. ents w a = Some e \<longrightarrow> isNpc a \<and> e_View e = [])"

lemma npc_kind: "isNpc a \<Longrightarrow> \<not> isPlayer a \<and> \<not> isMonster a"
  by (auto simp: isNpc_def isPlayer_def isMonster_def id_defs word_le_nat_alt)

lemma unpeopled_ok:
  assumes "unpeopled w" shows "world_ok w"
proof -
  have v: "view w a = []" for a
    using assms by (auto simp: unpeopled_def view_def split: option.split)
  have "pair_ok w x y" for x y
  proof -
    have "\<not> (isPlayer x \<and> share w x y)"
      using assms in_room_ent [of w _ x] npc_kind by (auto simp: unpeopled_def share_def) metis
    then show ?thesis by (auto simp: pair_ok_def sees_def v tget_def)
  qed
  moreover have "\<not> live w p" if "isPlayer p" for p
    using that assms by (cases "ents w p") (auto simp: unpeopled_def live_def dest: npc_kind)
  ultimately show ?thesis
    using assms by (auto simp: world_ok_def unpeopled_def views_ok_def v screens_ok_def table_ok_def)
qed

lemma unpeopled_uids: "unpeopled w \<Longrightarrow> uids_ok World_uids w"
  by (rule World_uids_ok, rule ccontr) (auto simp: unpeopled_def dest: npc_kind)

lemma add_npc_unpeopled:
  assumes "unpeopled w" and "isNpc uid" and "ents w uid = None" and "e_View e = []" and "e_MapId e = m"
  shows "unpeopled (enterRoom z m uid (w\<lparr>ents := (ents w)(uid \<mapsto> e)\<rparr>))"
proof -
  let ?w = "w\<lparr>ents := (ents w)(uid \<mapsto> e)\<rparr>"
  have "rooms_ok ?w" by (rule new_ent(1) [OF unpeopled_ok [OF assms(1)] assms(3,4)]) simp_all
  then have "rooms_ok (enterRoom z m uid ?w)" by (rule rooms_enter [where e = e]) (simp_all add: assms(5))
  then show ?thesis using assms by (auto simp: unpeopled_def split: if_splits)
qed

text \<open>Creating maps: the table of data by id must point to data.\<close>

definition data_known :: "(u16, addr) table \<Rightarrow> wstate \<Rightarrow> bool" where
  "data_known mMaps w \<longleftrightarrow> (\<forall>i a. tget i mMaps = Some a \<longrightarrow> datas w a \<noteq> None)"

lemma createMap_unpeopled:
  assumes "unpeopled w" and "data_known mMaps w" and "createMap mMaps uid info w = (err, w')"
  shows "unpeopled w' \<and> data_known mMaps w' \<and> ents w' = ents w"
proof (cases "err = ERROR_SUCCESS")
  case True
  then obtain a where a: "tget (DocID info) mMaps = Some a" "tget uid (gmaps w) = None" "w' = put_map (GameMap uid info a) w"
    using assms(3) by (auto simp: createMap_def split: if_splits option.splits)
  have ok: "rooms_ok w" using assms(1) by (simp add: unpeopled_def)
  then have tab: "table_ok (gmaps w)" by (simp add: rooms_ok_def)
  obtain d where d: "datas w a = Some d" using assms(2) a(1) by (auto simp: data_known_def)
  have "room_ok w' m g" if "getMap m w' = Some g" for m g
  proof (cases "m = uid")
    case True
    then have "g = GameMap uid info a" using that a(3) tab by (simp add: getMap_def put_map_def GameMap_def tab.get_put)
    then show ?thesis
      using True d a(3) by (simp add: room_ok_def GameMap_def roommates_def players_in_def table_ok_def put_map_def tget_def)
  next
    case False
    then have "getMap m w = Some g" using that a(3) tab by (simp add: getMap_def put_map_def GameMap_def tab.get_put)
    then have "room_ok w m g" using ok by (simp add: rooms_ok_def)
    then show ?thesis using a(3) by (simp add: room_ok_def put_map_def)
  qed
  then have "rooms_ok w'" using ok tab a(3) by (auto simp: rooms_ok_def put_map_def tab.inv_put)
  then show ?thesis using assms(1,2) a(3) by (simp add: unpeopled_def data_known_def put_map_def)
qed (use assms in \<open>auto simp: createMap_def split: if_splits option.splits\<close>)

lemma create_maps_unpeopled:
  "create_maps mMaps rows w = (err, w') \<Longrightarrow> unpeopled w \<Longrightarrow> data_known mMaps w \<Longrightarrow>
     unpeopled w' \<and> data_known mMaps w' \<and> ents w' = ents w"
proof (induction rows arbitrary: w)
  case (Cons row rows)
  obtain e w1 where c: "createMap mMaps (fst (map_row row)) (snd (map_row row)) w = (e, w1)" by fastforce
  note k = createMap_unpeopled [OF Cons.prems(2,3) c]
  show ?case using Cons k c by (auto split: if_splits)
qed simp

lemma add_npcs_unpeopled:
  assumes "unpeopled w" and "list_all (\<lambda>row. isNpc (n_UID (npc_of_row row)) \<and> ents w (n_UID (npc_of_row row)) = None) rows"
    and "distinct (map (\<lambda>row. n_UID (npc_of_row row)) rows)"
  shows "unpeopled (snd (fold (add_npc z) rows (reg, w)))"
  using assms
proof (induction rows arbitrary: reg w)
  case (Cons row rows)
  let ?n = "link_npc reg (npc_of_row row)"
  obtain reg' w' where s: "add_npc z row (reg, w) = (reg', w')"
    and w': "w' = w \<or> w' = enterRoom z (n_MapId ?n) (n_UID ?n) (w\<lparr>ents := (ents w)(n_UID ?n \<mapsto> npc_ent ?n)\<rparr>)"
    by (cases "getMap (n_MapId ?n) w") (auto simp: add_npc_def Let_def)
  have "unpeopled w'"
    using w' Cons.prems add_npc_unpeopled [of w "n_UID ?n" "npc_ent ?n" "n_MapId ?n" z]
    by (auto simp: npc_ent_def Entity_def)
  moreover have "list_all (\<lambda>row. isNpc (n_UID (npc_of_row row)) \<and> ents w' (n_UID (npc_of_row row)) = None) rows"
    using Cons.prems(2,3) w' by (fastforce simp: list_all_iff intro: rev_image_eqI)
  ultimately show ?case using Cons.IH [of w' reg'] Cons.prems(3) s by simp
qed simp

text \<open>What the workers store is well formed.\<close>

definition stored_ok :: "loading \<Rightarrow> bool" where
  "stored_ok s \<longleftrightarrow> table_ok (ld_mMaps s) \<and> (\<forall>i a. tget i (ld_mMaps s) = Some a \<longrightarrow> ld_datas s a \<noteq> None) \<and>
     (\<forall>a d. ld_datas s a = Some d \<longrightarrow> data_ok d)"

lemma store_stored_ok:
  assumes "stored_ok s" and "data_ok d" shows "stored_ok (store_data z p ids d s)"
  using assms
  by (auto simp: stored_ok_def store_data_def Let_def fold_tput_get fold_tput_ok data_ok_pack split: if_splits)

lemma turn_stored_ok:
  assumes "stored_ok s" and "\<And>p d. loads p = Inr d \<Longrightarrow> data_ok d"
  shows "stored_ok (worker_turn z loads i s)"
proof -
  have "stored_ok (snd (take_work s))" using assms(1) by (auto simp: take_work_def stored_ok_def split: list.splits)
  moreover have "stored_ok (snd (load_path z loads p ids s))" for p ids
    using assms store_stored_ok by (auto simp: load_path_def split: sum.splits)
  ultimately have "stored_ok (snd (case ld_workers s ! i of
      Idle \<Rightarrow> take_work s | Holding p ids \<Rightarrow> load_path z loads p ids s | Finished err \<Rightarrow> (Finished err, s)))"
    using assms(1) by (simp split: worker.split)
  moreover have "stored_ok t \<Longrightarrow> stored_ok (t\<lparr>ld_workers := ws\<rparr>)" for t ws by (simp add: stored_ok_def)
  ultimately show ?thesis using assms(1) by (simp add: worker_turn_def Let_def split_beta)
qed

lemma loadData_stored_ok:
  assumes "\<And>p d. loads p = Inr d \<Longrightarrow> data_ok d"
  shows "stored_ok (snd (loadData z loads file n schedule))"
proof -
  have start: "stored_ok (start_loading maps k)" for maps k
    by (simp add: stored_ok_def start_loading_def table_ok_def tget_def)
  have "stored_ok s \<Longrightarrow> stored_ok (run_workers z loads schedule s)" for s
    unfolding run_workers_def by (induction schedule arbitrary: s) (simp_all add: turn_stored_ok [OF _ assms])
  then show ?thesis using start by (auto simp: loadData_def Let_def split: option.splits prod.splits)
qed

text \<open>The stages keep a world of NPCs; the first ones leave it without any entity.\<close>

definition start_ok :: "server \<Rightarrow> bool" where
  "start_ok s \<longleftrightarrow> unpeopled (sv_World s) \<and> data_known (sv_mMaps s) (sv_World s)"

lemma DOIF_keeps: "(\<And>s. P s \<Longrightarrow> P (snd (f s))) \<Longrightarrow> P (snd r) \<Longrightarrow> P (snd (DOIF f r))"
  by (cases r) (simp add: DOIF_def)

lemma stage_data:
  assumes "\<And>p d. en_Loads en p = Inr d \<Longrightarrow> data_ok d"
  shows "start_ok (snd (st_data z en (fresh_server seed))) \<and> ents (sv_World (snd (st_data z en (fresh_server seed)))) = (\<lambda>_. None)"
proof -
  let ?l = "snd (loadData z (en_Loads en) (en_GameMap en) (en_Cores en) (en_Schedule en))"
  have "stored_ok ?l" by (rule loadData_stored_ok) (rule assms)
  then show ?thesis
    by (auto simp: st_data_def fresh_server_def fresh_world_def start_ok_def unpeopled_def data_known_def rooms_ok_def stored_ok_def
        getMap_def tget_def table_ok_def split_beta Let_def)
qed

lemma stage_maps:
  assumes "start_ok s" and "ents (sv_World s) = (\<lambda>_. None)"
  shows "start_ok (snd (st_maps en s)) \<and> ents (sv_World (snd (st_maps en s))) = (\<lambda>_. None)"
proof (cases "en_Maps en")
  case (Some rows)
  obtain err w' where c: "create_maps (sv_mMaps s) rows (sv_World s) = (err, w')" by fastforce
  have "unpeopled w' \<and> data_known (sv_mMaps s) w' \<and> ents w' = ents (sv_World s)"
    by (rule create_maps_unpeopled [OF c]) (use assms(1) in \<open>simp_all add: start_ok_def\<close>)
  then show ?thesis using assms(2) Some c by (simp add: st_maps_def loadAllMaps_def start_ok_def)
qed (use assms in \<open>simp add: st_maps_def loadAllMaps_def\<close>)

lemma stage_npcs:
  assumes "start_ok s" and "ents (sv_World s) = (\<lambda>_. None)"
    and "\<And>rows. en_Npcs en = Some rows \<Longrightarrow> list_all (\<lambda>row. isNpc (n_UID (npc_of_row row))) rows \<and>
       distinct (map (\<lambda>row. n_UID (npc_of_row row)) rows)"
  shows "unpeopled (sv_World (snd (st_npcs z en s)))"
proof (cases "en_Npcs en")
  case (Some rows)
  then have "unpeopled (snd (fold (add_npc z) rows (sv_Registry s, sv_World s)))"
    using assms by (intro add_npcs_unpeopled) (simp_all add: start_ok_def)
  then show ?thesis using Some by (simp add: st_npcs_def loadAllNPCs_def split_beta Let_def)
qed (use assms in \<open>simp add: st_npcs_def loadAllNPCs_def start_ok_def\<close>)

lemma stages_apart:
  "sv_World (snd (st_tasks en s)) = sv_World s" "sv_mMaps (snd (st_tasks en s)) = sv_mMaps s"
  "sv_World (snd (st_items en s)) = sv_World s" "sv_mMaps (snd (st_items en s)) = sv_mMaps s"
  "sv_World (snd (st_monsters en s)) = sv_World s" "sv_World (snd (st_gens en s)) = sv_World s"
  "sv_World (snd (st_magics en s)) = sv_World s"
  by (simp_all add: st_tasks_def st_items_def st_monsters_def st_gens_def st_magics_def split_beta Let_def)

definition npcs_distinct :: "environment \<Rightarrow> bool" where
  "npcs_distinct en \<longleftrightarrow>
     (case en_Npcs en of None \<Rightarrow> True
      | Some rows \<Rightarrow> list_all (\<lambda>row. isNpc (n_UID (npc_of_row row))) rows \<and> distinct (map (\<lambda>row. n_UID (npc_of_row row)) rows))"

lemma Server_exec_unpeopled:
  assumes "npcs_distinct en" and "\<And>p d. en_Loads en p = Inr d \<Longrightarrow> data_ok d"
  shows "unpeopled (sv_World (snd (Server_exec z en (fresh_server seed))))"
proof -
  let ?A = "\<lambda>s. start_ok s \<and> ents (sv_World s) = (\<lambda>_. None)"
  let ?U = "\<lambda>s. unpeopled (sv_World s)"
  define r0 where "r0 = (if en_Connects en then ERROR_SUCCESS else ERROR_INVALID_PASSWORD, fresh_server seed)"
  have "?A (fresh_server seed)"
    by (simp add: fresh_server_def fresh_world_def start_ok_def unpeopled_def data_known_def rooms_ok_def getMap_def tget_def table_ok_def)
  then have "?A (snd (DOIF (st_data z en) r0))"
    using stage_data [of en z seed] assms(2) by (simp add: r0_def DOIF_def)
  then have "?A (snd (DOIF (st_maps en) (DOIF (st_data z en) r0)))"
    by (rule DOIF_keeps [where P = ?A, rotated]) (use stage_maps in blast)
  then have "?A (snd (DOIF (st_tasks en) (DOIF (st_maps en) (DOIF (st_data z en) r0))))"
    by (rule DOIF_keeps [where P = ?A, rotated]) (simp add: start_ok_def stages_apart)
  then have a: "?A (snd (DOIF (st_items en) (DOIF (st_tasks en) (DOIF (st_maps en) (DOIF (st_data z en) r0)))))"
    by (rule DOIF_keeps [where P = ?A, rotated]) (simp add: start_ok_def stages_apart)
  have "?U (snd (DOIF (st_npcs z en) r))" if "?A (snd r)" for r
    using stage_npcs [of "snd r" en z] that assms(1)
    by (cases r) (auto simp: DOIF_def start_ok_def npcs_distinct_def split: option.splits)
  note u = this [OF a]
  have keep: "?U (snd (DOIF (st_magics en) (DOIF (st_gens en) (DOIF (st_monsters en) r))))" if "?U (snd r)" for r
    using that by (intro DOIF_keeps [where P = ?U]) (simp_all add: stages_apart)
  show ?thesis using keep [OF u] by (simp add: Server_exec_def r0_def [symmetric] Let_def split_beta)
qed

lemma steps_ok:
  assumes "(world_step z passway infos)\<^sup>*\<^sup>* s t" and "world_ok (fst s)" and "uids_ok (snd s) (fst s)"
  shows "world_ok (fst t) \<and> uids_ok (snd t) (fst t)"
  using assms by (induction rule: rtranclp_induct) (use step_ok in blast)+

section \<open>The initial spawning ends\<close>

text \<open>How much a generator can still add, and all of them: the last wave may exceed the maximum.\<close>

definition room_left :: "generator \<Rightarrow> nat" where
  "room_left g = unat (MaxNPC g) + 20 - unat (GenAmount g)"

definition spawner_room :: "spawner \<Rightarrow> nat" where
  "spawner_room s = sum_list (map room_left (sp_Gens s))"

definition uids_left :: "uids \<Rightarrow> nat" where
  "uids_left u = unat MONSTERID_LAST - unat (mLastMonsterUID u) + length (mRecycledMonsterUIDs u)"

lemma take_uid_left:
  assumes "0 < uids_left u"
  shows "\<exists>uid u'. take_uid u = Some (uid, u') \<and> uids_left u' = uids_left u - 1"
proof (cases "mLastMonsterUID u < MONSTERID_LAST")
  case True
  then have "unat (mLastMonsterUID u + 1) = unat (mLastMonsterUID u) + 1"
    by (simp add: word_less_nat_alt unat_word_ariths id_defs)
  then show ?thesis using True by (auto simp: take_uid_def uids_left_def word_less_nat_alt)
next
  case False
  then have "mRecycledMonsterUIDs u \<noteq> []" "unat MONSTERID_LAST - unat (mLastMonsterUID u) = 0"
    using assms by (auto simp: uids_left_def word_less_nat_alt)
  then show ?thesis using False by (cases "mRecycledMonsterUIDs u") (auto simp: take_uid_def uids_left_def)
qed

lemma generateMonster_uids:
  assumes "0 < uids_left (gs_uids s)"
  shows "\<exists>s'. generateMonster z infos x y s = Some s' \<and> uids_left (gs_uids s) - 1 \<le> uids_left (gs_uids s') \<and>
    MaxNPC (gs_gen s') = MaxNPC (gs_gen s)"
  using take_uid_left [OF assms] by (auto simp: generateMonster_def split: option.splits)

lemma choose_pos_state:
  "choose_pos s = (p, s') \<Longrightarrow> gs_uids s' = gs_uids s \<and> MaxNPC (gs_gen s') = MaxNPC (gs_gen s)"
  using choose_pos_frame(2) [of s p s'] arg_cong [OF choose_pos_frame(3) [of s p s'], of MaxNPC] by simp

lemma generate_loop_returns:
  assumes "n \<le> uids_left (gs_uids s)" and "n < 2 ^ 31" and "unat k + n < 2 ^ 31"
  shows "\<exists>s' k'. generate_loop z infos n s k = Some (s', k') \<and> MaxNPC (gs_gen s') = MaxNPC (gs_gen s) \<and>
    uids_left (gs_uids s) \<le> uids_left (gs_uids s') + (unat k' - unat k) \<and> unat k \<le> unat k' \<and> unat k' \<le> unat k + n"
  using assms
proof (induction n arbitrary: s k)
  case (Suc n)
  obtain p t where c: "choose_pos s = (p, t)" by fastforce
  note ct = choose_pos_state [OF c]
  show ?case
  proof (cases p)
    case None
    then show ?thesis using Suc.IH [of t k] Suc.prems c ct by force
  next
    case (Some xy)
    obtain x y where xy: "xy = (x, y)" by fastforce
    obtain u where u: "generateMonster z infos x y t = Some u" "uids_left (gs_uids t) - 1 \<le> uids_left (gs_uids u)"
      "MaxNPC (gs_gen u) = MaxNPC (gs_gen t)"
      using generateMonster_uids [of t] Suc.prems(1) ct by force
    let ?u = "u\<lparr>gs_gen := count_one (gs_gen u)\<rparr>"
    have k1: "unat (k + 1) = unat k + 1" using Suc.prems(3) by (simp add: unat_word_ariths)
    have m: "MaxNPC (gs_gen ?u) = MaxNPC (gs_gen s)" using u(3) ct by (simp add: count_one_def)
    have run: "generate_loop z infos (Suc n) s k =
        (if CurGen (gs_gen ?u) \<le> 0 then Some (?u, k + 1) else generate_loop z infos n ?u (k + 1))"
      using c Some xy u(1) by (simp add: Let_def)
    show ?thesis
    proof (cases "CurGen (gs_gen ?u) \<le> 0")
      case True
      then show ?thesis using run m k1 u(2) ct by simp
    next
      case False
      obtain s' k' where "generate_loop z infos n ?u (k + 1) = Some (s', k')" "MaxNPC (gs_gen s') = MaxNPC (gs_gen ?u)"
        "uids_left (gs_uids ?u) \<le> uids_left (gs_uids s') + (unat k' - unat (k + 1))" "unat (k + 1) \<le> unat k'"
        "unat k' \<le> unat (k + 1) + n"
        using Suc.IH [of ?u "k + 1"] Suc.prems u(2) ct k1 by force
      then show ?thesis using run False m k1 u(2) ct by simp
    qed
  qed
qed simp

lemma generate_room:
  assumes "unat aAmount \<le> 20" and "unat (MaxNPC (gs_gen s)) < 2 ^ 31"
    and "room_left (gs_gen s) \<le> uids_left (gs_uids s)"
  shows "\<exists>s' n. generate z infos now aAmount init s = Some (s', n) \<and> unat n \<le> unat aAmount \<and>
    room_left (gs_gen s') + unat n = room_left (gs_gen s) \<and> MaxNPC (gs_gen s') = MaxNPC (gs_gen s) \<and>
    uids_left (gs_uids s) \<le> uids_left (gs_uids s') + unat n"
proof (cases "generate z infos now aAmount init s = Some (s, 0)")
  case False
  obtain g seed where nw: "next_wave now (gs_gen s) (gs_seed s) = (g, seed)" by fastforce
  let ?s = "s\<lparr>gs_gen := g, gs_seed := seed\<rparr>"
  let ?u = "on_gen_data (unpack (decompress z) (Some (GenRef (gen_Id g)))) ?s"
  have less: "GenAmount (gs_gen s) < MaxNPC (gs_gen s)"
    and gen: "generate z infos now aAmount init s =
      (if CurGen g \<le> 0 then Some (?s, 0)
       else map_option (\<lambda>(s, n). (on_gen_data (pack (compress z) (Some (GenRef (gen_Id g)))) s, n))
              (generate_loop z infos (unat aAmount) ?u 0))"
    using False unfolding generate_def nw by (auto simp: Let_def split: if_splits)
  have mg: "MaxNPC g = MaxNPC (gs_gen s)" "GenAmount g = GenAmount (gs_gen s)"
    using nw next_wave_frame(2) [OF nw] by (auto simp: next_wave_def Let_def split_beta split: prod.splits bool.splits if_splits)
  have room: "room_left g = room_left (gs_gen s)" by (simp add: room_left_def mg)
  show ?thesis
  proof (cases "CurGen g \<le> 0")
    case True
    then show ?thesis using gen room mg by auto
  next
    case cur: False
    have "unat (GenAmount (gs_gen s)) < unat (MaxNPC (gs_gen s))" using less by (simp add: word_less_nat_alt)
    then have amount: "unat aAmount \<le> uids_left (gs_uids ?u)"
      using assms(1,3) by (simp add: room_left_def unpack_frame)
    obtain t n where loop: "generate_loop z infos (unat aAmount) ?u 0 = Some (t, n)" "MaxNPC (gs_gen t) = MaxNPC (gs_gen ?u)"
      "uids_left (gs_uids ?u) \<le> uids_left (gs_uids t) + unat n"
      using generate_loop_returns [OF amount, of 0 z infos] assms(1) by auto
    obtain j where j: "j \<le> unat aAmount" "n = word_of_nat j" "GenAmount (gs_gen t) = GenAmount g + word_of_nat j"
      using loop_counts [OF loop(1)] cur by (auto simp: unpack_frame word_gt_0)
    have un: "unat n = j" using j(1,2) assms(1) by (simp add: unat_word32)
    have "unat (GenAmount (gs_gen s) + n) = unat (GenAmount (gs_gen s)) + j"
      using un less assms(1,2) j(1) by (simp add: unat_word_ariths word_less_nat_alt)
    then have "room_left (gs_gen t) + unat n = room_left (gs_gen s)"
      using j un mg loop(2) assms(1) less by (simp add: room_left_def unpack_frame word_less_nat_alt)
    then show ?thesis
      using gen cur loop un j(1) mg
      by (intro exI [of _ "on_gen_data (pack (compress z) (Some (GenRef (gen_Id g)))) t"] exI [of _ n])
        (auto simp: pack_frame unpack_frame)
  qed
qed auto

definition spawner_ok :: "spawner \<Rightarrow> bool" where
  "spawner_ok s \<longleftrightarrow> (\<forall>g \<in> set (sp_Gens s). unat (MaxNPC g) < 2 ^ 31) \<and> spawner_room s \<le> uids_left (sp_Uids s)"

lemma generate_at_room:
  assumes "spawner_ok s" and "sp_index s < length (sp_Gens s)" and "unat maxNpc \<le> 20"
  shows "\<exists>s' k. generate_at z infos now maxNpc s = Some (s', k) \<and> spawner_ok s' \<and> unat k \<le> unat maxNpc \<and>
    spawner_room s' + unat k = spawner_room s \<and> length (sp_Gens s') = length (sp_Gens s) \<and>
    sp_index s' = sp_index s \<and> sp_initializing s' = sp_initializing s"
proof -
  let ?g = "sp_Gens s ! sp_index s"
  let ?gs = "\<lparr>gs_gen = ?g, gs_uids = sp_Uids s, gs_seed = sp_Seed s, gs_world = sp_World s\<rparr>"
  have mem: "?g \<in> set (sp_Gens s)" using assms(2) by simp
  have "room_left ?g \<le> spawner_room s"
    unfolding spawner_room_def by (rule member_le_sum_list) (use mem in auto)
  then have "room_left (gs_gen ?gs) \<le> uids_left (gs_uids ?gs)" using assms(1) by (simp add: spawner_ok_def)
  moreover have "unat (MaxNPC (gs_gen ?gs)) < 2 ^ 31" using assms(1) mem by (simp add: spawner_ok_def)
  ultimately obtain t k where t: "generate z infos now maxNpc (sp_initializing s) ?gs = Some (t, k)" "unat k \<le> unat maxNpc"
    "room_left (gs_gen t) + unat k = room_left ?g" "MaxNPC (gs_gen t) = MaxNPC ?g"
    "uids_left (sp_Uids s) \<le> uids_left (gs_uids t) + unat k"
    using generate_room [OF assms(3), of ?gs z infos now "sp_initializing s"] by auto
  let ?s = "s\<lparr>sp_Gens := (sp_Gens s)[sp_index s := gs_gen t], sp_Uids := gs_uids t, sp_Seed := gs_seed t, sp_World := gs_world t\<rparr>"
  have sum: "spawner_room ?s + unat k = spawner_room s"
    using sum_list_replaced [OF assms(2), of room_left "gs_gen t"] t(3) by (simp add: spawner_room_def)
  have "unat (MaxNPC g) < 2 ^ 31" if "g \<in> set ((sp_Gens s)[sp_index s := gs_gen t])" for g
    using that updated_in [of g] assms(1) mem t(4) unfolding spawner_ok_def by metis
  then have "spawner_ok ?s" using sum t(5) assms(1) by (simp add: spawner_ok_def)
  then show ?thesis using t(1,2) sum by (simp add: generate_at_def)
qed

lemma sint_small: "unat (w :: u32) \<le> 20 \<Longrightarrow> sint w = int (unat w)"
proof -
  assume "unat w \<le> 20"
  then have "sint (word_of_nat (unat w) :: u32) = int (unat w)" by (intro sint_nat32) simp
  then show ?thesis by simp
qed

lemma spawn_from_room:
  assumes "spawner_ok s" and "sp_index s + n = length (sp_Gens s)" and "unat maxNpc \<le> 20"
  shows "\<exists>s' m. spawn_from z infos now n maxNpc s = Some (s', m) \<and> spawner_ok s' \<and> unat m \<le> unat maxNpc \<and>
    spawner_room s' + unat maxNpc = spawner_room s + unat m \<and> length (sp_Gens s') = length (sp_Gens s) \<and>
    (m \<noteq> 0 \<longrightarrow> sp_index s' = length (sp_Gens s)) \<and> sp_initializing s' = sp_initializing s"
  using assms
proof (induction n arbitrary: s maxNpc)
  case (Suc n)
  obtain t k where t: "generate_at z infos (now (sp_index s)) maxNpc s = Some (t, k)" "spawner_ok t" "unat k \<le> unat maxNpc"
    "spawner_room t + unat k = spawner_room s" "length (sp_Gens t) = length (sp_Gens s)"
    "sp_index t = sp_index s" "sp_initializing t = sp_initializing s"
    using generate_at_room [of s maxNpc z infos "now (sp_index s)"] Suc.prems by auto
  let ?m = "maxNpc - k" and ?t = "t\<lparr>sp_index := sp_index t + 1\<rparr>"
  have um: "unat ?m = unat maxNpc - unat k" using t(3) by (simp add: unat_sub word_le_nat_alt)
  show ?case
  proof (cases "sint ?m \<le> 0")
    case True
    then have "unat ?m = 0" using sint_small [of ?m] um Suc.prems(3) by simp
    then show ?thesis using t True um by (auto simp: unat_eq_0)
  next
    case False
    have p: "spawner_ok ?t" "sp_index ?t + n = length (sp_Gens ?t)" "unat ?m \<le> 20"
      using t um Suc.prems(2,3) by (auto simp: spawner_ok_def spawner_room_def)
    show ?thesis
      using Suc.IH [OF p] t False um by (auto simp: Let_def spawner_room_def)
  qed
qed auto

lemma pass_room:
  assumes "spawner_ok s"
  shows "\<exists>s'. regenerate_pass z infos now s = Some s' \<and> spawner_ok s' \<and>
    (sp_initializing s' \<longrightarrow> sp_initializing s \<and> spawner_room s' < spawner_room s)"
proof -
  let ?s = "wrap_index s"
  have w: "spawner_ok ?s" "spawner_room ?s = spawner_room s" "sp_initializing ?s = sp_initializing s"
    "sp_index ?s + (length (sp_Gens ?s) - sp_index ?s) = length (sp_Gens ?s)"
    using assms by (auto simp: wrap_index_def spawner_ok_def spawner_room_def)
  obtain t m where t: "spawn_from z infos now (length (sp_Gens ?s) - sp_index ?s) 20 ?s = Some (t, m)"
    "spawner_ok t" "unat m \<le> 20" "spawner_room t + 20 = spawner_room s + unat m" "length (sp_Gens t) = length (sp_Gens ?s)"
    "m \<noteq> 0 \<longrightarrow> sp_index t = length (sp_Gens ?s)" "sp_initializing t = sp_initializing s"
    using spawn_from_room [OF w(1,4), of 20 z infos now] w(2,3) by auto
  let ?t = "wrap_index t"
  have wt: "spawner_ok ?t" "spawner_room ?t = spawner_room t" "sp_initializing ?t = sp_initializing t"
    using t(2) by (simp_all add: wrap_index_def spawner_ok_def spawner_room_def)
  have ends: "sp_index ?t = 0" if "m = 20" using t(5,6) that by (simp add: wrap_index_def)
  have less: "spawner_room t < spawner_room s" if "m \<noteq> 20"
  proof -
    have "unat m \<noteq> unat (20 :: u32)" using that by (simp only: word_unat_eq_iff [symmetric]) simp
    then show ?thesis using t(3,4) by simp
  qed
  let ?r = "if sp_initializing ?t \<and> sp_index ?t = 0 \<and> m = MAXNPC_PER_ONTIMER
            then ?t\<lparr>sp_initializing := False, sp_World := packAll z (sp_World ?t)\<rparr> else ?t"
  have r: "regenerate_pass z infos now s = Some ?r"
    by (simp add: regenerate_pass_def Let_def MAXNPC_PER_ONTIMER_def t(1))
  have "spawner_ok ?r" using wt(1) by (simp add: spawner_ok_def spawner_room_def)
  moreover have "sp_initializing ?r \<Longrightarrow> sp_initializing s \<and> spawner_room ?r < spawner_room s"
    using ends less t(7) wt by (cases "m = 20") (auto simp: MAXNPC_PER_ONTIMER_def split: if_splits)
  ultimately show ?thesis using r by blast
qed

text \<open>The initial spawning does not begin again.\<close>

lemma passes_start:
  "spawner_ok s \<Longrightarrow> regenerate_passes z infos nows s = Some s' \<Longrightarrow> sp_initializing s' \<Longrightarrow> sp_initializing s"
proof (induction nows arbitrary: s)
  case (Cons now nows)
  obtain t where "regenerate_pass z infos now s = Some t" "spawner_ok t" "sp_initializing t \<longrightarrow> sp_initializing s"
    using pass_room [OF Cons.prems(1)] by blast
  then show ?case using Cons.IH [of t] Cons.prems by simp
qed simp

lemma passes_room:
  assumes "spawner_ok s"
  shows "\<exists>s'. regenerate_passes z infos nows s = Some s' \<and> (sp_initializing s' \<longrightarrow> spawner_room s' + length nows \<le> spawner_room s)"
  using assms
proof (induction nows arbitrary: s)
  case (Cons now nows)
  obtain t where t: "regenerate_pass z infos now s = Some t" "spawner_ok t"
    "sp_initializing t \<longrightarrow> sp_initializing s \<and> spawner_room t < spawner_room s"
    using pass_room [OF Cons.prems] by blast
  obtain u where u: "regenerate_passes z infos nows t = Some u" "sp_initializing u \<longrightarrow> spawner_room u + length nows \<le> spawner_room t"
    using Cons.IH [OF t(2)] by blast
  have "sp_initializing t" if "sp_initializing u"
    by (rule passes_start [OF t(2) u(1) that])
  then show ?case using t u by auto
qed simp

section \<open>Packing and unpacking all maps\<close>

lemma world_all_data:
  assumes "world_ok w" and f: "\<And>d. data_ok d \<Longrightarrow> data_ok (f d)" "\<And>d. mRefs (f d) = mRefs d"
  shows "world_ok (all_data f w)" and "uids_ok u (all_data f w) = uids_ok u w"
proof -
  let ?w = "all_data f w"
  note ok = worldD [OF assms(1)]
  have s: "ents ?w = ents w" "getMap m ?w = getMap m w" "wlog ?w = wlog w" "gmaps ?w = gmaps w" for m
    by (simp_all add: all_data_def getMap_def)
  have dt: "datas ?w a = map_option f (datas w a)" for a by (simp add: all_data_def)
  have v: "view ?w = view w" by (simp add: view_def s fun_eq_iff)
  have sees: "sees ?w = sees w" by (simp add: sees_def v fun_eq_iff)
  have sh: "share ?w = share w" by (simp add: share_def in_room_def s fun_eq_iff)
  have "room_ok ?w m g" if g: "getMap m w = Some g" for m g
  proof -
    have "room_ok w m g" using ok(1) g by (simp add: rooms_ok_def)
    then show ?thesis using f(2) by (auto simp: room_ok_def s dt)
  qed
  then have "rooms_ok ?w" using ok(1) f(1) by (auto simp: rooms_ok_def s dt)
  moreover have "pair_ok ?w x y" for x y
  proof -
    have iv: "in_view x y ?w = in_view x y w" by (simp add: in_view_def posX_def posY_def s)
    show ?thesis using ok(4) [of x y] unfolding pair_ok_def sees sh iv .
  qed
  moreover have "screens_ok ?w" using ok(3) unfolding screens_ok_def sees by (simp add: screen_def s live_def)
  ultimately show "world_ok ?w" using ok(2) by (simp add: world_ok_def views_ok_def v)
  show "uids_ok u ?w = uids_ok u w" by (simp add: uids_ok_def s)
qed

lemma resume_pack: "data_ok d \<Longrightarrow> data_ok (pack cmp None (resumePacking d))" "mRefs (pack cmp None (resumePacking d)) = mRefs d"
proof -
  show "data_ok d \<Longrightarrow> data_ok (pack cmp None (resumePacking d))"
    by (rule data_ok_pack) (auto simp: data_ok_def resumePacking_def cell_count_def split: option.splits)
qed (simp add: pack_shape resumePacking_def)

lemma unpack_suspend: "data_ok d \<Longrightarrow> data_ok (suspendPacking (unpack dcm None d))" "mRefs (suspendPacking (unpack dcm None d)) = mRefs d"
proof -
  assume "data_ok d"
  then have "data_ok (unpack dcm None d) \<and> mCells (unpack dcm None d) \<noteq> None" by (rule data_ok_unpack)
  then show "data_ok (suspendPacking (unpack dcm None d))"
    by (auto simp: data_ok_def suspendPacking_def cell_count_def split: option.splits)
qed (simp add: unpack_shape suspendPacking_def)

definition spawner_world :: "spawner \<Rightarrow> bool" where
  "spawner_world s \<longleftrightarrow> world_ok (sp_World s) \<and> uids_ok (sp_Uids s) (sp_World s)"

lemma generate_at_world:
  "generate_at z infos now maxNpc s = Some (s', k) \<Longrightarrow> spawner_world s \<Longrightarrow> spawner_world s'"
proof -
  assume g: "generate_at z infos now maxNpc s = Some (s', k)" and w: "spawner_world s"
  let ?gs = "\<lparr>gs_gen = sp_Gens s ! sp_index s, gs_uids = sp_Uids s, gs_seed = sp_Seed s, gs_world = sp_World s\<rparr>"
  obtain t n where t: "generate z infos now maxNpc (sp_initializing s) ?gs = Some (t, n)"
    "sp_World s' = gs_world t" "sp_Uids s' = gs_uids t"
    using g by (auto simp: generate_at_def)
  show "spawner_world s'"
    using generate_effect [OF _ _ t(1)] w t(2,3) by (simp add: spawner_world_def)
qed

lemma spawn_from_world:
  "spawn_from z infos now n maxNpc s = Some (s', m) \<Longrightarrow> spawner_world s \<Longrightarrow> spawner_world s'"
proof (induction n arbitrary: s maxNpc)
  case (Suc n)
  obtain t k where t: "generate_at z infos (now (sp_index s)) maxNpc s = Some (t, k)"
    using Suc.prems(1) by (auto split: option.splits)
  have "spawner_world t" by (rule generate_at_world [OF t Suc.prems(2)])
  then show ?case
    using Suc.prems(1) Suc.IH [of "maxNpc - k" "t\<lparr>sp_index := sp_index t + 1\<rparr>"] t
    by (auto simp: spawner_world_def Let_def split: if_splits)
qed simp

lemma passes_world:
  "regenerate_passes z infos nows s = Some s' \<Longrightarrow> spawner_world s \<Longrightarrow> spawner_world s'"
proof (induction nows arbitrary: s)
  case (Cons now nows)
  obtain t where t: "regenerate_pass z infos now s = Some t" "regenerate_passes z infos nows t = Some s'"
    using Cons.prems(1) by (auto simp: bind_eq_Some_conv)
  have wrap: "spawner_world (wrap_index u) = spawner_world u" for u by (simp add: wrap_index_def spawner_world_def)
  obtain u m where u: "spawn_from z infos now (length (sp_Gens (wrap_index s)) - sp_index (wrap_index s)) MAXNPC_PER_ONTIMER (wrap_index s) = Some (u, m)"
    and tu: "t = wrap_index u \<or> t = (wrap_index u)\<lparr>sp_initializing := False, sp_World := packAll z (sp_World (wrap_index u))\<rparr>"
    using t(1) by (auto simp: regenerate_pass_def Let_def split: option.splits if_splits)
  have "spawner_world (wrap_index u)" unfolding wrap by (rule spawn_from_world [OF u]) (simp add: wrap Cons.prems(2))
  then have "spawner_world t"
    using tu world_all_data [of "sp_World (wrap_index u)", OF _ resume_pack] by (auto simp: spawner_world_def packAll_def)
  then show ?case using Cons.IH t(2) by blast
qed simp

section \<open>Properties\<close>

text \<open>C12: 
  The initial spawning ends.  When the unique ids suffice, the worker never aborts, and after as
  many passes as monsters can still be added, over all generators, plus one, it has ended, whatever
  the clock and the seed are; all this time the world stays consistent.
\<close>
theorem initial_spawning_ends:
  assumes "list_all (\<lambda>g. unat (MaxNPC g) < 2 ^ 31) gens" and "sum_list (map room_left gens) \<le> uids_left uids"
    and "sum_list (map room_left gens) < length nows" and "world_ok w" and "uids_ok uids w"
  shows "\<exists>s. regenerateMonsters z infos nows gens uids seed w = Some s \<and> \<not> sp_initializing s \<and>
    world_ok (sp_World s) \<and> uids_ok (sp_Uids s) (sp_World s)"
proof -
  let ?s = "\<lparr>sp_Gens = gens, sp_Uids = uids, sp_Seed = seed, sp_World = unpackAll z w, sp_index = 0, sp_initializing = True\<rparr>"
  have "spawner_ok ?s" using assms(1,2) by (simp add: spawner_ok_def spawner_room_def list_all_iff)
  then obtain s where s: "regenerate_passes z infos nows ?s = Some s"
    "sp_initializing s \<longrightarrow> spawner_room s + length nows \<le> spawner_room ?s"
    using passes_room [of ?s z infos nows] by blast
  have "spawner_world ?s"
    using world_all_data [OF assms(4) unpack_suspend] assms(5) by (simp add: spawner_world_def unpackAll_def)
  then have "spawner_world s" by (rule passes_world [OF s(1)])
  then show ?thesis using s assms(3) by (auto simp: regenerateMonsters_def spawner_room_def spawner_world_def)
qed


lemma create_maps_missing:
  assumes "row \<in> set rows" and "tget (DocID (snd (map_row row))) mMaps = None"
  shows "fst (create_maps mMaps rows w) \<noteq> ERROR_SUCCESS"
  using assms(1)
proof (induction rows arbitrary: w)
  case (Cons r rows)
  show ?case
  proof (cases "r = row")
    case True
    then show ?thesis using assms(2) by (simp add: createMap_def split: prod.splits)
  next
    case False
    then show ?thesis using Cons by (simp split: prod.splits)
  qed
qed simp

lemma DOIF_stops: "err \<noteq> ERROR_SUCCESS \<Longrightarrow> DOIF f (err, s) = (err, s)"
  by (simp add: DOIF_def)

text \<open>
  One map of the database whose document has no data stops the whole start-up, although a data file
  that is missing was ignored while the data was loaded: the result is an error, no task, item,
  NPC, monster, generator or magic is loaded and nothing is spawned.  Both ports are listened on
  all the same before the error is looked at.
\<close>
theorem missing_map_data_stops_everything:
  assumes "en_Connects en" and "st_data z en (fresh_server seed) = (ERROR_SUCCESS, s1)"
    and "en_Maps en = Some rows" and "row \<in> set rows" and "tget (DocID (snd (map_row row))) (sv_mMaps s1) = None"
  shows "case Server_exec z en (fresh_server seed) of (err, s) \<Rightarrow>
    err \<noteq> ERROR_SUCCESS \<and> mAllTasks (sv_Registry s) = [] \<and> mAllNPCs (sv_Registry s) = [] \<and> sv_Items s = [] \<and>
    sv_Monsters s = [] \<and> sv_Magics s = [] \<and> sv_Gens s = [] \<and> \<not> sv_Spawning s \<and>
    sv_Listens s = [ACCSERVER_PORT, MSGSERVER_PORT]"
proof -
  obtain err w where c: "create_maps (sv_mMaps s1) rows (sv_World s1) = (err, w)" by fastforce
  have e: "err \<noteq> ERROR_SUCCESS" using create_maps_missing [OF assms(4,5), of "sv_World s1"] c by simp
  have m: "st_maps en s1 = (err, s1\<lparr>sv_World := w\<rparr>)"
    using assms(3) c by (simp add: st_maps_def loadAllMaps_def)
  have s1: "sv_Registry s1 = sv_Registry (fresh_server seed)" "sv_Items s1 = []" "sv_Monsters s1 = []" "sv_Magics s1 = []"
    "sv_Gens s1 = []" "\<not> sv_Spawning s1" "sv_Listens s1 = []"
    using assms(2) by (auto simp: st_data_def fresh_server_def split: prod.splits)
  have "Server_exec z en (fresh_server seed) =
      (err, s1\<lparr>sv_World := w, sv_Listens := sv_Listens s1 @ [ACCSERVER_PORT, MSGSERVER_PORT]\<rparr>)"
    by (simp add: Server_exec_def assms(1,2) DOIF_def [of "st_data z en"] DOIF_def [of "st_maps en"] m DOIF_stops [OF e])
  then show ?thesis using e s1 by (simp add: fresh_server_def)
qed

section \<open>The properties at work\<close>

definition one_gen :: generator where
  "one_gen = gs_gen yard"

lemma initial_spawning_ends_witness:
  "\<exists>s. regenerateMonsters no_lz4 (\<lambda>_. Some 10) (replicate 30 (\<lambda>_. 9)) [one_gen] World_uids 42 (gs_world yard) = Some s \<and>
     \<not> sp_initializing s"
proof -
  have n: "MaxNPC one_gen = 1" "GenAmount one_gen = 0"
    by (simp_all add: one_gen_def yard_def Generator_def max_npc_def Let_def split_beta)
  have "uids_left World_uids = 99999" by (simp add: uids_left_def World_uids_def id_defs)
  then have a: "list_all (\<lambda>g. unat (MaxNPC g) < 2 ^ 31) [one_gen]" "sum_list (map room_left [one_gen]) \<le> uids_left World_uids"
    "sum_list (map room_left [one_gen]) < length (replicate 30 (\<lambda>_ :: nat. 9 :: int))"
    by (simp_all add: n room_left_def)
  have u: "uids_ok World_uids (gs_world yard)" using yard_ok(2) by (simp add: yard_def)
  show ?thesis using initial_spawning_ends [OF a yard_ok(1) u] by blast
qed

text \<open>An environment without data files, with one NPC and one map.\<close>

definition npc_row :: "npc_col qrow" where
  "npc_row col = (case col of NC_ID \<Rightarrow> QInt 5 | NC_TYPE \<Rightarrow> QInt 2 | NC_MAPID \<Rightarrow> QInt 1002 | _ \<Rightarrow> QInt 0)"

definition bare_environment :: environment where
  "bare_environment =
     \<lparr>en_Connects = True, en_GameMap = Some (Some (\<lambda>_. None), []), en_Loads = (\<lambda>_. Inl ERROR_FILE_NOT_FOUND), en_Cores = 1,
      en_Schedule = [0], en_Maps = Some [\<lambda>_. QInt 1], en_Tasks = [(bytes ''5'', True)], en_Items = Some [],
      en_Npcs = Some [npc_row], en_Monsters = Some [], en_Gens = Some [], en_Magics = Some []\<rparr>"


lemma missing_map_data_stops_everything_witness:
  "fst (Server_exec no_lz4 bare_environment (fresh_server 42)) \<noteq> ERROR_SUCCESS"
proof -
  obtain s1 where s1: "st_data no_lz4 bare_environment (fresh_server 42) = (ERROR_SUCCESS, s1)" "sv_mMaps s1 = []"
    by (simp add: st_data_def bare_environment_def loadData_def collect_maps_def run_workers_def start_loading_def
        worker_turn_def take_work_def fresh_server_def)
  have "case Server_exec no_lz4 bare_environment (fresh_server 42) of (err, s) \<Rightarrow>
    err \<noteq> ERROR_SUCCESS \<and> mAllTasks (sv_Registry s) = [] \<and> mAllNPCs (sv_Registry s) = [] \<and> sv_Items s = [] \<and>
    sv_Monsters s = [] \<and> sv_Magics s = [] \<and> sv_Gens s = [] \<and> \<not> sv_Spawning s \<and>
    sv_Listens s = [ACCSERVER_PORT, MSGSERVER_PORT]"
    by (rule missing_map_data_stops_everything [OF _ s1(1), where rows = "[\<lambda>_. QInt 1]" and row = "\<lambda>_. QInt 1"])
      (simp_all add: bare_environment_def s1(2) tget_def)
  then show ?thesis by (simp add: split_beta)
qed

end
