(* ===== verification/Streams.thy ===== *)
theory Streams
  imports MapData
begin

text \<open>
  The binary reader (\<^verbatim>\<open>IO/binaryreader.cpp\<close>) over a C stream, and the test for the existence of a file
  (\<^verbatim>\<open>IO/finder.cpp\<close>).  A stream is the content of the file, a position and the end-of-file mark, which a
  read beyond the end sets and a seek clears.  A reader without a stream is \<open>None\<close>.  The theory
  justifies the reads of \<open>Wire\<close>, which see only the bytes from the position on.
\<close>

section \<open>Streams\<close>

record stream =
  st_bytes :: "u8 list"
  st_pos :: nat
  st_eof :: bool

type_synonym reader = "stream option"

definition fread :: "nat \<Rightarrow> stream \<Rightarrow> u8 list \<times> stream" where
  "fread n s =
     (let got = take n (drop (st_pos s) (st_bytes s)) in
      (got, s\<lparr>st_pos := st_pos s + length got, st_eof := st_eof s \<or> length got < n\<rparr>))"

datatype whence = SEEK_SET | SEEK_CUR | SEEK_END

definition fseek :: "int \<Rightarrow> whence \<Rightarrow> stream \<Rightarrow> stream option" where
  "fseek aOffset aWhence s =
     (let start = (case aWhence of SEEK_SET \<Rightarrow> 0 | SEEK_CUR \<Rightarrow> int (st_pos s) | SEEK_END \<Rightarrow> int (length (st_bytes s)));
          pos = start + aOffset in
      if pos < 0 then None else Some (s\<lparr>st_pos := nat pos, st_eof := False\<rparr>))"

section \<open>Finder\<close>

text \<open>The error code of the check is returned as a truth value.\<close>

definition fileExists :: "(u8 list \<Rightarrow> u8 list option) \<Rightarrow> u8 list \<Rightarrow> bool" where
  "fileExists files aPath = (if aPath = [] then True else files aPath \<noteq> None)"

section \<open>The reader\<close>

definition BinaryReader :: "(u8 list \<Rightarrow> u8 list option) \<Rightarrow> u8 list \<Rightarrow> reader" where
  "BinaryReader files aPath =
     (if aPath = [] then None
      else map_option (\<lambda>content. \<lparr>st_bytes = content, st_pos = 0, st_eof = False\<rparr>) (files aPath))"

text \<open>Without a stream, \<open>tell\<close> and \<open>seek\<close> are undefined.\<close>

definition tell :: "reader \<Rightarrow> nat option" where "tell r = map_option st_pos r"

definition seek :: "int \<Rightarrow> whence \<Rightarrow> reader \<Rightarrow> (err_t \<times> reader) option" where
  "seek aOffset aWhence r =
     (case r of None \<Rightarrow> None
      | Some s \<Rightarrow> Some (case fseek aOffset aWhence s of None \<Rightarrow> (ERROR_SEEK, r) | Some s' \<Rightarrow> (ERROR_SUCCESS, Some s')))"

definition close :: "reader \<Rightarrow> reader" where "close r = None"

text \<open>
  The template behind the numbers.  A failed read leaves an unspecified value behind, for which the
  model has the error only.
\<close>

definition read_value :: "nat \<Rightarrow> reader \<Rightarrow> (err_t + u8 list) \<times> reader" where
  "read_value n r =
     (case r of None \<Rightarrow> (Inl ERROR_BAD_STATE, None)
      | Some s \<Rightarrow>
          if st_eof s then (Inl ERROR_BAD_STATE, r)
          else case fread n s of (got, s') \<Rightarrow>
            (if length got < n then Inl ERROR_READ_FAULT else Inr got, Some s'))"

definition read_bytes :: "nat \<Rightarrow> reader \<Rightarrow> (err_t + u8 list) \<times> reader" where
  "read_bytes aLen r = (if aLen = 0 then (Inl ERROR_INVALID_PARAMETER, r) else read_value aLen r)"

definition as_number :: "(u8 list \<Rightarrow> 'a) \<Rightarrow> (err_t + u8 list) \<times> reader \<Rightarrow> (err_t + 'a) \<times> reader" where
  "as_number f r = (case r of (Inl err, r) \<Rightarrow> (Inl err, r) | (Inr bs, r) \<Rightarrow> (Inr (f bs), r))"

definition bin_readInt8 :: "reader \<Rightarrow> (err_t + u8) \<times> reader" where
  "bin_readInt8 r = as_number (\<lambda>bs. bs ! 0) (read_value 1 r)"

definition bin_readInt16 :: "reader \<Rightarrow> (err_t + u16) \<times> reader" where
  "bin_readInt16 r = as_number (\<lambda>bs. push_bit 8 (ucast (bs ! 1)) OR ucast (bs ! 0)) (read_value 2 r)"

definition bin_readInt32 :: "reader \<Rightarrow> (err_t + u32) \<times> reader" where
  "bin_readInt32 r = as_number (\<lambda>bs. le32 (bs ! 0) (bs ! 1) (bs ! 2) (bs ! 3)) (read_value 4 r)"

definition bin_readInt64 :: "reader \<Rightarrow> (err_t + u64) \<times> reader" where
  "bin_readInt64 r = as_number
     (\<lambda>bs. push_bit 32 (ucast (le32 (bs ! 4) (bs ! 5) (bs ! 6) (bs ! 7))) OR ucast (le32 (bs ! 0) (bs ! 1) (bs ! 2) (bs ! 3)))
     (read_value 8 r)"

text \<open>The unsigned reads are the signed ones on the same bits.\<close>

definition bin_readUInt8 :: "reader \<Rightarrow> (err_t + u8) \<times> reader" where "bin_readUInt8 r = bin_readInt8 r"
definition bin_readUInt16 :: "reader \<Rightarrow> (err_t + u16) \<times> reader" where "bin_readUInt16 r = bin_readInt16 r"
definition bin_readUInt32 :: "reader \<Rightarrow> (err_t + u32) \<times> reader" where "bin_readUInt32 r = bin_readInt32 r"
definition bin_readUInt64 :: "reader \<Rightarrow> (err_t + u64) \<times> reader" where "bin_readUInt64 r = bin_readInt64 r"

lemmas read_defs = bin_readInt8_def bin_readInt16_def bin_readInt32_def bin_readInt64_def bin_readUInt8_def bin_readUInt16_def
  bin_readUInt32_def bin_readUInt64_def as_number_def

section \<open>The bytes that are left\<close>

definition remaining :: "stream \<Rightarrow> u8 list" where "remaining s = drop (st_pos s) (st_bytes s)"

lemma read_value_remaining:
  assumes "\<not> st_eof s"
  shows "read_value n (Some s) =
    (if n \<le> length (remaining s)
     then (Inr (take n (remaining s)), Some (s\<lparr>st_pos := st_pos s + n\<rparr>))
     else (Inl ERROR_READ_FAULT, Some (s\<lparr>st_pos := st_pos s + length (remaining s), st_eof := True\<rparr>)))"
  using assms by (auto simp: read_value_def fread_def Let_def remaining_def)

lemma remaining_forward: "remaining (s\<lparr>st_pos := st_pos s + n\<rparr>) = drop n (remaining s)"
  by (simp add: remaining_def add.commute)

text \<open>What a read does to the bytes that are left: the reads of \<open>Wire\<close>.\<close>

definition agrees :: "(err_t + 'a) \<times> reader \<Rightarrow> ('a \<times> u8 list) option \<Rightarrow> bool" where
  "agrees r w =
     (case w of None \<Rightarrow> (\<exists>s'. r = (Inl ERROR_READ_FAULT, Some s') \<and> st_eof s')
      | Some (v, rest) \<Rightarrow> (\<exists>s'. r = (Inr v, Some s') \<and> \<not> st_eof s' \<and> remaining s' = rest))"

lemma two_bytes: "2 \<le> length bs \<Longrightarrow> \<exists>a b rest. bs = a # b # rest"
  by (cases bs rule: list.exhaust [case_product list.exhaust]) (auto simp: Suc_le_length_iff numeral_2_eq_2)

lemma four_bytes: "4 \<le> length bs \<Longrightarrow> \<exists>a b c d rest. bs = a # b # c # d # rest"
  by (auto simp: Suc_le_length_iff numeral_eq_Suc)

lemma reads_agree:
  assumes "\<not> st_eof s"
  shows "agrees (bin_readInt16 (Some s)) (rd16 (remaining s))" and "agrees (bin_readInt32 (Some s)) (rd32 (remaining s))"
proof -
  note r = read_value_remaining [OF assms]
  show "agrees (bin_readInt16 (Some s)) (rd16 (remaining s))"
  proof (cases "2 \<le> length (remaining s)")
    case True
    then show ?thesis using two_bytes [OF True] remaining_forward [of s 2] assms
      by (auto simp: bin_readInt16_def as_number_def r rd16_def agrees_def)
  next
    case False
    then have "rd16 (remaining s) = None" by (auto simp: rd16_def split: list.split)
    then show ?thesis using False by (simp add: bin_readInt16_def as_number_def r agrees_def)
  qed
  show "agrees (bin_readInt32 (Some s)) (rd32 (remaining s))"
  proof (cases "4 \<le> length (remaining s)")
    case True
    then show ?thesis using four_bytes [OF True] remaining_forward [of s 4] assms
      by (auto simp: bin_readInt32_def as_number_def r rd32_def agrees_def)
  next
    case False
    then have "rd32 (remaining s) = None" by (auto simp: rd32_def split: list.split)
    then show ?thesis using False by (simp add: bin_readInt32_def as_number_def r agrees_def)
  qed
qed

text \<open>
  Seeking forward from the position drops bytes, also beyond the end of the file, where the
  next read finds nothing.
\<close>

lemma seek_drops:
  "\<exists>s'. seek (int n) SEEK_CUR (Some s) = Some (ERROR_SUCCESS, Some s') \<and> \<not> st_eof s' \<and>
     remaining s' = drop n (remaining s)"
  by (auto simp: seek_def fseek_def Let_def remaining_def nat_add_distrib add.commute)

text \<open>
  A read beyond the end makes every later read fail, also one that would fit, until somebody seeks.
\<close>

lemma failed_read_sticks:
  assumes "read_value n (Some s) = (Inl ERROR_READ_FAULT, r)"
  shows "read_value k r = (Inl ERROR_BAD_STATE, r)"
    and "0 \<le> pos \<Longrightarrow> \<exists>s'. seek pos SEEK_SET r = Some (ERROR_SUCCESS, Some s') \<and> \<not> st_eof s' \<and> st_pos s' = nat pos"
  using assms by (auto simp: read_value_def fread_def Let_def seek_def fseek_def split: if_splits)

text \<open>Before the start of the file there is nothing, and the reader stays where it was.\<close>

lemma seek_before_start:
  "aOffset < - int (st_pos s) \<Longrightarrow> seek aOffset SEEK_CUR (Some s) = Some (ERROR_SEEK, Some s)"
  by (simp add: seek_def fseek_def Let_def)

text \<open>The empty path passes for a file that exists, and cannot be opened.\<close>

lemma empty_path_exists:
  "fileExists files []" and "fst (bin_readUInt32 (BinaryReader files [])) = Inl ERROR_BAD_STATE"
  by (simp_all add: fileExists_def BinaryReader_def read_defs read_value_def)

text \<open>A number of 64 bits is its two halves, the low one first.\<close>

lemma bin_readInt64_halves:
  assumes "\<not> st_eof s" and "remaining s = wr32 lo @ wr32 hi @ rest"
  shows "fst (bin_readInt64 (Some s)) = Inr (push_bit 32 (ucast hi) OR ucast lo)"
proof -
  have w: "le32 (byte0 w) (byte1 w) (byte2 w) (byte3 w) = w" for w
    using rd_wr(2) [of w "[]"] by (simp add: rd32_def wr32_def)
  show ?thesis using read_value_remaining [OF assms(1), of 8] assms(2)
    by (simp add: bin_readInt64_def as_number_def wr32_def w nth_Cons')
qed

section \<open>Swapping 64 bits (endianness.h)\<close>

definition bswap64 :: "u64 \<Rightarrow> u64" where
  "bswap64 x =
     push_bit 56 x OR (push_bit 40 x AND 0xFF000000000000) OR (push_bit 24 x AND 0xFF0000000000) OR
     (push_bit 8 x AND 0xFF00000000) OR (drop_bit 8 x AND 0xFF000000) OR (drop_bit 24 x AND 0xFF0000) OR
     (drop_bit 40 x AND 0xFF00) OR drop_bit 56 x"

lemma mask64_eqs:
  "(0xFF000000000000 :: u64) = push_bit 48 (mask 8)" "(0xFF0000000000 :: u64) = push_bit 40 (mask 8)"
  "(0xFF00000000 :: u64) = push_bit 32 (mask 8)" "(0xFF000000 :: u64) = push_bit 24 (mask 8)"
  "(0xFF0000 :: u64) = push_bit 16 (mask 8)" "(0xFF00 :: u64) = push_bit 8 (mask 8)"
  by (simp_all add: mask_eq_exp_minus_1 push_bit_eq_mult)

lemma bit_bswap64:
  assumes "k < 8" and "r < 8"
  shows "bit (bswap64 x) (8 * k + r) \<longleftrightarrow> bit x (8 * (7 - k) + r)"
proof -
  have "k = 0 \<or> k = 1 \<or> k = 2 \<or> k = 3 \<or> k = 4 \<or> k = 5 \<or> k = 6 \<or> k = 7" using assms(1) by linarith
  then show ?thesis
    by (elim disjE; simp only: bswap64_def mask64_eqs bit_or_iff bit_and_iff bit_push_bit_iff bit_drop_bit_eq bit_mask_iff;
        use assms(2) in \<open>simp add: bit_word_beyond\<close>)
qed

lemma bswap64_bswap64: "bswap64 (bswap64 x) = x"
proof (rule bit_word_eqI)
  fix n assume "n < LENGTH(64)"
  then have k: "n div 8 < 8" "n mod 8 < 8" and n: "n = 8 * (n div 8) + n mod 8" by auto
  have "7 - (7 - n div 8) = n div 8" using k by simp
  then show "bit (bswap64 (bswap64 x)) n = bit x n"
    using bit_bswap64 [OF k] bit_bswap64 [of "7 - n div 8" "n mod 8"] k by (subst (1 2) n) simp
qed

section \<open>The header of a map, read from the stream\<close>

text \<open>The first reads of \<open>loadMapData\<close>, with the stream in place of the bytes that are left.\<close>

definition and_then ::
  "(err_t + 'a) \<times> reader \<Rightarrow> ('a \<Rightarrow> reader \<Rightarrow> (err_t + 'b) \<times> reader) \<Rightarrow> (err_t + 'b) \<times> reader" where
  "and_then r f = (case r of (Inl err, rd) \<Rightarrow> (Inl err, rd) | (Inr v, rd) \<Rightarrow> f v rd)"

definition skip :: "nat \<Rightarrow> reader \<Rightarrow> (err_t + unit) \<times> reader" where
  "skip n r =
     (case seek (int n) SEEK_CUR r of None \<Rightarrow> (Inl ERROR_BAD_STATE, r)
      | Some (err, r) \<Rightarrow> (if err = ERROR_SUCCESS then Inr () else Inl err, r))"

definition stream_header :: "reader \<Rightarrow> (err_t + u16 \<times> u16) \<times> reader" where
  "stream_header r =
     and_then (bin_readUInt32 r) (\<lambda>version r.
     and_then (bin_readUInt32 r) (\<lambda>data r.
     and_then (skip MAX_PATH r) (\<lambda>_ r.
     and_then (bin_readUInt32 r) (\<lambda>width r.
     and_then (bin_readUInt32 r) (\<lambda>height r.
       if width < UINT16_MAX \<and> height < UINT16_MAX then (Inr (ucast width, ucast height), r)
       else (Inl ERROR_BAD_LENGTH, r))))))"

text \<open>A result over streams stands for a result over bytes.\<close>

definition stands_for :: "(err_t + 'a) \<times> reader \<Rightarrow> (err_t + 'a \<times> u8 list) \<Rightarrow> bool" where
  "stands_for r w =
     (case w of Inl err \<Rightarrow> fst r = Inl err
      | Inr (v, rest) \<Rightarrow> (\<exists>s'. r = (Inr v, Some s') \<and> \<not> st_eof s' \<and> remaining s' = rest))"

lemma fetch_stands:
  assumes "agrees r w" and "\<And>v s'. \<not> st_eof s' \<Longrightarrow> stands_for (f v (Some s')) (g v (remaining s'))"
  shows "stands_for (and_then r f) (fetch w g)"
proof (cases w)
  case None
  then show ?thesis using assms(1) by (auto simp: agrees_def and_then_def stands_for_def)
next
  case (Some p)
  then obtain v s' where "w = Some (v, remaining s')" and "r = (Inr v, Some s')" and "\<not> st_eof s'"
    using assms(1) by (cases p) (auto simp: agrees_def)
  then show ?thesis using assms(2) [of s' v] by (simp add: and_then_def)
qed

lemma skip_stands:
  assumes "\<not> st_eof s" and "\<And>s'. \<not> st_eof s' \<Longrightarrow> remaining s' = drop n (remaining s) \<Longrightarrow> stands_for (f () (Some s')) w"
  shows "stands_for (and_then (skip n (Some s)) f) w"
  using seek_drops [of n s] assms(2) by (auto simp: skip_def and_then_def)

text \<open>C28: 
  The header of a map comes out of the stream as it comes out of the bytes that are left, and an
  error is the same error, also at the end of the file, where the seek over the name succeeds.
\<close>
theorem stream_header_refines:
  assumes "\<not> st_eof s"
  shows "stands_for (stream_header (Some s)) (map_sum id (\<lambda>(w, h, rd). ((w, h), rd)) (read_header (remaining s)))"
proof -
  have fetch_map: "map_sum id h (fetch w g) = fetch w (\<lambda>v rd. map_sum id h (g v rd))" for h w
    and g :: "u32 \<Rightarrow> u8 list \<Rightarrow> err_t + u16 \<times> u16 \<times> u8 list"
    by (simp add: fetch_def split: option.split)
  have size: "stands_for (if w < UINT16_MAX \<and> h < UINT16_MAX then (Inr (ucast w, ucast h), Some s') else (Inl ERROR_BAD_LENGTH, Some s'))
      (map_sum id (\<lambda>(w, h, rd). ((w, h), rd))
        (if w < UINT16_MAX \<and> h < UINT16_MAX then Inr (ucast w, ucast h, remaining s') else Inl ERROR_BAD_LENGTH))"
    if "\<not> st_eof s'" for w h :: u32 and s'
    using that by (simp add: stands_for_def)
  note step = fetch_stands [OF reads_agree(2)]
  have sizes: "stands_for
      (and_then (bin_readInt32 (Some s')) (\<lambda>width r. and_then (bin_readInt32 r) (\<lambda>height r.
         if width < UINT16_MAX \<and> height < UINT16_MAX then (Inr (ucast width, ucast height), r) else (Inl ERROR_BAD_LENGTH, r))))
      (fetch (rd32 (remaining s')) (\<lambda>width rd. fetch (rd32 rd) (\<lambda>height rd.
         map_sum id (\<lambda>(w, h, rd). ((w, h), rd))
           (if width < UINT16_MAX \<and> height < UINT16_MAX then Inr (ucast width, ucast height, rd) else Inl ERROR_BAD_LENGTH))))"
    if "\<not> st_eof s'" for s'
    by (intro step that) (assumption | rule size)+
  show ?thesis
    unfolding stream_header_def read_header_def fetch_map bin_readUInt32_def
    by (intro step assms skip_stands; (assumption | drule sizes; simp)?)
qed

text \<open>A file that ends inside of the name of the puzzle file: the seek passes, the next read fails.\<close>

lemma stream_header_refines_witness:
  "fst (stream_header (Some \<lparr>st_bytes = replicate 20 0, st_pos = 0, st_eof = False\<rparr>)) = Inl ERROR_READ_FAULT"
proof -
  let ?s = "\<lparr>st_bytes = replicate 20 0, st_pos = 0, st_eof = False\<rparr>"
  have "read_header (remaining ?s) = Inl ERROR_READ_FAULT"
    by (simp add: remaining_def read_header_def rd32_def numeral_eq_Suc MAX_PATH_def)
  then show ?thesis using stream_header_refines [of ?s] by (simp add: stands_for_def)
qed

end
