(* ===== verification/Logging.thy ===== *)
theory Logging
  imports Prelude
begin

text \<open>
  The log (\<^verbatim>\<open>Common/log.cpp\<close>).  Any thread formats its message and puts it in a queue; a thread of the
  logger takes the whole queue and writes it to the file.  Every critical section is one step, and so
  is what a thread does between two of them; the steps come in any order.  Formatted text and the
  time stamp are arguments.
\<close>

section \<open>Formatting\<close>

definition MAX_LOG_SIZE :: u64 where "MAX_LOG_SIZE = 4096"

text \<open>
  \<open>snprintf\<close> at a position of a buffer: it writes as much of the text as the size allows, then a zero.
  The size is what the caller says; \<open>None\<close> is a write outside of the buffer.
\<close>

definition snprintf_at :: "nat \<Rightarrow> u64 \<Rightarrow> u8 list \<Rightarrow> u8 list \<Rightarrow> u8 list option" where
  "snprintf_at pos lim chars buf =
     (if lim = 0 then Some buf
      else let w = take (unat lim - 1) chars @ [0] in
        if pos + length w \<le> length buf then Some (take pos buf @ w @ drop (pos + length w) buf) else None)"

text \<open>
  The length that \<open>snprintf\<close> returns is that of the whole text, and \<open>MAX_LOG_SIZE - len\<close> is computed in 64
  bits without a sign.
\<close>

definition log_message :: "u8 list \<Rightarrow> u8 list \<Rightarrow> u8 list \<Rightarrow> u8 list option" where
  "log_message prefix chars fresh =
     Option.bind (snprintf_at 0 MAX_LOG_SIZE prefix fresh) (\<lambda>buf.
     let len = length prefix in
     Option.bind (snprintf_at len (MAX_LOG_SIZE - of_nat len) chars buf) (\<lambda>buf.
     let len = len + length chars in
     snprintf_at len (MAX_LOG_SIZE - of_nat len) [0x0A] buf))"

text \<open>The string in the buffer.\<close>

definition stored :: "u8 list \<Rightarrow> u8 list" where "stored buf = takeWhile (\<lambda>c. c \<noteq> 0) buf"

section \<open>The logger\<close>

type_synonym log_data = "u8 list \<times> u8 list"

datatype log_level = LOG_LEVEL_VRB | LOG_LEVEL_DBG | LOG_LEVEL_INFO | LOG_LEVEL_WARN | LOG_LEVEL_ERROR

definition level_number :: "log_level \<Rightarrow> nat" where
  "level_number l = (case l of LOG_LEVEL_VRB \<Rightarrow> 0 | LOG_LEVEL_DBG \<Rightarrow> 1 | LOG_LEVEL_INFO \<Rightarrow> 2 | LOG_LEVEL_WARN \<Rightarrow> 3 | LOG_LEVEL_ERROR \<Rightarrow> 4)"

definition willLog :: "bool \<Rightarrow> log_level \<Rightarrow> bool" where
  "willLog instance aLevel \<longleftrightarrow> instance \<and> level_number LOG_LEVEL_DBG < level_number aLevel"

text \<open>
  Where the writing thread is: not started, about to open the file, about to lock, asleep in the
  wait, woken, writing what it took, returned; and where the destructor is.  \<open>Broken\<close> stands for the
  process after undefined behaviour.
\<close>

datatype writer = Unstarted | Opening | Locking | Asleep | Woken | Writing "log_data list" | Returned | Broken

datatype closer = InUse | Flagged | Joining | Deleted

record logger =
  mDestFolder :: "u8 list"
  mFile :: "u8 list"
  mQueue :: "log_data list"
  mHasToShutdown :: bool
  lg_writer :: writer
  lg_closer :: closer
  lg_formatted :: "log_data list"
  lg_queued :: "log_data list"
  lg_written :: "log_data list"

text \<open>
  \<open>lg_formatted\<close> are the messages of threads that are between their test of \<open>isRunning\<close> and the queue;
  \<open>lg_queued\<close> and \<open>lg_written\<close> record all that was queued and all that was written to the file.
\<close>

definition Logger :: logger where
  "Logger = \<lparr>mDestFolder = [], mFile = [], mQueue = [], mHasToShutdown = False, lg_writer = Unstarted, lg_closer = InUse,
     lg_formatted = [], lg_queued = [], lg_written = []\<rparr>"

definition isRunning :: "logger \<Rightarrow> bool" where
  "isRunning s \<longleftrightarrow> lg_writer s \<noteq> Unstarted \<and> lg_writer s \<noteq> Returned"

text \<open>
  \<open>QThread::start\<close> does nothing to a thread that runs.  The message that a second initialisation logs
  is a message like any other, in the steps below.
\<close>

definition Logger_init :: "u8 list \<Rightarrow> u8 list \<Rightarrow> logger \<Rightarrow> err_t \<times> logger" where
  "Logger_init aDestFolder aFile s =
     (if aDestFolder = [] \<or> aFile = [] then (ERROR_INVALID_PARAMETER, s)
      else if mDestFolder s = [] \<and> mFile s = []
      then (ERROR_SUCCESS, s\<lparr>mDestFolder := aDestFolder, mFile := aFile,
              lg_writer := if isRunning s then lg_writer s else Opening\<rparr>)
      else (ERROR_BAD_STATE, s))"

definition wakeAll :: "logger \<Rightarrow> logger" where
  "wakeAll s = s\<lparr>lg_writer := if lg_writer s = Asleep then Woken else lg_writer s\<rparr>"

definition queue_log :: "log_data \<Rightarrow> logger \<Rightarrow> logger" where
  "queue_log d s = wakeAll (s\<lparr>lg_formatted := remove1 d (lg_formatted s), mQueue := mQueue s @ [d], lg_queued := lg_queued s @ [d]\<rparr>)"

text \<open>A call of \<open>log\<close>, up to the lock: without a logger, or when its thread does not run, nothing happens.\<close>

definition Logger_log :: "u8 list \<Rightarrow> u8 list \<Rightarrow> u8 list \<Rightarrow> u8 list \<Rightarrow> logger \<Rightarrow> logger" where
  "Logger_log stamp prefix chars fresh s =
     (if lg_closer s = Deleted \<or> \<not> isRunning s then s
      else case log_message prefix chars fresh of
          None \<Rightarrow> s\<lparr>lg_writer := Broken\<rparr>
        | Some buf \<Rightarrow> s\<lparr>lg_formatted := (stamp, stored buf) # lg_formatted s\<rparr>)"

text \<open>The end of the critical section of \<open>run\<close>: to wait, or to take what is there.\<close>

definition wait_or_take :: "logger \<Rightarrow> logger" where
  "wait_or_take s =
     (if \<not> mHasToShutdown s \<and> mQueue s = [] then s\<lparr>lg_writer := Asleep\<rparr>
      else s\<lparr>lg_writer := Writing (mQueue s), mQueue := []\<rparr>)"

text \<open>
  One turn of the writing thread; the flag says whether the operation on the file succeeds.  When a
  write fails, the code steps back from the message to the one before and frees it: that one is
  freed already, or there is none.
\<close>

definition run_turn :: "bool \<Rightarrow> logger \<Rightarrow> logger" where
  "run_turn ok s =
     (case lg_writer s of
        Opening \<Rightarrow> if ok then s\<lparr>mDestFolder := [], mFile := [], lg_writer := Locking\<rparr> else s\<lparr>lg_writer := Returned\<rparr>
      | Locking \<Rightarrow> if mHasToShutdown s \<and> mQueue s = [] then s\<lparr>lg_writer := Returned\<rparr> else wait_or_take s
      | Woken \<Rightarrow> wait_or_take s
      | Writing [] \<Rightarrow> s\<lparr>lg_writer := Locking\<rparr>
      | Writing (d # ds) \<Rightarrow>
          if ok then s\<lparr>lg_writer := Writing ds, lg_written := lg_written s @ [d]\<rparr> else s\<lparr>lg_writer := Broken\<rparr>
      | _ \<Rightarrow> s)"

datatype log_event =
  Init_log "u8 list" "u8 list" | Format_log "u8 list" "u8 list" "u8 list" "u8 list" | Queue_log log_data
  | Run_turn bool | Wake_spuriously | Set_shutdown | Wake_for_shutdown | Join_writer

text \<open>What can happen next; \<open>None\<close> where the event is not possible in the state.\<close>

definition log_step :: "log_event \<Rightarrow> logger \<Rightarrow> logger option" where
  "log_step e s =
     (case e of
        Init_log dir file \<Rightarrow> if lg_closer s = InUse then Some (snd (Logger_init dir file s)) else None
      | Format_log stamp prefix chars fresh \<Rightarrow> Some (Logger_log stamp prefix chars fresh s)
      | Queue_log d \<Rightarrow>
          if d \<notin> set (lg_formatted s) then None
          else if lg_closer s = Deleted then Some (s\<lparr>lg_writer := Broken\<rparr>)
          else Some (queue_log d s)
      | Run_turn ok \<Rightarrow> Some (run_turn ok s)
      | Wake_spuriously \<Rightarrow> Some (wakeAll s)
      | Set_shutdown \<Rightarrow>
          if lg_closer s \<noteq> InUse then None
          else if isRunning s then Some (s\<lparr>mHasToShutdown := True, lg_closer := Flagged\<rparr>)
          else Some (s\<lparr>lg_closer := Deleted\<rparr>)
      | Wake_for_shutdown \<Rightarrow> if lg_closer s = Flagged then Some (wakeAll (s\<lparr>lg_closer := Joining\<rparr>)) else None
      | Join_writer \<Rightarrow> if lg_closer s = Joining \<and> lg_writer s = Returned then Some (s\<lparr>lg_closer := Deleted\<rparr>) else None)"

inductive log_reach :: "logger \<Rightarrow> bool" where
  created: "log_reach Logger"
| step: "log_reach s \<Longrightarrow> log_step e s = Some s' \<Longrightarrow> log_reach s'"

section \<open>Nothing is lost\<close>

definition in_hand :: "logger \<Rightarrow> log_data list" where
  "in_hand s = (case lg_writer s of Writing ds \<Rightarrow> ds | _ \<Rightarrow> [])"

text \<open>
  The history, and the reason why no wake-up is lost: a sleeping writer has an empty queue, and a
  destructor that waits for the writer has woken it.
\<close>

definition logger_ok :: "logger \<Rightarrow> bool" where
  "logger_ok s \<longleftrightarrow> lg_writer s = Broken \<or>
     (lg_queued s = lg_written s @ in_hand s @ mQueue s \<and>
      (lg_writer s = Asleep \<longrightarrow> mQueue s = [] \<and> lg_closer s \<noteq> Joining) \<and>
      (lg_closer s = InUse \<longrightarrow> \<not> mHasToShutdown s) \<and>
      (lg_closer s = Flagged \<or> lg_closer s = Joining \<longrightarrow> mHasToShutdown s \<and> lg_writer s \<noteq> Unstarted) \<and>
      (lg_closer s = Deleted \<longrightarrow> \<not> isRunning s))"

lemma wakeAll_simps [simp]:
  "mQueue (wakeAll s) = mQueue s" "lg_queued (wakeAll s) = lg_queued s" "lg_written (wakeAll s) = lg_written s"
  "lg_closer (wakeAll s) = lg_closer s" "mHasToShutdown (wakeAll s) = mHasToShutdown s" "in_hand (wakeAll s) = in_hand s"
  "lg_writer (wakeAll s) \<noteq> Asleep" "lg_writer (wakeAll s) = Broken \<longleftrightarrow> lg_writer s = Broken"
  "lg_writer (wakeAll s) = Unstarted \<longleftrightarrow> lg_writer s = Unstarted" "isRunning (wakeAll s) \<longleftrightarrow> isRunning s"
  by (auto simp: wakeAll_def in_hand_def isRunning_def)

lemma run_turn_ok: "logger_ok s \<Longrightarrow> logger_ok (run_turn ok s)"
  by (auto simp: logger_ok_def run_turn_def wait_or_take_def in_hand_def isRunning_def
      split: writer.splits list.splits)

lemma queue_log_ok: "logger_ok s \<Longrightarrow> lg_closer s \<noteq> Deleted \<Longrightarrow> logger_ok (queue_log d s)"
  by (auto simp: logger_ok_def queue_log_def in_hand_def wakeAll_def isRunning_def split: writer.splits)

lemma Logger_init_ok: "logger_ok s \<Longrightarrow> lg_closer s = InUse \<Longrightarrow> logger_ok (snd (Logger_init dir file s))"
  by (auto simp: logger_ok_def Logger_init_def in_hand_def isRunning_def split: writer.splits)

lemma logger_ok_simps [simp]:
  "logger_ok (s\<lparr>lg_formatted := ds\<rparr>) \<longleftrightarrow> logger_ok s" "logger_ok (s\<lparr>lg_writer := Broken\<rparr>)"
  by (simp_all add: logger_ok_def in_hand_def isRunning_def)

lemma wakeAll_ok: "logger_ok s \<Longrightarrow> logger_ok (wakeAll s)"
  by (auto simp: logger_ok_def)

lemma shutdown_ok: "logger_ok s \<Longrightarrow> isRunning s \<Longrightarrow> logger_ok (s\<lparr>mHasToShutdown := True, lg_closer := Flagged\<rparr>)"
  by (auto simp: logger_ok_def in_hand_def isRunning_def)

lemma joining_ok: "logger_ok s \<Longrightarrow> lg_closer s = Flagged \<Longrightarrow> logger_ok (wakeAll (s\<lparr>lg_closer := Joining\<rparr>))"
  by (auto simp: logger_ok_def in_hand_def isRunning_def wakeAll_def)

lemma deleted_ok: "logger_ok s \<Longrightarrow> \<not> isRunning s \<Longrightarrow> logger_ok (s\<lparr>lg_closer := Deleted\<rparr>)"
  by (auto simp: logger_ok_def in_hand_def isRunning_def)

lemma log_step_ok:
  assumes "logger_ok s" and "log_step e s = Some s'"
  shows "logger_ok s'"
proof (cases e)
  case (Set_shutdown)
  then show ?thesis using assms shutdown_ok [OF assms(1)] deleted_ok [OF assms(1)]
    by (simp add: log_step_def split: if_splits)
next
  case Join_writer
  then show ?thesis using assms deleted_ok [OF assms(1)] by (simp add: log_step_def isRunning_def split: if_splits)
qed (use assms wakeAll_ok [OF assms(1)] joining_ok [OF assms(1)] run_turn_ok [OF assms(1)] queue_log_ok [OF assms(1)]
      Logger_init_ok [OF assms(1)] in \<open>auto simp: log_step_def Logger_log_def split: if_splits option.splits\<close>)

lemma Logger_ok: "logger_ok Logger"
  by (simp add: logger_ok_def Logger_def in_hand_def isRunning_def)

lemma log_reach_ok: "log_reach s \<Longrightarrow> logger_ok s"
  by (induction rule: log_reach.induct) (auto simp: Logger_ok log_step_ok)

text \<open>C26: 
  In every state the file, what the writer has in hand and the queue are, in this order, all
  the messages that were queued: none is lost, doubled or overtaken.  A writer that sleeps has written
  everything, and the destructor never waits for a writer that sleeps.
\<close>
theorem log_keeps_order:
  assumes "log_reach s" and "lg_writer s \<noteq> Broken"
  shows "lg_queued s = lg_written s @ in_hand s @ mQueue s \<and>
    (lg_writer s = Asleep \<longrightarrow> lg_written s = lg_queued s \<and> lg_closer s \<noteq> Joining)"
  using log_reach_ok [OF assms(1)] assms(2) by (auto simp: logger_ok_def in_hand_def)

section \<open>The end of the logger\<close>

text \<open>The turns that a writer needs that was told to end, when nobody logs any more.\<close>

definition take_turns :: "logger \<Rightarrow> nat" where
  "take_turns s = (if mQueue s = [] then 1 else length (mQueue s) + 3)"

definition turns_left :: "logger \<Rightarrow> nat" where
  "turns_left s =
     (case lg_writer s of
        Opening \<Rightarrow> Suc (take_turns s)
      | Locking \<Rightarrow> take_turns s
      | Woken \<Rightarrow> length (mQueue s) + 3
      | Writing ds \<Rightarrow> Suc (length ds + take_turns s)
      | _ \<Rightarrow> 0)"

definition ending :: "logger \<Rightarrow> bool" where
  "ending s \<longleftrightarrow> mHasToShutdown s \<and> lg_writer s \<notin> {Unstarted, Asleep, Broken}"

lemma run_turn_ending:
  assumes "ending s" and "lg_writer s \<noteq> Returned"
  shows "ending (run_turn True s)" and "turns_left (run_turn True s) < turns_left s"
    and "lg_writer (run_turn True s) = Returned \<Longrightarrow> mQueue (run_turn True s) = []"
    and "lg_queued (run_turn True s) = lg_queued s" and "lg_closer (run_turn True s) = lg_closer s"
  using assms
  by (auto simp: ending_def run_turn_def wait_or_take_def turns_left_def take_turns_def
      split: writer.splits list.splits if_splits)

lemma writer_ends:
  assumes "ending s" and "lg_writer s \<noteq> Returned" and "logger_ok s"
  shows "\<exists>n \<le> turns_left s. let s' = (run_turn True ^^ n) s in
    lg_writer s' = Returned \<and> lg_written s' = lg_queued s \<and> lg_closer s' = lg_closer s"
  using assms
proof (induction "turns_left s" arbitrary: s rule: less_induct)
  case less
  let ?t = "run_turn True s"
  note t = run_turn_ending [OF less.prems(1,2)] run_turn_ok [OF less.prems(3), of True]
  show ?case
  proof (cases "lg_writer ?t = Returned")
    case True
    then have "lg_written ?t = lg_queued s"
      using t by (auto simp: logger_ok_def in_hand_def)
    then have "let s' = (run_turn True ^^ 1) s in
        lg_writer s' = Returned \<and> lg_written s' = lg_queued s \<and> lg_closer s' = lg_closer s"
      using True t by (simp add: Let_def)
    then show ?thesis using t(2) by (intro exI [of _ 1]) simp
  next
    case False
    then obtain n where n: "n \<le> turns_left ?t"
      and r: "let s' = (run_turn True ^^ n) ?t in
        lg_writer s' = Returned \<and> lg_written s' = lg_queued ?t \<and> lg_closer s' = lg_closer ?t"
      using less.hyps [OF t(2,1) _ t(6)] by blast
    then have "let s' = (run_turn True ^^ Suc n) s in
        lg_writer s' = Returned \<and> lg_written s' = lg_queued s \<and> lg_closer s' = lg_closer s"
      using t(4,5) by (simp add: Let_def funpow_swap1 del: funpow.simps add: funpow.simps)
    then show ?thesis using n t(2) by (intro exI [of _ "Suc n"]) simp
  qed
qed

text \<open>C25: 
  When the destructor has woken the writer, the writer ends after a bounded number of turns with
  everything in the file that was queued, and the destructor goes on; it is assumed that the writes
  succeed.
\<close>
theorem shutdown_writes_everything:
  assumes "log_reach s" and "lg_closer s = Joining" and "lg_writer s \<noteq> Broken" and "lg_writer s \<noteq> Returned"
  shows "\<exists>n \<le> length (in_hand s) + length (mQueue s) + 4. let s' = (run_turn True ^^ n) s in
    lg_written s' = lg_queued s \<and> log_step Join_writer s' = Some (s'\<lparr>lg_closer := Deleted\<rparr>)"
proof -
  have ok: "logger_ok s" by (rule log_reach_ok [OF assms(1)])
  then have e: "ending s" using assms(2-4) by (auto simp: logger_ok_def ending_def)
  have "turns_left s \<le> length (in_hand s) + length (mQueue s) + 4"
    by (auto simp: turns_left_def take_turns_def in_hand_def split: writer.splits)
  moreover obtain n where "n \<le> turns_left s" and "lg_writer ((run_turn True ^^ n) s) = Returned"
      and "lg_written ((run_turn True ^^ n) s) = lg_queued s" and "lg_closer ((run_turn True ^^ n) s) = Joining"
    using writer_ends [OF e assms(4) ok] assms(2) by (auto simp: Let_def)
  ultimately show ?thesis by (intro exI [of _ n]) (simp add: log_step_def Let_def)
qed

text \<open>
  A message whose thread tested \<open>isRunning\<close> in time but came to the queue after the writer had ended is in
  the queue that the destructor frees.
\<close>

lemma late_message_is_lost:
  assumes "lg_writer s = Returned"
  shows "run_turn ok s = s"
  using assms by (simp add: run_turn_def)

text \<open>
  The thread clears the two names when it has opened the file, so that only an early second
  initialisation is refused.
\<close>

lemma second_init_succeeds:
  assumes "lg_writer s = Opening" and "mFile s \<noteq> []" and "aDestFolder \<noteq> []" and "aFile \<noteq> []"
  shows "fst (Logger_init aDestFolder aFile s) = ERROR_BAD_STATE"
    and "fst (Logger_init aDestFolder aFile (run_turn True s)) = ERROR_SUCCESS"
  using assms by (simp_all add: Logger_init_def run_turn_def)

section \<open>Long messages\<close>

lemma log_room: "len \<le> 4096 \<Longrightarrow> unat (MAX_LOG_SIZE - of_nat len) = 4096 - len"
  by (simp add: MAX_LOG_SIZE_def unat_sub word_le_nat_alt unat_of_nat)

lemma log_room_wraps:
  assumes "4096 < len" and "len < 2 ^ 32"
  shows "2 ^ 63 < unat (MAX_LOG_SIZE - of_nat len)"
proof -
  have "unat (MAX_LOG_SIZE - of_nat len) = (2 ^ 64 + 4096 - len) mod 2 ^ 64"
    using assms by (simp add: MAX_LOG_SIZE_def unat_sub_if' word_le_nat_alt unat_of_nat)
  also have "\<dots> = 2 ^ 64 + 4096 - len" using assms by simp
  finally show ?thesis using assms by simp
qed

lemma snprintf_in_log:
  assumes "length buf = 4096" and "pos < 2 ^ 32" and "length chars < 2 ^ 32"
  shows "snprintf_at pos (MAX_LOG_SIZE - of_nat pos) chars buf =
    (if pos < 4096 then Some (take pos buf @ take (4095 - pos) chars @ 0 # drop (pos + length (take (4095 - pos) chars) + 1) buf)
     else if pos = 4096 then Some buf else None)"
proof (cases "4096 < pos")
  case True
  then have "unat (MAX_LOG_SIZE - of_nat pos) \<noteq> 0" using log_room_wraps [of pos] assms(2) by auto
  then show ?thesis using True assms by (auto simp: snprintf_at_def Let_def)
next
  case False
  then have room: "unat (MAX_LOG_SIZE - of_nat pos) = 4096 - pos" by (simp add: log_room)
  then have full: "MAX_LOG_SIZE - of_nat pos = 0 \<longleftrightarrow> pos = 4096" using False
    by (metis diff_is_0_eq le_antisym not_le_imp_less unat_eq_zero)
  show ?thesis using False assms unfolding snprintf_at_def full room
    by (auto simp: Let_def)
qed

text \<open>
  Up to the size of the buffer the message is stored, cut off at the end, first of all the end of the
  line; a longer one is written beyond the buffer.
\<close>
theorem log_message_overflows:
  assumes "length fresh = 4096" and "length prefix < 2 ^ 31" and "length chars < 2 ^ 31"
  shows "log_message prefix chars fresh = None \<longleftrightarrow> 4096 < length prefix + length chars"
proof -
  have one: "snprintf_at 0 MAX_LOG_SIZE prefix fresh =
      Some (take 4095 prefix @ 0 # drop (length (take 4095 prefix) + 1) fresh)"
    using snprintf_in_log [of fresh 0 prefix] assms by simp
  let ?b1 = "take 4095 prefix @ 0 # drop (length (take 4095 prefix) + 1) fresh"
  have l1: "length ?b1 = 4096" using assms(1) by auto
  show ?thesis
  proof (cases "snprintf_at (length prefix) (MAX_LOG_SIZE - of_nat (length prefix)) chars ?b1")
    case None
    then have "4096 < length prefix" using snprintf_in_log [OF l1, of "length prefix" chars] assms by (auto split: if_splits)
    then show ?thesis using None one by (simp add: log_message_def)
  next
    case (Some b2)
    then have le: "length prefix \<le> 4096" and l2: "length b2 = 4096"
      using snprintf_in_log [OF l1, of "length prefix" chars] assms l1 by (auto split: if_splits)
    show ?thesis using snprintf_in_log [OF l2, of "length prefix + length chars" "[0x0A]"] assms one Some
      by (simp add: log_message_def Let_def)
  qed
qed

lemma log_message_stored:
  assumes "length fresh = 4096" and "length prefix + length chars < 4095"
    and "list_all (\<lambda>c. c \<noteq> 0) (prefix @ chars)"
  shows "\<exists>buf. log_message prefix chars fresh = Some buf \<and> stored buf = prefix @ chars @ [0x0A]"
proof -
  define b1 where "b1 = prefix @ 0 # drop (length prefix + 1) fresh"
  have one: "snprintf_at 0 MAX_LOG_SIZE prefix fresh = Some b1" and l1: "length b1 = 4096"
    using snprintf_in_log [of fresh 0 prefix] assms(1,2) by (auto simp: b1_def)
  define b2 where "b2 = prefix @ chars @ 0 # drop (length prefix + length chars + 1) b1"
  have two: "snprintf_at (length prefix) (MAX_LOG_SIZE - of_nat (length prefix)) chars b1 = Some b2"
    and l2: "length b2 = 4096"
    using snprintf_in_log [OF l1, of "length prefix" chars] assms(2) l1 by (auto simp: b2_def) (simp add: b1_def)
  have three: "snprintf_at (length prefix + length chars) (MAX_LOG_SIZE - of_nat (length prefix + length chars)) [0x0A] b2 =
      Some (prefix @ chars @ 0x0A # 0 # drop (length prefix + length chars + 2) b2)"
    using snprintf_in_log [OF l2, of "length prefix + length chars" "[0x0A]"] assms(2) by (simp add: b2_def)
  have all: "takeWhile (\<lambda>c. c \<noteq> 0) (prefix @ chars @ 0x0A # 0 # rest) = prefix @ chars @ [0x0A]" for rest
    using assms(3) takeWhile_append2 [of "prefix @ chars @ [0x0A]" "\<lambda>c. c \<noteq> 0" "0 # rest"] by (auto simp: list_all_iff)
  show ?thesis using one two three all by (simp add: log_message_def stored_def Let_def)
qed

section \<open>A run\<close>

text \<open>The file is opened, one message is logged, and the logger is told to end before it was written.\<close>

definition sample_log :: log_data where "sample_log = ([], [0x49, 0x41, 0x0A])"

definition sample_ending :: logger where
  "sample_ending = Logger\<lparr>mQueue := [sample_log], mHasToShutdown := True, lg_writer := Locking, lg_closer := Joining,
     lg_queued := [sample_log]\<rparr>"

fun log_run :: "log_event list \<Rightarrow> logger \<Rightarrow> logger option" where
  "log_run [] s = Some s"
| "log_run (e # es) s = Option.bind (log_step e s) (log_run es)"

lemma log_run_reach: "log_run es s = Some s' \<Longrightarrow> log_reach s \<Longrightarrow> log_reach s'"
  by (induction es arbitrary: s) (auto simp: bind_eq_Some_conv intro: log_reach.step)

lemma sample_ending_reached: "log_reach sample_ending"
proof -
  have m: "\<exists>buf. log_message [0x49] [0x41] (replicate 4096 0) = Some buf \<and> stored buf = [0x49, 0x41, 0x0A]"
    using log_message_stored [of "replicate 4096 0" "[0x49]" "[0x41]"] by simp
  have "log_run [Init_log [0x2E] [0x7A], Run_turn True, Format_log [] [0x49] [0x41] (replicate 4096 0), Queue_log sample_log,
      Set_shutdown, Wake_for_shutdown] Logger = Some sample_ending"
    using m by (auto simp: log_step_def Logger_log_def Logger_init_def Logger_def run_turn_def isRunning_def queue_log_def wakeAll_def
        sample_ending_def sample_log_def)
  then show ?thesis using log_run_reach log_reach.created by blast
qed

lemma log_keeps_order_witness:
  "lg_queued sample_ending = lg_written sample_ending @ in_hand sample_ending @ mQueue sample_ending"
proof -
  have "lg_writer sample_ending \<noteq> Broken" by (simp add: sample_ending_def)
  then show ?thesis using log_keeps_order [OF sample_ending_reached] by blast
qed

lemma shutdown_writes_everything_witness:
  "\<exists>n \<le> 5. lg_written ((run_turn True ^^ n) sample_ending) = [sample_log]"
  using shutdown_writes_everything [OF sample_ending_reached]
  by (simp add: sample_ending_def in_hand_def Let_def) blast

lemma log_message_overflows_witness:
  "log_message [0x49] (replicate 4096 0x41) (replicate 4096 0) = None \<and> log_message [0x49] (replicate 4095 0x41) (replicate 4096 0) \<noteq> None"
  using log_message_overflows [of "replicate 4096 0" "[0x49]" "replicate 4096 0x41"]
    log_message_overflows [of "replicate 4096 0" "[0x49]" "replicate 4095 0x41"] by simp

end
