(* ===== verification/Globals.thy ===== *)
theory Globals
  imports Prelude
begin

text \<open>
  The global objects (\<^verbatim>\<open>Common/env.cpp\<close>): how several threads get at a singleton that is made on its first
  use, which is the same code for the environment, the logger, the database, the maps and the world; and how the
  environment destroys the objects that have registered.  Objects are numbers.
\<close>

section \<open>Getting the instance\<close>

text \<open>Where a thread is in \<open>getInstance\<close>: outside, at the first test, at the counter, in the waiting loop, in the
  constructor, returned with an object.\<close>

datatype phase = Outside | Testing | Counting | Spinning | Making | Using nat

record singleton =
  sInstance :: "nat option"
  protect :: nat
  sg_phase :: "nat \<Rightarrow> phase"
  sg_made :: "nat list"

definition singleton :: singleton where
  "singleton = \<lparr>sInstance = None, protect = 0, sg_phase = (\<lambda>_. Outside), sg_made = []\<rparr>"

definition in_phase :: "nat \<Rightarrow> phase \<Rightarrow> singleton \<Rightarrow> singleton" where
  "in_phase t p s = s\<lparr>sg_phase := (sg_phase s)(t := p)\<rparr>"

text \<open>A call by the thread, and its next step; the address is that of the object if this thread makes it.\<close>

definition get_call :: "nat \<Rightarrow> singleton \<Rightarrow> singleton" where
  "get_call t s = (case sg_phase s t of Outside \<Rightarrow> in_phase t Testing s | Using _ \<Rightarrow> in_phase t Testing s | _ \<Rightarrow> s)"

definition getInstance :: "nat \<Rightarrow> nat \<Rightarrow> singleton \<Rightarrow> singleton" where
  "getInstance t new s =
     (case sg_phase s t of
        Testing \<Rightarrow> (case sInstance s of None \<Rightarrow> in_phase t Counting s | Some a \<Rightarrow> in_phase t (Using a) s)
      | Counting \<Rightarrow>
          let s = s\<lparr>protect := protect s + 1\<rparr> in
          if protect s = 1 then in_phase t Making s else in_phase t Spinning s
      | Spinning \<Rightarrow> (case sInstance s of None \<Rightarrow> s | Some a \<Rightarrow> in_phase t (Using a) s)
      | Making \<Rightarrow> in_phase t (Using new) (s\<lparr>sInstance := Some new, sg_made := new # sg_made s\<rparr>)
      | _ \<Rightarrow> s)"

definition destroy :: "singleton \<Rightarrow> singleton" where "destroy s = s\<lparr>sInstance := None\<rparr>"

inductive get_reach :: "singleton \<Rightarrow> singleton \<Rightarrow> bool" for s0 where
  start: "get_reach s0 s0"
| call: "get_reach s0 s \<Longrightarrow> get_reach s0 (get_call t s)"
| turn: "get_reach s0 s \<Longrightarrow> get_reach s0 (getInstance t new s)"

definition single_ok :: "singleton \<Rightarrow> bool" where
  "single_ok s \<longleftrightarrow>
     (\<forall>t u. sg_phase s t = Making \<longrightarrow> sg_phase s u = Making \<longrightarrow> t = u) \<and>
     (\<forall>t. sg_phase s t = Making \<longrightarrow> sInstance s = None) \<and>
     (sg_made s = (case sInstance s of None \<Rightarrow> [] | Some a \<Rightarrow> [a])) \<and>
     (\<forall>t a. sg_phase s t = Using a \<longrightarrow> sInstance s = Some a) \<and>
     (0 < protect s \<longrightarrow> sInstance s \<noteq> None \<or> (\<exists>t. sg_phase s t = Making)) \<and>
     (protect s = 0 \<longrightarrow> sInstance s = None \<and> (\<forall>t. sg_phase s t \<noteq> Making \<and> sg_phase s t \<noteq> Spinning))"

lemma singleton_ok: "single_ok singleton" by (simp add: single_ok_def singleton_def)

lemma in_phase_simps [simp]:
  "sInstance (in_phase t p s) = sInstance s" "protect (in_phase t p s) = protect s" "sg_made (in_phase t p s) = sg_made s"
  "sg_phase (in_phase t p s) u = (if u = t then p else sg_phase s u)"
  by (simp_all add: in_phase_def)

lemma get_call_ok:
  assumes "single_ok s" shows "single_ok (get_call t s)"
proof (cases "sg_phase s t = Outside \<or> (\<exists>a. sg_phase s t = Using a)")
  case True
  then have c: "get_call t s = in_phase t Testing s" and m: "sg_phase s t \<noteq> Making" by (auto simp: get_call_def)
  show ?thesis using assms m unfolding c single_ok_def by (simp, metis)
next
  case False
  then have "get_call t s = s" by (simp add: get_call_def split: phase.split)
  then show ?thesis using assms by simp
qed

lemma getInstance_ok:
  assumes "single_ok s" shows "single_ok (getInstance t new s)"
proof (cases "sg_phase s t")
  case Testing
  then have m: "sg_phase s u = Making \<longleftrightarrow> u \<noteq> t \<and> sg_phase s u = Making" for u by auto
  show ?thesis
  proof (cases "sInstance s")
    case None
    then have c: "getInstance t new s = in_phase t Counting s" using Testing by (simp add: getInstance_def)
    show ?thesis using assms m None unfolding c single_ok_def by simp metis
  next
    case (Some a)
    then have c: "getInstance t new s = in_phase t (Using a) s" using Testing by (simp add: getInstance_def)
    show ?thesis using assms m Some unfolding c single_ok_def by simp
  qed
next
  case Counting
  then have m: "sg_phase s u = Making \<Longrightarrow> u \<noteq> t" for u by auto
  show ?thesis using assms Counting
    by (cases "protect s = 0") (auto simp: getInstance_def single_ok_def Let_def dest: m)
next
  case Spinning
  then show ?thesis using assms by (cases "sInstance s") (auto simp: getInstance_def single_ok_def)
next
  case Making
  then show ?thesis using assms by (auto simp: getInstance_def single_ok_def)
qed (use assms in \<open>simp_all add: getInstance_def\<close>)

lemma get_reach_ok: "get_reach s0 s \<Longrightarrow> single_ok s0 \<Longrightarrow> single_ok s"
  by (induction rule: get_reach.induct) (auto intro: get_call_ok getInstance_ok)

text \<open>C27: However the threads interleave, one object is made and everybody gets it; nobody waits for nothing.\<close>
theorem one_instance:
  assumes "get_reach singleton s"
  shows "length (sg_made s) \<le> 1 \<and> (\<forall>t a. sg_phase s t = Using a \<longrightarrow> sg_made s = [a]) \<and>
    (\<forall>t. sg_phase s t = Spinning \<longrightarrow> sg_made s \<noteq> [] \<or> (\<exists>u. sg_phase s u = Making))"
  using get_reach_ok [OF assms singleton_ok] by (auto simp: single_ok_def split: option.splits)

text \<open>
  The counter stays when the object is destroyed: whoever asks afterwards waits for ever.
\<close>

definition gone_for_good :: "singleton \<Rightarrow> bool" where
  "gone_for_good s \<longleftrightarrow> sInstance s = None \<and> 0 < protect s \<and> (\<forall>t. sg_phase s t \<noteq> Making)"

lemma gone_for_good_stays:
  assumes "gone_for_good s"
  shows "gone_for_good (get_call t s)" and "gone_for_good (getInstance t new s)"
  using assms by (auto simp: gone_for_good_def get_call_def getInstance_def Let_def split: phase.split)

lemma gone_for_good_nobody:
  "gone_for_good s \<Longrightarrow> sg_phase (getInstance t new s) u = Using a \<Longrightarrow> sg_phase s u = Using a"
  "sg_phase (get_call t s) u = Using a \<Longrightarrow> sg_phase s u = Using a"
  by (auto simp: gone_for_good_def get_call_def getInstance_def Let_def split: phase.splits if_splits)

theorem destroyed_for_ever:
  assumes "get_reach (destroy s0) s" and "single_ok s0" and "sInstance s0 \<noteq> None"
  shows "sInstance s = None \<and> (\<forall>t a. sg_phase s t = Using a \<longrightarrow> sg_phase s0 t = Using a)"
proof -
  have "0 < protect s0 \<and> (\<forall>t. sg_phase s0 t \<noteq> Making)"
    using assms(2,3) by (auto simp: single_ok_def)
  then have g: "gone_for_good (destroy s0)" by (simp add: gone_for_good_def destroy_def)
  have "gone_for_good s \<and> (\<forall>t a. sg_phase s t = Using a \<longrightarrow> sg_phase s0 t = Using a)"
    using assms(1)
  proof induction
    case start
    then show ?case using g by (simp add: destroy_def)
  next
    case (call s t)
    then show ?case using gone_for_good_stays(1) gone_for_good_nobody(2) by blast
  next
    case (turn s t new)
    then show ?case using gone_for_good_stays(2) gone_for_good_nobody(1) by blast
  qed
  then show ?thesis by (simp add: gone_for_good_def)
qed

section \<open>The environment\<close>

record env =
  mObjects :: "nat list"
  mIsDestroying :: bool

definition Environment :: env where "Environment = \<lparr>mObjects = [], mIsDestroying = False\<rparr>"

definition registerObj :: "nat \<Rightarrow> env \<Rightarrow> env" where "registerObj aObj e = e\<lparr>mObjects := mObjects e @ [aObj]\<rparr>"

definition unregisterObj :: "nat \<Rightarrow> env \<Rightarrow> env" where
  "unregisterObj aObj e = (if mIsDestroying e then e else e\<lparr>mObjects := remove1 aObj (mObjects e)\<rparr>)"

text \<open>
  The loop of the destructor runs over the vector by an iterator; the destructor of an object takes
  itself off the vector, which would move what the iterator points at.  The model reads the vector by
  index, as the iterator does.
\<close>

fun delete_objects :: "nat \<Rightarrow> nat \<Rightarrow> env \<Rightarrow> nat list \<times> env" where
  "delete_objects 0 i e = ([], e)"
| "delete_objects (Suc n) i e =
     (if i < length (mObjects e) then
        let obj = mObjects e ! i; (dead, e) = delete_objects n (Suc i) (unregisterObj obj e) in (obj # dead, e)
      else ([], e))"

definition delete_environment :: "env \<Rightarrow> nat list \<times> env" where
  "delete_environment e =
     (let e = e\<lparr>mIsDestroying := True\<rparr>; (dead, e) = delete_objects (length (mObjects e)) 0 e
      in (dead, e\<lparr>mObjects := []\<rparr>))"

lemma delete_objects_all:
  "mIsDestroying e \<Longrightarrow> i + n = length (mObjects e) \<Longrightarrow> delete_objects n i e = (drop i (mObjects e), e)"
  by (induction n i e rule: delete_objects.induct) (auto simp: unregisterObj_def Let_def Cons_nth_drop_Suc)

lemma delete_environment_all: "fst (delete_environment e) = mObjects e"
  using delete_objects_all [of "e\<lparr>mIsDestroying := True\<rparr>" 0] by (simp add: delete_environment_def Let_def)

datatype env_event = Register nat | Unregister nat

fun env_run :: "env_event list \<Rightarrow> env \<Rightarrow> env" where
  "env_run [] e = e"
| "env_run (Register obj # es) e = env_run es (registerObj obj e)"
| "env_run (Unregister obj # es) e = env_run es (unregisterObj obj e)"

text \<open>Objects exist once: a constructor registers a new one, a destructor one that is there.\<close>

fun env_live :: "env_event list \<Rightarrow> nat set \<Rightarrow> nat set option" where
  "env_live [] live = Some live"
| "env_live (Register obj # es) live = (if obj \<in> live then None else env_live es (insert obj live))"
| "env_live (Unregister obj # es) live = (if obj \<in> live then env_live es (live - {obj}) else None)"

lemma env_run_live:
  assumes "env_live es (set (mObjects e)) = Some live" and "distinct (mObjects e)" and "\<not> mIsDestroying e"
  shows "set (mObjects (env_run es e)) = live \<and> distinct (mObjects (env_run es e))"
  using assms
proof (induction es arbitrary: e)
  case (Cons ev es)
  show ?case
  proof (cases ev)
    case (Register obj)
    then show ?thesis using Cons.prems Cons.IH [of "registerObj obj e"]
      by (auto simp: registerObj_def split: if_splits)
  next
    case (Unregister obj)
    then show ?thesis using Cons.prems Cons.IH [of "unregisterObj obj e"]
      by (auto simp: unregisterObj_def split: if_splits)
  qed
qed simp

text \<open>At exit every object that is still there is destroyed, once, and no other.\<close>

theorem exit_destroys_each_once:
  assumes "env_live es {} = Some live"
  shows "set (fst (delete_environment (env_run es Environment))) = live \<and>
    distinct (fst (delete_environment (env_run es Environment)))"
  using env_run_live [of es Environment live] assms by (simp add: delete_environment_all Environment_def)

text \<open>
  The order is that of the constructors.  The server makes the logger, the database, the state of Lua, the maps
  and the world in this order, so that the maps are freed while the workers of the world still run: only the
  destructor of the world stops them.
\<close>

lemma exit_in_order_of_construction:
  "fst (delete_environment (env_run (map Register objs) Environment)) = objs"
proof -
  have "mObjects (env_run (map Register objs) e) = mObjects e @ objs" for e
    by (induction objs arbitrary: e) (simp_all add: registerObj_def)
  then show ?thesis by (simp add: delete_environment_all Environment_def)
qed

datatype global_object = The_Logger | The_Database | The_Lua_State | The_MapManager | The_World

definition server_globals :: "global_object list" where
  "server_globals = [The_Logger, The_Database, The_Lua_State, The_MapManager, The_World]"

lemma maps_die_before_the_world:
  "map ((!) server_globals) (fst (delete_environment (env_run (map Register [0..<length server_globals]) Environment))) =
     [The_Logger, The_Database, The_Lua_State, The_MapManager, The_World]"
  unfolding exit_in_order_of_construction map_nth by (simp add: server_globals_def)

section \<open>Two threads\<close>

text \<open>Both pass the first test before anything is made; one makes the object and the other waits for it.\<close>

definition two_threads :: singleton where
  "two_threads = getInstance 0 7 (getInstance 1 8 (getInstance 0 7 (getInstance 1 8 (getInstance 0 7
     (get_call 1 (get_call 0 singleton))))))"

lemma two_threads_reached: "get_reach singleton two_threads"
  unfolding two_threads_def by (intro get_reach.intros)

lemma two_threads_phases: "sg_phase two_threads 0 = Using 7" "sg_phase two_threads 1 = Spinning" "sInstance two_threads = Some 7"
  by (simp_all add: two_threads_def singleton_def get_call_def getInstance_def Let_def)

lemma one_instance_witness: "sg_made two_threads = [7]"
  using one_instance [OF two_threads_reached] two_threads_phases(1) by simp

lemma destroyed_for_ever_witness: "sg_phase (getInstance 1 9 (destroy two_threads)) 1 \<noteq> Using 7"
  using destroyed_for_ever [OF get_reach.turn [OF get_reach.start], of two_threads 1 9]
    get_reach_ok [OF two_threads_reached singleton_ok] two_threads_phases by auto

lemma exit_destroys_each_once_witness:
  "set (fst (delete_environment (env_run [Register 1, Register 2, Unregister 1, Register 3] Environment))) = {2, 3}"
proof -
  have "env_live [Register 1, Register 2, Unregister 1, Register 3] {} = Some {2, 3}" by auto
  from exit_destroys_each_once [OF this] show ?thesis by simp
qed

end
