(* ===== verification/Spec2Isabelle.thy ===== *)
theory Spec2Isabelle
  imports TqCipher RC5 Blowfish Cast5 BaseFunc Item Timers PlayerItems PlayerTick WorldRun Session PlayerMsgs Packets Incoming Rows LoginSteps PlayerWorker Talk Startup Streams Logging Globals
begin

text \<open>
  COPS v7 Emulator is a game server in C++: an account service and a game world behind two TCP
  ports (\<^verbatim>\<open>server.cpp\<close>).  A connection has a cipher; the bytes that arrive are decrypted, cut into
  messages and handed to the handler of the message's class (\<^verbatim>\<open>Network/\<close>); handlers act on the
  player of the connection (\<^verbatim>\<open>Entity/player.cpp\<close>), on the maps (\<^verbatim>\<open>Map/\<close>) and on the other players
  in view; generators (\<^verbatim>\<open>generator.cpp\<close>) populate the maps with monsters.

  \<^bold>\<open>Conventions.\<close>  Machine integers are words of their C++ width (\<^verbatim>\<open>int\<close> and \<^verbatim>\<open>double\<close> values that
  stay small are \<open>int\<close> and rounded rationals), and a cast is the word cast of that width.  A class is
  a record with the fields the modelled operations use, a method is a function from the object (and
  what it touches) to the object; pointers to entities are their identifiers, looked up in a map,
  so that aliasing is sharing of an identifier.  Bytes on the wire are byte lists, C strings are
  byte lists without their zero.  The build is the release build, in which \<^verbatim>\<open>ASSERT\<close> checks nothing
  and \<^verbatim>\<open>ASSERT_ERR\<close> returns its error, on a little-endian machine.  \<open>None\<close> stands for what the code
  does not define (reads outside of a buffer) and for loops that do not end; error codes are the
  left side of a sum.  Clocks, random numbers, the contents of files, rows of the database and the
  LZ4 functions are arguments.

  \<^bold>\<open>Ciphers\<close> (\<^verbatim>\<open>Security/Cryptography\<close>).  \<open>ICipher\<close> holds the contract of the cipher classes as the
  locale \<open>stream_cipher\<close>, and the feedback mode that two of them share; \<open>TqCipher\<close>, \<open>RC5\<close>,
  \<open>Blowfish\<close> and \<open>Cast5\<close> (with their tables) are the four classes.  Each is shown to be undone by
  its counterpart, block by block and over a stream that is cut differently on both sides.
  \<open>BigInt\<close> has the operations of the vendored big-number library that the key exchange needs, on
  integers, and the conversions of \<^verbatim>\<open>diffiehellman.cpp\<close>; \<open>Exchange\<close> is the exchange itself with its
  two messages, up to the Blowfish key that both ends derive.

  \<^bold>\<open>Connections\<close> (\<^verbatim>\<open>client.cpp\<close>, \<^verbatim>\<open>server.cpp\<close>, \<^verbatim>\<open>Network/Sockets\<close>).  \<open>Session\<close> opens connections,
  decrypts and cuts what arrives (\<open>frame_loop\<close>, a partial function because the loop of the code can
  run forever) and proves that a peer's messages come out as they were sent, also through the key
  exchange; the locale \<open>link\<close> states what this needs of a cipher and is interpreted on both.

  \<^bold>\<open>Data and small parts.\<close>  \<open>Prelude\<close> and \<open>Wire\<close> hold words, buffers and error codes, \<open>Double\<close> the
  rounding of doubles, \<open>BaseFunc\<close> the functions of \<^verbatim>\<open>basefunc.cpp\<close>, \<open>Timers\<close> the two timer classes,
  \<open>Item\<close> items with their prices, durability and classification, \<open>Tables\<close> the ordered maps of the
  standard library as sorted association lists.

  \<^bold>\<open>Players.\<close>  \<open>Player\<close> has the attributes (money, experience, life, skills) with their messages,
  \<open>PlayerItems\<close> the bag and the equipment, whose invariant is that an item has one owner and one
  place, \<open>PlayerTick\<close> the client clock check and the periodic work, \<open>PlayerWorker\<close> the worker that
  does it for everybody online.

  \<^bold>\<open>The world.\<close>  \<open>MapData\<close> parses the map files and packs their cells while nobody needs them;
  \<open>GameMap\<close> has entities, rooms and the sets of what each entity sees; \<open>Views\<close>, \<open>Rooms\<close> and
  \<open>Presence\<close> prove that these sets are symmetric, agree with the positions, with the rooms and with
  what the clients were sent; \<open>Movement\<close> has walking, jumping and the changing of maps, where the
  move that kicks a player back calls itself and may not end (\<open>partial_function\<close>); \<open>Generator\<close> the
  waves of monsters.  \<open>WorldRun\<close> puts logging in and out, movement and waves into one transition
  system (\<open>world_step\<close>), and the invariants hold in every state it reaches.  The locale \<open>kept\<close> lifts
  an invariant of the elementary operations to all handlers.

  \<open>World\<close> has the registries of players, NPCs and tasks (\<^verbatim>\<open>world.cpp\<close>), which agree on who is online.

  \<^bold>\<open>Messages.\<close>  \<open>Packets\<close> builds the messages of the server as bytes and \<open>Incoming\<close> reads those of the
  clients back from a received buffer; every message that is built is read as it was meant.
  \<open>PlayerMsgs\<close> handles the messages about the own player (shops, use and repair, allotment), \<open>Talk\<close> what
  he says: private words and the commands that begin with a slash, with the buffer that a long
  command overflows.

  \<^bold>\<open>The database.\<close>  \<open>Rows\<close> turns the rows of accounts, players, items, skills and magics into objects
  and back; \<open>Catalog\<close> holds the tables that are loaded once and looked up.  What a query answers is an
  argument.

  \<^bold>\<open>Logging in.\<close>  \<open>Login\<close> has the handlers of accounts, registration and connection over clients and
  players at addresses, since the code frees and shares these objects.  \<open>LoginRun\<close> and \<open>LoginSteps\<close> run
  them in any order and prove that no freed object is used when a connection logs in once, and what
  goes wrong otherwise.

  \<^bold>\<open>Scripts.\<close>  \<open>Tasks\<close> has the functions that the Lua scripts of NPCs and items can call
  (\<^verbatim>\<open>Script/\<close>), and the messages that start a script and answer its dialogs.  A script is the tree of
  the calls it makes, so that the theorems hold for every script that returns.

  \<^bold>\<open>The start of the server.\<close>  \<open>MapLoading\<close> reads the settings and loads the map data with several
  workers: under every schedule that lets them finish, the maps are those of a sequential load.
  \<open>Startup\<close> creates the maps, tasks, NPCs and generators from the database, in the stages of
  \<^verbatim>\<open>Server::exec\<close>, and runs the worker that spawns the first monsters, which comes to an end.

  \<^bold>\<open>The ground floor\<close> (\<^verbatim>\<open>Common/\<close>, \<^verbatim>\<open>IO/\<close>).  \<open>Streams\<close> has the binary reader over a C stream, which the reads of
  \<open>Wire\<close> abstract from; \<open>Logging\<close> the queue of the logger with the thread that writes it, where no
  message is lost as long as writes succeed; \<open>Globals\<close> the singletons under concurrent first use and their
  destruction at exit.

  \<^bold>\<open>Bounds and fuel.\<close>  No definition runs on fuel: loops of the code are structural, have a measure, or
  are partial functions whose definedness is itself a theorem (\<open>move_returns_iff\<close>,
  \<open>frame_loop_ends\<close>).

  \<^bold>\<open>Not modelled.\<close>  What has no state of its own or no effect that another part reads: the
  description of the operating system, \<^verbatim>\<open>main\<close>, the texts of \<^verbatim>\<open>strres.h\<close> (a system message carries the
  name of its text).  What is outside of the repository's own code: the Qt event
  loop with sockets beyond the registry of connections, the SQL engine and the text of its queries
  (\<^verbatim>\<open>Database::connect\<close>, \<^verbatim>\<open>getSqlCommand\<close>), the Lua machine, LZ4, the component arrays of the big-number
  library.  Mutexes: every critical section is one step, and only \<open>MapLoading\<close>, \<open>Logging\<close> and
  \<open>Globals\<close> interleave the steps of several threads.  The byte swaps of the messages on big-endian
  machines, which the build leaves out (the swaps themselves are in \<open>Prelude\<close> and \<open>Streams\<close>).  A Lua script that never returns has no tree, so nothing is said of it.
\<close>

end
